(* ===== verification/Prelude.thy ===== *)
theory Prelude
  imports Main "HOL-Library.Word"
begin

text \<open>
  Shared vocabulary of the development: the collections that carry the component proofs,
  the machine integers of the Go code, and generic facts on lists and options that several
  components use.

  Go's \<^verbatim>\<open>int\<close> is kept as an unbounded \<^typ>\<open>int\<close>; where the code narrows
  it (\<^verbatim>\<open>int32(x)\<close>, \<^verbatim>\<open>int16(x)\<close>) the wrap-around of two's complement is
  written out by \<open>int32_of\<close> and \<open>int16_of\<close>.
\<close>

named_theorems frame_simps \<open>equations that say which part of a state an operation leaves alone\<close>
named_theorems keeps_intros \<open>compositional rules for invariants kept by database programs\<close>

subsection \<open>Narrowing conversions\<close>

definition int32_of :: "int \<Rightarrow> int" where
  "int32_of i = signed_take_bit 31 i"

definition int16_of :: "int \<Rightarrow> int" where
  "int16_of i = signed_take_bit 15 i"

lemma int32_of_id: "- (2 ^ 31) \<le> i \<Longrightarrow> i < 2 ^ 31 \<Longrightarrow> int32_of i = i"
  unfolding int32_of_def by (rule signed_take_bit_int_eq_self) simp_all

lemma int16_of_id: "- (2 ^ 15) \<le> i \<Longrightarrow> i < 2 ^ 15 \<Longrightarrow> int16_of i = i"
  unfolding int16_of_def by (rule signed_take_bit_int_eq_self) simp_all

lemma int32_of_range: "- (2 ^ 31) \<le> int32_of i \<and> int32_of i < 2 ^ 31"
  unfolding int32_of_def
  using signed_take_bit_int_greater_eq_minus_exp [of 31 i] signed_take_bit_int_less_exp [of 31 i]
  by simp

subsection \<open>Lists as tables\<close>

text \<open>First row that satisfies a condition, as a \<^verbatim>\<open>:one\<close> query returns it.\<close>

lemma find_Some_iff_mem: "find P xs = Some x \<Longrightarrow> x \<in> set xs \<and> P x"
  by (metis find_Some_iff nth_mem)

lemma find_None_filter: "find P xs = None \<longleftrightarrow> filter P xs = []"
  by (auto simp: find_None_iff filter_empty_conv)

text \<open>\<open>update_where\<close> is the UPDATE of SQL: it maps the rows that satisfy the condition.\<close>

definition update_where :: "('a \<Rightarrow> bool) \<Rightarrow> ('a \<Rightarrow> 'a) \<Rightarrow> 'a list \<Rightarrow> 'a list" where
  "update_where P f xs = map (\<lambda>x. if P x then f x else x) xs"

definition delete_where :: "('a \<Rightarrow> bool) \<Rightarrow> 'a list \<Rightarrow> 'a list" where
  "delete_where P xs = filter (\<lambda>x. \<not> P x) xs"

lemma update_where_Nil [simp]: "update_where P f [] = []"
  by (simp add: update_where_def)

lemma update_where_Cons [simp]:
  "update_where P f (x # xs) = (if P x then f x else x) # update_where P f xs"
  by (simp add: update_where_def)

lemma length_update_where [simp]: "length (update_where P f xs) = length xs"
  by (simp add: update_where_def)

lemma map_update_where_key:
  assumes "\<And>x. P x \<Longrightarrow> k (f x) = k x"
  shows "map k (update_where P f xs) = map k xs"
  using assms by (simp add: update_where_def)

lemma set_update_where:
  "set (update_where P f xs) = f ` {x \<in> set xs. P x} \<union> {x \<in> set xs. \<not> P x}"
  by (auto simp: update_where_def)

lemma in_update_where_iff:
  "y \<in> set (update_where P f xs) \<longleftrightarrow> (\<exists>x \<in> set xs. y = (if P x then f x else x))"
  by (auto simp: update_where_def)

lemma set_delete_where [simp]: "set (delete_where P xs) = {x \<in> set xs. \<not> P x}"
  by (auto simp: delete_where_def)

lemma delete_where_Nil [simp]: "delete_where P [] = []"
  by (simp add: delete_where_def)

lemma delete_where_Cons [simp]:
  "delete_where P (x # xs) = (if P x then delete_where P xs else x # delete_where P xs)"
  by (simp add: delete_where_def)

lemma distinct_map_delete_where:
  "distinct (map k xs) \<Longrightarrow> distinct (map k (delete_where P xs))"
  by (induction xs) auto

lemma distinct_map_eqD:
  "distinct (map k xs) \<Longrightarrow> x \<in> set xs \<Longrightarrow> y \<in> set xs \<Longrightarrow> k x = k y \<Longrightarrow> x = y"
  by (auto simp: distinct_map inj_on_def)

text \<open>Replacing the row of a given key keeps another key unique if no other row has the new one.\<close>

lemma distinct_map_update_row:
  assumes "distinct (map k xs)" and "distinct (map ident xs)"
    and "k y \<notin> k ` {x \<in> set xs. ident x \<noteq> i}"
  shows "distinct (map k (update_where (\<lambda>x. ident x = i) (\<lambda>_. y) xs))"
  using assms
proof (induction xs)
  case (Cons a xs)
  show ?case
  proof (cases "ident a = i")
    case True
    with Cons.prems(2) have "\<forall>x \<in> set xs. ident x \<noteq> i" by (simp add: image_iff) metis
    then have "update_where (\<lambda>x. ident x = i) (\<lambda>_. y) xs = xs"
      by (induction xs) auto
    moreover have "k y \<notin> k ` set xs" using Cons.prems(3) \<open>\<forall>x \<in> set xs. ident x \<noteq> i\<close> by auto
    ultimately show ?thesis using True Cons.prems by auto
  next
    case False
    then have "k a \<noteq> k y" using Cons.prems(3) by (simp add: image_iff) metis
    moreover have "k a \<notin> k ` set xs" using Cons.prems(1) by auto
    ultimately have "k a \<notin> set (map k (update_where (\<lambda>x. ident x = i) (\<lambda>_. y) xs))"
      by (auto simp: update_where_def split: if_splits)
    then show ?thesis using False Cons by auto
  qed
qed simp

lemma filter_update_where_other:
  assumes "\<And>x. P x \<Longrightarrow> \<not> Q x" and "\<And>x. P x \<Longrightarrow> \<not> Q (f x)"
  shows "filter Q (update_where P f xs) = filter Q xs"
  using assms by (induction xs) auto

lemma filter_delete_where_other:
  assumes "\<And>x. P x \<Longrightarrow> \<not> Q x"
  shows "filter Q (delete_where P xs) = filter Q xs"
  using assms by (induction xs) auto

lemma find_unique: "distinct (map f xs) \<Longrightarrow> x \<in> set xs \<Longrightarrow> f x = k \<Longrightarrow> find (\<lambda>y. f y = k) xs = Some x"
  by (induction xs) auto

lemma distinct_concat_map:
  assumes "\<And>i. i < length xs \<Longrightarrow> distinct (f (xs ! i))"
    and "\<And>i j. i < length xs \<Longrightarrow> j < length xs \<Longrightarrow> i \<noteq> j \<Longrightarrow> set (f (xs ! i)) \<inter> set (f (xs ! j)) = {}"
  shows "distinct (concat (map f xs))"
  using assms
proof (induction xs)
  case (Cons x xs)
  have "distinct (concat (map f xs))"
    using Cons.prems(1) [of "Suc i" for i] Cons.prems(2) [of "Suc i" "Suc j" for i j] by (intro Cons.IH) auto
  moreover have "set (f x) \<inter> set (f y) = {}" if y: "y \<in> set xs" for y
  proof -
    obtain j where "j < length xs" "y = xs ! j" using y by (auto simp: in_set_conv_nth)
    then show ?thesis using Cons.prems(2) [of 0 "Suc j"] by simp
  qed
  ultimately show ?case using Cons.prems(1) [of 0] by auto
qed simp

end
