(* ===== verification/Go_Text.thy ===== *)
theory Go_Text
  imports Prelude
begin

text \<open>
  Go's strings and what the server uses of \<^verbatim>\<open>strings\<close>, \<^verbatim>\<open>unicode/utf8\<close>
  and \<^verbatim>\<open>strconv\<close>. A Go string is a sequence of bytes: here a \<^typ>\<open>string\<close>, one
  \<^typ>\<open>char\<close> per byte. \<open>runes\<close> is the conversion \<^verbatim>\<open>[]rune(s)\<close>, which reads UTF-8
  and yields U+FFFD for every byte that is not part of a valid encoding; \<open>of_runes\<close> is
  the conversion back. The lemmas show that the two are inverse on valid code points, that
  the ASCII operations act bytewise, and what \<open>ToLower\<close> and \<open>ReplaceAll\<close> return.
\<close>

type_synonym rune = nat

definition RuneError :: rune where
  "RuneError = 65533"

definition bytes_of :: "string \<Rightarrow> nat list" where
  "bytes_of s = map of_char s"

definition of_bytes :: "nat list \<Rightarrow> string" where
  "of_bytes bs = map char_of bs"

subsection \<open>UTF-8\<close>

definition is_cont :: "nat \<Rightarrow> bool" where
  "is_cont b \<longleftrightarrow> 128 \<le> b \<and> b < 192"

definition lo3 :: "nat \<Rightarrow> nat" where
  "lo3 b0 = (if b0 = 224 then 160 else 128)"

definition hi3 :: "nat \<Rightarrow> nat" where
  "hi3 b0 = (if b0 = 237 then 159 else 191)"

definition lo4 :: "nat \<Rightarrow> nat" where
  "lo4 b0 = (if b0 = 240 then 144 else 128)"

definition hi4 :: "nat \<Rightarrow> nat" where
  "hi4 b0 = (if b0 = 244 then 143 else 191)"

text \<open>
  One step of \<^verbatim>\<open>utf8.DecodeRune\<close>: the code point and the bytes left. The ranges of
  the second byte exclude overlong forms, surrogates and values above U+10FFFF.
\<close>

fun decode_rune :: "nat \<Rightarrow> nat list \<Rightarrow> rune \<times> nat list" where
  "decode_rune b0 bs =
     (if b0 < 128 then (b0, bs)
      else if 194 \<le> b0 \<and> b0 \<le> 223 then
        (case bs of
           b1 # r1 \<Rightarrow> if is_cont b1 then ((b0 - 192) * 64 + (b1 - 128), r1) else (RuneError, bs)
         | _ \<Rightarrow> (RuneError, bs))
      else if 224 \<le> b0 \<and> b0 \<le> 239 then
        (case bs of
           b1 # b2 # r2 \<Rightarrow>
             if lo3 b0 \<le> b1 \<and> b1 \<le> hi3 b0 \<and> is_cont b2
             then ((b0 - 224) * 4096 + (b1 - 128) * 64 + (b2 - 128), r2) else (RuneError, bs)
         | _ \<Rightarrow> (RuneError, bs))
      else if 240 \<le> b0 \<and> b0 \<le> 244 then
        (case bs of
           b1 # b2 # b3 # r3 \<Rightarrow>
             if lo4 b0 \<le> b1 \<and> b1 \<le> hi4 b0 \<and> is_cont b2 \<and> is_cont b3
             then ((b0 - 240) * 262144 + (b1 - 128) * 4096 + (b2 - 128) * 64 + (b3 - 128), r3)
             else (RuneError, bs)
         | _ \<Rightarrow> (RuneError, bs))
      else (RuneError, bs))"

lemma decode_rune_shorter: "length (snd (decode_rune b bs)) \<le> length bs"
  by (auto split: list.splits)

declare decode_rune.simps [simp del]

function utf8_decode :: "nat list \<Rightarrow> rune list" where
  "utf8_decode [] = []"
| "utf8_decode (b # bs) = fst (decode_rune b bs) # utf8_decode (snd (decode_rune b bs))"
  by pat_completeness auto
termination
  by (relation "measure length") (use decode_rune_shorter in \<open>auto simp: less_Suc_eq_le\<close>)

definition valid_rune :: "rune \<Rightarrow> bool" where
  "valid_rune r \<longleftrightarrow> r < 55296 \<or> (57344 \<le> r \<and> r \<le> 1114111)"

text \<open>\<^verbatim>\<open>utf8.AppendRune\<close>: surrogates and values out of range encode as U+FFFD.\<close>

definition encode_rune :: "rune \<Rightarrow> nat list" where
  "encode_rune r =
     (let r = (if valid_rune r then r else RuneError) in
      if r < 128 then [r]
      else if r < 2048 then [192 + r div 64, 128 + r mod 64]
      else if r < 65536 then [224 + r div 4096, 128 + r div 64 mod 64, 128 + r mod 64]
      else [240 + r div 262144, 128 + r div 4096 mod 64, 128 + r div 64 mod 64, 128 + r mod 64])"

definition utf8_encode :: "rune list \<Rightarrow> nat list" where
  "utf8_encode rs = concat (map encode_rune rs)"

definition runes :: "string \<Rightarrow> rune list" where
  "runes s = utf8_decode (bytes_of s)"

definition of_runes :: "rune list \<Rightarrow> string" where
  "of_runes rs = of_bytes (utf8_encode rs)"

lemma decode_ascii: "b < 128 \<Longrightarrow> decode_rune b bs = (b, bs)"
  by (simp add: decode_rune.simps)

lemma encode_ascii [simp]: "r < 128 \<Longrightarrow> encode_rune r = [r]"
  by (simp add: encode_rune_def valid_rune_def)

text \<open>Base-64 digits of a code point.\<close>

lemma digits64:
  fixes r :: nat
  shows "r div 64 * 64 + r mod 64 = r"
    and "r div 4096 * 4096 + r div 64 mod 64 * 64 + r mod 64 = r"
    and "r div 262144 * 262144 + r div 4096 mod 64 * 4096 + r div 64 mod 64 * 64 + r mod 64 = r"
proof -
  have a: "r div 64 * 64 + r mod 64 = r" by (rule div_mult_mod_eq)
  have b: "r div 4096 * 64 + r div 64 mod 64 = r div 64"
    using div_mult_mod_eq [of "r div 64" 64] by (simp add: div_mult2_eq [symmetric])
  have c: "r div 262144 * 64 + r div 4096 mod 64 = r div 4096"
    using div_mult_mod_eq [of "r div 4096" 64] by (simp add: div_mult2_eq [symmetric])
  show "r div 64 * 64 + r mod 64 = r" by (rule a)
  show two: "r div 4096 * 4096 + r div 64 mod 64 * 64 + r mod 64 = r"
    using a b by linarith
  show "r div 262144 * 262144 + r div 4096 mod 64 * 4096 + r div 64 mod 64 * 64 + r mod 64 = r"
    using a b c by linarith
qed

lemma decode_two:
  assumes "128 \<le> r" and "r < 2048"
  shows "decode_rune (192 + r div 64) ((128 + r mod 64) # bs) = (r, bs)"
proof -
  have "2 \<le> r div 64" and "r div 64 \<le> 31" using assms by auto
  moreover have "r div 64 * 64 + r mod 64 = r" by simp
  ultimately show ?thesis by (simp add: decode_rune.simps is_cont_def)
qed

lemma decode_three:
  assumes "2048 \<le> r" and "r < 65536" and "valid_rune r"
  shows "decode_rune (224 + r div 4096) ((128 + r div 64 mod 64) # (128 + r mod 64) # bs) = (r, bs)"
proof -
  let ?a = "r div 4096" and ?b = "r div 64 mod 64" and ?c = "r mod 64"
  have a: "?a \<le> 15" using assms by auto
  have eq: "?a * 4096 + ?b * 64 + ?c = r" by (rule digits64)
  have b: "?b < 64" and c: "?c < 64" by simp_all
  have "?a = 0 \<Longrightarrow> 32 \<le> ?b" using assms(1) eq c by linarith
  moreover have "?a = 13 \<Longrightarrow> ?b \<le> 31" using assms(3) eq b c unfolding valid_rune_def by linarith
  ultimately show ?thesis using a b eq by (auto simp: decode_rune.simps is_cont_def lo3_def hi3_def)
qed

lemma decode_four:
  assumes "65536 \<le> r" and "r \<le> 1114111"
  shows "decode_rune (240 + r div 262144)
    ((128 + r div 4096 mod 64) # (128 + r div 64 mod 64) # (128 + r mod 64) # bs) = (r, bs)"
proof -
  let ?a = "r div 262144" and ?b = "r div 4096 mod 64" and ?c = "r div 64 mod 64" and ?d = "r mod 64"
  have a: "?a \<le> 4" using assms by auto
  have eq: "?a * 262144 + ?b * 4096 + ?c * 64 + ?d = r" by (rule digits64)
  have b: "?b < 64" and c: "?c < 64" and d: "?d < 64" by simp_all
  have "?a = 0 \<Longrightarrow> 16 \<le> ?b" using assms(1) eq c d by linarith
  moreover have "?a = 4 \<Longrightarrow> ?b \<le> 15" using assms(2) eq by linarith
  moreover have "?b \<le> 63" using b by linarith
  ultimately show ?thesis using a eq by (auto simp: decode_rune.simps is_cont_def lo4_def hi4_def)
qed

lemma utf8_decode_encode_rune:
  assumes "valid_rune r"
  shows "utf8_decode (encode_rune r @ bs) = r # utf8_decode bs"
proof -
  consider "r < 128" | "128 \<le> r" "r < 2048" | "2048 \<le> r" "r < 65536" | "65536 \<le> r"
    by linarith
  then show ?thesis
  proof cases
    case 1
    then show ?thesis by (simp add: decode_ascii)
  next
    case 2
    then show ?thesis using assms by (simp add: encode_rune_def decode_two)
  next
    case 3
    then show ?thesis using assms by (simp add: encode_rune_def decode_three)
  next
    case 4
    then show ?thesis using assms
      by (simp add: encode_rune_def decode_four valid_rune_def)
  qed
qed

lemma utf8_decode_encode: "\<forall>r \<in> set rs. valid_rune r \<Longrightarrow> utf8_decode (utf8_encode rs) = rs"
  by (induction rs) (simp_all add: utf8_encode_def utf8_decode_encode_rune)

lemma encode_rune_byte: "b \<in> set (encode_rune r) \<Longrightarrow> b < 256"
proof -
  assume b: "b \<in> set (encode_rune r)"
  have "r div 262144 \<le> 4" if "r \<le> 1114111" using that by auto
  then show ?thesis using b
    by (auto simp: encode_rune_def Let_def valid_rune_def RuneError_def split: if_splits)
qed

lemma bytes_of_of_bytes: "\<forall>b \<in> set bs. b < 256 \<Longrightarrow> bytes_of (of_bytes bs) = bs"
  by (induction bs) (simp_all add: bytes_of_def of_bytes_def)

lemma of_bytes_bytes_of [simp]: "of_bytes (bytes_of s) = s"
  by (induction s) (simp_all add: bytes_of_def of_bytes_def)

lemma runes_of_runes:
  assumes "\<forall>r \<in> set rs. valid_rune r"
  shows "runes (of_runes rs) = rs"
proof -
  have "\<forall>b \<in> set (utf8_encode rs). b < 256"
    by (auto simp: utf8_encode_def dest: encode_rune_byte)
  then show ?thesis
    using assms by (simp add: runes_def of_runes_def bytes_of_of_bytes utf8_decode_encode)
qed

lemma RuneError_valid [simp]: "valid_rune RuneError"
  by (simp add: valid_rune_def RuneError_def)

lemma three_bytes_valid:
  assumes "224 \<le> b" "b \<le> 239" and that: "lo3 b \<le> b1" "b1 \<le> hi3 b" "is_cont b2"
  shows "valid_rune ((b - 224) * 4096 + (b1 - 128) * 64 + (b2 - 128))"
proof (cases "b = 237")
  case True
  have "b1 \<le> 159" using that True by (simp add: hi3_def)
  moreover have "b2 < 192" using that by (simp add: is_cont_def)
  moreover have "(b - 224) * 4096 = 53248" using True by simp
  ultimately show ?thesis unfolding valid_rune_def by linarith
next
  case False
  have "(b1 - 128) * 64 + (b2 - 128) < 4096"
    using that False unfolding is_cont_def hi3_def by (simp only: if_False) linarith
  moreover have "b - 224 \<le> 12 \<or> 14 \<le> b - 224 \<and> b - 224 \<le> 15" using assms(1,2) False by linarith
  ultimately show ?thesis unfolding valid_rune_def by linarith
qed

lemma four_bytes_valid:
  assumes "240 \<le> b" "b \<le> 244" and that: "lo4 b \<le> b1" "b1 \<le> hi4 b" "is_cont b2" "is_cont b3"
  shows "valid_rune ((b - 240) * 262144 + (b1 - 128) * 4096 + (b2 - 128) * 64 + (b3 - 128))"
proof -
  have low: "(b2 - 128) * 64 + (b3 - 128) < 4096"
    using that unfolding is_cont_def by linarith
  have "16 \<le> b1 - 128" if "b = 240"
    using that \<open>lo4 b \<le> b1\<close> by (simp add: lo4_def)
  moreover have "b1 - 128 \<le> 15" if "b = 244"
    using that \<open>b1 \<le> hi4 b\<close> by (simp add: hi4_def)
  moreover have "b1 \<le> 191"
    using \<open>b1 \<le> hi4 b\<close> by (simp add: hi4_def split: if_splits)
  ultimately show ?thesis using assms(1,2) low unfolding valid_rune_def by linarith
qed

lemma decode_rune_valid: "valid_rune (fst (decode_rune b bs))"
proof -
  consider "b < 128" | "194 \<le> b" "b \<le> 223" | "224 \<le> b" "b \<le> 239" | "240 \<le> b" "b \<le> 244"
    | "\<not> b < 128" "\<not> (194 \<le> b \<and> b \<le> 223)" "\<not> (224 \<le> b \<and> b \<le> 239)" "\<not> (240 \<le> b \<and> b \<le> 244)"
    by linarith
  then show ?thesis
  proof cases
    case 1
    then show ?thesis by (simp add: decode_ascii valid_rune_def)
  next
    case 2
    have "valid_rune ((b - 192) * 64 + (b1 - 128))" if "is_cont b1" for b1
      using 2 that unfolding valid_rune_def is_cont_def by linarith
    with 2 show ?thesis by (simp add: decode_rune.simps split: list.split)
  next
    case 3
    with three_bytes_valid [OF this] show ?thesis by (simp add: decode_rune.simps split: list.split)
  next
    case 4
    with four_bytes_valid [OF this] show ?thesis by (simp add: decode_rune.simps split: list.split)
  next
    case 5
    then show ?thesis by (auto simp: decode_rune.simps)
  qed
qed

lemma utf8_decode_valid: "\<forall>r \<in> set (utf8_decode bs). valid_rune r"
  by (induction bs rule: utf8_decode.induct) (simp_all add: decode_rune_valid)

lemma runes_valid: "r \<in> set (runes s) \<Longrightarrow> valid_rune r"
  using utf8_decode_valid by (auto simp: runes_def)

subsection \<open>ASCII strings\<close>

definition is_ascii :: "string \<Rightarrow> bool" where
  "is_ascii s \<longleftrightarrow> (\<forall>c \<in> set s. (of_char c :: nat) < 128)"

lemma runes_ascii: "is_ascii s \<Longrightarrow> runes s = bytes_of s"
  by (induction s) (simp_all add: is_ascii_def runes_def bytes_of_def decode_ascii)

lemma of_runes_ascii: "\<forall>r \<in> set rs. r < 128 \<Longrightarrow> of_runes rs = of_bytes rs"
  by (induction rs) (simp_all add: of_runes_def of_bytes_def utf8_encode_def)

lemma runes_Nil [simp]: "runes [] = []"
  by (simp add: runes_def bytes_of_def)

lemma runes_eq_Nil_iff [simp]: "runes s = [] \<longleftrightarrow> s = []"
  by (cases s) (simp_all add: runes_def bytes_of_def)

subsection \<open>Case, white space, replacement\<close>

text \<open>
  \<^verbatim>\<open>unicode.ToLower\<close> on the ASCII range; the table for code points from 128 on is
  Unicode data and is the parameter \<open>uni\<close>.
\<close>

definition lower_rune :: "(rune \<Rightarrow> rune) \<Rightarrow> rune \<Rightarrow> rune" where
  "lower_rune uni r = (if r < 128 then (if 65 \<le> r \<and> r \<le> 90 then r + 32 else r) else uni r)"

definition ToLower :: "(rune \<Rightarrow> rune) \<Rightarrow> string \<Rightarrow> string" where
  "ToLower uni s = of_runes (map (lower_rune uni) (runes s))"

text \<open>\<^verbatim>\<open>unicode.IsSpace\<close> (the property White_Space).\<close>

definition IsSpace :: "rune \<Rightarrow> bool" where
  "IsSpace r \<longleftrightarrow> r \<in> {9, 10, 11, 12, 13, 32, 133, 160, 5760, 8232, 8233, 8239, 8287, 12288}
     \<or> (8192 \<le> r \<and> r \<le> 8202)"

text \<open>\<^verbatim>\<open>strings.TrimSpace(s) == ""\<close>: nothing but white space.\<close>

definition TrimSpace_empty :: "string \<Rightarrow> bool" where
  "TrimSpace_empty s \<longleftrightarrow> list_all IsSpace (runes s)"

text \<open>\<^verbatim>\<open>strings.ReplaceAll(s, old, new)\<close> for an \<open>old\<close> of one ASCII byte.\<close>

definition ReplaceAll1 :: "string \<Rightarrow> char \<Rightarrow> string \<Rightarrow> string" where
  "ReplaceAll1 s old new = concat (map (\<lambda>c. if c = old then new else [c]) s)"

fun has_prefix :: "string \<Rightarrow> string \<Rightarrow> bool" where
  "has_prefix [] s = True"
| "has_prefix (p # ps) [] = False"
| "has_prefix (p # ps) (c # cs) = (p = c \<and> has_prefix ps cs)"

text \<open>\<^verbatim>\<open>strings.Contains(s, sub)\<close>\<close>

fun contains :: "string \<Rightarrow> string \<Rightarrow> bool" where
  "contains [] sub = (sub = [])"
| "contains (c # cs) sub = (has_prefix sub (c # cs) \<or> contains cs sub)"

lemma has_prefix_iff: "has_prefix p s \<longleftrightarrow> (\<exists>t. s = p @ t)"
  by (induction p s rule: has_prefix.induct) auto

lemma contains_iff: "contains s sub \<longleftrightarrow> (\<exists>a b. s = a @ sub @ b)"
proof (induction s)
  case (Cons c cs)
  show ?case
  proof
    assume "contains (c # cs) sub"
    then show "\<exists>a b. c # cs = a @ sub @ b"
    proof (cases "has_prefix sub (c # cs)")
      case True
      then obtain t where "c # cs = sub @ t" by (auto simp: has_prefix_iff)
      then have "c # cs = [] @ sub @ t" by simp
      then show ?thesis by blast
    next
      case False
      then have "contains cs sub" using \<open>contains (c # cs) sub\<close> by simp
      then obtain a b where "cs = a @ sub @ b" using Cons.IH by auto
      then have "c # cs = (c # a) @ sub @ b" by simp
      then show ?thesis by blast
    qed
  next
    assume "\<exists>a b. c # cs = a @ sub @ b"
    then obtain a b where ab: "c # cs = a @ sub @ b" by auto
    show "contains (c # cs) sub"
    proof (cases a)
      case Nil
      with ab have "has_prefix sub (c # cs)" by (auto simp: has_prefix_iff)
      then show ?thesis by simp
    next
      case (Cons a' as)
      with ab have "cs = as @ sub @ b" by simp
      then have "contains cs sub" using Cons.IH by blast
      then show ?thesis by simp
    qed
  qed
qed auto

subsection \<open>Decimal numbers\<close>

text \<open>\<^verbatim>\<open>%d\<close> of a natural number, and \<^verbatim>\<open>strconv.Itoa\<close>.\<close>

definition digit_char :: "nat \<Rightarrow> char" where
  "digit_char d = char_of (48 + d)"

fun nat_str :: "nat \<Rightarrow> string" where
  "nat_str n = (if n < 10 then [digit_char n] else nat_str (n div 10) @ [digit_char (n mod 10)])"

declare nat_str.simps [simp del]

definition Itoa :: "int \<Rightarrow> string" where
  "Itoa i = (if i < 0 then ''-'' @ nat_str (nat (- i)) else nat_str (nat i))"

text \<open>A number padded with zeros on the left to a width, as \<^verbatim>\<open>%02d\<close>.\<close>

definition pad_num :: "nat \<Rightarrow> nat \<Rightarrow> string" where
  "pad_num w n = (let s = nat_str n in replicate (w - length s) (CHR ''0'') @ s)"

definition LF :: string where "LF = [CHR 0x0A]"
definition CRLF :: string where "CRLF = [CHR 0x0D, CHR 0x0A]"

end
