(* ===== verification/Go_Time.thy ===== *)
theory Go_Time
  imports Go_Text
begin

text \<open>
  What the server uses of Go's \<^verbatim>\<open>time\<close> package. An instant (\<^verbatim>\<open>time.Time\<close>) is the
  number of nanoseconds since 1970-01-01T00:00:00Z; the zero \<^verbatim>\<open>time.Time\<close> is the first
  day of year 1. The proleptic Gregorian calendar is \<open>civil_to_days\<close> and
  \<open>days_to_civil\<close>; they are proved inverse to each other. A \<^verbatim>\<open>*time.Location\<close> is its
  lookup function: the offset in force at a Unix second and the interval on which it is in
  force. \<open>go_Date\<close> is \<^verbatim>\<open>time.Date\<close> with its normalisation of day and month and its two
  step search for the offset; \<open>AddDate\<close> and the formats follow the library.
\<close>

type_synonym instant = int
type_synonym location = "int \<Rightarrow> int \<times> int \<times> int"

definition second :: int where "second = 1000000000"
definition minute :: int where "minute = 60 * second"
definition hour :: int where "hour = 3600 * second"
definition day_secs :: int where "day_secs = 86400"

definition zero_time :: instant where
  "zero_time = - 62135596800000000000"

subsection \<open>The Gregorian calendar\<close>

definition is_leap :: "int \<Rightarrow> bool" where
  "is_leap y \<longleftrightarrow> y mod 4 = 0 \<and> (y mod 100 \<noteq> 0 \<or> y mod 400 = 0)"

definition days_before_year :: "int \<Rightarrow> int" where
  "days_before_year y = 365 * (y - 1) + (y - 1) div 4 - (y - 1) div 100 + (y - 1) div 400"

definition days_before_month :: "bool \<Rightarrow> int \<Rightarrow> int" where
  "days_before_month lp m =
     (if m \<le> 1 then 0 else if m = 2 then 31 else
      (if lp then 1 else 0) +
      (if m = 3 then 59 else if m = 4 then 90 else if m = 5 then 120 else if m = 6 then 151
       else if m = 7 then 181 else if m = 8 then 212 else if m = 9 then 243 else if m = 10 then 273
       else if m = 11 then 304 else if m = 12 then 334 else 365))"

definition days_in_month :: "int \<Rightarrow> int \<Rightarrow> int" where
  "days_in_month y m = days_before_month (is_leap y) (m + 1) - days_before_month (is_leap y) m"

definition valid_date :: "int \<Rightarrow> int \<Rightarrow> int \<Rightarrow> bool" where
  "valid_date y m d \<longleftrightarrow> 1 \<le> m \<and> m \<le> 12 \<and> 1 \<le> d \<and> d \<le> days_in_month y m"

definition civil_to_days :: "int \<Rightarrow> int \<Rightarrow> int \<Rightarrow> int" where
  "civil_to_days y m d = days_before_year y + days_before_month (is_leap y) m + (d - 1) - 719162"

text \<open>Year and day of the year of a day counted from 0001-01-01, by 400, 100, 4 and 1 years.\<close>

definition year_of_days :: "int \<Rightarrow> int \<times> int" where
  "year_of_days n =
     (let n400 = n div 146097; r = n mod 146097;
          n100 = min 3 (r div 36524); r100 = r - 36524 * n100;
          n4 = r100 div 1461; r4 = r100 mod 1461;
          n1 = min 3 (r4 div 365)
      in (400 * n400 + 100 * n100 + 4 * n4 + n1 + 1, r4 - 365 * n1))"

definition month_of_yday :: "bool \<Rightarrow> int \<Rightarrow> int" where
  "month_of_yday lp yd =
     (if yd < days_before_month lp 2 then 1 else if yd < days_before_month lp 3 then 2
      else if yd < days_before_month lp 4 then 3 else if yd < days_before_month lp 5 then 4
      else if yd < days_before_month lp 6 then 5 else if yd < days_before_month lp 7 then 6
      else if yd < days_before_month lp 8 then 7 else if yd < days_before_month lp 9 then 8
      else if yd < days_before_month lp 10 then 9 else if yd < days_before_month lp 11 then 10
      else if yd < days_before_month lp 12 then 11 else 12)"

definition days_to_civil :: "int \<Rightarrow> int \<times> int \<times> int" where
  "days_to_civil n =
     (let (y, yd) = year_of_days (n + 719162); m = month_of_yday (is_leap y) yd
      in (y, m, yd - days_before_month (is_leap y) m + 1))"

lemma year_digits:
  fixes y :: int
  obtains a b c e where "y = 400 * a + 100 * b + 4 * c + e + 1"
    "0 \<le> b" "b \<le> 3" "0 \<le> c" "c \<le> 24" "0 \<le> e" "e \<le> 3"
proof -
  let ?z = "y - 1"
  let ?a = "?z div 400" and ?b = "?z mod 400 div 100" and ?c = "?z mod 100 div 4" and ?e = "?z mod 4"
  have y: "y = 400 * ?a + 100 * ?b + 4 * ?c + ?e + 1"
  proof -
    have "?z mod 400 mod 100 = ?z mod 100" by (rule mod_mod_cancel) simp
    moreover have "?z mod 100 mod 4 = ?z mod 4" by (rule mod_mod_cancel) simp
    ultimately show ?thesis
      using mult_div_mod_eq [of 400 ?z] mult_div_mod_eq [of 100 "?z mod 400"]
        mult_div_mod_eq [of 4 "?z mod 100"] by linarith
  qed
  have r: "0 \<le> ?b" "?b \<le> 3" "0 \<le> ?c" "?c \<le> 24" "0 \<le> ?e" "?e \<le> 3"
    by (simp_all add: pos_imp_zdiv_nonneg_iff)
  show ?thesis by (rule that [OF y r])
qed

lemma days_before_year_digits:
  assumes "0 \<le> b" "b \<le> 3" "0 \<le> c" "c \<le> 24" "0 \<le> e" "e \<le> 3"
  shows "days_before_year (400 * a + 100 * b + 4 * c + e + 1) = 146097 * a + 36524 * b + 1461 * c + 365 * e"
proof -
  let ?z = "400 * a + 100 * b + 4 * c + e"
  have "?z div 4 = 100 * a + 25 * b + c" using assms by (intro int_div_pos_eq [where r = e]) auto
  moreover have "?z div 100 = 4 * a + b"
    using assms by (intro int_div_pos_eq [where r = "4 * c + e"]) auto
  moreover have "?z div 400 = a"
    using assms by (intro int_div_pos_eq [where r = "100 * b + 4 * c + e"]) auto
  ultimately show ?thesis by (simp add: days_before_year_def)
qed

lemma is_leap_digits:
  assumes "0 \<le> b" "b \<le> 3" "0 \<le> c" "c \<le> 24" "0 \<le> e" "e \<le> 3"
  shows "is_leap (400 * a + 100 * b + 4 * c + e + 1) \<longleftrightarrow> e = 3 \<and> (c \<noteq> 24 \<or> b = 3)"
proof -
  let ?y = "400 * a + 100 * b + 4 * c + e + 1"
  have "?y mod 4 = 0 \<longleftrightarrow> e = 3"
  proof (cases "e = 3")
    case True
    then have "?y = 4 * (100 * a + 25 * b + c + 1)" by simp
    with True show ?thesis by (simp only: mod_mult_self1_is_0 simp_thms)
  next
    case False
    have "?y mod 4 = e + 1"
      by (rule int_mod_pos_eq [where q = "100 * a + 25 * b + c"]) (use False assms in auto)
    with False show ?thesis using assms by simp
  qed
  moreover have "?y mod 100 = 0 \<longleftrightarrow> c = 24" if "e = 3"
  proof (cases "c = 24")
    case True
    have "?y = 100 * (4 * a + b + 1)" using True that by simp
    with True show ?thesis by (simp only: mod_mult_self1_is_0 simp_thms)
  next
    case False
    have "?y mod 100 = 4 * c + 4"
      by (rule int_mod_pos_eq [where q = "4 * a + b"]) (use False that assms in auto)
    with False show ?thesis using assms by simp
  qed
  moreover have "?y mod 400 = 0 \<longleftrightarrow> b = 3" if "e = 3" "c = 24"
  proof (cases "b = 3")
    case True
    have "?y = 400 * (a + 1)" using True that by simp
    with True show ?thesis by (simp only: mod_mult_self1_is_0 simp_thms)
  next
    case False
    have "?y mod 400 = 100 * b + 100"
      by (rule int_mod_pos_eq [where q = a]) (use False that assms in auto)
    with False show ?thesis using assms by simp
  qed
  ultimately show ?thesis unfolding is_leap_def by metis
qed

lemma year_of_days_digits:
  assumes "0 \<le> b" "b \<le> 3" "0 \<le> c" "c \<le> 24" "0 \<le> e" "e \<le> 3"
    and "0 \<le> yd" and "yd \<le> 364 \<or> yd = 365 \<and> e = 3 \<and> (c \<noteq> 24 \<or> b = 3)"
  shows "year_of_days (146097 * a + 36524 * b + 1461 * c + 365 * e + yd)
         = (400 * a + 100 * b + 4 * c + e + 1, yd)"
proof -
  let ?r = "36524 * b + 1461 * c + 365 * e + yd"
  let ?n = "146097 * a + ?r"
  have r: "0 \<le> ?r" "?r < 146097" using assms by linarith+
  have n400: "?n div 146097 = a" by (rule int_div_pos_eq [where r = ?r]) (use r in auto)
  have nr: "?n mod 146097 = ?r" by (rule int_mod_pos_eq [where q = a]) (use r in auto)
  have n100: "min 3 (?r div 36524) = b"
  proof (cases "1461 * c + 365 * e + yd < 36524")
    case True
    then have "?r div 36524 = b"
      using assms by (intro int_div_pos_eq [where r = "1461 * c + 365 * e + yd"]) auto
    then show ?thesis using assms by simp
  next
    case False
    then have "1461 * c + 365 * e + yd = 36524" and "b = 3" using assms by linarith+
    then show ?thesis by simp
  qed
  have n4: "(1461 * c + 365 * e + yd) div 1461 = c"
    using assms by (intro int_div_pos_eq [where r = "365 * e + yd"]) auto
  have nr4: "(1461 * c + 365 * e + yd) mod 1461 = 365 * e + yd"
    using assms by (intro int_mod_pos_eq [where q = c]) auto
  have n1: "min 3 ((365 * e + yd) div 365) = e"
  proof (cases "yd < 365")
    case True
    then have "(365 * e + yd) div 365 = e" using assms by (intro int_div_pos_eq [where r = yd]) auto
    then show ?thesis using assms by simp
  next
    case False
    then have "yd = 365" and "e = 3" using assms by linarith+
    then show ?thesis by simp
  qed
  have sub: "?r - 36524 * b = 1461 * c + 365 * e + yd" by simp
  have "146097 * a + 36524 * b + 1461 * c + 365 * e + yd = ?n" by simp
  then show ?thesis
    unfolding year_of_days_def by (simp only: n400 nr n100 sub n4 nr4 n1 Let_def) simp
qed

lemma year_of_days_start:
  assumes "0 \<le> yd" and "yd < (if is_leap y then 366 else 365)"
  shows "year_of_days (days_before_year y + yd) = (y, yd)"
proof -
  obtain a b c e where y: "y = 400 * a + 100 * b + 4 * c + e + 1"
    and r: "0 \<le> b" "b \<le> 3" "0 \<le> c" "c \<le> 24" "0 \<le> e" "e \<le> 3"
    by (rule year_digits)
  have "yd \<le> 364 \<or> yd = 365 \<and> e = 3 \<and> (c \<noteq> 24 \<or> b = 3)"
    using assms(2) is_leap_digits [OF r, of a] unfolding y by (auto split: if_splits)
  from year_of_days_digits [OF r assms(1) this, of a] show ?thesis
    unfolding y days_before_year_digits [OF r] .
qed

lemma month_range:
  assumes "1 \<le> (m::int)" and "m \<le> 12"
  shows "m = 1 \<or> m = 2 \<or> m = 3 \<or> m = 4 \<or> m = 5 \<or> m = 6 \<or> m = 7 \<or> m = 8 \<or> m = 9 \<or> m = 10 \<or> m = 11 \<or> m = 12"
  using assms by presburger

lemma month_of_yday_date:
  assumes "valid_date y m d"
  shows "month_of_yday (is_leap y) (days_before_month (is_leap y) m + (d - 1)) = m"
    and "0 \<le> days_before_month (is_leap y) m + (d - 1)"
    and "days_before_month (is_leap y) m + (d - 1) < (if is_leap y then 366 else 365)"
proof -
  have m: "1 \<le> m" "m \<le> 12" and d: "1 \<le> d" "d \<le> days_in_month y m"
    using assms by (auto simp: valid_date_def)
  show "month_of_yday (is_leap y) (days_before_month (is_leap y) m + (d - 1)) = m"
    using month_range [OF m] d
    by (elim disjE) (simp_all add: month_of_yday_def days_before_month_def days_in_month_def split: if_splits)
  show "0 \<le> days_before_month (is_leap y) m + (d - 1)"
    using d by (simp add: days_before_month_def)
  show "days_before_month (is_leap y) m + (d - 1) < (if is_leap y then 366 else 365)"
    using month_range [OF m] d
    by (elim disjE) (simp_all add: days_before_month_def days_in_month_def split: if_splits)
qed

lemma days_to_civil_to_days:
  assumes "valid_date y m d"
  shows "days_to_civil (civil_to_days y m d) = (y, m, d)"
proof -
  let ?yd = "days_before_month (is_leap y) m + (d - 1)"
  have n: "civil_to_days y m d + 719162 = days_before_year y + ?yd" by (simp add: civil_to_days_def)
  show ?thesis
    unfolding days_to_civil_def n year_of_days_start [OF month_of_yday_date(2,3) [OF assms]]
    by (simp add: month_of_yday_date(1) [OF assms] Let_def)
qed

text \<open>One digit of the decomposition: a quotient capped at 3 leaves a remainder of at most the base.\<close>

lemma capped_digit:
  fixes x w :: int
  assumes "0 \<le> x" and "x < 4 * w + k" and "0 < w" and "k \<le> w"
  obtains q r where "x = w * q + r" "0 \<le> q" "q \<le> 3" "0 \<le> r" "r < w \<or> q = 3 \<and> r < w + k"
proof (cases "x < 4 * w")
  case True
  show ?thesis
  proof (rule that [of "x div w" "x mod w"])
    show "x = w * (x div w) + x mod w" by simp
    show "0 \<le> x div w" using assms by (simp add: pos_imp_zdiv_nonneg_iff)
    show "x div w \<le> 3"
    proof (rule ccontr)
      assume "\<not> x div w \<le> 3"
      then have "w * 4 \<le> w * (x div w)" using assms by (intro mult_left_mono) auto
      also have "\<dots> \<le> x" using assms by (simp add: minus_mod_eq_mult_div [symmetric])
      finally show False using True by simp
    qed
    show "0 \<le> x mod w" using assms by simp
    show "x mod w < w \<or> x div w = 3 \<and> x mod w < w + k" using assms by simp
  qed
next
  case False
  then show ?thesis using assms by (intro that [of 3 "x - w * 3"]) auto
qed

lemma days_digits:
  fixes n :: int
  obtains a b c e yd where "n = 146097 * a + 36524 * b + 1461 * c + 365 * e + yd"
    "0 \<le> b" "b \<le> 3" "0 \<le> c" "c \<le> 24" "0 \<le> e" "e \<le> 3" "0 \<le> yd"
    "yd \<le> 364 \<or> yd = 365 \<and> e = 3 \<and> (c \<noteq> 24 \<or> b = 3)"
proof -
  define a where "a = n div 146097"
  define r where "r = n mod 146097"
  have n: "n = 146097 * a + r" unfolding a_def r_def by simp
  have "0 \<le> r" "r < 4 * 36524 + 1" unfolding r_def by simp_all
  then obtain b s where b: "r = 36524 * b + s" "0 \<le> b" "b \<le> 3" "0 \<le> s"
    and s: "s < 36524 \<or> b = 3 \<and> s < 36524 + 1"
    by (rule capped_digit) auto
  define c where "c = s div 1461"
  define t where "t = s mod 1461"
  have st: "s = 1461 * c + t" unfolding c_def t_def by simp
  have t: "0 \<le> t" "t < 4 * 365 + 1" unfolding t_def by simp_all
  have c: "0 \<le> c" "c \<le> 24" using s st t b(4) by linarith+
  from t obtain e yd where e: "t = 365 * e + yd" "0 \<le> e" "e \<le> 3" "0 \<le> yd"
    and yd: "yd < 365 \<or> e = 3 \<and> yd < 365 + 1"
    by (rule capped_digit) auto
  have "c \<noteq> 24 \<or> b = 3" if "yd = 365" using that s st e yd by linarith
  with yd have "yd \<le> 364 \<or> yd = 365 \<and> e = 3 \<and> (c \<noteq> 24 \<or> b = 3)" by auto
  moreover have "n = 146097 * a + 36524 * b + 1461 * c + 365 * e + yd"
    using n b(1) st e(1) by linarith
  ultimately show ?thesis using b c e by (intro that [of a b c e yd])
qed

lemma year_of_days_inverse:
  assumes "year_of_days n = (y, yd)"
  shows "n = days_before_year y + yd \<and> 0 \<le> yd \<and> yd < (if is_leap y then 366 else 365)"
proof -
  obtain a b c e d where n: "n = 146097 * a + 36524 * b + 1461 * c + 365 * e + d"
    and r: "0 \<le> b" "b \<le> 3" "0 \<le> c" "c \<le> 24" "0 \<le> e" "e \<le> 3"
    and d: "0 \<le> d" "d \<le> 364 \<or> d = 365 \<and> e = 3 \<and> (c \<noteq> 24 \<or> b = 3)"
    by (rule days_digits)
  have "y = 400 * a + 100 * b + 4 * c + e + 1" and "yd = d"
    using year_of_days_digits [OF r d, of a] assms unfolding n by simp_all
  then show ?thesis
    using days_before_year_digits [OF r, of a] is_leap_digits [OF r, of a] d n by auto
qed

lemma yday_month:
  assumes "0 \<le> yd" and "yd < (if lp then 366 else 365)"
  shows "1 \<le> month_of_yday lp yd \<and> month_of_yday lp yd \<le> 12
    \<and> days_before_month lp (month_of_yday lp yd) \<le> yd
    \<and> yd < days_before_month lp (month_of_yday lp yd + 1)"
  using assms unfolding month_of_yday_def
  by (simp add: days_before_month_def split: if_splits)

lemma civil_to_days_to_civil:
  assumes "days_to_civil n = (y, m, d)"
  shows "valid_date y m d \<and> civil_to_days y m d = n"
proof -
  obtain y' yd where yd: "year_of_days (n + 719162) = (y', yd)" by fastforce
  have y: "y = y'" and m: "m = month_of_yday (is_leap y') yd"
    and d: "d = yd - days_before_month (is_leap y') m + 1"
    using assms unfolding days_to_civil_def yd by (auto simp: Let_def)
  have inv: "n + 719162 = days_before_year y + yd" "0 \<le> yd" "yd < (if is_leap y then 366 else 365)"
    using year_of_days_inverse [OF yd] y by auto
  show ?thesis
    using inv yday_month [OF inv(2,3)] m d y
    by (simp add: valid_date_def days_in_month_def civil_to_days_def)
qed

subsection \<open>Clock and zones\<close>

definition unix :: "instant \<Rightarrow> int" where
  "unix t = t div second"

definition nsec_of :: "instant \<Rightarrow> int" where
  "nsec_of t = t mod second"

definition UTC :: location where
  "UTC = (\<lambda>_. (0, - (2 ^ 63), 2 ^ 63 - 1))"

definition zone_offset :: "location \<Rightarrow> int \<Rightarrow> int" where
  "zone_offset loc s = fst (loc s)"

text \<open>Local civil seconds of an instant: what \<^verbatim>\<open>t.In(loc)\<close> shows.\<close>

definition local_secs :: "location \<Rightarrow> instant \<Rightarrow> int" where
  "local_secs loc t = unix t + zone_offset loc (unix t)"

definition date_in :: "location \<Rightarrow> instant \<Rightarrow> int \<times> int \<times> int" where
  "date_in loc t = days_to_civil (local_secs loc t div day_secs)"

definition clock_in :: "location \<Rightarrow> instant \<Rightarrow> int" where
  "clock_in loc t = local_secs loc t mod day_secs"

text \<open>
  The Unix second of local civil seconds \<open>l\<close>, as \<^verbatim>\<open>time.Date\<close> finds it: look the
  offset up as if \<open>l\<close> were UTC; keep it when the second it gives lies in the interval of that
  offset, else look up again at that second.
\<close>

definition resolve_local :: "location \<Rightarrow> int \<Rightarrow> int" where
  "resolve_local loc l =
     (case loc l of (off, start, fin) \<Rightarrow>
        if off \<noteq> 0 then
          (let u = l - off in
           if u < start \<or> fin \<le> u then l - zone_offset loc u else u)
        else l)"

text \<open>
  \<^verbatim>\<open>time.Date(y, m, d, 0, 0, sec, nsec, loc)\<close>: months outside 1 to 12 carry into the
  year, days outside the month carry into the next or the previous months. The hour, the minute
  and the second arrive as one count of seconds.
\<close>

definition go_Date :: "int \<Rightarrow> int \<Rightarrow> int \<Rightarrow> int \<Rightarrow> int \<Rightarrow> location \<Rightarrow> instant" where
  "go_Date y m d secs ns loc =
     (let y' = y + (m - 1) div 12; m' = (m - 1) mod 12 + 1;
          days = civil_to_days y' m' 1 + (d - 1)
      in resolve_local loc (days * day_secs + secs) * second + ns)"

definition AddDate :: "location \<Rightarrow> instant \<Rightarrow> int \<Rightarrow> int \<Rightarrow> int \<Rightarrow> instant" where
  "AddDate loc t ys ms ds =
     (case date_in loc t of (y, m, d) \<Rightarrow>
        go_Date (y + ys) (m + ms) (d + ds) (clock_in loc t) (nsec_of t) loc)"

definition Weekday :: "location \<Rightarrow> instant \<Rightarrow> int" where
  "Weekday loc t = (local_secs loc t div day_secs + 4) mod 7"

definition max_duration :: int where "max_duration = 2 ^ 63 - 1"
definition min_duration :: int where "min_duration = - (2 ^ 63)"

text \<open>\<^verbatim>\<open>t.Sub(u)\<close> saturates at the ends of a 64-bit count of nanoseconds.\<close>

definition time_Sub :: "instant \<Rightarrow> instant \<Rightarrow> int" where
  "time_Sub t u = max min_duration (min max_duration (t - u))"

subsection \<open>Formats\<close>

definition month_abbr :: "int \<Rightarrow> string" where
  "month_abbr m = [''Jan'', ''Feb'', ''Mar'', ''Apr'', ''May'', ''Jun'', ''Jul'', ''Aug'', ''Sep'',
     ''Oct'', ''Nov'', ''Dec''] ! nat (m - 1)"

text \<open>\<^verbatim>\<open>t.UTC().Format("20060102")\<close>; a year has at least four digits, as the library pads it.\<close>

definition year_str :: "int \<Rightarrow> string" where
  "year_str y = (if y < 0 then ''-'' @ pad_num 4 (nat (- y)) else pad_num 4 (nat y))"

definition format_date :: "instant \<Rightarrow> string" where
  "format_date t = (case date_in UTC t of (y, m, d) \<Rightarrow>
     year_str y @ pad_num 2 (nat m) @ pad_num 2 (nat d))"

text \<open>\<^verbatim>\<open>t.UTC().Format("20060102T150405Z")\<close>\<close>

definition format_datetime :: "instant \<Rightarrow> string" where
  "format_datetime t = (let s = clock_in UTC t in
     format_date t @ ''T'' @ pad_num 2 (nat (s div 3600)) @ pad_num 2 (nat (s div 60 mod 60))
       @ pad_num 2 (nat (s mod 60)) @ ''Z'')"

text \<open>\<^verbatim>\<open>t.Format("02 Jan 2006")\<close> of a time in a location.\<close>

definition format_dmy :: "location \<Rightarrow> instant \<Rightarrow> string" where
  "format_dmy loc t = (case date_in loc t of (y, m, d) \<Rightarrow>
     pad_num 2 (nat d) @ '' '' @ month_abbr m @ '' '' @ year_str y)"

subsection \<open>Facts on dates in a zone\<close>

lemma zone_offset_UTC [simp]: "zone_offset UTC s = 0"
  by (simp add: zone_offset_def UTC_def)

lemma local_secs_UTC [simp]: "local_secs UTC t = unix t"
  by (simp add: local_secs_def)

lemma resolve_local_UTC [simp]: "resolve_local UTC l = l"
  by (simp add: resolve_local_def UTC_def)

lemma unix_join [simp]: "0 \<le> ns \<Longrightarrow> ns < second \<Longrightarrow> unix (s * second + ns) = s"
  by (simp add: unix_def second_def)

lemma unix_secs [simp]: "unix (s * second) = s"
  using unix_join [of 0 s] by (simp add: second_def)

lemma nsec_of_range: "0 \<le> nsec_of t" "nsec_of t < second"
  by (simp_all add: nsec_of_def second_def)

lemma days_before_month_1 [simp]: "days_before_month lp 1 = 0"
  by (simp add: days_before_month_def)

text \<open>Counting from the first of the month is counting days.\<close>

lemma civil_to_days_first: "civil_to_days y m 1 + (d - 1) = civil_to_days y m d"
  by (simp add: civil_to_days_def)

lemma go_Date_valid_month:
  assumes "1 \<le> m" and "m \<le> 12"
  shows "go_Date y m d secs ns loc
    = resolve_local loc (civil_to_days y m d * day_secs + secs) * second + ns"
proof -
  have "(m - 1) div 12 = 0" "(m - 1) mod 12 = m - 1" using assms by auto
  then show ?thesis by (simp add: go_Date_def civil_to_days_first)
qed

lemma AddDate_days:
  "AddDate loc t 0 0 ds =
     resolve_local loc ((local_secs loc t div day_secs + ds) * day_secs + clock_in loc t) * second
       + nsec_of t"
proof -
  obtain y m d where ymd: "date_in loc t = (y, m, d)" by (cases "date_in loc t")
  then have v: "valid_date y m d" and n: "civil_to_days y m d = local_secs loc t div day_secs"
    using civil_to_days_to_civil by (auto simp: date_in_def)
  have "civil_to_days y m (d + ds) = civil_to_days y m d + ds" by (simp add: civil_to_days_def)
  then show ?thesis
    using v n by (simp add: AddDate_def ymd go_Date_valid_month valid_date_def)
qed

end
