(* ===== verification/Schema.thy ===== *)
theory Schema
  imports Complex_Main Go_Time
begin

text \<open>
  The rows of the database (\<^verbatim>\<open>server/internal/repository/models.go\<close>), the tables as
  lists of rows, and the constraints of the schema that guard every write
  (\<^verbatim>\<open>server/db/migrations\<close>): CHECK expressions, uniqueness and foreign keys, gathered in
  the invariant \<open>wf_db\<close>. A nullable column and a \<^verbatim>\<open>pgtype\<close> value with a
  \<^verbatim>\<open>Valid\<close> flag are options; \<^verbatim>\<open>.Time\<close> of an invalid value is the zero time.
  A date is the instant of its midnight in UTC, a \<^verbatim>\<open>numeric(5,2)\<close> its hundredths.
  The rules of the database that depend on its locale (\<open>LOWER\<close>, the collation), the
  text of its errors, the zone data of Go (\<open>e_loc\<close>) and of the database (\<open>e_pg_tz\<close>),
  the Unicode tables behind \<^verbatim>\<open>strings.ToLower\<close> (\<open>e_lower\<close>) and
  \<^verbatim>\<open>%q\<close> (\<open>e_quote\<close>), and the text form of a UUID are parameters, in the record
  \<open>env\<close>.
\<close>

type_synonym uuid = "128 word"

definition uuid_Nil :: uuid where
  "uuid_Nil = 0"

subsection \<open>Rows\<close>

record user =
  uID :: uuid
  uOidcIssuer :: string
  uOidcSubject :: string
  uEmail :: string
  uDisplayName :: string
  uLastLoginAt :: "instant option"
  uCreatedAt :: instant
  uUpdatedAt :: instant

record conference =
  cID :: uuid
  cName :: string
  cAcronym :: string
  cYear :: int
  cLocation :: string
  cWebsiteUrl :: "string option"
  cCfpUrl :: "string option"
  cPrimaryDeadline :: "instant option"
  cAbstractDeadline :: "instant option"
  cNotificationDate :: "instant option"
  cCameraReadyDate :: "instant option"
  cEventStartDate :: "instant option"
  cEventEndDate :: "instant option"
  cCoreRank :: "string option"
  cH5Index :: "int option"
  cAcceptanceRatePct :: "int option"
  cDblpKey :: "string option"
  cNotes :: "string option"
  cArchivedAt :: "instant option"
  cCreatedBy :: "uuid option"
  cUpdatedBy :: "uuid option"
  cCreatedAt :: instant
  cUpdatedAt :: instant

record tag =
  tID :: uuid
  tSlug :: string
  tName :: string
  tCreatedAt :: instant
  tUpdatedAt :: instant

record track =
  trCode :: string
  trDisplayName :: string
  trSortOrder :: int
  trCreatedAt :: instant

record star =
  sUserID :: uuid
  sConferenceID :: uuid
  sCreatedAt :: instant

record user_setting =
  usUserID :: uuid
  usTimezone :: string
  usReminderLeadDays :: "int list"
  usWeeklyDigestEnabled :: bool
  usWeeklyDigestDay :: int
  usWeeklyDigestHour :: int
  usWeeklyDigestHorizonWeeks :: int
  usUpdatedAt :: instant

record calendar_token =
  kID :: uuid
  kUserID :: uuid
  kToken :: string
  kKind :: string
  kLastUsedAt :: "instant option"
  kRevokedAt :: "instant option"
  kCreatedAt :: instant

datatype status = Pending | Sent | Failed | Cancelled | Skipped

datatype deadline_kind = Submission | Abstract | Notification | Camera_ready

record reminder =
  rID :: uuid
  rUserID :: uuid
  rConferenceID :: uuid
  rDeadlineKind :: deadline_kind
  rLeadTimeDays :: int
  rScheduledFor :: instant
  rStatus :: status
  rSentAt :: "instant option"
  rAttempts :: int
  rLastError :: "string option"
  rCreatedAt :: instant
  rUpdatedAt :: instant

record digest =
  dID :: uuid
  dUserID :: uuid
  dWeekStarting :: instant
  dScheduledFor :: instant
  dStatus :: status
  dSentAt :: "instant option"
  dAttempts :: int
  dLastError :: "string option"
  dCreatedAt :: instant
  dUpdatedAt :: instant

record audit_entry =
  aID :: uuid
  aActorUserID :: "uuid option"
  aActorDisplayName :: string
  aActorOidcSubject :: string
  aAction :: string
  aEntityType :: string
  aEntityID :: uuid
  aCreatedAt :: instant

record db =
  users :: "user list"
  conferences :: "conference list"
  tags :: "tag list"
  conference_tags :: "(uuid \<times> uuid) list"
  tracks :: "track list"
  conference_tracks :: "(uuid \<times> string) list"
  stars :: "star list"
  user_settings :: "user_setting list"
  calendar_tokens :: "calendar_token list"
  reminders :: "reminder list"
  digests :: "digest list"
  audit_log :: "audit_entry list"

text \<open>\<^verbatim>\<open>.Time\<close> of a timestamp column.\<close>

definition ts_Time :: "instant option \<Rightarrow> instant" where
  "ts_Time ts = (case ts of Some t \<Rightarrow> t | None \<Rightarrow> zero_time)"

text \<open>The text stored in \<^verbatim>\<open>deadline_kind\<close>.\<close>

fun kind_str :: "deadline_kind \<Rightarrow> string" where
  "kind_str Submission = ''submission''"
| "kind_str Abstract = ''abstract''"
| "kind_str Notification = ''notification''"
| "kind_str Camera_ready = ''camera_ready''"

subsection \<open>Errors of the database and the environment\<close>

datatype db_err =
    NoRows
  | UniqueViolation string
  | CheckViolation string
  | ForeignKeyViolation string
  | NumericOverflow
  | IntegerOverflow
  | InvalidText
  | InvalidTimeZone string
  | NegativeLimit
  | InFailedTx
  | TxClosed
  | ConnError string

text \<open>
  What a text column takes: valid UTF-8 without the zero byte. A timestamp column keeps
  microseconds; the driver drops the rest.
\<close>

definition text_ok :: "string \<Rightarrow> bool" where
  "text_ok s \<longleftrightarrow> CHR 0x00 \<notin> set s \<and> of_runes (runes s) = s"

definition texts_ok :: "string list \<Rightarrow> bool" where
  "texts_ok ss \<longleftrightarrow> list_all text_ok ss"

definition pg_ts :: "instant \<Rightarrow> instant" where
  "pg_ts t = t div 1000 * 1000"

lemma pg_ts_mono: "a \<le> b \<Longrightarrow> pg_ts a \<le> pg_ts b"
  by (simp add: pg_ts_def zdiv_mono1)

record env =
  e_loc :: "string \<Rightarrow> location option"
  e_pg_tz :: "string \<Rightarrow> location option"
  e_lower :: "rune \<Rightarrow> rune"
  e_pg_lower :: "string \<Rightarrow> string"
  e_collate :: "string \<Rightarrow> nat list"
  e_pg_msg :: "db_err \<Rightarrow> string"
  e_quote :: "string \<Rightarrow> string"
  e_uuid_str :: "uuid \<Rightarrow> string"
  e_uuid_parse :: "string \<Rightarrow> uuid option"

subsection \<open>Constraints\<close>

definition le_opt :: "int option \<Rightarrow> int option \<Rightarrow> bool" where
  "le_opt a b = (case (a, b) of (Some x, Some y) \<Rightarrow> x \<le> y | _ \<Rightarrow> True)"

definition core_ranks :: "string list" where
  "core_ranks = [''A*'', ''A'', ''B'', ''C'', ''Unranked'']"

text \<open>
  The first CHECK of \<^verbatim>\<open>conferences\<close> that a row violates, in the order of the constraint
  names, as the server evaluates them.
\<close>

definition conference_check :: "conference \<Rightarrow> string option" where
  "conference_check c =
     (if \<not> (le_opt (cAbstractDeadline c) (cPrimaryDeadline c)
            \<and> le_opt (cPrimaryDeadline c) (cNotificationDate c)
            \<and> le_opt (cNotificationDate c) (cCameraReadyDate c))
      then Some ''ck_conferences_deadline_order''
      else if \<not> le_opt (cEventStartDate c) (cEventEndDate c) then Some ''ck_conferences_event_dates''
      else if \<not> (case cAcceptanceRatePct c of None \<Rightarrow> True | Some p \<Rightarrow> 0 \<le> p \<and> p \<le> 10000)
      then Some ''conferences_acceptance_rate_pct_check''
      else if \<not> (case cCoreRank c of None \<Rightarrow> True | Some r \<Rightarrow> r \<in> set core_ranks)
      then Some ''conferences_core_rank_check''
      else if \<not> (case cH5Index c of None \<Rightarrow> True | Some h \<Rightarrow> 0 \<le> h)
      then Some ''conferences_h5_index_check''
      else if \<not> (2000 \<le> cYear c \<and> cYear c \<le> 2100) then Some ''conferences_year_check''
      else None)"

definition settings_check :: "user_setting \<Rightarrow> string option" where
  "settings_check s =
     (if \<not> (usReminderLeadDays s = [] \<or>
            (length (usReminderLeadDays s) \<le> 10 \<and> list_all (\<lambda>v. 0 \<le> v \<and> v \<le> 365) (usReminderLeadDays s)))
      then Some ''ck_user_settings_lead_days_sane''
      else if \<not> (0 \<le> usWeeklyDigestDay s \<and> usWeeklyDigestDay s \<le> 6)
      then Some ''user_settings_weekly_digest_day_check''
      else if \<not> (1 \<le> usWeeklyDigestHorizonWeeks s \<and> usWeeklyDigestHorizonWeeks s \<le> 52)
      then Some ''user_settings_weekly_digest_horizon_weeks_check''
      else if \<not> (0 \<le> usWeeklyDigestHour s \<and> usWeeklyDigestHour s \<le> 23)
      then Some ''user_settings_weekly_digest_hour_check''
      else None)"

definition reminder_check :: "reminder \<Rightarrow> string option" where
  "reminder_check r =
     (if \<not> (0 \<le> rLeadTimeDays r \<and> rLeadTimeDays r \<le> 365)
      then Some ''reminder_dispatch_log_lead_time_days_check''
      else if rStatus r = Skipped then Some ''reminder_dispatch_log_status_check''
      else None)"

definition audit_actions :: "string list" where
  "audit_actions = [''create'', ''update'', ''delete'', ''archive'', ''unarchive'']"

definition acronym_year :: "env \<Rightarrow> conference \<Rightarrow> string \<times> int" where
  "acronym_year env c = (e_pg_lower env (cAcronym c), cYear c)"

definition reminder_key :: "reminder \<Rightarrow> uuid \<times> uuid \<times> deadline_kind \<times> int" where
  "reminder_key r = (rUserID r, rConferenceID r, rDeadlineKind r, rLeadTimeDays r)"

definition digest_key :: "digest \<Rightarrow> uuid \<times> instant" where
  "digest_key d = (dUserID d, dWeekStarting d)"

definition star_key :: "star \<Rightarrow> uuid \<times> uuid" where
  "star_key s = (sUserID s, sConferenceID s)"

definition user_ids :: "db \<Rightarrow> uuid list" where "user_ids d = map uID (users d)"
definition conf_ids :: "db \<Rightarrow> uuid list" where "conf_ids d = map cID (conferences d)"
definition tag_ids :: "db \<Rightarrow> uuid list" where "tag_ids d = map tID (tags d)"
definition track_codes :: "db \<Rightarrow> string list" where "track_codes d = map trCode (tracks d)"

definition opt_in :: "'a option \<Rightarrow> 'a list \<Rightarrow> bool" where
  "opt_in x xs = (case x of None \<Rightarrow> True | Some v \<Rightarrow> v \<in> set xs)"

definition active_tokens :: "db \<Rightarrow> calendar_token list" where
  "active_tokens d = filter (\<lambda>k. kRevokedAt k = None) (calendar_tokens d)"

subsection \<open>The invariant of the schema, table by table\<close>

definition users_ok :: "db \<Rightarrow> bool" where
  "users_ok d \<longleftrightarrow> distinct (user_ids d)
     \<and> distinct (map (\<lambda>u. (uOidcIssuer u, uOidcSubject u)) (users d))
     \<and> distinct (map uEmail (users d))"

definition conferences_ok :: "env \<Rightarrow> db \<Rightarrow> bool" where
  "conferences_ok env d \<longleftrightarrow> distinct (conf_ids d)
     \<and> distinct (map (acronym_year env) (conferences d))
     \<and> (\<forall>c \<in> set (conferences d). conference_check c = None
          \<and> opt_in (cCreatedBy c) (user_ids d) \<and> opt_in (cUpdatedBy c) (user_ids d))"

definition tags_ok :: "db \<Rightarrow> bool" where
  "tags_ok d \<longleftrightarrow> distinct (tag_ids d) \<and> distinct (map tSlug (tags d))
     \<and> distinct (conference_tags d)
     \<and> (\<forall>(c, t) \<in> set (conference_tags d). c \<in> set (conf_ids d) \<and> t \<in> set (tag_ids d))"

definition tracks_ok :: "db \<Rightarrow> bool" where
  "tracks_ok d \<longleftrightarrow> distinct (track_codes d) \<and> distinct (conference_tracks d)
     \<and> (\<forall>(c, t) \<in> set (conference_tracks d). c \<in> set (conf_ids d) \<and> t \<in> set (track_codes d))"

definition stars_ok :: "db \<Rightarrow> bool" where
  "stars_ok d \<longleftrightarrow> distinct (map star_key (stars d))
     \<and> (\<forall>s \<in> set (stars d). sUserID s \<in> set (user_ids d) \<and> sConferenceID s \<in> set (conf_ids d))"

definition settings_ok :: "db \<Rightarrow> bool" where
  "settings_ok d \<longleftrightarrow> distinct (map usUserID (user_settings d))
     \<and> (\<forall>s \<in> set (user_settings d). settings_check s = None \<and> usUserID s \<in> set (user_ids d))"

definition tokens_ok :: "db \<Rightarrow> bool" where
  "tokens_ok d \<longleftrightarrow> distinct (map kID (calendar_tokens d)) \<and> distinct (map kToken (calendar_tokens d))
     \<and> distinct (map (\<lambda>k. (kUserID k, kKind k)) (active_tokens d))
     \<and> (\<forall>k \<in> set (calendar_tokens d). kUserID k \<in> set (user_ids d) \<and> kKind k = ''personal_starred'')"

definition reminders_ok :: "db \<Rightarrow> bool" where
  "reminders_ok d \<longleftrightarrow> distinct (map rID (reminders d)) \<and> distinct (map reminder_key (reminders d))
     \<and> (\<forall>r \<in> set (reminders d). reminder_check r = None
          \<and> rUserID r \<in> set (user_ids d) \<and> rConferenceID r \<in> set (conf_ids d))"

definition digests_ok :: "db \<Rightarrow> bool" where
  "digests_ok d \<longleftrightarrow> distinct (map dID (digests d)) \<and> distinct (map digest_key (digests d))
     \<and> (\<forall>g \<in> set (digests d). dUserID g \<in> set (user_ids d))"

definition audit_ok :: "db \<Rightarrow> bool" where
  "audit_ok d \<longleftrightarrow> distinct (map aID (audit_log d))
     \<and> (\<forall>a \<in> set (audit_log d). aAction a \<in> set audit_actions \<and> opt_in (aActorUserID a) (user_ids d))"

definition wf_db :: "env \<Rightarrow> db \<Rightarrow> bool" where
  "wf_db env d \<longleftrightarrow> users_ok d \<and> conferences_ok env d \<and> tags_ok d \<and> tracks_ok d \<and> stars_ok d
     \<and> settings_ok d \<and> tokens_ok d \<and> reminders_ok d \<and> digests_ok d \<and> audit_ok d"

lemmas table_oks = users_ok_def conferences_ok_def tags_ok_def tracks_ok_def stars_ok_def
  settings_ok_def tokens_ok_def reminders_ok_def digests_ok_def audit_ok_def

lemmas id_lists = user_ids_def conf_ids_def tag_ids_def track_codes_def active_tokens_def

text \<open>
  Which table a write touches decides which parts of the invariant it can break: an update of
  one table leaves the invariant of the others alone.
\<close>

lemma oks_reminders [frame_simps]:
  "users_ok (d\<lparr>reminders := x\<rparr>) = users_ok d"
  "conferences_ok env (d\<lparr>reminders := x\<rparr>) = conferences_ok env d"
  "tags_ok (d\<lparr>reminders := x\<rparr>) = tags_ok d"
  "tracks_ok (d\<lparr>reminders := x\<rparr>) = tracks_ok d"
  "stars_ok (d\<lparr>reminders := x\<rparr>) = stars_ok d"
  "settings_ok (d\<lparr>reminders := x\<rparr>) = settings_ok d"
  "tokens_ok (d\<lparr>reminders := x\<rparr>) = tokens_ok d"
  "digests_ok (d\<lparr>reminders := x\<rparr>) = digests_ok d"
  "audit_ok (d\<lparr>reminders := x\<rparr>) = audit_ok d"
  by (simp_all add: table_oks id_lists)

lemma oks_digests [frame_simps]:
  "users_ok (d\<lparr>digests := x\<rparr>) = users_ok d"
  "conferences_ok env (d\<lparr>digests := x\<rparr>) = conferences_ok env d"
  "tags_ok (d\<lparr>digests := x\<rparr>) = tags_ok d"
  "tracks_ok (d\<lparr>digests := x\<rparr>) = tracks_ok d"
  "stars_ok (d\<lparr>digests := x\<rparr>) = stars_ok d"
  "settings_ok (d\<lparr>digests := x\<rparr>) = settings_ok d"
  "tokens_ok (d\<lparr>digests := x\<rparr>) = tokens_ok d"
  "reminders_ok (d\<lparr>digests := x\<rparr>) = reminders_ok d"
  "audit_ok (d\<lparr>digests := x\<rparr>) = audit_ok d"
  by (simp_all add: table_oks id_lists)

lemma oks_stars [frame_simps]:
  "users_ok (d\<lparr>stars := x\<rparr>) = users_ok d"
  "conferences_ok env (d\<lparr>stars := x\<rparr>) = conferences_ok env d"
  "tags_ok (d\<lparr>stars := x\<rparr>) = tags_ok d"
  "tracks_ok (d\<lparr>stars := x\<rparr>) = tracks_ok d"
  "settings_ok (d\<lparr>stars := x\<rparr>) = settings_ok d"
  "tokens_ok (d\<lparr>stars := x\<rparr>) = tokens_ok d"
  "reminders_ok (d\<lparr>stars := x\<rparr>) = reminders_ok d"
  "digests_ok (d\<lparr>stars := x\<rparr>) = digests_ok d"
  "audit_ok (d\<lparr>stars := x\<rparr>) = audit_ok d"
  by (simp_all add: table_oks id_lists)

lemma oks_calendar_tokens [frame_simps]:
  "users_ok (d\<lparr>calendar_tokens := x\<rparr>) = users_ok d"
  "conferences_ok env (d\<lparr>calendar_tokens := x\<rparr>) = conferences_ok env d"
  "tags_ok (d\<lparr>calendar_tokens := x\<rparr>) = tags_ok d"
  "tracks_ok (d\<lparr>calendar_tokens := x\<rparr>) = tracks_ok d"
  "stars_ok (d\<lparr>calendar_tokens := x\<rparr>) = stars_ok d"
  "settings_ok (d\<lparr>calendar_tokens := x\<rparr>) = settings_ok d"
  "reminders_ok (d\<lparr>calendar_tokens := x\<rparr>) = reminders_ok d"
  "digests_ok (d\<lparr>calendar_tokens := x\<rparr>) = digests_ok d"
  "audit_ok (d\<lparr>calendar_tokens := x\<rparr>) = audit_ok d"
  by (simp_all add: table_oks id_lists)

lemma oks_user_settings [frame_simps]:
  "users_ok (d\<lparr>user_settings := x\<rparr>) = users_ok d"
  "conferences_ok env (d\<lparr>user_settings := x\<rparr>) = conferences_ok env d"
  "tags_ok (d\<lparr>user_settings := x\<rparr>) = tags_ok d"
  "tracks_ok (d\<lparr>user_settings := x\<rparr>) = tracks_ok d"
  "stars_ok (d\<lparr>user_settings := x\<rparr>) = stars_ok d"
  "tokens_ok (d\<lparr>user_settings := x\<rparr>) = tokens_ok d"
  "reminders_ok (d\<lparr>user_settings := x\<rparr>) = reminders_ok d"
  "digests_ok (d\<lparr>user_settings := x\<rparr>) = digests_ok d"
  "audit_ok (d\<lparr>user_settings := x\<rparr>) = audit_ok d"
  by (simp_all add: table_oks id_lists)

lemma oks_audit_log [frame_simps]:
  "users_ok (d\<lparr>audit_log := x\<rparr>) = users_ok d"
  "conferences_ok env (d\<lparr>audit_log := x\<rparr>) = conferences_ok env d"
  "tags_ok (d\<lparr>audit_log := x\<rparr>) = tags_ok d"
  "tracks_ok (d\<lparr>audit_log := x\<rparr>) = tracks_ok d"
  "stars_ok (d\<lparr>audit_log := x\<rparr>) = stars_ok d"
  "settings_ok (d\<lparr>audit_log := x\<rparr>) = settings_ok d"
  "tokens_ok (d\<lparr>audit_log := x\<rparr>) = tokens_ok d"
  "reminders_ok (d\<lparr>audit_log := x\<rparr>) = reminders_ok d"
  "digests_ok (d\<lparr>audit_log := x\<rparr>) = digests_ok d"
  by (simp_all add: table_oks id_lists)

lemma oks_tag_tables [frame_simps]:
  "users_ok (d\<lparr>tags := x\<rparr>) = users_ok d" "users_ok (d\<lparr>conference_tags := y\<rparr>) = users_ok d"
  "conferences_ok env (d\<lparr>tags := x\<rparr>) = conferences_ok env d"
  "conferences_ok env (d\<lparr>conference_tags := y\<rparr>) = conferences_ok env d"
  "tracks_ok (d\<lparr>tags := x\<rparr>) = tracks_ok d" "tracks_ok (d\<lparr>conference_tags := y\<rparr>) = tracks_ok d"
  "stars_ok (d\<lparr>tags := x\<rparr>) = stars_ok d" "stars_ok (d\<lparr>conference_tags := y\<rparr>) = stars_ok d"
  "settings_ok (d\<lparr>tags := x\<rparr>) = settings_ok d" "settings_ok (d\<lparr>conference_tags := y\<rparr>) = settings_ok d"
  "tokens_ok (d\<lparr>tags := x\<rparr>) = tokens_ok d" "tokens_ok (d\<lparr>conference_tags := y\<rparr>) = tokens_ok d"
  "reminders_ok (d\<lparr>tags := x\<rparr>) = reminders_ok d"
  "reminders_ok (d\<lparr>conference_tags := y\<rparr>) = reminders_ok d"
  "digests_ok (d\<lparr>tags := x\<rparr>) = digests_ok d" "digests_ok (d\<lparr>conference_tags := y\<rparr>) = digests_ok d"
  "audit_ok (d\<lparr>tags := x\<rparr>) = audit_ok d" "audit_ok (d\<lparr>conference_tags := y\<rparr>) = audit_ok d"
  by (simp_all add: table_oks id_lists)

lemma oks_conference_tracks [frame_simps]:
  "users_ok (d\<lparr>conference_tracks := y\<rparr>) = users_ok d"
  "conferences_ok env (d\<lparr>conference_tracks := y\<rparr>) = conferences_ok env d"
  "tags_ok (d\<lparr>conference_tracks := y\<rparr>) = tags_ok d"
  "stars_ok (d\<lparr>conference_tracks := y\<rparr>) = stars_ok d"
  "settings_ok (d\<lparr>conference_tracks := y\<rparr>) = settings_ok d"
  "tokens_ok (d\<lparr>conference_tracks := y\<rparr>) = tokens_ok d"
  "reminders_ok (d\<lparr>conference_tracks := y\<rparr>) = reminders_ok d"
  "digests_ok (d\<lparr>conference_tracks := y\<rparr>) = digests_ok d"
  "audit_ok (d\<lparr>conference_tracks := y\<rparr>) = audit_ok d"
  by (simp_all add: table_oks id_lists)

end
