(* ===== verification/Conn.thy ===== *)
theory Conn
  imports Schema
begin

text \<open>
  The connection of the server to its database, and Go's error values.

  A statement runs either on the pool, each statement its own transaction, or in the open
  transaction: \<^verbatim>\<open>repository.New(pool)\<close> and \<^verbatim>\<open>repository.New(tx)\<close> are \<open>Pool\<close>
  and \<open>Tx\<close>. The state holds the committed database, the view of the open transaction, and a
  schedule of connection failures, one entry per statement: any statement, the opening and the
  commit of a transaction included, may fail. A failed statement leaves an open transaction
  aborted, and every later statement of it fails, its commit too.

  A program is a function from the state to an error or a value and the next state. \<open>in_tx\<close>
  is the shape the services share: begin, a body, and a commit that is skipped, with a rollback
  instead, when the body returns an error.
\<close>

subsection \<open>Errors\<close>

text \<open>
  \<open>Wrapf p e\<close> is \<^verbatim>\<open>fmt.Errorf("p: %w", e)\<close>, \<open>Wrapped e s\<close> is
  \<^verbatim>\<open>fmt.Errorf("%w: s", e)\<close>.
\<close>

datatype err =
    Pg db_err
  | ErrNotFound
  | ErrConflict
  | ErrValidation
  | ErrTokenNotFound
  | ValidationError string string
  | Wrapf string err
  | Wrapped err string
  | OtherErr string

fun errors_Is :: "err \<Rightarrow> err \<Rightarrow> bool" where
  "errors_Is (Wrapf p e) t = (Wrapf p e = t \<or> errors_Is e t)"
| "errors_Is (Wrapped e s) t = (Wrapped e s = t \<or> errors_Is e t)"
| "errors_Is (ValidationError f m) t = (ValidationError f m = t \<or> t = ErrValidation)"
| "errors_Is e t = (e = t)"

fun Error :: "env \<Rightarrow> err \<Rightarrow> string" where
  "Error env (Pg e) = e_pg_msg env e"
| "Error env ErrNotFound = ''not found''"
| "Error env ErrConflict = ''conflict''"
| "Error env ErrValidation = ''validation error''"
| "Error env ErrTokenNotFound = ''calendar token not found''"
| "Error env (ValidationError f m) = f @ '': '' @ m"
| "Error env (Wrapf p e) = p @ '': '' @ Error env e"
| "Error env (Wrapped e s) = Error env e @ '': '' @ s"
| "Error env (OtherErr s) = s"

subsection \<open>State\<close>

record conn =
  c_com :: db
  c_tx :: "db option"
  c_aborted :: bool
  c_now :: instant
  c_today :: instant
  c_gen :: "nat \<Rightarrow> uuid"
  c_fault :: "nat \<Rightarrow> string option"
  c_stmts :: nat

datatype dbtx = Pool | Tx

record stmt_ctx =
  x_gen :: uuid
  x_now :: instant
  x_today :: instant

type_synonym 'a sql = "stmt_ctx \<Rightarrow> db \<Rightarrow> db_err + ('a \<times> db)"

definition ctx_of :: "'m conn_scheme \<Rightarrow> stmt_ctx" where
  "ctx_of c = \<lparr>x_gen = c_gen c (c_stmts c), x_now = c_now c, x_today = c_today c\<rparr>"

definition exec_pool :: "'a sql \<Rightarrow> 'm conn_scheme \<Rightarrow> (db_err + 'a) \<times> 'm conn_scheme" where
  "exec_pool q c =
     (let c' = c\<lparr>c_stmts := Suc (c_stmts c)\<rparr> in
      case c_fault c (c_stmts c) of
        Some m \<Rightarrow> (Inl (ConnError m), c')
      | None \<Rightarrow>
          (case q (ctx_of c) (c_com c) of
             Inl e \<Rightarrow> (Inl e, c')
           | Inr (a, d) \<Rightarrow> (Inr a, c'\<lparr>c_com := d\<rparr>)))"

definition exec_tx :: "'a sql \<Rightarrow> 'm conn_scheme \<Rightarrow> (db_err + 'a) \<times> 'm conn_scheme" where
  "exec_tx q c =
     (let c' = c\<lparr>c_stmts := Suc (c_stmts c)\<rparr> in
      case c_tx c of
        None \<Rightarrow> (Inl TxClosed, c')
      | Some v \<Rightarrow>
          if c_aborted c then (Inl InFailedTx, c')
          else
            (case c_fault c (c_stmts c) of
               Some m \<Rightarrow> (Inl (ConnError m), c'\<lparr>c_aborted := True\<rparr>)
             | None \<Rightarrow>
                 (case q (ctx_of c) v of
                    Inl e \<Rightarrow> (Inl e, c'\<lparr>c_aborted := (e \<noteq> NoRows)\<rparr>)
                  | Inr (a, d) \<Rightarrow> (Inr a, c'\<lparr>c_tx := Some d\<rparr>))))"

definition exec :: "dbtx \<Rightarrow> 'a sql \<Rightarrow> 'm conn_scheme \<Rightarrow> (db_err + 'a) \<times> 'm conn_scheme" where
  "exec q s c = (case q of Pool \<Rightarrow> exec_pool s c | Tx \<Rightarrow> exec_tx s c)"

definition begin_tx :: "'m conn_scheme \<Rightarrow> (db_err + unit) \<times> 'm conn_scheme" where
  "begin_tx c =
     (let c' = c\<lparr>c_stmts := Suc (c_stmts c)\<rparr> in
      case c_fault c (c_stmts c) of
        Some m \<Rightarrow> (Inl (ConnError m), c')
      | None \<Rightarrow> (Inr (), c'\<lparr>c_tx := Some (c_com c), c_aborted := False\<rparr>))"

definition commit_tx :: "'m conn_scheme \<Rightarrow> (db_err + unit) \<times> 'm conn_scheme" where
  "commit_tx c =
     (let c' = c\<lparr>c_stmts := Suc (c_stmts c)\<rparr> in
      case c_tx c of
        None \<Rightarrow> (Inl TxClosed, c')
      | Some v \<Rightarrow>
          if c_aborted c then (Inl InFailedTx, c')
          else
            (case c_fault c (c_stmts c) of
               Some m \<Rightarrow> (Inl (ConnError m), c')
             | None \<Rightarrow> (Inr (), c'\<lparr>c_com := v, c_tx := None\<rparr>)))"

definition rollback_tx :: "'m conn_scheme \<Rightarrow> 'm conn_scheme" where
  "rollback_tx c = c\<lparr>c_tx := None, c_aborted := False\<rparr>"

subsection \<open>Programs\<close>

definition ret :: "'a \<Rightarrow> 'm conn_scheme \<Rightarrow> ('e + 'a) \<times> 'm conn_scheme" where
  "ret a c = (Inr a, c)"

definition fail :: "'e \<Rightarrow> 'm conn_scheme \<Rightarrow> ('e + 'a) \<times> 'm conn_scheme" where
  "fail e c = (Inl e, c)"

text \<open>\<^verbatim>\<open>if err != nil { return err }\<close> after a call, else go on with its value.\<close>

definition andthen ::
  "('m conn_scheme \<Rightarrow> ('e + 'a) \<times> 'm conn_scheme) \<Rightarrow> ('a \<Rightarrow> 'm conn_scheme \<Rightarrow> ('e + 'b) \<times> 'm conn_scheme)
   \<Rightarrow> 'm conn_scheme \<Rightarrow> ('e + 'b) \<times> 'm conn_scheme" where
  "andthen m f c = (case m c of (Inl e, c') \<Rightarrow> (Inl e, c') | (Inr a, c') \<Rightarrow> f a c')"

text \<open>The error of a call, turned into the error the caller returns.\<close>

definition on_err ::
  "('d \<Rightarrow> 'e) \<Rightarrow> ('m conn_scheme \<Rightarrow> ('d + 'a) \<times> 'm conn_scheme)
   \<Rightarrow> 'm conn_scheme \<Rightarrow> ('e + 'a) \<times> 'm conn_scheme" where
  "on_err w m c = (case m c of (Inl e, c') \<Rightarrow> (Inl (w e), c') | (Inr a, c') \<Rightarrow> (Inr a, c'))"

text \<open>A call whose error the caller inspects itself.\<close>

definition attempt ::
  "('m conn_scheme \<Rightarrow> ('d + 'a) \<times> 'm conn_scheme)
   \<Rightarrow> 'm conn_scheme \<Rightarrow> ('e + ('d + 'a)) \<times> 'm conn_scheme" where
  "attempt m c = (case m c of (r, c') \<Rightarrow> (Inr r, c'))"

primrec for_each ::
  "('a \<Rightarrow> 'm conn_scheme \<Rightarrow> ('e + unit) \<times> 'm conn_scheme) \<Rightarrow> 'a list
   \<Rightarrow> 'm conn_scheme \<Rightarrow> ('e + unit) \<times> 'm conn_scheme" where
  "for_each f [] = ret ()"
| "for_each f (x # xs) = andthen (f x) (\<lambda>_. for_each f xs)"

primrec map_each ::
  "('a \<Rightarrow> 'm conn_scheme \<Rightarrow> ('e + 'b) \<times> 'm conn_scheme) \<Rightarrow> 'a list
   \<Rightarrow> 'm conn_scheme \<Rightarrow> ('e + 'b list) \<times> 'm conn_scheme" where
  "map_each f [] = ret []"
| "map_each f (x # xs) = andthen (f x) (\<lambda>y. andthen (map_each f xs) (\<lambda>ys. ret (y # ys)))"

definition in_tx ::
  "(db_err \<Rightarrow> 'e) \<Rightarrow> (db_err \<Rightarrow> 'e) \<Rightarrow> ('m conn_scheme \<Rightarrow> ('e + 'a) \<times> 'm conn_scheme)
   \<Rightarrow> 'm conn_scheme \<Rightarrow> ('e + 'a) \<times> 'm conn_scheme" where
  "in_tx on_begin on_commit body c =
     (case begin_tx c of
        (Inl e, c1) \<Rightarrow> (Inl (on_begin e), c1)
      | (Inr _, c1) \<Rightarrow>
          (case body c1 of
             (Inl e, c2) \<Rightarrow> (Inl e, rollback_tx c2)
           | (Inr a, c2) \<Rightarrow>
               (case commit_tx c2 of
                  (Inl e, c3) \<Rightarrow> (Inl (on_commit e), rollback_tx c3)
                | (Inr _, c3) \<Rightarrow> (Inr a, c3))))"

lemmas prog_defs = ret_def fail_def andthen_def on_err_def attempt_def in_tx_def
lemmas exec_defs = exec_def exec_pool_def exec_tx_def begin_tx_def commit_tx_def rollback_tx_def

subsection \<open>What a program can do to the database\<close>

text \<open>
  \<open>sql_step R q\<close>: whenever the statement succeeds, it takes the database along \<open>R\<close>.
  \<open>tx_evolves R m\<close>: run in an open transaction, \<open>m\<close> takes its view along \<open>R\<close> and leaves
  the committed database alone. \<open>evolves R m\<close>: run outside of a transaction, \<open>m\<close> takes the
  committed database along \<open>R\<close> and leaves no transaction open. All three speak about every
  outcome, connection failures included.
\<close>

definition sql_step :: "(db \<Rightarrow> db \<Rightarrow> bool) \<Rightarrow> 'a sql \<Rightarrow> bool" where
  "sql_step R q \<longleftrightarrow> (\<forall>x d a d'. q x d = Inr (a, d') \<longrightarrow> R d d')"

definition sql_reads :: "'a sql \<Rightarrow> bool" where
  "sql_reads q \<longleftrightarrow> (\<forall>x d a d'. q x d = Inr (a, d') \<longrightarrow> d' = d)"

definition tx_evolves ::
  "(db \<Rightarrow> db \<Rightarrow> bool) \<Rightarrow> ('m conn_scheme \<Rightarrow> ('e + 'a) \<times> 'm conn_scheme) \<Rightarrow> bool" where
  "tx_evolves R m \<longleftrightarrow> (\<forall>c v r c'. c_tx c = Some v \<longrightarrow> m c = (r, c') \<longrightarrow>
     c_com c' = c_com c \<and> (\<exists>v'. c_tx c' = Some v' \<and> R v v'))"

definition evolves ::
  "(db \<Rightarrow> db \<Rightarrow> bool) \<Rightarrow> ('m conn_scheme \<Rightarrow> ('e + 'a) \<times> 'm conn_scheme) \<Rightarrow> bool" where
  "evolves R m \<longleftrightarrow> (\<forall>c r c'. c_tx c = None \<longrightarrow> m c = (r, c') \<longrightarrow>
     c_tx c' = None \<and> R (c_com c) (c_com c'))"

lemma sql_stepI: "(\<And>x d a d'. q x d = Inr (a, d') \<Longrightarrow> R d d') \<Longrightarrow> sql_step R q"
  by (simp add: sql_step_def)

lemma sql_readsI: "(\<And>x d a d'. q x d = Inr (a, d') \<Longrightarrow> d' = d) \<Longrightarrow> sql_reads q"
  by (simp add: sql_reads_def)

lemma evolvesD: "evolves R m \<Longrightarrow> c_tx c = None \<Longrightarrow> m c = (r, c') \<Longrightarrow> c_tx c' = None \<and> R (c_com c) (c_com c')"
  unfolding evolves_def by blast

lemma tx_evolvesD: "tx_evolves R m \<Longrightarrow> c_tx c = Some v \<Longrightarrow> m c = (r, c') \<Longrightarrow>
    c_com c' = c_com c \<and> (\<exists>v'. c_tx c' = Some v' \<and> R v v')"
  unfolding tx_evolves_def by blast

text \<open>A wrapper that changes the result alone ends in the state its program ends in.\<close>

lemma on_err_snd: "snd (on_err w m c) = snd (m c)"
  by (simp add: on_err_def split: prod.splits sum.splits)

lemma attempt_snd: "snd (attempt m c) = snd (m c)"
  by (simp add: attempt_def split: prod.splits)

lemma tx_evolves_same_state:
  assumes "tx_evolves R m" and "\<And>c. snd (m' c) = snd (m c)"
  shows "tx_evolves R m'"
  unfolding tx_evolves_def
proof (intro allI impI)
  fix c v r c'
  assume v: "c_tx c = Some v" and "m' c = (r, c')"
  then have "m c = (fst (m c), c')" by (metis assms(2) prod.collapse snd_conv)
  from tx_evolvesD [OF assms(1) v this]
  show "c_com c' = c_com c \<and> (\<exists>v'. c_tx c' = Some v' \<and> R v v')" .
qed

lemma evolves_same_state:
  assumes "evolves R m" and "\<And>c. snd (m' c) = snd (m c)"
  shows "evolves R m'"
  unfolding evolves_def
proof (intro allI impI)
  fix c r c'
  assume n: "c_tx c = None" and "m' c = (r, c')"
  then have "m c = (fst (m c), c')" by (metis assms(2) prod.collapse snd_conv)
  from evolvesD [OF assms(1) n this] show "c_tx c' = None \<and> R (c_com c) (c_com c')" .
qed

text \<open>The rules of a relation that is reflexive and transitive.\<close>

locale evolution =
  fixes R :: "db \<Rightarrow> db \<Rightarrow> bool"
  assumes R_refl: "R d d"
    and R_trans: "R a b \<Longrightarrow> R b c \<Longrightarrow> R a c"
begin

lemma step_of_reads: "sql_reads q \<Longrightarrow> sql_step R q"
  unfolding sql_step_def sql_reads_def by (metis R_refl)

lemma tx_ret: "tx_evolves R (ret a)"
  by (simp add: tx_evolves_def ret_def R_refl)

lemma tx_fail: "tx_evolves R (fail e)"
  by (simp add: tx_evolves_def fail_def R_refl)

lemma tx_andthen:
  assumes "tx_evolves R m" and "\<And>a. tx_evolves R (f a)"
  shows "tx_evolves R (andthen m f)"
  unfolding tx_evolves_def
proof (intro allI impI)
  fix c v r c'
  assume v: "c_tx c = Some v" and run: "andthen m f c = (r, c')"
  obtain s c1 where m: "m c = (s, c1)" by fastforce
  obtain v1 where v1: "c_com c1 = c_com c" "c_tx c1 = Some v1" "R v v1"
    using tx_evolvesD [OF assms(1) v m] by auto
  show "c_com c' = c_com c \<and> (\<exists>v'. c_tx c' = Some v' \<and> R v v')"
  proof (cases s)
    case (Inl e)
    with run m v1 show ?thesis by (auto simp: andthen_def)
  next
    case (Inr a)
    with run m have "f a c1 = (r, c')" by (simp add: andthen_def)
    from tx_evolvesD [OF assms(2) v1(2) this] v1 show ?thesis by (auto intro: R_trans)
  qed
qed

lemma tx_on_err: "tx_evolves R m \<Longrightarrow> tx_evolves R (on_err w m)"
  by (rule tx_evolves_same_state) (simp_all add: on_err_snd)

lemma tx_attempt: "tx_evolves R m \<Longrightarrow> tx_evolves R (attempt m)"
  by (rule tx_evolves_same_state) (simp_all add: attempt_snd)

lemma tx_exec:
  assumes "sql_step R q"
  shows "tx_evolves R (exec Tx q)"
  unfolding tx_evolves_def
proof (intro allI impI)
  fix c v r c'
  assume v: "c_tx c = Some v" and run: "exec Tx q c = (r, c')"
  have step: "R v d" if "q (ctx_of c) v = Inr (a, d)" for a d
    using assms that by (simp add: sql_step_def)
  show "c_com c' = c_com c \<and> (\<exists>v'. c_tx c' = Some v' \<and> R v v')"
    using run v step
    by (auto simp: exec_def exec_tx_def Let_def R_refl split: option.splits sum.splits if_splits)
qed

lemma tx_exec_pool:
  assumes "sql_reads q"
  shows "tx_evolves R (exec Pool q)"
  unfolding tx_evolves_def
proof (intro allI impI)
  fix c v r c'
  assume v: "c_tx c = Some v" and run: "exec Pool q c = (r, c')"
  have same: "d = c_com c" if "q (ctx_of c) (c_com c) = Inr (a, d)" for a d
    using assms that by (simp add: sql_reads_def)
  show "c_com c' = c_com c \<and> (\<exists>v'. c_tx c' = Some v' \<and> R v v')"
    using run v
    by (auto simp: exec_def exec_pool_def Let_def R_refl split: option.splits sum.splits dest!: same)
qed

lemma tx_for_each: "(\<And>x. tx_evolves R (f x)) \<Longrightarrow> tx_evolves R (for_each f xs)"
  by (induction xs) (simp_all add: tx_ret tx_andthen)

lemma tx_map_each: "(\<And>x. tx_evolves R (f x)) \<Longrightarrow> tx_evolves R (map_each f xs)"
  by (induction xs) (simp_all add: tx_ret tx_andthen)

lemma out_ret: "evolves R (ret a)"
  by (simp add: evolves_def ret_def R_refl)

lemma out_fail: "evolves R (fail e)"
  by (simp add: evolves_def fail_def R_refl)

lemma out_andthen:
  assumes "evolves R m" and "\<And>a. evolves R (f a)"
  shows "evolves R (andthen m f)"
  unfolding evolves_def
proof (intro allI impI)
  fix c r c'
  assume n: "c_tx c = None" and run: "andthen m f c = (r, c')"
  obtain s c1 where m: "m c = (s, c1)" by fastforce
  have c1: "c_tx c1 = None" "R (c_com c) (c_com c1)" using evolvesD [OF assms(1) n m] by auto
  show "c_tx c' = None \<and> R (c_com c) (c_com c')"
  proof (cases s)
    case (Inl e)
    with run m c1 show ?thesis by (auto simp: andthen_def)
  next
    case (Inr a)
    with run m have "f a c1 = (r, c')" by (simp add: andthen_def)
    from evolvesD [OF assms(2) c1(1) this] c1 show ?thesis by (auto intro: R_trans)
  qed
qed

lemma out_on_err: "evolves R m \<Longrightarrow> evolves R (on_err w m)"
  by (rule evolves_same_state) (simp_all add: on_err_snd)

lemma out_attempt: "evolves R m \<Longrightarrow> evolves R (attempt m)"
  by (rule evolves_same_state) (simp_all add: attempt_snd)

lemma out_exec:
  assumes "sql_step R q"
  shows "evolves R (exec Pool q)"
  unfolding evolves_def
proof (intro allI impI)
  fix c r c'
  assume n: "c_tx c = None" and run: "exec Pool q c = (r, c')"
  have step: "R (c_com c) d" if "q (ctx_of c) (c_com c) = Inr (a, d)" for a d
    using assms that by (simp add: sql_step_def)
  show "c_tx c' = None \<and> R (c_com c) (c_com c')"
    using run n step
    by (auto simp: exec_def exec_pool_def Let_def R_refl split: option.splits sum.splits)
qed

lemma out_for_each: "(\<And>x. evolves R (f x)) \<Longrightarrow> evolves R (for_each f xs)"
  by (induction xs) (simp_all add: out_ret out_andthen)

lemma out_map_each: "(\<And>x. evolves R (f x)) \<Longrightarrow> evolves R (map_each f xs)"
  by (induction xs) (simp_all add: out_ret out_andthen)

lemma out_in_tx:
  assumes "tx_evolves R body"
  shows "evolves R (in_tx b k body)"
  unfolding evolves_def
proof (intro allI impI)
  fix c r c'
  assume n: "c_tx c = None" and run: "in_tx b k body c = (r, c')"
  show "c_tx c' = None \<and> R (c_com c) (c_com c')"
  proof (cases "c_fault c (c_stmts c)")
    case (Some m)
    with run n show ?thesis by (auto simp: in_tx_def begin_tx_def Let_def R_refl)
  next
    case None
    let ?c1 = "c\<lparr>c_stmts := Suc (c_stmts c), c_tx := Some (c_com c), c_aborted := False\<rparr>"
    obtain s c2 where body: "body ?c1 = (s, c2)" by fastforce
    obtain v where v: "c_com c2 = c_com c" "c_tx c2 = Some v" "R (c_com c) v"
      using tx_evolvesD [OF assms _ body] by auto
    show ?thesis
      using run None body v
      by (auto simp: in_tx_def begin_tx_def commit_tx_def rollback_tx_def Let_def R_refl
          split: sum.splits option.splits if_splits)
  qed
qed

lemmas tx_rules = tx_ret tx_fail tx_andthen tx_on_err tx_attempt tx_for_each tx_map_each
lemmas out_rules = out_ret out_fail out_andthen out_on_err out_attempt out_for_each out_map_each

end

text \<open>
  Every program evolves along the relation that relates all databases; what is left of the
  statement is that a body run in a transaction does not touch the committed database.
\<close>

interpretation anything: evolution "\<lambda>_ _. True"
  by unfold_locales auto

text \<open>A transaction that returns an error leaves the committed database as it was.\<close>

lemma in_tx_error_unchanged:
  assumes "tx_evolves (\<lambda>_ _. True) body" and "c_tx c = None"
    and "in_tx b k body c = (Inl e, c')"
  shows "c_com c' = c_com c"
proof (cases "c_fault c (c_stmts c)")
  case (Some m)
  with assms(3) show ?thesis by (auto simp: in_tx_def begin_tx_def Let_def)
next
  case None
  let ?c1 = "c\<lparr>c_stmts := Suc (c_stmts c), c_tx := Some (c_com c), c_aborted := False\<rparr>"
  obtain s c2 where body: "body ?c1 = (s, c2)" by fastforce
  have "c_com c2 = c_com c" using tx_evolvesD [OF assms(1) _ body] by auto
  with assms(3) None body show ?thesis
    by (auto simp: in_tx_def begin_tx_def commit_tx_def rollback_tx_def Let_def
        split: sum.splits option.splits if_splits)
qed

subsection \<open>Atomic programs\<close>

text \<open>A program is atomic if an error of it means that the database is as it was.\<close>

definition atomic :: "('m conn_scheme \<Rightarrow> ('e + 'a) \<times> 'm conn_scheme) \<Rightarrow> bool" where
  "atomic m \<longleftrightarrow> (\<forall>c e c'. c_tx c = None \<longrightarrow> m c = (Inl e, c') \<longrightarrow> c_com c' = c_com c)"

lemma atomic_in_tx: "tx_evolves (\<lambda>_ _. True) body \<Longrightarrow> atomic (in_tx b k body)"
  unfolding atomic_def by (intro allI impI) (rule in_tx_error_unchanged)

lemma atomic_fail: "atomic (fail e)"
  by (simp add: atomic_def fail_def)

lemma atomic_ret: "atomic (ret a)"
  by (simp add: atomic_def ret_def)

lemma atomic_exec: "atomic (exec Pool q)"
  by (auto simp: atomic_def exec_def exec_pool_def Let_def split: option.splits sum.splits)

lemma on_err_Inl_iff: "on_err w m c = (Inl e, c') \<longleftrightarrow> (\<exists>e'. m c = (Inl e', c') \<and> e = w e')"
  by (auto simp: on_err_def split: prod.splits sum.splits)

lemma atomic_on_err: "atomic m \<Longrightarrow> atomic (on_err w m)"
  unfolding atomic_def on_err_Inl_iff by blast

lemma atomic_reads:
  assumes "evolves (=) m"
  shows "atomic m"
  unfolding atomic_def
proof (intro allI impI)
  fix c e c'
  assume "c_tx c = None" and "m c = (Inl e, c')"
  from evolvesD [OF assms this] show "c_com c' = c_com c" by simp
qed

text \<open>Reading first does not matter.\<close>

lemma atomic_andthen:
  assumes "evolves (=) m" and "\<And>a. atomic (f a)"
  shows "atomic (andthen m f)"
  unfolding atomic_def
proof (intro allI impI)
  fix c e c'
  assume n: "c_tx c = None" and run: "andthen m f c = (Inl e, c')"
  obtain s c1 where m: "m c = (s, c1)" by fastforce
  have c1: "c_tx c1 = None" "c_com c1 = c_com c" using evolvesD [OF assms(1) n m] by auto
  show "c_com c' = c_com c"
  proof (cases s)
    case (Inl e)
    with run m c1 show ?thesis by (auto simp: andthen_def)
  next
    case (Inr a)
    with run m have "f a c1 = (Inl e, c')" by (simp add: andthen_def)
    with assms(2) c1 show ?thesis unfolding atomic_def by metis
  qed
qed

subsection \<open>Reading a successful run backwards\<close>

lemma andthen_InrE:
  assumes "andthen m f c = (Inr b, c')"
  obtains a c1 where "m c = (Inr a, c1)" "f a c1 = (Inr b, c')"
  using assms by (auto simp: andthen_def split: prod.splits sum.splits)

lemma on_err_InrE:
  assumes "on_err w m c = (Inr b, c')"
  obtains "m c = (Inr b, c')"
  using assms by (auto simp: on_err_def split: prod.splits sum.splits)

lemma on_err_Inr_iff: "on_err w m c = (Inr b, c') \<longleftrightarrow> m c = (Inr b, c')"
  by (auto simp: on_err_def split: prod.splits sum.splits)

lemma ret_Inr_iff [simp]: "ret a c = (r, c') \<longleftrightarrow> r = Inr a \<and> c' = c"
  by (auto simp: ret_def)

lemma fail_Inr_iff [simp]: "fail e c = (r, c') \<longleftrightarrow> r = Inl e \<and> c' = c"
  by (auto simp: fail_def)

lemma exec_Tx_InrE:
  assumes "exec Tx q c = (Inr a, c')"
  obtains v d where "c_tx c = Some v" "q (ctx_of c) v = Inr (a, d)"
    "c' = c\<lparr>c_stmts := Suc (c_stmts c), c_tx := Some d\<rparr>"
  using assms by (auto simp: exec_def exec_tx_def Let_def split: option.splits if_splits sum.splits)

lemma exec_Pool_InrE:
  assumes "exec Pool q c = (Inr a, c')"
  obtains d where "q (ctx_of c) (c_com c) = Inr (a, d)"
    "c' = c\<lparr>c_stmts := Suc (c_stmts c), c_com := d\<rparr>"
  using assms by (auto simp: exec_def exec_pool_def Let_def split: option.splits if_splits sum.splits)

lemma in_tx_InrE:
  assumes "in_tx b k body c = (Inr a, c')"
  obtains c2 v where
    "body (c\<lparr>c_stmts := Suc (c_stmts c), c_tx := Some (c_com c), c_aborted := False\<rparr>) = (Inr a, c2)"
    "c_tx c2 = Some v" "c_com c' = v" "c_tx c' = None"
  using assms
  by (auto simp: in_tx_def begin_tx_def commit_tx_def Let_def
      split: option.splits if_splits sum.splits prod.splits)

subsection \<open>What a successful run leaves behind\<close>

text \<open>
  \<open>tx_post m v P\<close>: if \<open>m\<close> succeeds in a transaction whose view is \<open>v\<close>, its result and the
  view it leaves satisfy \<open>P\<close>. \<open>out_post m d P\<close> says the same of a program run outside of a
  transaction on the committed database \<open>d\<close>.
\<close>

definition tx_post ::
  "('m conn_scheme \<Rightarrow> ('e + 'a) \<times> 'm conn_scheme) \<Rightarrow> db \<Rightarrow> ('a \<Rightarrow> db \<Rightarrow> bool) \<Rightarrow> bool" where
  "tx_post m v P \<longleftrightarrow> (\<forall>c a c'. c_tx c = Some v \<longrightarrow> m c = (Inr a, c') \<longrightarrow>
     (\<exists>v'. c_tx c' = Some v' \<and> P a v'))"

definition out_post ::
  "('m conn_scheme \<Rightarrow> ('e + 'a) \<times> 'm conn_scheme) \<Rightarrow> db \<Rightarrow> ('a \<Rightarrow> db \<Rightarrow> bool) \<Rightarrow> bool" where
  "out_post m d P \<longleftrightarrow> (\<forall>c a c'. c_tx c = None \<longrightarrow> c_com c = d \<longrightarrow> m c = (Inr a, c') \<longrightarrow>
     c_tx c' = None \<and> P a (c_com c'))"

lemma tx_postD: "tx_post m v P \<Longrightarrow> c_tx c = Some v \<Longrightarrow> m c = (Inr a, c') \<Longrightarrow> \<exists>v'. c_tx c' = Some v' \<and> P a v'"
  unfolding tx_post_def by blast

lemma out_postD: "out_post m (c_com c) P \<Longrightarrow> c_tx c = None \<Longrightarrow> m c = (Inr a, c') \<Longrightarrow> c_tx c' = None \<and> P a (c_com c')"
  unfolding out_post_def by blast

lemma tx_post_mono: "tx_post m v P \<Longrightarrow> (\<And>a v'. P a v' \<Longrightarrow> Q a v') \<Longrightarrow> tx_post m v Q"
  unfolding tx_post_def by blast

lemma tx_post_evolves: "tx_evolves R m \<Longrightarrow> tx_post m v (\<lambda>_ v'. R v v')"
  unfolding tx_post_def tx_evolves_def by blast

lemma tx_post_also:
  assumes "tx_post m v P" and "tx_evolves R m" and "\<And>a v'. P a v' \<Longrightarrow> R v v' \<Longrightarrow> Q a v'"
  shows "tx_post m v Q"
  unfolding tx_post_def
proof (intro allI impI)
  fix c a c'
  assume c: "c_tx c = Some v" and run: "m c = (Inr a, c')"
  obtain v' where v': "c_tx c' = Some v'" "P a v'" using tx_postD [OF assms(1) c run] by blast
  then have "R v v'" using tx_evolvesD [OF assms(2) c run] by simp
  with v' assms(3) show "\<exists>v'. c_tx c' = Some v' \<and> Q a v'" by blast
qed

lemma tx_post_ret: "P a v \<Longrightarrow> tx_post (ret a) v P"
  by (simp add: tx_post_def)

lemma tx_post_andthen: "tx_post m v (\<lambda>a v'. tx_post (f a) v' P) \<Longrightarrow> tx_post (andthen m f) v P"
  unfolding tx_post_def by (blast elim: andthen_InrE)

lemma tx_post_on_err: "tx_post m v P \<Longrightarrow> tx_post (on_err w m) v P"
  unfolding tx_post_def on_err_Inr_iff .

lemma tx_post_bind:
  "tx_post m v Q \<Longrightarrow> (\<And>a v'. Q a v' \<Longrightarrow> tx_post (f a) v' P) \<Longrightarrow> tx_post (andthen m f) v P"
  by (rule tx_post_andthen) (rule tx_post_mono)

lemma tx_post_bind_err:
  "tx_post m v Q \<Longrightarrow> (\<And>a v'. Q a v' \<Longrightarrow> tx_post (f a) v' P) \<Longrightarrow> tx_post (andthen (on_err w m) f) v P"
  by (rule tx_post_bind [OF tx_post_on_err])

lemma tx_post_exec: "(\<And>x a d. q x v = Inr (a, d) \<Longrightarrow> P a d) \<Longrightarrow> tx_post (exec Tx q) v P"
  unfolding tx_post_def by (fastforce elim!: exec_Tx_InrE)

lemma tx_post_for_each:
  assumes "I [] v"
    and "\<And>ys x v. x \<in> set xs \<Longrightarrow> I ys v \<Longrightarrow> tx_post (f x) v (\<lambda>_ v'. I (ys @ [x]) v')"
  shows "tx_post (for_each f xs) v (\<lambda>_ v'. I xs v')"
proof -
  have "I ys v \<Longrightarrow> set zs \<subseteq> set xs \<Longrightarrow> tx_post (for_each f zs) v (\<lambda>_ v'. I (ys @ zs) v')" for ys zs v
  proof (induction zs arbitrary: ys v)
    case Nil
    then show ?case by (simp add: tx_post_ret)
  next
    case (Cons z zs)
    have "tx_post (f z) v (\<lambda>_ v'. I (ys @ [z]) v')" using assms(2) Cons.prems by simp
    then have "tx_post (f z) v (\<lambda>_ v'. tx_post (for_each f zs) v' (\<lambda>_ v''. I ((ys @ [z]) @ zs) v''))"
    proof (rule tx_post_mono)
      fix a v' assume "I (ys @ [z]) v'"
      then show "tx_post (for_each f zs) v' (\<lambda>_ v''. I ((ys @ [z]) @ zs) v'')"
        by (rule Cons.IH) (use Cons.prems in simp)
    qed
    then show ?case by (simp add: tx_post_andthen)
  qed
  from this [OF assms(1) order.refl] show ?thesis by simp
qed

lemma out_post_mono: "out_post m d P \<Longrightarrow> (\<And>a d'. P a d' \<Longrightarrow> Q a d') \<Longrightarrow> out_post m d Q"
  unfolding out_post_def by blast

lemma out_post_ret: "P a d \<Longrightarrow> out_post (ret a) d P"
  by (simp add: out_post_def)

lemma out_post_fail: "out_post (fail e) d P"
  by (simp add: out_post_def)

lemma out_post_andthen: "out_post m d (\<lambda>a d'. out_post (f a) d' P) \<Longrightarrow> out_post (andthen m f) d P"
  unfolding out_post_def by (blast elim: andthen_InrE)

lemma out_post_on_err: "out_post m d P \<Longrightarrow> out_post (on_err w m) d P"
  unfolding out_post_def on_err_Inr_iff .

lemma out_post_exec: "(\<And>x a d'. q x d = Inr (a, d') \<Longrightarrow> P a d') \<Longrightarrow> out_post (exec Pool q) d P"
  unfolding out_post_def by (fastforce elim!: exec_Pool_InrE)

lemma out_post_in_tx:
  assumes "tx_post body d P"
  shows "out_post (in_tx b k body) d P"
  unfolding out_post_def
proof (intro allI impI)
  fix c a c'
  assume d: "c_com c = d" and run: "in_tx b k body c = (Inr a, c')"
  from run obtain c2 v where body:
    "body (c\<lparr>c_stmts := Suc (c_stmts c), c_tx := Some (c_com c), c_aborted := False\<rparr>) = (Inr a, c2)"
    "c_tx c2 = Some v" "c_com c' = v" "c_tx c' = None"
    by (rule in_tx_InrE)
  from tx_postD [OF assms _ body(1)] d body show "c_tx c' = None \<and> P a (c_com c')" by auto
qed

text \<open>The definitions that evaluate a run on a concrete state.\<close>

lemmas run_eval = in_tx_def begin_tx_def commit_tx_def rollback_tx_def andthen_def on_err_def
  attempt_def exec_def exec_tx_def exec_pool_def ctx_of_def ret_def fail_def Let_def

lemmas tx_post_rules = tx_post_ret tx_post_andthen tx_post_on_err tx_post_exec
lemmas out_post_rules = out_post_ret out_post_fail out_post_andthen out_post_on_err out_post_exec

end
