(* ===== verification/Sql.thy ===== *)
theory Sql
  imports Conn "HOL-Library.Product_Lexorder" "HOL-Library.List_Lexorder"
begin

text \<open>
  What the queries of the repository have in common: the shapes of a \<^verbatim>\<open>SELECT\<close>, the test
  of the text parameters, the sort keys of \<^verbatim>\<open>ORDER BY\<close>, \<^verbatim>\<open>LIKE\<close>, and the
  relation \<open>wf_step\<close> that every query is shown to take the database along.
\<close>

subsection \<open>Shapes of queries\<close>

definition rows :: "(db \<Rightarrow> 'a) \<Rightarrow> 'a sql" where
  "rows f x d = Inr (f d, d)"

definition row_of :: "'a option \<Rightarrow> db \<Rightarrow> db_err + ('a \<times> db)" where
  "row_of r d = (case r of None \<Rightarrow> Inl NoRows | Some a \<Rightarrow> Inr (a, d))"

definition one_row :: "(db \<Rightarrow> 'a option) \<Rightarrow> 'a sql" where
  "one_row f x d = row_of (f d) d"

definition with_texts :: "string list \<Rightarrow> 'a sql \<Rightarrow> 'a sql" where
  "with_texts ss q x d = (if texts_ok ss then q x d else Inl InvalidText)"

lemma reads_rows [simp, keeps_intros]: "sql_reads (rows f)"
  by (simp add: sql_reads_def rows_def)

lemma reads_one_row [simp, keeps_intros]: "sql_reads (one_row f)"
  by (simp add: sql_reads_def one_row_def row_of_def split: option.splits)

lemma reads_with_texts [simp, keeps_intros]: "sql_reads q \<Longrightarrow> sql_reads (with_texts ss q)"
  by (auto simp: sql_reads_def with_texts_def)

lemma step_with_texts [keeps_intros]: "sql_step R q \<Longrightarrow> sql_step R (with_texts ss q)"
  by (auto simp: sql_step_def with_texts_def)

lemma one_row_Inr_iff: "one_row f x d = Inr (a, d') \<longleftrightarrow> f d = Some a \<and> d' = d"
  by (auto simp: one_row_def row_of_def split: option.splits)

lemma one_row_Inl_iff: "one_row f x d = Inl e \<longleftrightarrow> f d = None \<and> e = NoRows"
  by (auto simp: one_row_def row_of_def split: option.splits)

lemma rows_Inr_iff: "rows f x d = Inr (a, d') \<longleftrightarrow> a = f d \<and> d' = d"
  by (auto simp: rows_def)

lemma with_texts_Inr_iff: "with_texts ss q x d = Inr r \<longleftrightarrow> texts_ok ss \<and> q x d = Inr r"
  by (simp add: with_texts_def)

lemmas sql_iffs = one_row_Inr_iff one_row_Inl_iff rows_Inr_iff with_texts_Inr_iff

definition opt_list :: "'a option \<Rightarrow> 'a list" where
  "opt_list x = (case x of None \<Rightarrow> [] | Some a \<Rightarrow> [a])"

subsection \<open>Order and pattern matching\<close>

text \<open>\<^verbatim>\<open>ORDER BY primary_deadline ASC NULLS LAST, name ASC\<close>\<close>

definition deadline_key :: "env \<Rightarrow> conference \<Rightarrow> bool \<times> int \<times> nat list" where
  "deadline_key env c =
     (case cPrimaryDeadline c of None \<Rightarrow> (True, 0, e_collate env (cName c))
      | Some t \<Rightarrow> (False, t, e_collate env (cName c)))"

text \<open>
  \<^verbatim>\<open>LIKE\<close> on code points: \<^verbatim>\<open>%\<close> is any sequence, \<^verbatim>\<open>_\<close> any
  one character, and a backslash takes the next character literally.
\<close>

fun like_match :: "rune list \<Rightarrow> rune list \<Rightarrow> bool" where
  "like_match [] t = (t = [])"
| "like_match (p # ps) t =
     (if p = 37 then like_match ps t \<or> (case t of [] \<Rightarrow> False | _ # t' \<Rightarrow> like_match (p # ps) t')
      else if p = 95 then (case t of [] \<Rightarrow> False | _ # t' \<Rightarrow> like_match ps t')
      else if p = 92 then
        (case ps of [] \<Rightarrow> False
         | q # qs \<Rightarrow> (case t of [] \<Rightarrow> False | c # t' \<Rightarrow> c = q \<and> like_match qs t'))
      else (case t of [] \<Rightarrow> False | c # t' \<Rightarrow> c = p \<and> like_match ps t'))"

text \<open>\<^verbatim>\<open>a ILIKE '%' || b || '%'\<close>\<close>

definition ILIKE_within :: "env \<Rightarrow> string \<Rightarrow> string \<Rightarrow> bool" where
  "ILIKE_within env a b =
     like_match (runes (e_pg_lower env (''%'' @ b @ ''%''))) (runes (e_pg_lower env a))"

definition plain_rune :: "rune \<Rightarrow> bool" where
  "plain_rune r \<longleftrightarrow> r \<noteq> 37 \<and> r \<noteq> 95 \<and> r \<noteq> 92"

lemma like_match_any: "like_match [37] t"
  by (induction t) simp_all

lemma like_match_plain_prefix:
  assumes "\<forall>r \<in> set p. plain_rune r"
  shows "like_match (p @ [37]) t \<longleftrightarrow> (\<exists>b. t = p @ b)"
  using assms
proof (induction p arbitrary: t)
  case Nil
  then show ?case using like_match_any by simp
next
  case (Cons c p)
  then have c: "c \<noteq> 37" "c \<noteq> 95" "c \<noteq> 92" by (simp_all add: plain_rune_def)
  show ?case using Cons c by (cases t) auto
qed

text \<open>A search term without wildcards is searched for as it is.\<close>

lemma like_match_within:
  assumes "\<forall>r \<in> set p. plain_rune r"
  shows "like_match (37 # p @ [37]) t \<longleftrightarrow> (\<exists>a b. t = a @ p @ b)"
proof (induction t)
  case Nil
  show ?case using like_match_plain_prefix [OF assms, of "[]"] by simp
next
  case (Cons c t)
  have "like_match (37 # p @ [37]) (c # t) \<longleftrightarrow>
      like_match (p @ [37]) (c # t) \<or> like_match (37 # p @ [37]) t" by simp
  also have "\<dots> \<longleftrightarrow> (\<exists>b. c # t = p @ b) \<or> (\<exists>a b. t = a @ p @ b)"
    by (simp only: like_match_plain_prefix [OF assms] Cons.IH)
  also have "\<dots> \<longleftrightarrow> (\<exists>a b. c # t = a @ p @ b)"
    by (auto simp: Cons_eq_append_conv)
  finally show ?case .
qed

declare like_match.simps(2) [simp del]

subsection \<open>The invariant of the schema along a statement\<close>

definition wf_step :: "env \<Rightarrow> db \<Rightarrow> db \<Rightarrow> bool" where
  "wf_step env d d' \<longleftrightarrow> (wf_db env d \<longrightarrow> wf_db env d')"

interpretation wf: evolution "wf_step env" for env
  by unfold_locales (auto simp: wf_step_def)

text \<open>
  Reminders that were sent, failed or were cancelled are the history of the dispatcher: no
  service changes or removes them.
\<close>

definition history :: "db \<Rightarrow> reminder set" where
  "history d = {r \<in> set (reminders d). rStatus r \<noteq> Pending}"

definition keeps_history :: "db \<Rightarrow> db \<Rightarrow> bool" where
  "keeps_history d d' \<longleftrightarrow> history d \<subseteq> history d'"

interpretation hist: evolution keeps_history
  by unfold_locales (auto simp: keeps_history_def)

lemma keeps_history_same: "reminders d' = reminders d \<Longrightarrow> keeps_history d d'"
  by (simp add: keeps_history_def history_def)

lemma wf_stepI: "(\<And>x d a d'. q x d = Inr (a, d') \<Longrightarrow> wf_db env d \<Longrightarrow> wf_db env d') \<Longrightarrow> sql_step (wf_step env) q"
  by (auto simp: sql_step_def wf_step_def)

lemma hist_stepI: "(\<And>x d a d'. q x d = Inr (a, d') \<Longrightarrow> reminders d' = reminders d) \<Longrightarrow> sql_step keeps_history q"
  by (auto simp: sql_step_def intro!: keeps_history_same)

lemma wf_dbD:
  assumes "wf_db env d"
  shows "users_ok d" "conferences_ok env d" "tags_ok d" "tracks_ok d" "stars_ok d"
    "settings_ok d" "tokens_ok d" "reminders_ok d" "digests_ok d" "audit_ok d"
  using assms by (simp_all add: wf_db_def)

end
