(* ===== verification/Repo_Conferences.thy ===== *)
theory Repo_Conferences
  imports Sql
begin

text \<open>
  The queries of \<^verbatim>\<open>repository/conferences.sql.go\<close>, \<^verbatim>\<open>tags.sql.go\<close>,
  \<^verbatim>\<open>tracks.sql.go\<close> and \<^verbatim>\<open>stars.sql.go\<close>: what each statement returns and
  writes, with the constraint it fails on. Numeric overflow of a parameter comes first, then the
  CHECKs, then uniqueness, then the foreign keys. The lemmas show that every statement keeps
  the invariant of the schema, and that none but the deletion of a conference, with its
  cascades, touches the history of the reminders.
\<close>

subsection \<open>Rows and parameters\<close>

record GetConferenceTagsRow =
  gtID :: uuid
  gtSlug :: string
  gtName :: string

record GetConferenceTracksRow =
  gkCode :: string
  gkDisplayName :: string
  gkSortOrder :: int

record starring_row =
  srUserID :: uuid
  srReminderLeadDays :: "int list"
  srTimezone :: string

record ListConferencesParams =
  lpIncludeArchived :: "bool option"
  lpTagSlug :: "string option"
  lpTrackCode :: "string option"
  lpSearch :: "string option"

text \<open>The parameters that \<^verbatim>\<open>CreateConference\<close> and \<^verbatim>\<open>UpdateConference\<close> share.\<close>

record conference_params =
  pName :: string
  pAcronym :: string
  pYear :: int
  pLocation :: string
  pWebsiteUrl :: "string option"
  pCfpUrl :: "string option"
  pPrimaryDeadline :: "instant option"
  pAbstractDeadline :: "instant option"
  pNotificationDate :: "instant option"
  pCameraReadyDate :: "instant option"
  pEventStartDate :: "instant option"
  pEventEndDate :: "instant option"
  pCoreRank :: "string option"
  pH5Index :: "int option"
  pAcceptanceRatePct :: "int option"
  pDblpKey :: "string option"
  pNotes :: "string option"
  pUpdatedBy :: "uuid option"

record CreateConferenceParams = conference_params +
  pCreatedBy :: "uuid option"

record UpdateConferenceParams = conference_params +
  pID :: uuid

text \<open>\<^verbatim>\<open>numeric(5,2)\<close> holds less than a thousand.\<close>

definition numeric_5_2_ok :: "int option \<Rightarrow> bool" where
  "numeric_5_2_ok p = (case p of None \<Rightarrow> True | Some v \<Rightarrow> \<bar>v\<bar> < 100000)"

definition param_texts :: "'m conference_params_scheme \<Rightarrow> string list" where
  "param_texts p = [pName p, pAcronym p, pLocation p] @ opt_list (pWebsiteUrl p)
     @ opt_list (pCfpUrl p) @ opt_list (pCoreRank p) @ opt_list (pDblpKey p) @ opt_list (pNotes p)"

text \<open>The columns a parameter record sets.\<close>

definition set_columns :: "'m conference_params_scheme \<Rightarrow> conference \<Rightarrow> conference" where
  "set_columns p c = c\<lparr>
     cName := pName p, cAcronym := pAcronym p, cYear := pYear p, cLocation := pLocation p,
     cWebsiteUrl := pWebsiteUrl p, cCfpUrl := pCfpUrl p,
     cPrimaryDeadline := map_option pg_ts (pPrimaryDeadline p),
     cAbstractDeadline := map_option pg_ts (pAbstractDeadline p),
     cNotificationDate := map_option pg_ts (pNotificationDate p),
     cCameraReadyDate := map_option pg_ts (pCameraReadyDate p),
     cEventStartDate := pEventStartDate p, cEventEndDate := pEventEndDate p,
     cCoreRank := pCoreRank p, cH5Index := pH5Index p,
     cAcceptanceRatePct := pAcceptanceRatePct p, cDblpKey := pDblpKey p, cNotes := pNotes p,
     cUpdatedBy := pUpdatedBy p\<rparr>"

definition new_conference :: "stmt_ctx \<Rightarrow> CreateConferenceParams \<Rightarrow> conference" where
  "new_conference x p = set_columns p \<lparr>
     cID = x_gen x, cName = [], cAcronym = [], cYear = 0, cLocation = [], cWebsiteUrl = None,
     cCfpUrl = None, cPrimaryDeadline = None, cAbstractDeadline = None, cNotificationDate = None,
     cCameraReadyDate = None, cEventStartDate = None, cEventEndDate = None, cCoreRank = None,
     cH5Index = None, cAcceptanceRatePct = None, cDblpKey = None, cNotes = None,
     cArchivedAt = None, cCreatedBy = pCreatedBy p, cUpdatedBy = None,
     cCreatedAt = x_now x, cUpdatedAt = x_now x\<rparr>"

subsection \<open>Conferences\<close>

definition CreateConference :: "env \<Rightarrow> CreateConferenceParams \<Rightarrow> conference sql" where
  "CreateConference env p = with_texts (param_texts p) (\<lambda>x d.
     let c = new_conference x p in
     if \<not> numeric_5_2_ok (pAcceptanceRatePct p) then Inl NumericOverflow
     else case conference_check c of
       Some k \<Rightarrow> Inl (CheckViolation k)
     | None \<Rightarrow>
         if cID c \<in> set (conf_ids d) then Inl (UniqueViolation ''conferences_pkey'')
         else if acronym_year env c \<in> set (map (acronym_year env) (conferences d))
         then Inl (UniqueViolation ''uq_conferences_acronym_year'')
         else if \<not> opt_in (cCreatedBy c) (user_ids d)
         then Inl (ForeignKeyViolation ''conferences_created_by_fkey'')
         else if \<not> opt_in (cUpdatedBy c) (user_ids d)
         then Inl (ForeignKeyViolation ''conferences_updated_by_fkey'')
         else Inr (c, d\<lparr>conferences := conferences d @ [c]\<rparr>))"

definition UpdateConference :: "env \<Rightarrow> UpdateConferenceParams \<Rightarrow> conference sql" where
  "UpdateConference env p = with_texts (param_texts p) (\<lambda>x d.
     if \<not> numeric_5_2_ok (pAcceptanceRatePct p) then Inl NumericOverflow
     else case find (\<lambda>c. cID c = pID p) (conferences d) of
       None \<Rightarrow> Inl NoRows
     | Some old \<Rightarrow>
         (let c = (set_columns p old)\<lparr>cUpdatedAt := x_now x\<rparr> in
          case conference_check c of
            Some k \<Rightarrow> Inl (CheckViolation k)
          | None \<Rightarrow>
              if acronym_year env c \<in> set (map (acronym_year env) (filter (\<lambda>r. cID r \<noteq> pID p) (conferences d)))
              then Inl (UniqueViolation ''uq_conferences_acronym_year'')
              else if cUpdatedBy c \<noteq> cUpdatedBy old \<and> \<not> opt_in (cUpdatedBy c) (user_ids d)
              then Inl (ForeignKeyViolation ''conferences_updated_by_fkey'')
              else Inr (c, d\<lparr>conferences := update_where (\<lambda>r. cID r = pID p) (\<lambda>_. c) (conferences d)\<rparr>)))"

definition ArchiveConference :: "uuid \<Rightarrow> conference sql" where
  "ArchiveConference i x d =
     (case find (\<lambda>c. cID c = i) (conferences d) of
        None \<Rightarrow> Inl NoRows
      | Some old \<Rightarrow>
          (let c = old\<lparr>cArchivedAt := (case cArchivedAt old of Some t \<Rightarrow> Some t | None \<Rightarrow> Some (x_now x)),
                       cUpdatedAt := x_now x\<rparr> in
           Inr (c, d\<lparr>conferences := update_where (\<lambda>r. cID r = i) (\<lambda>_. c) (conferences d)\<rparr>)))"

definition UnarchiveConference :: "uuid \<Rightarrow> conference sql" where
  "UnarchiveConference i x d =
     (case find (\<lambda>c. cID c = i) (conferences d) of
        None \<Rightarrow> Inl NoRows
      | Some old \<Rightarrow>
          (let c = old\<lparr>cArchivedAt := None, cUpdatedAt := x_now x\<rparr> in
           Inr (c, d\<lparr>conferences := update_where (\<lambda>r. cID r = i) (\<lambda>_. c) (conferences d)\<rparr>)))"

text \<open>The rows of the other tables that reference the conference go with it.\<close>

definition DeleteConference :: "uuid \<Rightarrow> int sql" where
  "DeleteConference i x d =
     Inr (int (length (filter (\<lambda>c. cID c = i) (conferences d))),
          d\<lparr>conferences := delete_where (\<lambda>c. cID c = i) (conferences d),
            conference_tags := (if i \<in> set (conf_ids d) then delete_where (\<lambda>(c, t). c = i) (conference_tags d)
                                else conference_tags d),
            conference_tracks := (if i \<in> set (conf_ids d) then delete_where (\<lambda>(c, t). c = i) (conference_tracks d)
                                  else conference_tracks d),
            stars := (if i \<in> set (conf_ids d) then delete_where (\<lambda>s. sConferenceID s = i) (stars d) else stars d),
            reminders := (if i \<in> set (conf_ids d) then delete_where (\<lambda>r. rConferenceID r = i) (reminders d)
                          else reminders d)\<rparr>)"

definition GetConference :: "uuid \<Rightarrow> conference sql" where
  "GetConference i = one_row (\<lambda>d. find (\<lambda>c. cID c = i) (conferences d))"

definition GetConferenceByAcronymYear :: "env \<Rightarrow> string \<Rightarrow> int \<Rightarrow> conference sql" where
  "GetConferenceByAcronymYear env a y = with_texts [a]
     (one_row (\<lambda>d. find (\<lambda>c. acronym_year env c = (e_pg_lower env a, y)) (conferences d)))"

definition list_where :: "env \<Rightarrow> db \<Rightarrow> ListConferencesParams \<Rightarrow> conference \<Rightarrow> bool" where
  "list_where env d p c \<longleftrightarrow>
     (lpIncludeArchived p = Some True \<or> cArchivedAt c = None)
     \<and> (case lpTagSlug p of None \<Rightarrow> True
        | Some s \<Rightarrow> list_ex (\<lambda>(i, t). i = cID c \<and> list_ex (\<lambda>g. tID g = t \<and> tSlug g = s) (tags d)) (conference_tags d))
     \<and> (case lpTrackCode p of None \<Rightarrow> True | Some k \<Rightarrow> (cID c, k) \<in> set (conference_tracks d))
     \<and> (case lpSearch p of None \<Rightarrow> True
        | Some s \<Rightarrow> ILIKE_within env (cName c) s \<or> ILIKE_within env (cAcronym c) s)"

definition ListConferences :: "env \<Rightarrow> ListConferencesParams \<Rightarrow> conference list sql" where
  "ListConferences env p =
     with_texts (opt_list (lpTagSlug p) @ opt_list (lpTrackCode p) @ opt_list (lpSearch p))
       (rows (\<lambda>d. sort_key (deadline_key env) (filter (list_where env d p) (conferences d))))"

subsection \<open>Tags and tracks\<close>

definition tag_row :: "tag \<Rightarrow> GetConferenceTagsRow" where
  "tag_row t = \<lparr>gtID = tID t, gtSlug = tSlug t, gtName = tName t\<rparr>"

definition track_row :: "track \<Rightarrow> GetConferenceTracksRow" where
  "track_row t = \<lparr>gkCode = trCode t, gkDisplayName = trDisplayName t, gkSortOrder = trSortOrder t\<rparr>"

definition ListTags :: "env \<Rightarrow> GetConferenceTagsRow list sql" where
  "ListTags env = rows (\<lambda>d. map tag_row (sort_key (\<lambda>t. e_collate env (tSlug t)) (tags d)))"

definition ListTracks :: "env \<Rightarrow> GetConferenceTracksRow list sql" where
  "ListTracks env = rows (\<lambda>d. map track_row
     (sort_key (\<lambda>t. (trSortOrder t, e_collate env (trCode t))) (tracks d)))"

definition GetTagBySlug :: "string \<Rightarrow> GetConferenceTagsRow sql" where
  "GetTagBySlug s = with_texts [s] (one_row (\<lambda>d. map_option tag_row (find (\<lambda>t. tSlug t = s) (tags d))))"

definition GetConferenceTags :: "env \<Rightarrow> uuid \<Rightarrow> GetConferenceTagsRow list sql" where
  "GetConferenceTags env i = rows (\<lambda>d. map tag_row
     (sort_key (\<lambda>t. e_collate env (tSlug t)) (filter (\<lambda>t. (i, tID t) \<in> set (conference_tags d)) (tags d))))"

definition GetConferenceTracks :: "env \<Rightarrow> uuid \<Rightarrow> GetConferenceTracksRow list sql" where
  "GetConferenceTracks env i = rows (\<lambda>d. map track_row
     (sort_key (\<lambda>t. (trSortOrder t, e_collate env (trCode t)))
        (filter (\<lambda>t. (i, trCode t) \<in> set (conference_tracks d)) (tracks d))))"

definition UpsertTagBySlug :: "string \<Rightarrow> string \<Rightarrow> GetConferenceTagsRow sql" where
  "UpsertTagBySlug slug name = with_texts [slug, name] (\<lambda>x d.
     case find (\<lambda>t. tSlug t = slug) (tags d) of
       Some old \<Rightarrow>
         (let t = old\<lparr>tName := name, tUpdatedAt := x_now x\<rparr> in
          Inr (tag_row t, d\<lparr>tags := update_where (\<lambda>r. tSlug r = slug) (\<lambda>_. t) (tags d)\<rparr>))
     | None \<Rightarrow>
         if x_gen x \<in> set (tag_ids d) then Inl (UniqueViolation ''tags_pkey'')
         else
           (let t = \<lparr>tID = x_gen x, tSlug = slug, tName = name, tCreatedAt = x_now x, tUpdatedAt = x_now x\<rparr> in
            Inr (tag_row t, d\<lparr>tags := tags d @ [t]\<rparr>)))"

definition AddConferenceTag :: "uuid \<Rightarrow> uuid \<Rightarrow> unit sql" where
  "AddConferenceTag i t x d =
     (if (i, t) \<in> set (conference_tags d) then Inr ((), d)
      else if i \<notin> set (conf_ids d) then Inl (ForeignKeyViolation ''conference_tags_conference_id_fkey'')
      else if t \<notin> set (tag_ids d) then Inl (ForeignKeyViolation ''conference_tags_tag_id_fkey'')
      else Inr ((), d\<lparr>conference_tags := conference_tags d @ [(i, t)]\<rparr>))"

definition AddConferenceTrack :: "uuid \<Rightarrow> string \<Rightarrow> unit sql" where
  "AddConferenceTrack i k = with_texts [k] (\<lambda>x d.
     if (i, k) \<in> set (conference_tracks d) then Inr ((), d)
     else if i \<notin> set (conf_ids d) then Inl (ForeignKeyViolation ''conference_tracks_conference_id_fkey'')
     else if k \<notin> set (track_codes d) then Inl (ForeignKeyViolation ''conference_tracks_track_code_fkey'')
     else Inr ((), d\<lparr>conference_tracks := conference_tracks d @ [(i, k)]\<rparr>))"

definition DeleteAllConferenceTags :: "uuid \<Rightarrow> unit sql" where
  "DeleteAllConferenceTags i x d =
     Inr ((), d\<lparr>conference_tags := delete_where (\<lambda>(c, t). c = i) (conference_tags d)\<rparr>)"

definition DeleteAllConferenceTracks :: "uuid \<Rightarrow> unit sql" where
  "DeleteAllConferenceTracks i x d =
     Inr ((), d\<lparr>conference_tracks := delete_where (\<lambda>(c, t). c = i) (conference_tracks d)\<rparr>)"

subsection \<open>Stars\<close>

definition CreateStar :: "uuid \<Rightarrow> uuid \<Rightarrow> unit sql" where
  "CreateStar u i x d =
     (if (u, i) \<in> set (map star_key (stars d)) then Inr ((), d)
      else if u \<notin> set (user_ids d) then Inl (ForeignKeyViolation ''stars_user_id_fkey'')
      else if i \<notin> set (conf_ids d) then Inl (ForeignKeyViolation ''stars_conference_id_fkey'')
      else Inr ((), d\<lparr>stars := stars d @ [\<lparr>sUserID = u, sConferenceID = i, sCreatedAt = x_now x\<rparr>]\<rparr>))"

definition DeleteStar :: "uuid \<Rightarrow> uuid \<Rightarrow> int sql" where
  "DeleteStar u i x d =
     Inr (int (length (filter (\<lambda>s. star_key s = (u, i)) (stars d))),
          d\<lparr>stars := delete_where (\<lambda>s. star_key s = (u, i)) (stars d)\<rparr>)"

definition GetStar :: "uuid \<Rightarrow> uuid \<Rightarrow> star sql" where
  "GetStar u i = one_row (\<lambda>d. find (\<lambda>s. star_key s = (u, i)) (stars d))"

definition ListUserStarredConferences :: "env \<Rightarrow> uuid \<Rightarrow> conference list sql" where
  "ListUserStarredConferences env u = rows (\<lambda>d. sort_key (deadline_key env)
     (filter (\<lambda>c. (u, cID c) \<in> set (map star_key (stars d))) (conferences d)))"

definition ListUsersStarringConferenceWithSettings :: "uuid \<Rightarrow> starring_row list sql" where
  "ListUsersStarringConferenceWithSettings i = rows (\<lambda>d.
     [\<lparr>srUserID = sUserID s, srReminderLeadDays = usReminderLeadDays us, srTimezone = usTimezone us\<rparr>.
      s \<leftarrow> stars d, sConferenceID s = i, us \<leftarrow> user_settings d, usUserID us = sUserID s])"

lemmas conference_reads = GetConference_def GetConferenceByAcronymYear_def ListConferences_def
  ListTags_def ListTracks_def GetTagBySlug_def GetConferenceTags_def GetConferenceTracks_def
  GetStar_def ListUserStarredConferences_def ListUsersStarringConferenceWithSettings_def

lemma conference_reads_only [simp, keeps_intros]:
  "sql_reads (GetConference i)" "sql_reads (GetConferenceByAcronymYear env a y)"
  "sql_reads (ListConferences env p)" "sql_reads (ListTags env)" "sql_reads (ListTracks env)"
  "sql_reads (GetTagBySlug s)" "sql_reads (GetConferenceTags env i)"
  "sql_reads (GetConferenceTracks env i)" "sql_reads (GetStar u i)"
  "sql_reads (ListUserStarredConferences env u)"
  "sql_reads (ListUsersStarringConferenceWithSettings i)"
  by (simp_all add: conference_reads)

subsection \<open>Every statement keeps the invariant\<close>

lemma oks_conferences [frame_simps]:
  "users_ok (d\<lparr>conferences := x\<rparr>) = users_ok d"
  "settings_ok (d\<lparr>conferences := x\<rparr>) = settings_ok d"
  "tokens_ok (d\<lparr>conferences := x\<rparr>) = tokens_ok d"
  "digests_ok (d\<lparr>conferences := x\<rparr>) = digests_ok d"
  "audit_ok (d\<lparr>conferences := x\<rparr>) = audit_ok d"
  by (simp_all add: table_oks id_lists)

lemma oks_conference_ids:
  assumes "set (conf_ids d) \<subseteq> set (map cID cs)"
  shows "tags_ok d \<Longrightarrow> tags_ok (d\<lparr>conferences := cs\<rparr>)" "tracks_ok d \<Longrightarrow> tracks_ok (d\<lparr>conferences := cs\<rparr>)"
    "stars_ok d \<Longrightarrow> stars_ok (d\<lparr>conferences := cs\<rparr>)" "reminders_ok d \<Longrightarrow> reminders_ok (d\<lparr>conferences := cs\<rparr>)"
  using assms by (auto simp: table_oks id_lists)

lemma wf_conferences:
  assumes "wf_db env d" and "set (conf_ids d) \<subseteq> set (map cID cs)"
    and "conferences_ok env (d\<lparr>conferences := cs\<rparr>)"
  shows "wf_db env (d\<lparr>conferences := cs\<rparr>)"
  using assms oks_conference_ids [OF assms(2)] by (simp add: wf_db_def frame_simps)

lemma wf_replace_conference:
  assumes wf: "wf_db env d" and c: "cID c = i" "conference_check c = None"
    and fk: "opt_in (cCreatedBy c) (user_ids d)" "opt_in (cUpdatedBy c) (user_ids d)"
    and key: "acronym_year env c \<notin> acronym_year env ` {r \<in> set (conferences d). cID r \<noteq> i}"
  shows "wf_db env (d\<lparr>conferences := update_where (\<lambda>r. cID r = i) (\<lambda>_. c) (conferences d)\<rparr>)"
proof (rule wf_conferences [OF wf])
  let ?cs = "update_where (\<lambda>r. cID r = i) (\<lambda>_. c) (conferences d)"
  have ids: "map cID ?cs = conf_ids d"
    unfolding conf_ids_def using c(1) by (intro map_update_where_key) simp
  then show "set (conf_ids d) \<subseteq> set (map cID ?cs)" by simp
  have ok: "conferences_ok env d" using wf by (rule wf_dbD)
  then have "distinct (map (acronym_year env) ?cs)"
    using distinct_map_update_row [of "acronym_year env" "conferences d" cID c i] key
    by (simp add: conferences_ok_def conf_ids_def)
  with ok ids c fk show "conferences_ok env (d\<lparr>conferences := ?cs\<rparr>)"
    by (auto simp: conferences_ok_def conf_ids_def user_ids_def in_update_where_iff)
qed

lemma wf_UpdateConference [keeps_intros]: "sql_step (wf_step env) (UpdateConference env p)"
proof (rule wf_stepI)
  fix x d a d'
  assume run: "UpdateConference env p x d = Inr (a, d')" and wf: "wf_db env d"
  then obtain old where old: "find (\<lambda>c. cID c = pID p) (conferences d) = Some old"
    by (auto simp: UpdateConference_def with_texts_def split: if_splits option.splits)
  let ?c = "(set_columns p old)\<lparr>cUpdatedAt := x_now x\<rparr>"
  have mem: "old \<in> set (conferences d)" "cID old = pID p"
    using find_Some_iff_mem [OF old] by simp_all
  have ok: "conferences_ok env d" using wf by (rule wf_dbD)
  have upd: "conference_check ?c = None"
      "acronym_year env ?c \<notin> acronym_year env ` {r \<in> set (conferences d). cID r \<noteq> pID p}"
      "cUpdatedBy ?c = cUpdatedBy old \<or> opt_in (cUpdatedBy ?c) (user_ids d)"
      "d' = d\<lparr>conferences := update_where (\<lambda>r. cID r = pID p) (\<lambda>_. ?c) (conferences d)\<rparr>"
    using run old by (auto simp: UpdateConference_def with_texts_def Let_def split: if_splits option.splits)
  have "cID ?c = pID p" "cCreatedBy ?c = cCreatedBy old" using mem by (simp_all add: set_columns_def)
  moreover have "opt_in (cCreatedBy old) (user_ids d)" "opt_in (cUpdatedBy old) (user_ids d)"
    using ok mem by (auto simp: conferences_ok_def)
  ultimately show "wf_db env d'" using upd wf by (auto intro!: wf_replace_conference)
qed

lemma wf_restamp_conference:
  assumes wf: "wf_db env d" and old: "find (\<lambda>c. cID c = i) (conferences d) = Some old"
    and c: "c = old\<lparr>cArchivedAt := a, cUpdatedAt := t\<rparr>"
  shows "wf_db env (d\<lparr>conferences := update_where (\<lambda>r. cID r = i) (\<lambda>_. c) (conferences d)\<rparr>)"
proof (rule wf_replace_conference [OF wf])
  have mem: "old \<in> set (conferences d)" "cID old = i" using find_Some_iff_mem [OF old] by simp_all
  have ok: "conferences_ok env d" using wf by (rule wf_dbD)
  show "cID c = i" using mem c by simp
  have "conference_check c = conference_check old" using c by (simp add: conference_check_def)
  with ok mem show "conference_check c = None" by (simp add: conferences_ok_def)
  show "opt_in (cCreatedBy c) (user_ids d)" "opt_in (cUpdatedBy c) (user_ids d)"
    using ok mem c by (auto simp: conferences_ok_def)
  have key: "acronym_year env c = acronym_year env old" using c by (simp add: acronym_year_def)
  show "acronym_year env c \<notin> acronym_year env ` {r \<in> set (conferences d). cID r \<noteq> i}"
  proof
    assume "acronym_year env c \<in> acronym_year env ` {r \<in> set (conferences d). cID r \<noteq> i}"
    then obtain r where r: "r \<in> set (conferences d)" "cID r \<noteq> i" "acronym_year env r = acronym_year env old"
      using key by auto
    moreover have "distinct (map (acronym_year env) (conferences d))" using ok by (simp add: conferences_ok_def)
    ultimately have "r = old" using mem(1) by (blast dest: distinct_map_eqD)
    with r mem show False by simp
  qed
qed

lemma wf_ArchiveConference [keeps_intros]: "sql_step (wf_step env) (ArchiveConference i)"
  by (rule wf_stepI) (auto simp: ArchiveConference_def Let_def split: option.splits intro: wf_restamp_conference)

lemma wf_UnarchiveConference [keeps_intros]: "sql_step (wf_step env) (UnarchiveConference i)"
  by (rule wf_stepI) (auto simp: UnarchiveConference_def Let_def split: option.splits intro: wf_restamp_conference)

lemma wf_CreateConference [keeps_intros]: "sql_step (wf_step env) (CreateConference env p)"
proof (rule wf_stepI)
  fix x d a d'
  assume run: "CreateConference env p x d = Inr (a, d')" and wf: "wf_db env d"
  let ?c = "new_conference x p"
  have new: "conference_check ?c = None" "cID ?c \<notin> set (conf_ids d)"
      "acronym_year env ?c \<notin> set (map (acronym_year env) (conferences d))"
      "opt_in (cCreatedBy ?c) (user_ids d)" "opt_in (cUpdatedBy ?c) (user_ids d)"
      "d' = d\<lparr>conferences := conferences d @ [?c]\<rparr>"
    using run by (auto simp: CreateConference_def with_texts_def Let_def split: if_splits option.splits)
  have "conferences_ok env d" using wf by (rule wf_dbD)
  then have "conferences_ok env (d\<lparr>conferences := conferences d @ [?c]\<rparr>)"
    using new by (auto simp: conferences_ok_def conf_ids_def user_ids_def)
  then show "wf_db env d'"
    unfolding new(6) by (intro wf_conferences [OF wf]) (auto simp: conf_ids_def)
qed

lemma wf_DeleteConference [keeps_intros]: "sql_step (wf_step env) (DeleteConference i)"
proof (rule wf_stepI)
  fix x d a d'
  assume run: "DeleteConference i x d = Inr (a, d')" and wf: "wf_db env d"
  have other: "i \<notin> set (conf_ids d) \<Longrightarrow> d' = d"
  proof -
    assume "i \<notin> set (conf_ids d)"
    moreover from this have "delete_where (\<lambda>c. cID c = i) (conferences d) = conferences d"
      by (auto simp: delete_where_def conf_ids_def filter_id_conv)
    ultimately show "d' = d" using run by (simp add: DeleteConference_def)
  qed
  let ?e = "d\<lparr>conferences := delete_where (\<lambda>c. cID c = i) (conferences d),
    conference_tags := delete_where (\<lambda>(c, t). c = i) (conference_tags d),
    conference_tracks := delete_where (\<lambda>(c, t). c = i) (conference_tracks d),
    stars := delete_where (\<lambda>s. sConferenceID s = i) (stars d),
    reminders := delete_where (\<lambda>r. rConferenceID r = i) (reminders d)\<rparr>"
  have "wf_db env ?e"
    unfolding wf_db_def
  proof (intro conjI)
    note ok = wf_dbD [OF wf]
    show "users_ok ?e" "settings_ok ?e" "tokens_ok ?e" "digests_ok ?e" "audit_ok ?e"
      using ok by (simp_all add: table_oks id_lists)
    show "conferences_ok env ?e"
      using ok(2) by (auto simp: conferences_ok_def id_lists distinct_map_delete_where)
    show "tags_ok ?e" "tracks_ok ?e"
      using ok(3,4) by (auto simp: tags_ok_def tracks_ok_def id_lists delete_where_def)
    show "stars_ok ?e" "reminders_ok ?e"
      using ok(5,8) by (auto simp: stars_ok_def reminders_ok_def id_lists distinct_map_delete_where)
  qed
  with other run wf show "wf_db env d'" by (auto simp: DeleteConference_def)
qed

lemma wf_UpsertTagBySlug [keeps_intros]: "sql_step (wf_step env) (UpsertTagBySlug s n)"
proof (rule wf_stepI)
  fix x d a d'
  assume run: "UpsertTagBySlug s n x d = Inr (a, d')" and wf: "wf_db env d"
  have ok: "tags_ok d" using wf by (rule wf_dbD)
  obtain ts where ts: "d' = d\<lparr>tags := ts\<rparr>"
    using run by (auto simp: UpsertTagBySlug_def with_texts_def Let_def split: if_splits option.splits)
  have "tags_ok d'"
  proof (cases "find (\<lambda>t. tSlug t = s) (tags d)")
    case None
    then obtain t where t: "d' = d\<lparr>tags := tags d @ [t]\<rparr>" "tID t \<notin> set (tag_ids d)" "tSlug t = s"
      using run by (auto simp: UpsertTagBySlug_def with_texts_def Let_def split: if_splits)
    moreover have "s \<notin> set (map tSlug (tags d))" using None by (auto simp: find_None_iff)
    ultimately show ?thesis using ok by (auto simp: tags_ok_def id_lists)
  next
    case (Some old)
    have mem: "old \<in> set (tags d)" "tSlug old = s" using find_Some_iff_mem [OF Some] by simp_all
    let ?t = "old\<lparr>tName := n, tUpdatedAt := x_now x\<rparr>"
    let ?ts = "update_where (\<lambda>r. tSlug r = s) (\<lambda>_. ?t) (tags d)"
    have d': "d' = d\<lparr>tags := ?ts\<rparr>"
      using run Some by (auto simp: UpsertTagBySlug_def with_texts_def Let_def split: if_splits)
    have slugs: "map tSlug ?ts = map tSlug (tags d)" using mem by (intro map_update_where_key) simp
    have "map tID ?ts = map tID (tags d)"
      unfolding update_where_def using mem ok by (auto simp: tags_ok_def dest: distinct_map_eqD)
    then show ?thesis using ok d' slugs by (simp add: tags_ok_def id_lists)
  qed
  then show "wf_db env d'" using wf ts by (simp add: wf_db_def frame_simps)
qed

lemma wf_AddConferenceTag [keeps_intros]: "sql_step (wf_step env) (AddConferenceTag i t)"
  by (rule wf_stepI)
    (auto simp: AddConferenceTag_def wf_db_def frame_simps tags_ok_def id_lists split: if_splits)

lemma wf_AddConferenceTrack [keeps_intros]: "sql_step (wf_step env) (AddConferenceTrack i k)"
  by (rule wf_stepI)
    (auto simp: AddConferenceTrack_def with_texts_def wf_db_def frame_simps tracks_ok_def id_lists split: if_splits)

lemma wf_DeleteAllConferenceTags [keeps_intros]: "sql_step (wf_step env) (DeleteAllConferenceTags i)"
  by (rule wf_stepI)
    (auto simp: DeleteAllConferenceTags_def wf_db_def frame_simps tags_ok_def id_lists delete_where_def)

lemma wf_DeleteAllConferenceTracks [keeps_intros]: "sql_step (wf_step env) (DeleteAllConferenceTracks i)"
  by (rule wf_stepI)
    (auto simp: DeleteAllConferenceTracks_def wf_db_def frame_simps tracks_ok_def id_lists delete_where_def)

lemma wf_CreateStar [keeps_intros]: "sql_step (wf_step env) (CreateStar u i)"
  by (rule wf_stepI)
    (auto simp: CreateStar_def wf_db_def frame_simps stars_ok_def id_lists star_key_def split: if_splits)

lemma wf_DeleteStar [keeps_intros]: "sql_step (wf_step env) (DeleteStar u i)"
  by (rule wf_stepI)
    (auto simp: DeleteStar_def wf_db_def frame_simps stars_ok_def id_lists distinct_map_delete_where)

subsection \<open>None but the deletion of a conference touches the reminders\<close>

lemma hist_conference_writes [keeps_intros]:
  "sql_step keeps_history (CreateConference env cp)" "sql_step keeps_history (UpdateConference env up)"
  "sql_step keeps_history (ArchiveConference i)" "sql_step keeps_history (UnarchiveConference i)"
  "sql_step keeps_history (UpsertTagBySlug s n)" "sql_step keeps_history (AddConferenceTag i t)"
  "sql_step keeps_history (AddConferenceTrack i k)" "sql_step keeps_history (DeleteAllConferenceTags i)"
  "sql_step keeps_history (DeleteAllConferenceTracks i)"
  "sql_step keeps_history (CreateStar u i)" "sql_step keeps_history (DeleteStar u i)"
  by (rule hist_stepI, auto simp: CreateConference_def UpdateConference_def ArchiveConference_def
      UnarchiveConference_def UpsertTagBySlug_def AddConferenceTag_def AddConferenceTrack_def
      DeleteAllConferenceTags_def DeleteAllConferenceTracks_def CreateStar_def DeleteStar_def
      with_texts_def Let_def split: if_splits option.splits)+

end
