(* ===== verification/Api.thy ===== *)
theory Api
  imports Complex_Main Schema
begin

text \<open>
  The types of the HTTP API that the services take and return
  (\<^verbatim>\<open>server/internal/api/api.gen.go\<close>), and Go's 32-bit floats, as exact rationals: the
  conversions round to the nearest value, ties to even, as IEEE 754 does. Times are instants,
  dates the instants of their UTC midnight.
\<close>

subsection \<open>Rounding\<close>

definition round_half_even :: "rat \<Rightarrow> int" where
  "round_half_even q =
     (let f = \<lfloor>q\<rfloor>; r = q - of_int f in
      if r < 1 / 2 then f else if 1 / 2 < r then f + 1 else if even f then f else f + 1)"

lemma round_half_even_of_int [simp]: "round_half_even (of_int i) = i"
  by (simp add: round_half_even_def)

lemma round_half_even_error: "\<bar>of_int (round_half_even q) - q\<bar> \<le> 1 / 2"
  using floor_correct [of q] by (auto simp: round_half_even_def Let_def)

lemma round_half_even_floor: "\<lfloor>q\<rfloor> \<le> round_half_even q \<and> round_half_even q \<le> \<lfloor>q\<rfloor> + 1"
  by (simp add: round_half_even_def Let_def)

lemma round_half_even_bounds:
  assumes "of_int a \<le> q" and "q \<le> of_int b"
  shows "a \<le> round_half_even q" and "round_half_even q \<le> b"
proof -
  show "a \<le> round_half_even q"
    using round_half_even_floor [of q] le_floor_iff [of a q] assms(1) by linarith
  show "round_half_even q \<le> b"
  proof (cases "q = of_int b")
    case False
    with assms(2) have "\<lfloor>q\<rfloor> < b" by (simp add: floor_less_iff)
    then show ?thesis using round_half_even_floor [of q] by simp
  qed simp
qed

text \<open>The binary exponent of a positive rational, and rounding to \<open>p\<close> significant bits.\<close>

function bit_len :: "int \<Rightarrow> int" where
  "bit_len n = (if n \<le> 0 then 0 else 1 + bit_len (n div 2))"
  by auto

termination
  by (relation "measure nat") auto

declare bit_len.simps [simp del]

definition rat_exponent :: "rat \<Rightarrow> int" where
  "rat_exponent q =
     (case quotient_of q of (a, b) \<Rightarrow>
        let k = bit_len a - bit_len b in
        if 2 powi k \<le> q then k else k - 1)"

definition round_bits :: "nat \<Rightarrow> int \<Rightarrow> rat \<Rightarrow> rat" where
  "round_bits p emin q =
     (if q = 0 then 0
      else
        (let u = 2 powi (max emin (rat_exponent \<bar>q\<bar>) - (int p - 1)) in
         of_int (round_half_even (q / u)) * u))"

definition float64_of :: "rat \<Rightarrow> rat" where "float64_of = round_bits 53 (- 1022)"
definition float32_of :: "rat \<Rightarrow> rat" where "float32_of = round_bits 24 (- 126)"

subsection \<open>Models\<close>

record Tag =
  tagId :: uuid
  tagSlug :: string
  tagName :: string

record Track =
  trackCode :: string
  trackDisplayName :: string
  trackSortOrder :: int

record Conference =
  apId :: uuid
  apName :: string
  apAcronym :: string
  apYear :: int
  apLocation :: string
  apWebsiteUrl :: "string option"
  apCfpUrl :: "string option"
  apPrimaryDeadline :: "instant option"
  apAbstractDeadline :: "instant option"
  apNotificationDate :: "instant option"
  apCameraReadyDate :: "instant option"
  apEventStartDate :: "instant option"
  apEventEndDate :: "instant option"
  apDblpKey :: "string option"
  apNotes :: "string option"
  apArchivedAt :: "instant option"
  apCreatedAt :: instant
  apUpdatedAt :: instant
  apTags :: "Tag list"
  apTracks :: "Track list"
  apH5Index :: "int option"
  apCoreRank :: "string option"
  apAcceptanceRatePct :: "rat option"
  apCreatedBy :: "uuid option"
  apUpdatedBy :: "uuid option"

record ConferenceInput =
  inName :: string
  inAcronym :: string
  inYear :: int
  inLocation :: string
  inWebsiteUrl :: "string option"
  inCfpUrl :: "string option"
  inPrimaryDeadline :: "instant option"
  inAbstractDeadline :: "instant option"
  inNotificationDate :: "instant option"
  inCameraReadyDate :: "instant option"
  inEventStartDate :: "instant option"
  inEventEndDate :: "instant option"
  inCoreRank :: "string option"
  inH5Index :: "int option"
  inAcceptanceRatePct :: "rat option"
  inDblpKey :: "string option"
  inNotes :: "string option"
  inTagSlugs :: "string list option"
  inTrackCodes :: "string list option"

record UserSettings =
  seTimezone :: string
  seReminderLeadDays :: "int list"
  seWeeklyDigestEnabled :: bool
  seWeeklyDigestDay :: int
  seWeeklyDigestHour :: int
  seWeeklyDigestHorizonWeeks :: int

text \<open>The input has the fields of the settings.\<close>

type_synonym UserSettingsInput = UserSettings

record CalendarToken =
  ctId :: uuid
  ctKind :: string
  ctToken :: string
  ctFeedUrl :: string
  ctCreatedAt :: instant
  ctLastUsedAt :: "instant option"

record AuditEntry =
  aeId :: uuid
  aeAction :: string
  aeActorDisplayName :: string
  aeActorOidcSubject :: string
  aeActorUserId :: "uuid option"
  aeCreatedAt :: instant
  aeEntityId :: uuid
  aeEntityType :: string

record ImportResult =
  irCreated :: int
  irUpdated :: int
  irSkipped :: int
  irErrors :: "string list option"

end
