(* ===== verification/Conference_Input.thy ===== *)
theory Conference_Input
  imports Repo_Conferences Api
begin

text \<open>
  The pure part of \<^verbatim>\<open>service/conferences.go\<close>: slugs, the validation of an input, and
  the conversions between the API and the repository. The lemmas show that a slug is made of
  words of \<^verbatim>\<open>a-z0-9\<close> joined by single hyphens and that slugs are fixed points, and
  relate the validation to the CHECK constraints of the table.
\<close>

subsection \<open>Slugs\<close>

definition alnum_rune :: "rune \<Rightarrow> bool" where
  "alnum_rune r \<longleftrightarrow> 97 \<le> r \<and> r \<le> 122 \<or> 48 \<le> r \<and> r \<le> 57"

text \<open>\<^verbatim>\<open>nonAlphanumRe.ReplaceAllString(s, "-")\<close>; the flag says that a run has been replaced.\<close>

primrec replace_runs :: "bool \<Rightarrow> rune list \<Rightarrow> string" where
  "replace_runs b [] = []"
| "replace_runs b (r # rs) =
     (if alnum_rune r then char_of r # replace_runs False rs
      else if b then replace_runs True rs
      else CHR ''-'' # replace_runs True rs)"

text \<open>\<^verbatim>\<open>strings.Trim(s, "-")\<close>\<close>

definition Trim_dashes :: "string \<Rightarrow> string" where
  "Trim_dashes s = rev (dropWhile (\<lambda>c. c = CHR ''-'') (rev (dropWhile (\<lambda>c. c = CHR ''-'') s)))"

definition Slugify :: "env \<Rightarrow> string \<Rightarrow> string" where
  "Slugify env s = Trim_dashes (replace_runs False (runes (ToLower (e_lower env) s)))"

definition slug_char :: "char \<Rightarrow> bool" where
  "slug_char c \<longleftrightarrow> alnum_rune (of_char c) \<or> c = CHR ''-''"

definition not_both_dash :: "char \<Rightarrow> char \<Rightarrow> bool" where
  "not_both_dash a b \<longleftrightarrow> a \<noteq> CHR ''-'' \<or> b \<noteq> CHR ''-''"

definition is_slug :: "string \<Rightarrow> bool" where
  "is_slug s \<longleftrightarrow> list_all slug_char s \<and> successively not_both_dash s
     \<and> (s \<noteq> [] \<longrightarrow> hd s \<noteq> CHR ''-'' \<and> last s \<noteq> CHR ''-'')"

lemma alnum_not_dash: "alnum_rune r \<Longrightarrow> char_of r \<noteq> CHR ''-''"
proof
  assume a: "alnum_rune r" and "char_of r = CHR ''-''"
  then have "(of_char (char_of r :: char) :: nat) = 45" by simp
  moreover have "r < 256" using a by (auto simp: alnum_rune_def)
  ultimately show False using a by (auto simp: alnum_rune_def)
qed

lemma alnum_slug_char: "alnum_rune r \<Longrightarrow> slug_char (char_of r)"
  by (auto simp: slug_char_def alnum_rune_def)

lemma replace_runs_ok:
  "list_all slug_char (replace_runs b rs) \<and> successively not_both_dash (replace_runs b rs)
   \<and> (b \<longrightarrow> replace_runs b rs \<noteq> [] \<longrightarrow> hd (replace_runs b rs) \<noteq> CHR ''-'')"
proof (induction rs arbitrary: b)
  case (Cons r rs)
  have dash: "slug_char (CHR ''-'')" by (simp add: slug_char_def)
  show ?case
    using Cons.IH [of False] Cons.IH [of True]
    by (auto simp: alnum_slug_char alnum_not_dash dash not_both_dash_def successively_Cons)
qed simp

lemma dropWhile_successively: "successively P xs \<Longrightarrow> successively P (dropWhile Q xs)"
  by (metis successively_append_iff takeWhile_dropWhile_id)

lemma not_both_dash_swap: "(\<lambda>x y. not_both_dash y x) = not_both_dash"
  by (auto simp: not_both_dash_def fun_eq_iff)

lemma is_slug_Trim:
  assumes "list_all slug_char s" and "successively not_both_dash s"
  shows "is_slug (Trim_dashes s)"
proof -
  let ?dash = "\<lambda>c. c = CHR ''-''"
  define t where "t = dropWhile ?dash s"
  define u where "u = rev (dropWhile ?dash (rev t))"
  have t: "list_all slug_char t" "successively not_both_dash t"
    using assms by (auto simp: t_def list_all_iff dropWhile_successively dest: set_dropWhileD)
  then have "successively not_both_dash u"
    by (simp add: u_def successively_rev not_both_dash_swap dropWhile_successively)
  moreover have "list_all slug_char u" using t(1) by (auto simp: u_def list_all_iff dest: set_dropWhileD)
  moreover have "u \<noteq> [] \<Longrightarrow> last u \<noteq> CHR ''-''"
    using hd_dropWhile [of ?dash "rev t"] by (simp add: u_def last_rev)
  moreover have "hd u \<noteq> CHR ''-''" if "u \<noteq> []"
  proof -
    have pre: "t = u @ rev (takeWhile ?dash (rev t))"
      using takeWhile_dropWhile_id [of ?dash "rev t"] unfolding u_def by (metis rev_append rev_rev_ident)
    then have "t \<noteq> []" "hd t = hd u" using that by (metis append_is_Nil_conv, metis hd_append2)
    then show ?thesis using hd_dropWhile [of ?dash s] by (simp add: t_def)
  qed
  ultimately show ?thesis by (simp add: is_slug_def Trim_dashes_def u_def t_def)
qed

lemma Slugify_is_slug: "is_slug (Slugify env s)"
  using replace_runs_ok [of False] by (simp add: Slugify_def is_slug_Trim)

lemma slug_char_ascii: "slug_char c \<Longrightarrow> (of_char c :: nat) < 128 \<and> lower_rune f (of_char c) = of_char c"
  by (auto simp: slug_char_def alnum_rune_def lower_rune_def)

lemma ToLower_slug: "list_all slug_char s \<Longrightarrow> runes (ToLower f s) = bytes_of s"
proof -
  assume s: "list_all slug_char s"
  then have asc: "is_ascii s" by (auto simp: is_ascii_def list_all_iff dest: slug_char_ascii)
  have "map (lower_rune f) (runes s) = bytes_of s"
    using s unfolding runes_ascii [OF asc] bytes_of_def
    by (auto simp: list_all_iff dest: slug_char_ascii)
  then have "ToLower f s = of_runes (bytes_of s)" by (simp add: ToLower_def)
  also have "\<dots> = s"
    using asc of_runes_ascii [of "bytes_of s"] by (simp add: is_ascii_def bytes_of_def [of s])
      (metis bytes_of_def of_bytes_bytes_of)
  finally show ?thesis using runes_ascii [OF asc] by simp
qed

lemma replace_runs_slug:
  "list_all slug_char s \<Longrightarrow> successively not_both_dash s \<Longrightarrow> (b \<longrightarrow> s = [] \<or> hd s \<noteq> CHR ''-'')
   \<Longrightarrow> replace_runs b (bytes_of s) = s"
proof (induction s arbitrary: b)
  case (Cons c s)
  have rest: "list_all slug_char s" "successively not_both_dash s"
    using Cons.prems by (auto simp: successively_Cons)
  show ?case
  proof (cases "c = CHR ''-''")
    case True
    then have "s = [] \<or> hd s \<noteq> CHR ''-''" using Cons.prems(2) by (auto simp: successively_Cons not_both_dash_def)
    then show ?thesis using True Cons rest by (auto simp: bytes_of_def alnum_rune_def)
  next
    case False
    then have "alnum_rune (of_char c)" using Cons.prems(1) by (simp add: slug_char_def)
    then show ?thesis using Cons.IH [OF rest, of False] by (simp add: bytes_of_def)
  qed
qed (simp add: bytes_of_def)

lemma Trim_dashes_slug: "is_slug s \<Longrightarrow> Trim_dashes s = s"
proof (cases "s = []")
  case False
  assume "is_slug s"
  with False have "hd s \<noteq> CHR ''-''" "hd (rev s) \<noteq> CHR ''-''" by (auto simp: is_slug_def hd_rev)
  with False have "dropWhile (\<lambda>c. c = CHR ''-'') s = s" "dropWhile (\<lambda>c. c = CHR ''-'') (rev s) = rev s"
    by (auto simp: dropWhile_eq_self_iff)
  then show ?thesis by (simp add: Trim_dashes_def)
qed (simp add: Trim_dashes_def)

lemma Slugify_slug: "is_slug s \<Longrightarrow> Slugify env s = s"
  by (simp add: Slugify_def ToLower_slug replace_runs_slug Trim_dashes_slug is_slug_def)

subsection \<open>Validation\<close>

definition after_opt :: "instant option \<Rightarrow> instant option \<Rightarrow> bool" where
  "after_opt a b = (case (a, b) of (Some x, Some y) \<Rightarrow> y < x | _ \<Rightarrow> False)"

definition validateInput :: "ConferenceInput \<Rightarrow> err option" where
  "validateInput i =
     (if inYear i < 2000 \<or> 2100 < inYear i
      then Some (ValidationError ''year'' ''must be between 2000 and 2100'')
      else if TrimSpace_empty (inName i) then Some (ValidationError ''name'' ''must not be blank'')
      else if TrimSpace_empty (inAcronym i) then Some (ValidationError ''acronym'' ''must not be blank'')
      else if TrimSpace_empty (inLocation i) then Some (ValidationError ''location'' ''must not be blank'')
      else if after_opt (inAbstractDeadline i) (inPrimaryDeadline i)
      then Some (ValidationError ''abstract_deadline'' ''must be on or before primary_deadline'')
      else if after_opt (inPrimaryDeadline i) (inNotificationDate i)
      then Some (ValidationError ''primary_deadline'' ''must be on or before notification_date'')
      else if after_opt (inNotificationDate i) (inCameraReadyDate i)
      then Some (ValidationError ''notification_date'' ''must be on or before camera_ready_date'')
      else if after_opt (inEventStartDate i) (inEventEndDate i)
      then Some (ValidationError ''event_start_date'' ''must be on or before event_end_date'')
      else if (case inAcceptanceRatePct i of None \<Rightarrow> False | Some p \<Rightarrow> p < 0 \<or> 100 < p)
      then Some (ValidationError ''acceptance_rate_pct'' ''must be between 0 and 100'')
      else if (case inH5Index i of None \<Rightarrow> False | Some h \<Rightarrow> h < 0)
      then Some (ValidationError ''h5_index'' ''must be non-negative'')
      else None)"

subsection \<open>Conversions\<close>

definition timestamptzToTimePtr :: "instant option \<Rightarrow> instant option" where
  "timestamptzToTimePtr t = (case t of None \<Rightarrow> None | Some x \<Rightarrow> Some x)"

definition dateToDatePtr :: "instant option \<Rightarrow> instant option" where
  "dateToDatePtr d = (case d of None \<Rightarrow> None | Some x \<Rightarrow> Some x)"

definition timePtrToTimestamptz :: "instant option \<Rightarrow> instant option" where
  "timePtrToTimestamptz t = (case t of None \<Rightarrow> None | Some x \<Rightarrow> Some x)"

definition datePtrToDate :: "instant option \<Rightarrow> instant option" where
  "datePtrToDate d = (case d of None \<Rightarrow> None | Some x \<Rightarrow> Some x)"

definition intPtrToInt32Ptr :: "int option \<Rightarrow> int option" where
  "intPtrToInt32Ptr i = (case i of None \<Rightarrow> None | Some v \<Rightarrow> Some (int32_of v))"

definition coreRankToPtr :: "string option \<Rightarrow> string option" where
  "coreRankToPtr r = (case r of None \<Rightarrow> None | Some s \<Rightarrow> Some s)"

text \<open>
  \<^verbatim>\<open>strconv.FormatFloat(f, 'f', 2, 32)\<close>, scanned as a numeric of two decimals: the value in
  hundredths. A body of JSON holds finite numbers only, but YAML can give a float that is none. Of
  these, the comparison with zero before lets through the positive infinity alone; its text \<^verbatim>\<open>+Inf\<close>
  is no numeral, the error of \<^verbatim>\<open>Scan\<close> is dropped, and the column stays null.
\<close>

datatype go_float = Finite rat | Pos_Inf | Neg_Inf | NaN

definition float32PtrToNumeric :: "go_float option \<Rightarrow> int option" where
  "float32PtrToNumeric f =
     (case f of
        None \<Rightarrow> None
      | Some x \<Rightarrow> (case x of Finite q \<Rightarrow> Some (round_half_even (q * 100)) | _ \<Rightarrow> None))"

lemma pointer_conversions [simp]:
  "timestamptzToTimePtr t = t" "dateToDatePtr t = t" "timePtrToTimestamptz t = t" "datePtrToDate t = t"
  "coreRankToPtr r = r"
  by (simp_all add: timestamptzToTimePtr_def dateToDatePtr_def timePtrToTimestamptz_def
      datePtrToDate_def coreRankToPtr_def split: option.splits)

definition apiTags :: "GetConferenceTagsRow list \<Rightarrow> Tag list" where
  "apiTags ts = map (\<lambda>t. \<lparr>tagId = gtID t, tagSlug = gtSlug t, tagName = gtName t\<rparr>) ts"

definition apiTracks :: "GetConferenceTracksRow list \<Rightarrow> Track list" where
  "apiTracks ts = map (\<lambda>t. \<lparr>trackCode = gkCode t, trackDisplayName = gkDisplayName t,
     trackSortOrder = gkSortOrder t\<rparr>) ts"

definition toAPIConference ::
  "conference \<Rightarrow> GetConferenceTagsRow list \<Rightarrow> GetConferenceTracksRow list \<Rightarrow> Conference" where
  "toAPIConference c tgs trs = \<lparr>
     apId = cID c, apName = cName c, apAcronym = cAcronym c, apYear = cYear c,
     apLocation = cLocation c, apWebsiteUrl = cWebsiteUrl c, apCfpUrl = cCfpUrl c,
     apPrimaryDeadline = timestamptzToTimePtr (cPrimaryDeadline c),
     apAbstractDeadline = timestamptzToTimePtr (cAbstractDeadline c),
     apNotificationDate = timestamptzToTimePtr (cNotificationDate c),
     apCameraReadyDate = timestamptzToTimePtr (cCameraReadyDate c),
     apEventStartDate = dateToDatePtr (cEventStartDate c),
     apEventEndDate = dateToDatePtr (cEventEndDate c),
     apDblpKey = cDblpKey c, apNotes = cNotes c,
     apArchivedAt = timestamptzToTimePtr (cArchivedAt c),
     apCreatedAt = cCreatedAt c, apUpdatedAt = cUpdatedAt c,
     apTags = apiTags tgs, apTracks = apiTracks trs,
     apH5Index = cH5Index c, apCoreRank = cCoreRank c,
     apAcceptanceRatePct = (case cAcceptanceRatePct c of None \<Rightarrow> None
       | Some h \<Rightarrow> Some (float32_of (float64_of (of_int h / 100)))),
     apCreatedBy = cCreatedBy c, apUpdatedBy = cUpdatedBy c\<rparr>"

text \<open>The parameters \<^verbatim>\<open>Create\<close> and \<^verbatim>\<open>Update\<close> pass to the query.\<close>

definition input_params :: "ConferenceInput \<Rightarrow> uuid \<Rightarrow> conference_params" where
  "input_params i actor = \<lparr>
     pName = inName i, pAcronym = inAcronym i, pYear = int32_of (inYear i), pLocation = inLocation i,
     pWebsiteUrl = inWebsiteUrl i, pCfpUrl = inCfpUrl i,
     pPrimaryDeadline = timePtrToTimestamptz (inPrimaryDeadline i),
     pAbstractDeadline = timePtrToTimestamptz (inAbstractDeadline i),
     pNotificationDate = timePtrToTimestamptz (inNotificationDate i),
     pCameraReadyDate = timePtrToTimestamptz (inCameraReadyDate i),
     pEventStartDate = datePtrToDate (inEventStartDate i),
     pEventEndDate = datePtrToDate (inEventEndDate i),
     pCoreRank = coreRankToPtr (inCoreRank i), pH5Index = intPtrToInt32Ptr (inH5Index i),
     pAcceptanceRatePct = float32PtrToNumeric (map_option Finite (inAcceptanceRatePct i)),
     pDblpKey = inDblpKey i, pNotes = inNotes i, pUpdatedBy = Some actor\<rparr>"

definition create_params :: "conference_params \<Rightarrow> uuid \<Rightarrow> CreateConferenceParams" where
  "create_params p actor = conference_params.extend p (CreateConferenceParams.fields (Some actor))"

definition update_params :: "conference_params \<Rightarrow> uuid \<Rightarrow> UpdateConferenceParams" where
  "update_params p i = conference_params.extend p (UpdateConferenceParams.fields i)"

lemma le_opt_pg_ts: "\<not> after_opt a b \<Longrightarrow> le_opt (map_option pg_ts a) (map_option pg_ts b)"
  by (auto simp: after_opt_def le_opt_def pg_ts_mono split: option.splits)

lemma le_opt_not_after: "\<not> after_opt a b \<Longrightarrow> le_opt a b"
  by (auto simp: after_opt_def le_opt_def split: option.splits)

lemma hundredths_range:
  assumes "0 \<le> q" and "q \<le> 100"
  shows "0 \<le> round_half_even (q * 100) \<and> round_half_even (q * 100) \<le> 10000"
  using assms round_half_even_bounds [of 0 "q * 100" 10000] by simp

lemma valid_input_checks:
  assumes "validateInput i = None"
    and "case inCoreRank i of None \<Rightarrow> True | Some r \<Rightarrow> r \<in> set core_ranks"
    and "case inH5Index i of None \<Rightarrow> True | Some h \<Rightarrow> h < 2 ^ 31"
  shows "conference_check (set_columns (input_params i actor) c) = None
    \<and> numeric_5_2_ok (pAcceptanceRatePct (input_params i actor))"
proof -
  have v: "2000 \<le> inYear i" "inYear i \<le> 2100"
      "\<not> after_opt (inAbstractDeadline i) (inPrimaryDeadline i)"
      "\<not> after_opt (inPrimaryDeadline i) (inNotificationDate i)"
      "\<not> after_opt (inNotificationDate i) (inCameraReadyDate i)"
      "\<not> after_opt (inEventStartDate i) (inEventEndDate i)"
      "case inAcceptanceRatePct i of None \<Rightarrow> True | Some p \<Rightarrow> 0 \<le> p \<and> p \<le> 100"
      "case inH5Index i of None \<Rightarrow> True | Some h \<Rightarrow> 0 \<le> h"
    using assms(1) by (auto simp: validateInput_def split: if_splits option.splits)
  have "int32_of (inYear i) = inYear i" using v by (intro int32_of_id) simp_all
  moreover have "case float32PtrToNumeric (map_option Finite (inAcceptanceRatePct i)) of None \<Rightarrow> True
      | Some p \<Rightarrow> 0 \<le> p \<and> p \<le> 10000"
    using v(7) hundredths_range by (auto simp: float32PtrToNumeric_def split: option.splits)
  moreover have "case intPtrToInt32Ptr (inH5Index i) of None \<Rightarrow> True | Some h \<Rightarrow> 0 \<le> h"
    using v(8) assms(3) by (auto simp: intPtrToInt32Ptr_def int32_of_id split: option.splits)
  moreover note v(1,2) le_opt_pg_ts [OF v(3)] le_opt_pg_ts [OF v(4)] le_opt_pg_ts [OF v(5)]
    le_opt_not_after [OF v(6)] assms(2)
  ultimately show ?thesis
    by (auto simp: conference_check_def set_columns_def input_params_def numeric_5_2_ok_def
        split: option.splits)
qed

subsection \<open>Properties\<close>

text \<open>An input to apply the properties to.\<close>

definition sample_input :: ConferenceInput where
  "sample_input = \<lparr>
     inName = ''Int. Conf. on X'', inAcronym = ''ICX'', inYear = 2026, inLocation = ''Munich'',
     inWebsiteUrl = None, inCfpUrl = None, inPrimaryDeadline = Some (1767225600 * second),
     inAbstractDeadline = None, inNotificationDate = Some (1769904000 * second),
     inCameraReadyDate = None, inEventStartDate = None, inEventEndDate = None,
     inCoreRank = Some ''A*'', inH5Index = Some 42, inAcceptanceRatePct = Some (43 / 2),
     inDblpKey = None, inNotes = None, inTagSlugs = Some [''Software Eng.''], inTrackCodes = None\<rparr>"

lemma sample_texts: "runes ''Int. Conf. on X'' \<noteq> []" "\<not> list_all IsSpace (runes ''Int. Conf. on X'')"
  "\<not> list_all IsSpace (runes ''ICX'')" "\<not> list_all IsSpace (runes ''Munich'')"
  by (simp_all add: runes_ascii is_ascii_def bytes_of_def IsSpace_def)

lemma sample_input_valid: "validateInput sample_input = None"
  by (simp add: validateInput_def sample_input_def TrimSpace_empty_def sample_texts after_opt_def second_def)

text \<open>
  A slug consists of words of lower-case ASCII letters and digits joined by single hyphens,
  none at either end, whatever the string was, and it is a fixed point: a slug taken from the
  database names the same tag again.
\<close>

theorem Slugify_slug_fixed: "is_slug (Slugify env s) \<and> Slugify env (Slugify env s) = Slugify env s"
  using Slugify_is_slug Slugify_slug by blast

text \<open>
  C33: An input that passes the validation passes every CHECK constraint of the table and fits
  its numeric column, if its rank is one of the ranks and its h5-index fits 32 bits; these two
  the validation does not test.
\<close>

theorem validated_input_passes_checks:
  assumes "validateInput i = None"
    and "case inCoreRank i of None \<Rightarrow> True | Some r \<Rightarrow> r \<in> set core_ranks"
    and "case inH5Index i of None \<Rightarrow> True | Some h \<Rightarrow> h < 2 ^ 31"
  shows "conference_check (set_columns (input_params i actor) c) = None
    \<and> numeric_5_2_ok (pAcceptanceRatePct (input_params i actor))"
  using assms by (rule valid_input_checks)

theorem validated_input_passes_checks_witness:
  "\<forall>c. conference_check (set_columns (input_params sample_input 0) c) = None
    \<and> numeric_5_2_ok (pAcceptanceRatePct (input_params sample_input 0))"
  by (rule allI, rule validated_input_passes_checks)
    (simp_all add: sample_input_valid, simp_all add: sample_input_def core_ranks_def)

text \<open>
  An h5-index beyond 32 bits passes the validation and another number is stored.\<close>

theorem h5_index_truncated:
  assumes "validateInput i = None" and "inH5Index i = Some (2 ^ 32 + k)" and "0 \<le> k" and "k < 2 ^ 31"
  shows "cH5Index (set_columns (input_params i actor) c) = Some k"
proof -
  have "((2147483648 + k) + 4294967296) mod 4294967296 = 2147483648 + k"
    unfolding mod_add_self2 using assms(3,4) by (intro mod_pos_pos_trivial) simp_all
  then have "(6442450944 + k) mod 4294967296 = 2147483648 + k" by (simp add: add.commute)
  then show ?thesis
    using assms(2) by (simp add: set_columns_def input_params_def intPtrToInt32Ptr_def int32_of_def
        signed_take_bit_eq_take_bit_shift take_bit_eq_mod)
qed

theorem h5_index_truncated_witness:
  "\<forall>c. cH5Index (set_columns (input_params (sample_input\<lparr>inH5Index := Some 4294967301\<rparr>) 0) c) = Some 5"
  by (rule allI, rule h5_index_truncated)
    (simp_all add: validateInput_def sample_input_def TrimSpace_empty_def sample_texts after_opt_def second_def)

end
