(* ===== verification/Repo_Users.thy ===== *)
theory Repo_Users
  imports Sql
begin

text \<open>
  The queries of \<^verbatim>\<open>repository/users.sql.go\<close>, \<^verbatim>\<open>settings.sql.go\<close>,
  \<^verbatim>\<open>calendar.sql.go\<close> and \<^verbatim>\<open>audit.sql.go\<close>, with the constraints they
  fail on, and the proof that each keeps the invariant of the schema and the history of the
  reminders.
\<close>

subsection \<open>Parameters\<close>

record UpsertUserParams =
  uuOidcIssuer :: string
  uuOidcSubject :: string
  uuEmail :: string
  uuDisplayName :: string

record UpdateUserSettingsParams =
  upTimezone :: string
  upReminderLeadDays :: "int list"
  upWeeklyDigestEnabled :: bool
  upWeeklyDigestDay :: int
  upWeeklyDigestHour :: int
  upWeeklyDigestHorizonWeeks :: int
  upUserID :: uuid

record InsertAuditEntryParams =
  iaActorUserID :: "uuid option"
  iaActorDisplayName :: string
  iaActorOidcSubject :: string
  iaAction :: string
  iaEntityType :: string
  iaEntityID :: uuid

record ListAuditLogParams =
  laEntityType :: "string option"
  laEntityID :: "uuid option"
  laActorOidcSubject :: "string option"
  laBefore :: "instant option"
  laLimitVal :: "int option"

subsection \<open>Users\<close>

definition GetUserByID :: "uuid \<Rightarrow> user sql" where
  "GetUserByID i = one_row (\<lambda>d. find (\<lambda>u. uID u = i) (users d))"

definition UpsertUser :: "UpsertUserParams \<Rightarrow> user sql" where
  "UpsertUser p = with_texts [uuOidcIssuer p, uuOidcSubject p, uuEmail p, uuDisplayName p] (\<lambda>x d.
     let key = (uuOidcIssuer p, uuOidcSubject p) in
     case find (\<lambda>u. (uOidcIssuer u, uOidcSubject u) = key) (users d) of
       Some old \<Rightarrow>
         (let u = old\<lparr>uEmail := uuEmail p, uDisplayName := uuDisplayName p,
                      uLastLoginAt := Some (x_now x), uUpdatedAt := x_now x\<rparr> in
          if uuEmail p \<in> set (map uEmail (filter (\<lambda>v. uID v \<noteq> uID old) (users d)))
          then Inl (UniqueViolation ''uq_users_email'')
          else Inr (u, d\<lparr>users := update_where (\<lambda>v. uID v = uID old) (\<lambda>_. u) (users d)\<rparr>))
     | None \<Rightarrow>
         (let u = \<lparr>uID = x_gen x, uOidcIssuer = uuOidcIssuer p, uOidcSubject = uuOidcSubject p,
                   uEmail = uuEmail p, uDisplayName = uuDisplayName p, uLastLoginAt = Some (x_now x),
                   uCreatedAt = x_now x, uUpdatedAt = x_now x\<rparr> in
          if uID u \<in> set (user_ids d) then Inl (UniqueViolation ''users_pkey'')
          else if uEmail u \<in> set (map uEmail (users d)) then Inl (UniqueViolation ''uq_users_email'')
          else Inr (u, d\<lparr>users := users d @ [u]\<rparr>)))"

subsection \<open>Settings\<close>

definition GetUserSettings :: "uuid \<Rightarrow> user_setting sql" where
  "GetUserSettings i = one_row (\<lambda>d. find (\<lambda>s. usUserID s = i) (user_settings d))"

definition UpsertUserSettings :: "uuid \<Rightarrow> unit sql" where
  "UpsertUserSettings i x d =
     (if i \<in> set (map usUserID (user_settings d)) then Inr ((), d)
      else if i \<notin> set (user_ids d) then Inl (ForeignKeyViolation ''user_settings_user_id_fkey'')
      else Inr ((), d\<lparr>user_settings := user_settings d @
        [\<lparr>usUserID = i, usTimezone = ''Europe/Berlin'', usReminderLeadDays = [28, 14, 7, 1],
          usWeeklyDigestEnabled = False, usWeeklyDigestDay = 1, usWeeklyDigestHour = 8,
          usWeeklyDigestHorizonWeeks = 6, usUpdatedAt = x_now x\<rparr>]\<rparr>))"

definition UpdateUserSettings :: "UpdateUserSettingsParams \<Rightarrow> user_setting sql" where
  "UpdateUserSettings p = with_texts [upTimezone p] (\<lambda>x d.
     case find (\<lambda>s. usUserID s = upUserID p) (user_settings d) of
       None \<Rightarrow> Inl NoRows
     | Some old \<Rightarrow>
         (let s = old\<lparr>usTimezone := upTimezone p, usReminderLeadDays := upReminderLeadDays p,
                      usWeeklyDigestEnabled := upWeeklyDigestEnabled p,
                      usWeeklyDigestDay := upWeeklyDigestDay p,
                      usWeeklyDigestHour := upWeeklyDigestHour p,
                      usWeeklyDigestHorizonWeeks := upWeeklyDigestHorizonWeeks p,
                      usUpdatedAt := x_now x\<rparr> in
          case settings_check s of
            Some k \<Rightarrow> Inl (CheckViolation k)
          | None \<Rightarrow> Inr (s, d\<lparr>user_settings :=
              update_where (\<lambda>r. usUserID r = upUserID p) (\<lambda>_. s) (user_settings d)\<rparr>)))"

subsection \<open>Calendar tokens\<close>

definition CreateCalendarToken :: "uuid \<Rightarrow> string \<Rightarrow> string \<Rightarrow> calendar_token sql" where
  "CreateCalendarToken u tok kind = with_texts [tok, kind] (\<lambda>x d.
     let k = \<lparr>kID = x_gen x, kUserID = u, kToken = tok, kKind = kind, kLastUsedAt = None,
              kRevokedAt = None, kCreatedAt = x_now x\<rparr> in
     if kind \<noteq> ''personal_starred'' then Inl (CheckViolation ''user_calendar_tokens_kind_check'')
     else if kID k \<in> set (map kID (calendar_tokens d)) then Inl (UniqueViolation ''user_calendar_tokens_pkey'')
     else if tok \<in> set (map kToken (calendar_tokens d)) then Inl (UniqueViolation ''uq_user_calendar_tokens_token'')
     else if (u, kind) \<in> set (map (\<lambda>k. (kUserID k, kKind k)) (active_tokens d))
     then Inl (UniqueViolation ''uq_user_calendar_tokens_active'')
     else if u \<notin> set (user_ids d) then Inl (ForeignKeyViolation ''user_calendar_tokens_user_id_fkey'')
     else Inr (k, d\<lparr>calendar_tokens := calendar_tokens d @ [k]\<rparr>))"

definition GetCalendarTokenByValue :: "string \<Rightarrow> calendar_token sql" where
  "GetCalendarTokenByValue tok = with_texts [tok] (\<lambda>x d.
     case find (\<lambda>k. kToken k = tok \<and> kRevokedAt k = None) (calendar_tokens d) of
       None \<Rightarrow> Inl NoRows
     | Some old \<Rightarrow>
         (let f = (\<lambda>k. k\<lparr>kLastUsedAt := Some (x_now x)\<rparr>) in
          Inr (f old, d\<lparr>calendar_tokens :=
            update_where (\<lambda>k. kToken k = tok \<and> kRevokedAt k = None) f (calendar_tokens d)\<rparr>)))"

definition ListCalendarTokensByUser :: "uuid \<Rightarrow> calendar_token list sql" where
  "ListCalendarTokensByUser u = rows (\<lambda>d. sort_key (\<lambda>k. - kCreatedAt k)
     (filter (\<lambda>k. kUserID k = u \<and> kRevokedAt k = None) (calendar_tokens d)))"

definition RevokeCalendarTokensByUser :: "uuid \<Rightarrow> string \<Rightarrow> unit sql" where
  "RevokeCalendarTokensByUser u kind = with_texts [kind] (\<lambda>x d.
     Inr ((), d\<lparr>calendar_tokens :=
       update_where (\<lambda>k. kUserID k = u \<and> kKind k = kind \<and> kRevokedAt k = None)
         (\<lambda>k. k\<lparr>kRevokedAt := Some (x_now x)\<rparr>) (calendar_tokens d)\<rparr>))"

subsection \<open>Audit log\<close>

definition InsertAuditEntry :: "InsertAuditEntryParams \<Rightarrow> unit sql" where
  "InsertAuditEntry p =
     with_texts [iaActorDisplayName p, iaActorOidcSubject p, iaAction p, iaEntityType p] (\<lambda>x d.
       if iaAction p \<notin> set audit_actions then Inl (CheckViolation ''audit_log_action_check'')
       else if x_gen x \<in> set (map aID (audit_log d)) then Inl (UniqueViolation ''audit_log_pkey'')
       else if \<not> opt_in (iaActorUserID p) (user_ids d)
       then Inl (ForeignKeyViolation ''audit_log_actor_user_id_fkey'')
       else Inr ((), d\<lparr>audit_log := audit_log d @
         [\<lparr>aID = x_gen x, aActorUserID = iaActorUserID p, aActorDisplayName = iaActorDisplayName p,
           aActorOidcSubject = iaActorOidcSubject p, aAction = iaAction p,
           aEntityType = iaEntityType p, aEntityID = iaEntityID p, aCreatedAt = x_now x\<rparr>]\<rparr>))"

definition audit_where :: "ListAuditLogParams \<Rightarrow> audit_entry \<Rightarrow> bool" where
  "audit_where p a \<longleftrightarrow>
     (case laEntityType p of None \<Rightarrow> True | Some t \<Rightarrow> aEntityType a = t)
     \<and> (case laEntityID p of None \<Rightarrow> True | Some i \<Rightarrow> aEntityID a = i)
     \<and> (case laActorOidcSubject p of None \<Rightarrow> True | Some s \<Rightarrow> aActorOidcSubject a = s)
     \<and> (case laBefore p of None \<Rightarrow> True | Some t \<Rightarrow> aCreatedAt a < pg_ts t)"

definition ListAuditLog :: "ListAuditLogParams \<Rightarrow> audit_entry list sql" where
  "ListAuditLog p = with_texts (opt_list (laEntityType p) @ opt_list (laActorOidcSubject p)) (\<lambda>x d.
     let es = sort_key (\<lambda>a. - aCreatedAt a) (filter (audit_where p) (audit_log d)) in
     case laLimitVal p of
       None \<Rightarrow> Inr (es, d)
     | Some n \<Rightarrow> if n < 0 then Inl NegativeLimit else Inr (take (nat n) es, d))"

lemma user_reads_only [simp, keeps_intros]:
  "sql_reads (GetUserByID i)" "sql_reads (GetUserSettings i)" "sql_reads (ListCalendarTokensByUser i)"
  by (simp_all add: GetUserByID_def GetUserSettings_def ListCalendarTokensByUser_def)

lemma ListAuditLog_reads_only [simp, keeps_intros]: "sql_reads (ListAuditLog p)"
  by (rule sql_readsI) (auto simp: ListAuditLog_def with_texts_def Let_def split: option.splits if_splits)

subsection \<open>Every statement keeps the invariant\<close>

lemma oks_users [frame_simps]:
  "tracks_ok (d\<lparr>users := x\<rparr>) = tracks_ok d" "tags_ok (d\<lparr>users := x\<rparr>) = tags_ok d"
  by (simp_all add: table_oks id_lists)

lemma opt_in_mono: "opt_in x xs \<Longrightarrow> set xs \<subseteq> set ys \<Longrightarrow> opt_in x ys"
  by (auto simp: opt_in_def split: option.splits)

lemma wf_users:
  assumes wf: "wf_db env d" and ids: "set (user_ids d) \<subseteq> set (map uID us)"
    and ok: "users_ok (d\<lparr>users := us\<rparr>)"
  shows "wf_db env (d\<lparr>users := us\<rparr>)"
  unfolding wf_db_def
proof (intro conjI)
  note old = wf_dbD [OF wf]
  show "users_ok (d\<lparr>users := us\<rparr>)" by (rule ok)
  show "tags_ok (d\<lparr>users := us\<rparr>)" "tracks_ok (d\<lparr>users := us\<rparr>)"
    using old by (simp_all add: frame_simps)
  show "stars_ok (d\<lparr>users := us\<rparr>)" "settings_ok (d\<lparr>users := us\<rparr>)" "tokens_ok (d\<lparr>users := us\<rparr>)"
      "reminders_ok (d\<lparr>users := us\<rparr>)" "digests_ok (d\<lparr>users := us\<rparr>)"
    using old(5-9) ids by (auto simp: table_oks id_lists)
  have opt: "opt_in v (user_ids d) \<Longrightarrow> opt_in v (map uID us)" for v using opt_in_mono [OF _ ids] by blast
  show "conferences_ok env (d\<lparr>users := us\<rparr>)" "audit_ok (d\<lparr>users := us\<rparr>)"
    using old(2,10) opt by (simp_all add: conferences_ok_def audit_ok_def user_ids_def conf_ids_def)
qed

lemma wf_UpsertUser [keeps_intros]: "sql_step (wf_step env) (UpsertUser p)"
proof (rule wf_stepI)
  fix x d a d'
  assume run: "UpsertUser p x d = Inr (a, d')" and wf: "wf_db env d"
  have ok: "users_ok d" using wf by (rule wf_dbD)
  let ?key = "(uuOidcIssuer p, uuOidcSubject p)"
  show "wf_db env d'"
  proof (cases "find (\<lambda>u. (uOidcIssuer u, uOidcSubject u) = ?key) (users d)")
    case None
    then have "?key \<notin> set (map (\<lambda>u. (uOidcIssuer u, uOidcSubject u)) (users d))"
      by (auto simp: find_None_iff)
    moreover from None run obtain u where u: "d' = d\<lparr>users := users d @ [u]\<rparr>"
        "uID u \<notin> set (user_ids d)" "uEmail u \<notin> set (map uEmail (users d))"
        "(uOidcIssuer u, uOidcSubject u) = ?key"
      by (auto simp: UpsertUser_def with_texts_def Let_def split: if_splits)
    ultimately have "users_ok d'" using ok by (auto simp: users_ok_def user_ids_def)
    then show ?thesis unfolding u(1) by (intro wf_users [OF wf]) (auto simp: user_ids_def)
  next
    case (Some old)
    have mem: "old \<in> set (users d)" "(uOidcIssuer old, uOidcSubject old) = ?key"
      using find_Some_iff_mem [OF Some] by simp_all
    let ?u = "old\<lparr>uEmail := uuEmail p, uDisplayName := uuDisplayName p,
                 uLastLoginAt := Some (x_now x), uUpdatedAt := x_now x\<rparr>"
    let ?us = "update_where (\<lambda>v. uID v = uID old) (\<lambda>_. ?u) (users d)"
    have d': "d' = d\<lparr>users := ?us\<rparr>" "uuEmail p \<notin> uEmail ` {v \<in> set (users d). uID v \<noteq> uID old}"
      using run Some by (auto simp: UpsertUser_def with_texts_def Let_def split: if_splits)
    have dist: "distinct (map uID (users d))" using ok by (simp add: users_ok_def user_ids_def)
    have ids: "map uID ?us = map uID (users d)" by (intro map_update_where_key) simp
    have "v = old" if "v \<in> set (users d)" "uID v = uID old" for v
      using distinct_map_eqD [OF dist that(1) mem(1) that(2)] .
    then have "map (\<lambda>u. (uOidcIssuer u, uOidcSubject u)) ?us = map (\<lambda>u. (uOidcIssuer u, uOidcSubject u)) (users d)"
      unfolding update_where_def by fastforce
    moreover have "distinct (map uEmail ?us)"
      using ok d'(2) dist by (intro distinct_map_update_row) (simp_all add: users_ok_def)
    ultimately have "users_ok d'" using ok ids d'(1) by (simp add: users_ok_def user_ids_def)
    then show ?thesis unfolding d'(1) using ids by (intro wf_users [OF wf]) (simp_all add: user_ids_def)
  qed
qed

lemma default_settings_check: "settings_check
    \<lparr>usUserID = i, usTimezone = ''Europe/Berlin'', usReminderLeadDays = [28, 14, 7, 1],
     usWeeklyDigestEnabled = False, usWeeklyDigestDay = 1, usWeeklyDigestHour = 8,
     usWeeklyDigestHorizonWeeks = 6, usUpdatedAt = t\<rparr> = None"
  by (simp add: settings_check_def)

lemma wf_UpsertUserSettings [keeps_intros]: "sql_step (wf_step env) (UpsertUserSettings i)"
  by (rule wf_stepI)
    (auto simp: UpsertUserSettings_def wf_db_def frame_simps settings_ok_def id_lists default_settings_check
      split: if_splits)

lemma wf_UpdateUserSettings [keeps_intros]: "sql_step (wf_step env) (UpdateUserSettings p)"
proof (rule wf_stepI)
  fix x d a d'
  assume run: "UpdateUserSettings p x d = Inr (a, d')" and wf: "wf_db env d"
  have ok: "settings_ok d" using wf by (rule wf_dbD)
  obtain old where old: "find (\<lambda>s. usUserID s = upUserID p) (user_settings d) = Some old"
      and s: "usUserID a = usUserID old" "settings_check a = None"
      "d' = d\<lparr>user_settings := update_where (\<lambda>r. usUserID r = upUserID p) (\<lambda>_. a) (user_settings d)\<rparr>"
    using run by (auto simp: UpdateUserSettings_def with_texts_def Let_def split: if_splits option.splits)
  have mem: "old \<in> set (user_settings d)" "usUserID old = upUserID p"
    using find_Some_iff_mem [OF old] by simp_all
  have "map usUserID (user_settings d') = map usUserID (user_settings d)"
    using s mem by (simp add: map_update_where_key)
  moreover have "usUserID a \<in> set (user_ids d)" using ok s mem by (auto simp: settings_ok_def)
  ultimately have "settings_ok d'"
    using ok s by (auto simp: settings_ok_def id_lists in_update_where_iff)
  then show "wf_db env d'" using wf s(3) by (simp add: wf_db_def frame_simps)
qed

lemma wf_CreateCalendarToken [keeps_intros]: "sql_step (wf_step env) (CreateCalendarToken u t k)"
  by (rule wf_stepI)
    (auto simp: CreateCalendarToken_def with_texts_def Let_def wf_db_def frame_simps tokens_ok_def id_lists
      split: if_splits)

lemma active_tokens_touched:
  assumes "\<And>k. P k \<Longrightarrow> kRevokedAt (f k) = kRevokedAt k" and "\<And>k. g (f k) = g k"
  shows "map g (filter (\<lambda>k. kRevokedAt k = None) (update_where P f ks))
       = map g (filter (\<lambda>k. kRevokedAt k = None) ks)"
  using assms by (induction ks) auto

lemma active_tokens_revoked:
  "filter (\<lambda>k. kRevokedAt k = None) (update_where P (\<lambda>k. k\<lparr>kRevokedAt := Some t\<rparr>) ks)
   = filter (\<lambda>k. kRevokedAt k = None \<and> \<not> P k) ks"
  by (induction ks) auto

lemma wf_GetCalendarTokenByValue [keeps_intros]: "sql_step (wf_step env) (GetCalendarTokenByValue t)"
proof (rule wf_stepI)
  fix x d a d'
  assume run: "GetCalendarTokenByValue t x d = Inr (a, d')" and wf: "wf_db env d"
  have ok: "tokens_ok d" using wf by (rule wf_dbD)
  have d': "d' = d\<lparr>calendar_tokens := update_where (\<lambda>k. kToken k = t \<and> kRevokedAt k = None)
      (\<lambda>k. k\<lparr>kLastUsedAt := Some (x_now x)\<rparr>) (calendar_tokens d)\<rparr>"
    using run by (auto simp: GetCalendarTokenByValue_def with_texts_def Let_def split: if_splits option.splits)
  have "tokens_ok d'"
    using ok unfolding d'
    by (auto simp: tokens_ok_def id_lists map_update_where_key active_tokens_touched in_update_where_iff)
  then show "wf_db env d'" using wf d' by (simp add: wf_db_def frame_simps)
qed

lemma wf_RevokeCalendarTokensByUser [keeps_intros]:
  "sql_step (wf_step env) (RevokeCalendarTokensByUser u k)"
proof (rule wf_stepI)
  fix x d a d'
  assume run: "RevokeCalendarTokensByUser u k x d = Inr (a, d')" and wf: "wf_db env d"
  have ok: "tokens_ok d" using wf by (rule wf_dbD)
  have d': "d' = d\<lparr>calendar_tokens := update_where (\<lambda>r. kUserID r = u \<and> kKind r = k \<and> kRevokedAt r = None)
      (\<lambda>r. r\<lparr>kRevokedAt := Some (x_now x)\<rparr>) (calendar_tokens d)\<rparr>"
    using run by (auto simp: RevokeCalendarTokensByUser_def with_texts_def split: if_splits)
  have dist: "distinct (map g (filter P ks)) \<Longrightarrow> distinct (map g (filter (\<lambda>k. P k \<and> Q k) ks))"
    for g :: "calendar_token \<Rightarrow> uuid \<times> string" and P Q ks
    by (induction ks) (auto split: if_splits)
  have "tokens_ok d'"
    using ok unfolding d'
    by (auto simp: tokens_ok_def id_lists map_update_where_key active_tokens_revoked in_update_where_iff dist)
  then show "wf_db env d'" using wf d' by (simp add: wf_db_def frame_simps)
qed

lemma wf_InsertAuditEntry [keeps_intros]: "sql_step (wf_step env) (InsertAuditEntry p)"
  by (rule wf_stepI)
    (auto simp: InsertAuditEntry_def with_texts_def wf_db_def frame_simps audit_ok_def id_lists split: if_splits)

lemma hist_user_writes [keeps_intros]:
  "sql_step keeps_history (UpsertUser up)" "sql_step keeps_history (UpsertUserSettings i)"
  "sql_step keeps_history (UpdateUserSettings sp)" "sql_step keeps_history (CreateCalendarToken u t k)"
  "sql_step keeps_history (GetCalendarTokenByValue t)"
  "sql_step keeps_history (RevokeCalendarTokensByUser u k)" "sql_step keeps_history (InsertAuditEntry ap)"
  by (rule hist_stepI, auto simp: UpsertUser_def UpsertUserSettings_def UpdateUserSettings_def
      CreateCalendarToken_def GetCalendarTokenByValue_def RevokeCalendarTokensByUser_def
      InsertAuditEntry_def with_texts_def Let_def split: if_splits option.splits)+

end
