(* ===== verification/Repo_Dispatch.thy ===== *)
theory Repo_Dispatch
  imports Sql
begin

text \<open>
  The queries on the two dispatch logs: \<^verbatim>\<open>repository/reminders.sql.go\<close>, which the
  services call to plan and cancel reminders, and \<^verbatim>\<open>repository/scheduler.sql.go\<close>,
  which the scheduler calls to find what is due and to record what became of it.
\<close>

subsection \<open>Parameters and rows\<close>

record InsertReminderRowParams =
  irUserID :: uuid
  irConferenceID :: uuid
  irDeadlineKind :: deadline_kind
  irLeadTimeDays :: int
  irScheduledFor :: instant

record SelectDueRemindersRow =
  drID :: uuid
  drUserID :: uuid
  drConferenceID :: uuid
  drDeadlineKind :: deadline_kind
  drLeadTimeDays :: int
  drScheduledFor :: instant
  drAttempts :: int
  drUserEmail :: string
  drUserName :: string
  drConferenceName :: string
  drConferenceAcronym :: string
  drPrimaryDeadline :: "instant option"
  drAbstractDeadline :: "instant option"
  drNotificationDate :: "instant option"
  drCameraReadyDate :: "instant option"

record SelectDueDigestsRow =
  ddID :: uuid
  ddUserID :: uuid
  ddWeekStarting :: instant
  ddScheduledFor :: instant
  ddAttempts :: int
  ddUserEmail :: string
  ddUserName :: string
  ddWeeklyDigestHorizonWeeks :: int

definition dispatch_limit :: nat where
  "dispatch_limit = 50"

subsection \<open>Planning and cancelling reminders\<close>

definition InsertReminderRow :: "InsertReminderRowParams \<Rightarrow> unit sql" where
  "InsertReminderRow p x d =
     (let r = \<lparr>rID = x_gen x, rUserID = irUserID p, rConferenceID = irConferenceID p,
               rDeadlineKind = irDeadlineKind p, rLeadTimeDays = irLeadTimeDays p,
               rScheduledFor = pg_ts (irScheduledFor p), rStatus = Pending, rSentAt = None,
               rAttempts = 0, rLastError = None, rCreatedAt = x_now x, rUpdatedAt = x_now x\<rparr> in
      case reminder_check r of
        Some k \<Rightarrow> Inl (CheckViolation k)
      | None \<Rightarrow>
          if reminder_key r \<in> set (map reminder_key (reminders d)) then Inr ((), d)
          else if rID r \<in> set (map rID (reminders d)) then Inl (UniqueViolation ''reminder_dispatch_log_pkey'')
          else if rUserID r \<notin> set (user_ids d) then Inl (ForeignKeyViolation ''reminder_dispatch_log_user_id_fkey'')
          else if rConferenceID r \<notin> set (conf_ids d)
          then Inl (ForeignKeyViolation ''reminder_dispatch_log_conference_id_fkey'')
          else Inr ((), d\<lparr>reminders := reminders d @ [r]\<rparr>))"

definition cancelled :: "instant \<Rightarrow> reminder \<Rightarrow> reminder" where
  "cancelled t r = r\<lparr>rStatus := Cancelled, rUpdatedAt := t\<rparr>"

definition CancelConferenceReminders :: "uuid \<Rightarrow> unit sql" where
  "CancelConferenceReminders i x d =
     Inr ((), d\<lparr>reminders := update_where (\<lambda>r. rStatus r = Pending \<and> rConferenceID r = i)
       (cancelled (x_now x)) (reminders d)\<rparr>)"

definition CancelUserConferenceReminders :: "uuid \<Rightarrow> uuid \<Rightarrow> unit sql" where
  "CancelUserConferenceReminders u i x d =
     Inr ((), d\<lparr>reminders := update_where (\<lambda>r. rStatus r = Pending \<and> rUserID r = u \<and> rConferenceID r = i)
       (cancelled (x_now x)) (reminders d)\<rparr>)"

definition DeleteConferencePendingReminders :: "uuid \<Rightarrow> unit sql" where
  "DeleteConferencePendingReminders i x d =
     Inr ((), d\<lparr>reminders := delete_where (\<lambda>r. rStatus r = Pending \<and> rConferenceID r = i) (reminders d)\<rparr>)"

definition DeleteUserConferencePendingReminders :: "uuid \<Rightarrow> uuid \<Rightarrow> unit sql" where
  "DeleteUserConferencePendingReminders u i x d =
     Inr ((), d\<lparr>reminders :=
       delete_where (\<lambda>r. rStatus r = Pending \<and> rUserID r = u \<and> rConferenceID r = i) (reminders d)\<rparr>)"

definition CountPendingRemindersForUser :: "uuid \<Rightarrow> int sql" where
  "CountPendingRemindersForUser u =
     rows (\<lambda>d. int (length (filter (\<lambda>r. rUserID r = u \<and> rStatus r = Pending) (reminders d))))"

definition CountReminderRows :: "uuid \<Rightarrow> uuid \<Rightarrow> int sql" where
  "CountReminderRows u i =
     rows (\<lambda>d. int (length (filter (\<lambda>r. rUserID r = u \<and> rConferenceID r = i) (reminders d))))"

subsection \<open>Dispatching reminders\<close>

definition due_row :: "reminder \<Rightarrow> user \<Rightarrow> conference \<Rightarrow> SelectDueRemindersRow" where
  "due_row r u c =
     \<lparr>drID = rID r, drUserID = rUserID r, drConferenceID = rConferenceID r,
      drDeadlineKind = rDeadlineKind r, drLeadTimeDays = rLeadTimeDays r,
      drScheduledFor = rScheduledFor r, drAttempts = rAttempts r, drUserEmail = uEmail u,
      drUserName = uDisplayName u, drConferenceName = cName c, drConferenceAcronym = cAcronym c,
      drPrimaryDeadline = cPrimaryDeadline c, drAbstractDeadline = cAbstractDeadline c,
      drNotificationDate = cNotificationDate c, drCameraReadyDate = cCameraReadyDate c\<rparr>"

definition due_reminders :: "instant \<Rightarrow> db \<Rightarrow> SelectDueRemindersRow list" where
  "due_reminders now d = take dispatch_limit (sort_key drScheduledFor
     [due_row r u c. r \<leftarrow> reminders d, rStatus r = Pending \<and> rScheduledFor r \<le> pg_ts now,
        u \<leftarrow> users d, uID u = rUserID r, c \<leftarrow> conferences d, cID c = rConferenceID r])"

definition SelectDueReminders :: "instant \<Rightarrow> SelectDueRemindersRow list sql" where
  "SelectDueReminders now = rows (due_reminders now)"

definition set_reminder :: "uuid \<Rightarrow> (reminder \<Rightarrow> reminder) \<Rightarrow> db \<Rightarrow> db" where
  "set_reminder i f d = d\<lparr>reminders := update_where (\<lambda>r. rID r = i) f (reminders d)\<rparr>"

definition MarkReminderSent :: "uuid \<Rightarrow> unit sql" where
  "MarkReminderSent i x d = Inr ((), set_reminder i
     (\<lambda>r. r\<lparr>rStatus := Sent, rSentAt := Some (x_now x), rUpdatedAt := x_now x\<rparr>) d)"

definition MarkReminderFailed :: "string option \<Rightarrow> uuid \<Rightarrow> unit sql" where
  "MarkReminderFailed e i = with_texts (opt_list e) (\<lambda>x d. Inr ((), set_reminder i
     (\<lambda>r. r\<lparr>rStatus := Failed, rLastError := e, rUpdatedAt := x_now x\<rparr>) d))"

definition IncrementReminderAttempt :: "string option \<Rightarrow> uuid \<Rightarrow> unit sql" where
  "IncrementReminderAttempt e i = with_texts (opt_list e) (\<lambda>x d.
     if list_ex (\<lambda>r. rID r = i \<and> rAttempts r = 2147483647) (reminders d) then Inl IntegerOverflow
     else Inr ((), set_reminder i
       (\<lambda>r. r\<lparr>rAttempts := rAttempts r + 1, rLastError := e, rUpdatedAt := x_now x\<rparr>) d))"

definition CountPendingReminders :: "int sql" where
  "CountPendingReminders = rows (\<lambda>d. int (length (filter (\<lambda>r. rStatus r = Pending) (reminders d))))"

subsection \<open>Planning and dispatching digests\<close>

text \<open>
  Who wants a digest in this local hour of this local week day and has none for the week. The
  zone of every user with the digest enabled is evaluated, and an unknown one fails the query.
\<close>

definition wants_digest_now :: "location \<Rightarrow> instant \<Rightarrow> user_setting \<Rightarrow> bool" where
  "wants_digest_now loc now us \<longleftrightarrow>
     Weekday loc now = usWeeklyDigestDay us \<and> clock_in loc now div 3600 = usWeeklyDigestHour us"

definition SelectDigestDueUsers :: "env \<Rightarrow> instant \<Rightarrow> instant \<Rightarrow> uuid list sql" where
  "SelectDigestDueUsers env now week x d =
     (case find (\<lambda>us. usWeeklyDigestEnabled us \<and> e_pg_tz env (usTimezone us) = None) (user_settings d) of
        Some us \<Rightarrow> Inl (InvalidTimeZone (usTimezone us))
      | None \<Rightarrow>
          Inr ([uID u. u \<leftarrow> users d, us \<leftarrow> user_settings d,
                  usUserID us = uID u \<and> usWeeklyDigestEnabled us
                  \<and> (case e_pg_tz env (usTimezone us) of None \<Rightarrow> False
                     | Some loc \<Rightarrow> wants_digest_now loc (pg_ts now) us)
                  \<and> (uID u, week) \<notin> set (map digest_key (digests d))], d))"

definition InsertDigestRow :: "uuid \<Rightarrow> instant \<Rightarrow> instant \<Rightarrow> unit sql" where
  "InsertDigestRow u week sched x d =
     (if (u, week) \<in> set (map digest_key (digests d)) then Inr ((), d)
      else if x_gen x \<in> set (map dID (digests d)) then Inl (UniqueViolation ''digest_dispatch_log_pkey'')
      else if u \<notin> set (user_ids d) then Inl (ForeignKeyViolation ''digest_dispatch_log_user_id_fkey'')
      else Inr ((), d\<lparr>digests := digests d @
        [\<lparr>dID = x_gen x, dUserID = u, dWeekStarting = week, dScheduledFor = pg_ts sched, dStatus = Pending,
          dSentAt = None, dAttempts = 0, dLastError = None, dCreatedAt = x_now x,
          dUpdatedAt = x_now x\<rparr>]\<rparr>))"

definition due_digest_row :: "digest \<Rightarrow> user \<Rightarrow> user_setting \<Rightarrow> SelectDueDigestsRow" where
  "due_digest_row g u us =
     \<lparr>ddID = dID g, ddUserID = dUserID g, ddWeekStarting = dWeekStarting g,
      ddScheduledFor = dScheduledFor g, ddAttempts = dAttempts g, ddUserEmail = uEmail u,
      ddUserName = uDisplayName u, ddWeeklyDigestHorizonWeeks = usWeeklyDigestHorizonWeeks us\<rparr>"

definition due_digests :: "instant \<Rightarrow> db \<Rightarrow> SelectDueDigestsRow list" where
  "due_digests now d = take dispatch_limit (sort_key ddScheduledFor
     [due_digest_row g u us. g \<leftarrow> digests d, dStatus g = Pending \<and> dScheduledFor g \<le> pg_ts now,
        u \<leftarrow> users d, uID u = dUserID g, us \<leftarrow> user_settings d, usUserID us = dUserID g])"

definition SelectDueDigests :: "instant \<Rightarrow> SelectDueDigestsRow list sql" where
  "SelectDueDigests now = rows (due_digests now)"

definition set_digest :: "uuid \<Rightarrow> (digest \<Rightarrow> digest) \<Rightarrow> db \<Rightarrow> db" where
  "set_digest i f d = d\<lparr>digests := update_where (\<lambda>g. dID g = i) f (digests d)\<rparr>"

definition MarkDigestSent :: "uuid \<Rightarrow> unit sql" where
  "MarkDigestSent i x d = Inr ((), set_digest i
     (\<lambda>g. g\<lparr>dStatus := Sent, dSentAt := Some (x_now x), dUpdatedAt := x_now x\<rparr>) d)"

definition MarkDigestSkipped :: "uuid \<Rightarrow> unit sql" where
  "MarkDigestSkipped i x d = Inr ((), set_digest i
     (\<lambda>g. g\<lparr>dStatus := Skipped, dUpdatedAt := x_now x\<rparr>) d)"

definition MarkDigestFailed :: "string option \<Rightarrow> uuid \<Rightarrow> unit sql" where
  "MarkDigestFailed e i = with_texts (opt_list e) (\<lambda>x d. Inr ((), set_digest i
     (\<lambda>g. g\<lparr>dStatus := Failed, dLastError := e, dUpdatedAt := x_now x\<rparr>) d))"

definition IncrementDigestAttempt :: "string option \<Rightarrow> uuid \<Rightarrow> unit sql" where
  "IncrementDigestAttempt e i = with_texts (opt_list e) (\<lambda>x d.
     if list_ex (\<lambda>g. dID g = i \<and> dAttempts g = 2147483647) (digests d) then Inl IntegerOverflow
     else Inr ((), set_digest i
       (\<lambda>g. g\<lparr>dAttempts := dAttempts g + 1, dLastError := e, dUpdatedAt := x_now x\<rparr>) d))"

definition CountPendingDigests :: "int sql" where
  "CountPendingDigests = rows (\<lambda>d. int (length (filter (\<lambda>g. dStatus g = Pending) (digests d))))"

text \<open>\<^verbatim>\<open>event_end_date < (CURRENT_DATE - $1::int)\<close>, on conferences that are not archived.\<close>

definition expired :: "instant \<Rightarrow> int \<Rightarrow> conference \<Rightarrow> bool" where
  "expired today grace c \<longleftrightarrow> cArchivedAt c = None
     \<and> (case cEventEndDate c of None \<Rightarrow> False | Some e \<Rightarrow> e < today - grace * (day_secs * second))"

definition SelectExpiredConferences :: "int \<Rightarrow> uuid list sql" where
  "SelectExpiredConferences grace x d =
     Inr (map cID (filter (expired (x_today x) grace) (conferences d)), d)"

lemma dispatch_reads_only [simp, keeps_intros]:
  "sql_reads (CountPendingRemindersForUser u)" "sql_reads (CountReminderRows u i)"
  "sql_reads (SelectDueReminders now)" "sql_reads CountPendingReminders"
  "sql_reads (SelectDueDigests now)" "sql_reads CountPendingDigests"
  by (simp_all add: CountPendingRemindersForUser_def CountReminderRows_def SelectDueReminders_def
      CountPendingReminders_def SelectDueDigests_def CountPendingDigests_def)

lemma SelectDigestDueUsers_reads_only [simp, keeps_intros]: "sql_reads (SelectDigestDueUsers env now w)"
  by (rule sql_readsI) (auto simp: SelectDigestDueUsers_def split: option.splits)

lemma SelectExpiredConferences_reads_only [simp, keeps_intros]: "sql_reads (SelectExpiredConferences n)"
  by (rule sql_readsI) (auto simp: SelectExpiredConferences_def)

subsection \<open>Every statement keeps the invariant\<close>

lemma wf_reminders: "wf_db env d \<Longrightarrow> reminders_ok (d\<lparr>reminders := rs\<rparr>) \<Longrightarrow> wf_db env (d\<lparr>reminders := rs\<rparr>)"
  by (simp add: wf_db_def frame_simps)

lemma wf_digests: "wf_db env d \<Longrightarrow> digests_ok (d\<lparr>digests := gs\<rparr>) \<Longrightarrow> wf_db env (d\<lparr>digests := gs\<rparr>)"
  by (simp add: wf_db_def frame_simps)

text \<open>An update that leaves the identity of the rows alone and does not skip reminders.\<close>

lemma wf_update_reminders:
  assumes wf: "wf_db env d"
    and f: "\<And>r. rID (f r) = rID r \<and> reminder_key (f r) = reminder_key r \<and> rStatus (f r) \<noteq> Skipped
      \<or> rID (f r) = rID r \<and> reminder_key (f r) = reminder_key r \<and> rStatus (f r) = rStatus r"
  shows "wf_db env (d\<lparr>reminders := update_where P f (reminders d)\<rparr>)"
proof (rule wf_reminders [OF wf])
  have ok: "reminders_ok d" using wf by (rule wf_dbD)
  have fid: "rID (f r) = rID r" "reminder_key (f r) = reminder_key r" for r using f [of r] by auto
  have "map rID (update_where P f (reminders d)) = map rID (reminders d)"
    "map reminder_key (update_where P f (reminders d)) = map reminder_key (reminders d)"
    using fid by (simp_all add: map_update_where_key)
  moreover have "reminder_check (f r) = None \<and> rUserID (f r) \<in> set (user_ids d)
      \<and> rConferenceID (f r) \<in> set (conf_ids d)" if "r \<in> set (reminders d)" for r
    using ok that f [of r]
    by (auto simp: reminders_ok_def reminder_check_def reminder_key_def split: if_splits)
  ultimately show "reminders_ok (d\<lparr>reminders := update_where P f (reminders d)\<rparr>)"
    using ok by (auto simp: reminders_ok_def in_update_where_iff user_ids_def conf_ids_def)
qed

lemma wf_delete_reminders:
  "wf_db env d \<Longrightarrow> wf_db env (d\<lparr>reminders := delete_where P (reminders d)\<rparr>)"
  by (rule wf_reminders) (auto simp: wf_db_def reminders_ok_def id_lists distinct_map_delete_where)

lemma wf_update_digests:
  assumes wf: "wf_db env d" and f: "\<And>g. dID (f g) = dID g \<and> digest_key (f g) = digest_key g"
  shows "wf_db env (d\<lparr>digests := update_where P f (digests d)\<rparr>)"
proof (rule wf_digests [OF wf])
  have ok: "digests_ok d" using wf by (rule wf_dbD)
  moreover have "map dID (update_where P f (digests d)) = map dID (digests d)"
    "map digest_key (update_where P f (digests d)) = map digest_key (digests d)"
    using f by (simp_all add: map_update_where_key)
  moreover have "dUserID (f g) = dUserID g" for g using f [of g] by (simp add: digest_key_def)
  ultimately show "digests_ok (d\<lparr>digests := update_where P f (digests d)\<rparr>)"
    by (auto simp: digests_ok_def in_update_where_iff user_ids_def)
qed

lemma wf_reminder_writes [keeps_intros]:
  "sql_step (wf_step env) (CancelConferenceReminders i)"
  "sql_step (wf_step env) (CancelUserConferenceReminders u i)"
  "sql_step (wf_step env) (DeleteConferencePendingReminders i)"
  "sql_step (wf_step env) (DeleteUserConferencePendingReminders u i)"
  "sql_step (wf_step env) (MarkReminderSent i)"
  "sql_step (wf_step env) (MarkReminderFailed e i)"
  "sql_step (wf_step env) (IncrementReminderAttempt e i)"
  by (rule wf_stepI, auto simp: CancelConferenceReminders_def CancelUserConferenceReminders_def
      DeleteConferencePendingReminders_def DeleteUserConferencePendingReminders_def MarkReminderSent_def
      MarkReminderFailed_def IncrementReminderAttempt_def with_texts_def set_reminder_def cancelled_def
      reminder_key_def split: if_splits intro!: wf_update_reminders wf_delete_reminders)+

lemma wf_digest_writes [keeps_intros]:
  "sql_step (wf_step env) (MarkDigestSent i)" "sql_step (wf_step env) (MarkDigestSkipped i)"
  "sql_step (wf_step env) (MarkDigestFailed e i)" "sql_step (wf_step env) (IncrementDigestAttempt e i)"
  by (rule wf_stepI, auto simp: MarkDigestSent_def MarkDigestSkipped_def MarkDigestFailed_def
      IncrementDigestAttempt_def with_texts_def set_digest_def digest_key_def
      split: if_splits intro!: wf_update_digests)+

lemma wf_InsertReminderRow [keeps_intros]: "sql_step (wf_step env) (InsertReminderRow p)"
  by (rule wf_stepI)
    (auto simp: InsertReminderRow_def Let_def wf_db_def frame_simps reminders_ok_def id_lists
      split: if_splits option.splits)

lemma wf_InsertDigestRow [keeps_intros]: "sql_step (wf_step env) (InsertDigestRow u w t)"
  by (rule wf_stepI)
    (auto simp: InsertDigestRow_def wf_db_def frame_simps digests_ok_def id_lists digest_key_def split: if_splits)

subsection \<open>History\<close>

text \<open>
  Planning and cancelling touch pending rows alone. What the scheduler records goes by the
  identity of the row, so it is not in this list.
\<close>

lemma hist_reminder_writes [keeps_intros]:
  "sql_step keeps_history (InsertReminderRow p)"
  "sql_step keeps_history (CancelConferenceReminders i)"
  "sql_step keeps_history (CancelUserConferenceReminders u i)"
  "sql_step keeps_history (DeleteConferencePendingReminders i)"
  "sql_step keeps_history (DeleteUserConferencePendingReminders u i)"
  "sql_step keeps_history (InsertDigestRow u w t)"
  by (auto simp: sql_step_def keeps_history_def history_def InsertReminderRow_def InsertDigestRow_def
      CancelConferenceReminders_def CancelUserConferenceReminders_def Let_def
      DeleteConferencePendingReminders_def DeleteUserConferencePendingReminders_def in_update_where_iff
      split: if_splits option.splits)

end
