(* ===== verification/Reminders.thy ===== *)
theory Reminders
  imports Repo_Conferences Repo_Users Repo_Dispatch
begin

text \<open>
  \<^verbatim>\<open>service/reminders.go\<close>: which deadlines of a conference are reminded of, when, and
  the rows this plans. The lemmas give the send time in the user's zone and show that planning
  only ever appends pending rows, one for every deadline and lead time that has none.
\<close>

subsection \<open>Deadlines and send times\<close>

record deadlineEntry =
  deKind :: deadline_kind
  deAt :: instant

definition deadline_entries :: "deadline_kind \<Rightarrow> instant option \<Rightarrow> deadlineEntry list" where
  "deadline_entries k ts = (case ts of None \<Rightarrow> [] | Some t \<Rightarrow> [\<lparr>deKind = k, deAt = t\<rparr>])"

definition conferenceDeadlines :: "conference \<Rightarrow> deadlineEntry list" where
  "conferenceDeadlines c =
     deadline_entries Submission (cPrimaryDeadline c)
     @ deadline_entries Abstract (cAbstractDeadline c)
     @ deadline_entries Notification (cNotificationDate c)
     @ deadline_entries Camera_ready (cCameraReadyDate c)"

definition nine :: int where
  "nine = 9 * 3600"

definition scheduledFor :: "instant \<Rightarrow> int \<Rightarrow> location \<Rightarrow> instant" where
  "scheduledFor deadline leadDays loc =
     (case date_in loc (AddDate loc deadline 0 0 (- leadDays)) of
        (y, m, d) \<Rightarrow> go_Date y m d nine 0 loc)"

text \<open>
  A local time that exists in the zone, that is, that no change of the clocks skips, is the local
  time of the instant it resolves to.
\<close>

definition wall_exists :: "location \<Rightarrow> int \<Rightarrow> bool" where
  "wall_exists loc l \<longleftrightarrow> resolve_local loc l + zone_offset loc (resolve_local loc l) = l"

lemma wall_exists_UTC [simp]: "wall_exists UTC l"
  by (simp add: wall_exists_def)

lemma local_secs_resolve:
  "wall_exists loc l \<Longrightarrow> 0 \<le> ns \<Longrightarrow> ns < second \<Longrightarrow> local_secs loc (resolve_local loc l * second + ns) = l"
  by (simp add: wall_exists_def local_secs_def)

definition local_day :: "location \<Rightarrow> instant \<Rightarrow> int" where
  "local_day loc t = local_secs loc t div day_secs"

lemma clock_in_range: "0 \<le> clock_in loc t" "clock_in loc t < day_secs"
  by (simp_all add: clock_in_def day_secs_def)

lemma day_secs_div_mod: "0 \<le> c \<Longrightarrow> c < day_secs \<Longrightarrow> (n * day_secs + c) div day_secs = n \<and> (n * day_secs + c) mod day_secs = c"
  by (simp add: day_secs_def)

lemma scheduledFor_local:
  assumes "wall_exists loc ((local_day loc t - lead) * day_secs + clock_in loc t)"
  shows "scheduledFor t lead loc = resolve_local loc ((local_day loc t - lead) * day_secs + nine) * second"
proof -
  let ?n = "local_day loc t - lead"
  have "local_secs loc (AddDate loc t 0 0 (- lead)) = ?n * day_secs + clock_in loc t"
    using local_secs_resolve [OF assms nsec_of_range] by (simp add: AddDate_days local_day_def)
  then have date: "date_in loc (AddDate loc t 0 0 (- lead)) = days_to_civil ?n"
    using day_secs_div_mod [OF clock_in_range] by (simp add: date_in_def)
  obtain y m d where ymd: "days_to_civil ?n = (y, m, d)" by (cases "days_to_civil ?n")
  then have "valid_date y m d" "civil_to_days y m d = ?n" using civil_to_days_to_civil by auto
  then show ?thesis by (simp add: scheduledFor_def date ymd go_Date_valid_month valid_date_def)
qed

lemma scheduledFor_local_secs:
  assumes "wall_exists loc ((local_day loc t - lead) * day_secs + clock_in loc t)"
    and "wall_exists loc ((local_day loc t - lead) * day_secs + nine)"
  shows "local_secs loc (scheduledFor t lead loc) = (local_day loc t - lead) * day_secs + nine"
  using scheduledFor_local [OF assms(1)] local_secs_resolve [OF assms(2), of 0]
  by (simp add: second_def)

subsection \<open>Planning\<close>

definition LoadLocation_or_UTC :: "env \<Rightarrow> string \<Rightarrow> location" where
  "LoadLocation_or_UTC env tz = (case e_loc env tz of None \<Rightarrow> UTC | Some loc \<Rightarrow> loc)"

definition plan_row :: "location \<Rightarrow> uuid \<Rightarrow> uuid \<Rightarrow> deadlineEntry \<Rightarrow> int \<Rightarrow> InsertReminderRowParams" where
  "plan_row loc u i d lead =
     \<lparr>irUserID = u, irConferenceID = i, irDeadlineKind = deKind d, irLeadTimeDays = lead,
      irScheduledFor = scheduledFor (deAt d) lead loc\<rparr>"

definition insert_reminder_msg :: "deadlineEntry \<Rightarrow> int \<Rightarrow> string" where
  "insert_reminder_msg d lead = ''insert reminder '' @ kind_str (deKind d) @ '' lead='' @ Itoa lead"

definition materializeReminders ::
  "env \<Rightarrow> dbtx \<Rightarrow> uuid \<Rightarrow> uuid \<Rightarrow> string \<Rightarrow> int list \<Rightarrow> deadlineEntry list
   \<Rightarrow> 'm conn_scheme \<Rightarrow> (err + unit) \<times> 'm conn_scheme" where
  "materializeReminders env q userID conferenceID tz leadDays deadlines =
     for_each (\<lambda>d. for_each (\<lambda>lead.
         on_err (Wrapf (insert_reminder_msg d lead) \<circ> Pg)
           (exec q (InsertReminderRow (plan_row (LoadLocation_or_UTC env tz) userID conferenceID d lead))))
       leadDays) deadlines"

subsection \<open>What planning does to the log\<close>

text \<open>Appending pending reminders of one kind, and nothing else.\<close>

definition adds_reminders :: "(reminder \<Rightarrow> bool) \<Rightarrow> db \<Rightarrow> db \<Rightarrow> bool" where
  "adds_reminders P d d' \<longleftrightarrow>
     (\<exists>rs. d' = d\<lparr>reminders := reminders d @ rs\<rparr> \<and> (\<forall>r \<in> set rs. rStatus r = Pending \<and> P r))"

interpretation adds: evolution "adds_reminders P" for P
proof
  show "adds_reminders P d d" for d
    unfolding adds_reminders_def by (rule exI [of _ "[]"]) simp
  fix a b c
  assume ab: "adds_reminders P a b" and bc: "adds_reminders P b c"
  obtain rs where rs: "b = a\<lparr>reminders := reminders a @ rs\<rparr>" "\<forall>r \<in> set rs. rStatus r = Pending \<and> P r"
    using ab by (auto simp: adds_reminders_def)
  obtain qs where qs: "c = b\<lparr>reminders := reminders b @ qs\<rparr>" "\<forall>r \<in> set qs. rStatus r = Pending \<and> P r"
    using bc by (auto simp: adds_reminders_def)
  have "\<forall>r \<in> set (rs @ qs). rStatus r = Pending \<and> P r" using rs(2) qs(2) by auto
  with rs(1) qs(1) show "adds_reminders P a c"
    unfolding adds_reminders_def by (intro exI [of _ "rs @ qs"]) simp
qed

lemma adds_reminders_keys: "adds_reminders P d d' \<Longrightarrow> set (map reminder_key (reminders d)) \<subseteq> set (map reminder_key (reminders d'))"
  by (auto simp: adds_reminders_def)

lemma adds_InsertReminderRow:
  assumes "\<And>r. reminder_key r = (irUserID p, irConferenceID p, irDeadlineKind p, irLeadTimeDays p)
      \<Longrightarrow> rScheduledFor r = pg_ts (irScheduledFor p) \<Longrightarrow> P r"
  shows "sql_step (adds_reminders P) (InsertReminderRow p)"
proof (rule sql_stepI)
  fix x d a d'
  assume run: "InsertReminderRow p x d = Inr (a, d')"
  show "adds_reminders P d d'"
  proof (cases "d' = d")
    case True
    then show ?thesis by (simp add: adds.R_refl)
  next
    case False
    with run obtain r where "d' = d\<lparr>reminders := reminders d @ [r]\<rparr>" "rStatus r = Pending"
        "reminder_key r = (irUserID p, irConferenceID p, irDeadlineKind p, irLeadTimeDays p)"
        "rScheduledFor r = pg_ts (irScheduledFor p)"
      by (auto simp: InsertReminderRow_def Let_def reminder_key_def split: if_splits option.splits)
    then show ?thesis using assms unfolding adds_reminders_def by (intro exI [of _ "[r]"]) simp
  qed
qed

text \<open>The rows that planning a pair of a user and a conference may add.\<close>

definition planned :: "location \<Rightarrow> uuid \<Rightarrow> uuid \<Rightarrow> int list \<Rightarrow> deadlineEntry list \<Rightarrow> reminder \<Rightarrow> bool" where
  "planned loc u i leadDays deadlines r \<longleftrightarrow> rUserID r = u \<and> rConferenceID r = i
     \<and> (\<exists>d \<in> set deadlines. rDeadlineKind r = deKind d \<and> rLeadTimeDays r \<in> set leadDays
          \<and> rScheduledFor r = pg_ts (scheduledFor (deAt d) (rLeadTimeDays r) loc))"

lemma adds_for_each:
  assumes "\<And>x. x \<in> set xs \<Longrightarrow> tx_evolves (adds_reminders P) (f x)"
  shows "tx_evolves (adds_reminders P) (for_each f xs)"
  using assms by (induction xs) (simp_all add: adds.tx_ret adds.tx_andthen)

lemma materializeReminders_adds:
  "tx_evolves (adds_reminders (planned (LoadLocation_or_UTC env tz) u i leads ds))
     (materializeReminders env Tx u i tz leads ds)"
  unfolding materializeReminders_def
  by (intro adds_for_each adds.tx_on_err adds.tx_exec adds_InsertReminderRow)
    (auto simp: planned_def plan_row_def reminder_key_def)

lemma materializeReminders_keeps [keeps_intros]:
  "tx_evolves (wf_step env') (materializeReminders env Tx u i tz leads ds)"
  "tx_evolves keeps_history (materializeReminders env Tx u i tz leads ds)"
  unfolding materializeReminders_def
  by (intro wf.tx_rules wf.tx_exec hist.tx_rules hist.tx_exec keeps_intros)+

text \<open>After a successful run every deadline and lead time has a row.\<close>

lemma InsertReminderRow_has_key:
  "InsertReminderRow p x d = Inr (a, d') \<Longrightarrow>
     (irUserID p, irConferenceID p, irDeadlineKind p, irLeadTimeDays p) \<in> set (map reminder_key (reminders d'))"
  by (auto simp: InsertReminderRow_def Let_def reminder_key_def image_iff split: if_splits option.splits)

lemma InsertReminderRow_keeps_keys:
  "InsertReminderRow p x d = Inr (a, d') \<Longrightarrow> set (map reminder_key (reminders d)) \<subseteq> set (map reminder_key (reminders d'))"
  by (auto simp: InsertReminderRow_def Let_def split: if_splits option.splits)

lemma materializeReminders_covers:
  "tx_post (materializeReminders env Tx u i tz leads ds) v (\<lambda>_ v'.
     \<forall>d \<in> set ds. \<forall>lead \<in> set leads. (u, i, deKind d, lead) \<in> set (map reminder_key (reminders v')))"
  unfolding materializeReminders_def
proof (rule tx_post_for_each [where I = "\<lambda>ys v. \<forall>d \<in> set (ys :: deadlineEntry list). \<forall>lead \<in> set leads.
    (u, i, deKind d, lead) \<in> set (map reminder_key (reminders v))"])
  fix ys :: "deadlineEntry list" and d :: deadlineEntry and v :: db
  assume seen: "\<forall>d \<in> set (ys :: deadlineEntry list). \<forall>lead \<in> set leads. (u, i, deKind d, lead) \<in> set (map reminder_key (reminders v))"
  let ?J = "\<lambda>ls (v :: db). (\<forall>d \<in> set (ys :: deadlineEntry list). \<forall>lead \<in> set leads. (u, i, deKind d, lead) \<in> set (map reminder_key (reminders v)))
    \<and> (\<forall>lead \<in> set ls. (u, i, deKind d, lead) \<in> set (map reminder_key (reminders v)))"
  have "tx_post (for_each (\<lambda>lead. on_err (Wrapf (insert_reminder_msg d lead) \<circ> Pg)
      (exec Tx (InsertReminderRow (plan_row (LoadLocation_or_UTC env tz) u i d lead)))) leads) v
      (\<lambda>_ v'. ?J leads v')"
  proof (rule tx_post_for_each [where I = ?J])
    show "?J [] v" using seen by simp
    fix ls lead and v :: db
    assume J: "?J ls v"
    show "tx_post (on_err (Wrapf (insert_reminder_msg d lead) \<circ> Pg)
        (exec Tx (InsertReminderRow (plan_row (LoadLocation_or_UTC env tz) u i d lead)))) v
        (\<lambda>_ v'. ?J (ls @ [lead]) v')"
    proof (intro tx_post_on_err tx_post_exec)
      fix x a e
      assume ins: "InsertReminderRow (plan_row (LoadLocation_or_UTC env tz) u i d lead) x v = Inr (a, e)"
      from InsertReminderRow_keeps_keys [OF ins] InsertReminderRow_has_key [OF ins] J
      show "?J (ls @ [lead]) e" by (simp add: plan_row_def) blast
    qed
  qed
  then show "tx_post (for_each (\<lambda>lead. on_err (Wrapf (insert_reminder_msg d lead) \<circ> Pg)
      (exec Tx (InsertReminderRow (plan_row (LoadLocation_or_UTC env tz) u i d lead)))) leads) v
      (\<lambda>_ v'. \<forall>d \<in> set (ys @ [d]). \<forall>lead \<in> set leads.
         (u, i, deKind d, lead) \<in> set (map reminder_key (reminders v')))"
    by (rule tx_post_mono) auto
qed simp

subsection \<open>Properties\<close>

text \<open>
  A reminder goes out at 09:00 on the user's clock, the given number of days before the
  deadline's local date, whenever the zone has these local times (no clock change skips them).
\<close>

theorem scheduledFor_nine:
  assumes "wall_exists loc ((local_day loc t - lead) * day_secs + clock_in loc t)"
    and "wall_exists loc ((local_day loc t - lead) * day_secs + nine)"
  shows "local_day loc (scheduledFor t lead loc) = local_day loc t - lead
    \<and> clock_in loc (scheduledFor t lead loc) = 9 * 3600"
proof -
  have "0 \<le> nine" "nine < day_secs" by (simp_all add: nine_def day_secs_def)
  then show ?thesis
    using scheduledFor_local_secs [OF assms] day_secs_div_mod
    by (simp add: local_day_def clock_in_def nine_def)
qed

theorem scheduledFor_nine_witness: "clock_in UTC (scheduledFor 1800000000000000000 7 UTC) = 9 * 3600"
  using scheduledFor_nine [of UTC 1800000000000000000 7] by simp

text \<open>
  With a lead time of at least one day the reminder precedes its deadline, unless the zone
  moves its clocks by fifteen hours or more in between.
\<close>

theorem scheduledFor_before_deadline:
  assumes "wall_exists loc ((local_day loc t - lead) * day_secs + clock_in loc t)"
    and "wall_exists loc ((local_day loc t - lead) * day_secs + nine)"
    and "1 \<le> lead"
    and "zone_offset loc (unix t) - zone_offset loc (unix (scheduledFor t lead loc)) < 15 * 3600"
  shows "scheduledFor t lead loc < t"
proof -
  let ?s = "scheduledFor t lead loc"
  have "local_secs loc ?s = (local_day loc t - lead) * day_secs + nine"
    by (rule scheduledFor_local_secs [OF assms(1,2)])
  moreover have "local_day loc t * day_secs \<le> local_secs loc t"
    by (simp add: local_day_def day_secs_def)
  moreover have "(local_day loc t - lead) * day_secs \<le> (local_day loc t - 1) * day_secs"
    using assms(3) by (simp add: day_secs_def)
  ultimately have "unix ?s < unix t"
    using assms(4) by (simp add: local_secs_def nine_def day_secs_def left_diff_distrib)
  then show ?thesis
    unfolding unix_def second_def by (metis not_le zdiv_mono1 zero_less_numeral)
qed

theorem scheduledFor_before_deadline_witness: "scheduledFor 1800000000000000000 1 UTC < 1800000000000000000"
  by (rule scheduledFor_before_deadline) simp_all

text \<open>
  With a lead time of zero the send time is 09:00 on the day of the deadline, which is after
  the deadline exactly when the deadline is before 09:00 (shown for users in UTC).
\<close>

theorem scheduledFor_same_day:
  "t < scheduledFor t 0 UTC \<longleftrightarrow> clock_in UTC t < 9 * 3600"
proof -
  have "scheduledFor t 0 UTC = (local_day UTC t * day_secs + nine) * second"
    using scheduledFor_local [of UTC t 0] by simp
  moreover have "unix t = local_day UTC t * day_secs + clock_in UTC t"
    by (simp add: local_day_def clock_in_def)
  moreover have "t = unix t * second + nsec_of t" by (simp add: unix_def nsec_of_def)
  ultimately show ?thesis
    using nsec_of_range [of t] by (simp add: nine_def second_def day_secs_def) linarith
qed

end
