(* ===== verification/Conferences.thy ===== *)
theory Conferences
  imports Conference_Input Reminders
begin

text \<open>
  The conference service (\<^verbatim>\<open>service/conferences.go\<close>): listing, creating, replacing,
  archiving and deleting conferences with their tags and tracks, and the upsert of the import.
  Operations that write run in one transaction; replacing a conference plans its reminders
  anew. The lemmas show that every operation keeps the invariant of the schema and the history
  of reminders, and what each one writes.
\<close>

abbreviation (input) pg :: "(err \<Rightarrow> err) \<Rightarrow> db_err \<Rightarrow> err" where
  "pg w \<equiv> w \<circ> Pg"

subsection \<open>Reading\<close>

record ListParams =
  lIncludeArchived :: bool
  lTagSlug :: "string option"
  lTrackCode :: "string option"
  lSearch :: "string option"

definition list_params :: "ListParams \<Rightarrow> ListConferencesParams" where
  "list_params p = \<lparr>lpIncludeArchived = (if lIncludeArchived p then Some True else None),
     lpTagSlug = lTagSlug p, lpTrackCode = lTrackCode p, lpSearch = lSearch p\<rparr>"

text \<open>The loop body that \<^verbatim>\<open>List\<close> and \<^verbatim>\<open>ListStarred\<close> share.\<close>

definition list_row :: "env \<Rightarrow> conference \<Rightarrow> 'm conn_scheme \<Rightarrow> (err + Conference) \<times> 'm conn_scheme" where
  "list_row env c =
     andthen (on_err (Wrapf (''get tags for '' @ e_uuid_str env (cID c)) \<circ> Pg)
       (exec Pool (GetConferenceTags env (cID c)))) (\<lambda>tgs.
     andthen (on_err (Wrapf (''get tracks for '' @ e_uuid_str env (cID c)) \<circ> Pg)
       (exec Pool (GetConferenceTracks env (cID c)))) (\<lambda>trs.
     ret (toAPIConference c tgs trs)))"

definition List_conferences ::
  "env \<Rightarrow> ListParams \<Rightarrow> 'm conn_scheme \<Rightarrow> (err + Conference list) \<times> 'm conn_scheme" where
  "List_conferences env p =
     andthen (on_err (Wrapf ''list conferences'' \<circ> Pg) (exec Pool (ListConferences env (list_params p))))
       (map_each (list_row env))"

definition attachTagsAndTracks ::
  "env \<Rightarrow> conference \<Rightarrow> 'm conn_scheme \<Rightarrow> (err + Conference) \<times> 'm conn_scheme" where
  "attachTagsAndTracks env row =
     andthen (on_err (Wrapf ''get tags'' \<circ> Pg) (exec Pool (GetConferenceTags env (cID row)))) (\<lambda>tgs.
     andthen (on_err (Wrapf ''get tracks'' \<circ> Pg) (exec Pool (GetConferenceTracks env (cID row)))) (\<lambda>trs.
     ret (toAPIConference row tgs trs)))"

definition not_found_or :: "string \<Rightarrow> db_err \<Rightarrow> err" where
  "not_found_or msg e = (if e = NoRows then ErrNotFound else Wrapf msg (Pg e))"

definition Get_conference :: "env \<Rightarrow> uuid \<Rightarrow> 'm conn_scheme \<Rightarrow> (err + Conference) \<times> 'm conn_scheme" where
  "Get_conference env i =
     andthen (on_err (not_found_or ''get conference'') (exec Pool (GetConference i))) (\<lambda>row.
     andthen (on_err (Wrapf ''get tags'' \<circ> Pg) (exec Pool (GetConferenceTags env i))) (\<lambda>tgs.
     andthen (on_err (Wrapf ''get tracks'' \<circ> Pg) (exec Pool (GetConferenceTracks env i))) (\<lambda>trs.
     ret (toAPIConference row tgs trs))))"

definition ListTags_service :: "env \<Rightarrow> 'm conn_scheme \<Rightarrow> (err + Tag list) \<times> 'm conn_scheme" where
  "ListTags_service env =
     andthen (on_err (Wrapf ''list tags'' \<circ> Pg) (exec Pool (ListTags env))) (\<lambda>ts. ret (apiTags ts))"

definition ListTracks_service :: "env \<Rightarrow> 'm conn_scheme \<Rightarrow> (err + Track list) \<times> 'm conn_scheme" where
  "ListTracks_service env =
     andthen (on_err (Wrapf ''list tracks'' \<circ> Pg) (exec Pool (ListTracks env))) (\<lambda>ts. ret (apiTracks ts))"

subsection \<open>Tags and tracks of a conference\<close>

definition set_tag :: "env \<Rightarrow> uuid \<Rightarrow> string \<Rightarrow> 'm conn_scheme \<Rightarrow> (err + unit) \<times> 'm conn_scheme" where
  "set_tag env i s =
     (let slug = Slugify env s in
      andthen (on_err (Wrapf (''upsert tag '' @ e_quote env slug) \<circ> Pg)
        (exec Tx (UpsertTagBySlug slug slug))) (\<lambda>t.
      on_err (Wrapf (''add tag '' @ e_quote env slug) \<circ> Pg) (exec Tx (AddConferenceTag i (gtID t)))))"

definition set_track :: "env \<Rightarrow> uuid \<Rightarrow> string \<Rightarrow> 'm conn_scheme \<Rightarrow> (err + unit) \<times> 'm conn_scheme" where
  "set_track env i code =
     on_err (Wrapf (''add track '' @ e_quote env code) \<circ> Pg) (exec Tx (AddConferenceTrack i code))"

definition items :: "string list option \<Rightarrow> string list" where
  "items p = (case p of None \<Rightarrow> [] | Some xs \<Rightarrow> xs)"

definition setTagsAndTracks ::
  "env \<Rightarrow> uuid \<Rightarrow> string list option \<Rightarrow> string list option \<Rightarrow> 'm conn_scheme
   \<Rightarrow> (err + (GetConferenceTagsRow list \<times> GetConferenceTracksRow list)) \<times> 'm conn_scheme" where
  "setTagsAndTracks env i tagSlugs trackCodes =
     andthen (on_err (Wrapf ''clear tags'' \<circ> Pg) (exec Tx (DeleteAllConferenceTags i))) (\<lambda>_.
     andthen (for_each (set_tag env i) (items tagSlugs)) (\<lambda>_.
     andthen (on_err (Wrapf ''clear tracks'' \<circ> Pg) (exec Tx (DeleteAllConferenceTracks i))) (\<lambda>_.
     andthen (for_each (set_track env i) (items trackCodes)) (\<lambda>_.
     andthen (on_err (Wrapf ''get tags after set'' \<circ> Pg) (exec Tx (GetConferenceTags env i))) (\<lambda>tgs.
     andthen (on_err (Wrapf ''get tracks after set'' \<circ> Pg) (exec Tx (GetConferenceTracks env i))) (\<lambda>trs.
     ret (tgs, trs)))))))"

subsection \<open>Planning the reminders of a conference anew\<close>

definition rematerializeConferenceReminders ::
  "env \<Rightarrow> conference \<Rightarrow> 'm conn_scheme \<Rightarrow> (err + unit) \<times> 'm conn_scheme" where
  "rematerializeConferenceReminders env conf =
     andthen (on_err (Wrapf ''delete conference pending reminders'' \<circ> Pg)
       (exec Tx (DeleteConferencePendingReminders (cID conf)))) (\<lambda>_.
     andthen (on_err (Wrapf ''list starring users'' \<circ> Pg)
       (exec Tx (ListUsersStarringConferenceWithSettings (cID conf)))) (\<lambda>us.
     for_each (\<lambda>u. materializeReminders env Tx (srUserID u) (cID conf) (srTimezone u)
       (srReminderLeadDays u) (conferenceDeadlines conf)) us))"

subsection \<open>Writing\<close>

definition isUniqueViolation :: "env \<Rightarrow> err \<Rightarrow> bool" where
  "isUniqueViolation env e = contains (Error env e) ''unique''"

definition conflict_err :: err where
  "conflict_err = Wrapped ErrConflict ''a conference with this acronym and year already exists''"

definition create_err :: "env \<Rightarrow> db_err \<Rightarrow> err" where
  "create_err env e =
     (if isUniqueViolation env (Pg e) then conflict_err else Wrapf ''create conference'' (Pg e))"

definition update_err :: "env \<Rightarrow> db_err \<Rightarrow> err" where
  "update_err env e =
     (if e = NoRows then ErrNotFound
      else if isUniqueViolation env (Pg e) then conflict_err
      else Wrapf ''update conference'' (Pg e))"

abbreviation (input) service_tx ::
  "('m conn_scheme \<Rightarrow> (err + 'a) \<times> 'm conn_scheme) \<Rightarrow> 'm conn_scheme \<Rightarrow> (err + 'a) \<times> 'm conn_scheme" where
  "service_tx \<equiv> in_tx (Wrapf ''begin tx'' \<circ> Pg) (Wrapf ''commit'' \<circ> Pg)"

definition checked :: "err option \<Rightarrow> ('m conn_scheme \<Rightarrow> (err + 'a) \<times> 'm conn_scheme) \<Rightarrow> 'm conn_scheme \<Rightarrow> (err + 'a) \<times> 'm conn_scheme" where
  "checked e m = (case e of Some x \<Rightarrow> fail x | None \<Rightarrow> m)"

text \<open>
  The body of each transaction, between \<^verbatim>\<open>Begin\<close> and \<^verbatim>\<open>Commit\<close>, is a definition of
  its own.
\<close>

definition create_in_tx ::
  "env \<Rightarrow> ConferenceInput \<Rightarrow> uuid \<Rightarrow> 'm conn_scheme \<Rightarrow> (err + Conference) \<times> 'm conn_scheme" where
  "create_in_tx env i actor =
     andthen (on_err (create_err env)
       (exec Tx (CreateConference env (create_params (input_params i actor) actor)))) (\<lambda>row.
     andthen (setTagsAndTracks env (cID row) (inTagSlugs i) (inTrackCodes i)) (\<lambda>tt.
     ret (toAPIConference row (fst tt) (snd tt))))"

definition Create_conference ::
  "env \<Rightarrow> ConferenceInput \<Rightarrow> uuid \<Rightarrow> 'm conn_scheme \<Rightarrow> (err + Conference) \<times> 'm conn_scheme" where
  "Create_conference env i actor = checked (validateInput i) (service_tx (create_in_tx env i actor))"

definition update_in_tx ::
  "env \<Rightarrow> uuid \<Rightarrow> ConferenceInput \<Rightarrow> uuid \<Rightarrow> 'm conn_scheme \<Rightarrow> (err + Conference) \<times> 'm conn_scheme" where
  "update_in_tx env i inp actor =
     andthen (on_err (update_err env)
       (exec Tx (UpdateConference env (update_params (input_params inp actor) i)))) (\<lambda>row.
     andthen (setTagsAndTracks env (cID row) (inTagSlugs inp) (inTrackCodes inp)) (\<lambda>tt.
     andthen (rematerializeConferenceReminders env row) (\<lambda>_.
     ret (toAPIConference row (fst tt) (snd tt)))))"

definition Update_conference ::
  "env \<Rightarrow> uuid \<Rightarrow> ConferenceInput \<Rightarrow> uuid \<Rightarrow> 'm conn_scheme \<Rightarrow> (err + Conference) \<times> 'm conn_scheme" where
  "Update_conference env i inp actor = checked (validateInput inp) (service_tx (update_in_tx env i inp actor))"

definition Delete_conference :: "uuid \<Rightarrow> 'm conn_scheme \<Rightarrow> (err + unit) \<times> 'm conn_scheme" where
  "Delete_conference i =
     andthen (on_err (Wrapf ''delete conference'' \<circ> Pg) (exec Pool (DeleteConference i))) (\<lambda>n.
     if n = 0 then fail ErrNotFound else ret ())"

definition archive_in_tx :: "uuid \<Rightarrow> 'm conn_scheme \<Rightarrow> (err + conference) \<times> 'm conn_scheme" where
  "archive_in_tx i =
     andthen (on_err (not_found_or ''archive conference'') (exec Tx (ArchiveConference i))) (\<lambda>row.
     andthen (on_err (Wrapf ''cancel reminders'' \<circ> Pg) (exec Tx (CancelConferenceReminders i))) (\<lambda>_.
     ret row))"

definition Archive_conference ::
  "env \<Rightarrow> uuid \<Rightarrow> 'm conn_scheme \<Rightarrow> (err + Conference) \<times> 'm conn_scheme" where
  "Archive_conference env i = andthen (service_tx (archive_in_tx i)) (attachTagsAndTracks env)"

definition Unarchive_conference ::
  "env \<Rightarrow> uuid \<Rightarrow> 'm conn_scheme \<Rightarrow> (err + Conference) \<times> 'm conn_scheme" where
  "Unarchive_conference env i =
     andthen (on_err (not_found_or ''unarchive conference'') (exec Pool (UnarchiveConference i)))
      (attachTagsAndTracks env)"

subsection \<open>The upsert of the import\<close>

record ImportInput =
  imName :: string
  imAcronym :: string
  imYear :: int
  imLocation :: string
  imWebsiteURL :: "string option"
  imCFPURL :: "string option"
  imPrimaryDeadline :: "instant option"
  imAbstractDeadline :: "instant option"
  imNotificationDate :: "instant option"
  imCameraReadyDate :: "instant option"
  imEventStartDate :: "instant option"
  imEventEndDate :: "instant option"
  imCoreRank :: "string option"
  imH5Index :: "int option"
  imAcceptanceRatePct :: "go_float option"
  imDblpKey :: "string option"
  imNotes :: "string option"
  imTags :: "string list"
  imTracks :: "string list"

definition import_params :: "ImportInput \<Rightarrow> uuid \<Rightarrow> conference_params" where
  "import_params i actor = \<lparr>
     pName = imName i, pAcronym = imAcronym i, pYear = imYear i, pLocation = imLocation i,
     pWebsiteUrl = imWebsiteURL i, pCfpUrl = imCFPURL i,
     pPrimaryDeadline = timePtrToTimestamptz (imPrimaryDeadline i),
     pAbstractDeadline = timePtrToTimestamptz (imAbstractDeadline i),
     pNotificationDate = timePtrToTimestamptz (imNotificationDate i),
     pCameraReadyDate = timePtrToTimestamptz (imCameraReadyDate i),
     pEventStartDate = datePtrToDate (imEventStartDate i),
     pEventEndDate = datePtrToDate (imEventEndDate i),
     pCoreRank = imCoreRank i, pH5Index = imH5Index i,
     pAcceptanceRatePct = float32PtrToNumeric (imAcceptanceRatePct i),
     pDblpKey = imDblpKey i, pNotes = imNotes i, pUpdatedBy = Some actor\<rparr>"

definition ptrSlice :: "string list \<Rightarrow> string list option" where
  "ptrSlice s = (if s = [] then None else Some s)"

text \<open>The two branches after the lookup. Any error of the lookup counts as not found.\<close>

definition import_create_in_tx ::
  "env \<Rightarrow> ImportInput \<Rightarrow> uuid \<Rightarrow> 'm conn_scheme \<Rightarrow> (err + bool) \<times> 'm conn_scheme" where
  "import_create_in_tx env i actor =
     andthen (on_err (Wrapf ''create conference'' \<circ> Pg)
       (exec Tx (CreateConference env (create_params (import_params i actor) actor)))) (\<lambda>row.
     andthen (setTagsAndTracks env (cID row) (ptrSlice (imTags i)) (ptrSlice (imTracks i))) (\<lambda>_.
     ret True))"

definition import_update_in_tx ::
  "env \<Rightarrow> uuid \<Rightarrow> ImportInput \<Rightarrow> uuid \<Rightarrow> 'm conn_scheme \<Rightarrow> (err + bool) \<times> 'm conn_scheme" where
  "import_update_in_tx env existing i actor =
     andthen (on_err (Wrapf ''update conference'' \<circ> Pg)
       (exec Tx (UpdateConference env (update_params (import_params i actor) existing)))) (\<lambda>row.
     andthen (setTagsAndTracks env (cID row) (ptrSlice (imTags i)) (ptrSlice (imTracks i))) (\<lambda>_.
     andthen (on_err (Wrapf ''rematerialize'') (rematerializeConferenceReminders env row)) (\<lambda>_.
     ret False)))"

definition UpsertFromImport ::
  "env \<Rightarrow> ImportInput \<Rightarrow> uuid \<Rightarrow> 'm conn_scheme \<Rightarrow> (err + bool) \<times> 'm conn_scheme" where
  "UpsertFromImport env i actor =
     andthen (attempt (exec Pool (GetConferenceByAcronymYear env (imAcronym i) (imYear i)))) (\<lambda>existing.
     service_tx (case existing of
       Inl _ \<Rightarrow> import_create_in_tx env i actor
     | Inr row \<Rightarrow> import_update_in_tx env (cID row) i actor))"

subsection \<open>What the operations keep\<close>

text \<open>
  The interface between the service and the repository, for one relation along which databases
  evolve: each write the service issues is a step of it. Then so is each operation.
\<close>

locale conference_writes = evolution R for R :: "db \<Rightarrow> db \<Rightarrow> bool" +
  fixes env :: env
  assumes step_create: "sql_step R (CreateConference env cp)"
    and step_update: "sql_step R (UpdateConference env up)"
    and step_archive: "sql_step R (ArchiveConference i)"
    and step_unarchive: "sql_step R (UnarchiveConference i)"
    and step_tag: "sql_step R (UpsertTagBySlug s n)"
    and step_add_tag: "sql_step R (AddConferenceTag i t)"
    and step_add_track: "sql_step R (AddConferenceTrack i k)"
    and step_clear_tags: "sql_step R (DeleteAllConferenceTags i)"
    and step_clear_tracks: "sql_step R (DeleteAllConferenceTracks i)"
    and step_replan: "sql_step R (DeleteConferencePendingReminders i)"
    and step_cancel: "sql_step R (CancelConferenceReminders i)"
    and step_plan: "sql_step R (InsertReminderRow rp)"
begin

lemmas steps = step_create step_update step_archive step_unarchive step_tag step_add_tag
  step_add_track step_clear_tags step_clear_tracks step_replan step_cancel step_plan

lemmas reads = conference_reads_only [THEN step_of_reads]

lemma keeps_setTagsAndTracks: "tx_evolves R (setTagsAndTracks env i ts ks)"
  unfolding setTagsAndTracks_def set_tag_def set_track_def Let_def
  by (intro tx_rules tx_exec steps reads)

lemma keeps_materialize: "tx_evolves R (materializeReminders env Tx u i tz leads ds)"
  unfolding materializeReminders_def by (intro tx_rules tx_exec steps)

lemma keeps_rematerialize: "tx_evolves R (rematerializeConferenceReminders env c)"
  unfolding rematerializeConferenceReminders_def
  by (intro tx_rules tx_exec steps reads keeps_materialize)

lemma keeps_attach: "evolves R (attachTagsAndTracks env row)"
  unfolding attachTagsAndTracks_def by (intro out_rules out_exec reads)

lemma keeps_checked: "evolves R m \<Longrightarrow> evolves R (checked e m)"
  by (cases e) (simp_all add: checked_def out_fail)

lemma body_create: "tx_evolves R (create_in_tx env i actor)"
  unfolding create_in_tx_def by (intro tx_rules tx_exec steps keeps_setTagsAndTracks)

lemma body_update: "tx_evolves R (update_in_tx env i inp actor)"
  unfolding update_in_tx_def
  by (intro tx_rules tx_exec steps keeps_setTagsAndTracks keeps_rematerialize)

lemma body_archive: "tx_evolves R (archive_in_tx i)"
  unfolding archive_in_tx_def by (intro tx_rules tx_exec steps)

lemma body_import_create: "tx_evolves R (import_create_in_tx env i actor)"
  unfolding import_create_in_tx_def by (intro tx_rules tx_exec steps keeps_setTagsAndTracks)

lemma body_import_update: "tx_evolves R (import_update_in_tx env e i actor)"
  unfolding import_update_in_tx_def
  by (intro tx_rules tx_exec steps keeps_setTagsAndTracks keeps_rematerialize)

lemma body_import:
  "tx_evolves R (case existing of Inl _ \<Rightarrow> import_create_in_tx env i actor
     | Inr row \<Rightarrow> import_update_in_tx env (cID row) i actor)"
  by (cases existing) (simp_all add: body_import_create body_import_update)

lemma keeps_Create: "evolves R (Create_conference env i actor)"
  unfolding Create_conference_def by (intro keeps_checked out_in_tx body_create)

lemma keeps_Update: "evolves R (Update_conference env i inp actor)"
  unfolding Update_conference_def by (intro keeps_checked out_in_tx body_update)

lemma keeps_Archive: "evolves R (Archive_conference env i)"
  unfolding Archive_conference_def by (intro out_andthen out_in_tx body_archive keeps_attach)

lemma keeps_Unarchive: "evolves R (Unarchive_conference env i)"
  unfolding Unarchive_conference_def by (intro out_rules out_exec steps keeps_attach)

lemma keeps_UpsertFromImport: "evolves R (UpsertFromImport env i actor)"
  unfolding UpsertFromImport_def
  by (intro out_andthen out_attempt out_exec reads out_in_tx body_import)

end

interpretation wf_conf: conference_writes "wf_step env" env for env
  by unfold_locales (rule keeps_intros)+

interpretation hist_conf: conference_writes keeps_history env for env
  by unfold_locales (rule keeps_intros)+

interpretation any_conf: conference_writes "\<lambda>_ _. True" env for env
  by unfold_locales (simp_all add: sql_step_def)

lemma wf_Delete: "evolves (wf_step env) (Delete_conference i)"
  unfolding Delete_conference_def by (intro wf.out_andthen wf.out_on_err wf.out_exec keeps_intros)
    (simp add: wf.out_ret wf.out_fail)

text \<open>Reading operations leave the committed database alone.\<close>

interpretation same: evolution "(=)"
  by unfold_locales auto

lemma reads_only_service:
  "evolves (=) (List_conferences env p)" "evolves (=) (Get_conference env i)"
  "evolves (=) (ListTags_service env)" "evolves (=) (ListTracks_service env)"
  unfolding List_conferences_def list_row_def Get_conference_def ListTags_service_def ListTracks_service_def
  by (intro same.out_rules same.out_exec same.step_of_reads conference_reads_only)+

end
