(* ===== verification/Samples.thy ===== *)
theory Samples
  imports Conferences
begin

text \<open>
  A small concrete world to apply the properties to: an environment, a database with one user
  who has starred one conference, and a connection that does not fail. The lemmas evaluate the
  parts that the runs on it share.
\<close>

definition sample_msg :: "db_err \<Rightarrow> string" where
  "sample_msg e = (case e of UniqueViolation k \<Rightarrow> ''duplicate key violates unique constraint'' | _ \<Rightarrow> ''error'')"

definition sample_env :: env where
  "sample_env = \<lparr>
     e_loc = (\<lambda>s. if s = ''UTC'' then Some UTC else None),
     e_pg_tz = (\<lambda>s. if s = ''UTC'' then Some UTC else None),
     e_lower = id, e_pg_lower = id, e_collate = bytes_of, e_pg_msg = sample_msg, e_quote = id,
     e_uuid_str = (\<lambda>u. nat_str (unat u)), e_uuid_parse = (\<lambda>s. None)\<rparr>"

definition sample_user :: user where
  "sample_user = \<lparr>uID = 1, uOidcIssuer = ''i'', uOidcSubject = ''s'', uEmail = ''a@x'',
    uDisplayName = ''A'', uLastLoginAt = None, uCreatedAt = 0, uUpdatedAt = 0\<rparr>"

definition sample_settings :: user_setting where
  "sample_settings = \<lparr>usUserID = 1, usTimezone = ''UTC'', usReminderLeadDays = [7],
    usWeeklyDigestEnabled = True, usWeeklyDigestDay = 1, usWeeklyDigestHour = 8,
    usWeeklyDigestHorizonWeeks = 6, usUpdatedAt = 0\<rparr>"

definition sample_conference :: conference where
  "sample_conference = \<lparr>
     cID = 2, cName = ''X'', cAcronym = ''X'', cYear = 2026, cLocation = ''M'', cWebsiteUrl = None,
     cCfpUrl = None, cPrimaryDeadline = Some 1800000000000000000, cAbstractDeadline = None,
     cNotificationDate = None, cCameraReadyDate = None, cEventStartDate = None, cEventEndDate = None,
     cCoreRank = None, cH5Index = None, cAcceptanceRatePct = None, cDblpKey = None, cNotes = None,
     cArchivedAt = None, cCreatedBy = Some 1, cUpdatedBy = Some 1, cCreatedAt = 0, cUpdatedAt = 0\<rparr>"

definition sample_db :: db where
  "sample_db = \<lparr>users = [sample_user], conferences = [sample_conference], tags = [],
     conference_tags = [],
     tracks = [\<lparr>trCode = ''d'', trDisplayName = ''D'', trSortOrder = 50, trCreatedAt = 0\<rparr>],
     conference_tracks = [], stars = [\<lparr>sUserID = 1, sConferenceID = 2, sCreatedAt = 0\<rparr>],
     user_settings = [sample_settings], calendar_tokens = [], reminders = [], digests = [],
     audit_log = []\<rparr>"

definition sample_conn :: conn where
  "sample_conn = \<lparr>c_com = sample_db, c_tx = None, c_aborted = False, c_now = 1790000000000000000,
     c_today = 1789948800000000000, c_gen = (\<lambda>n. of_nat (n + 10)), c_fault = (\<lambda>_. None), c_stmts = 0\<rparr>"

text \<open>An input for the next edition of the sample conference.\<close>

definition next_input :: ConferenceInput where
  "next_input = \<lparr>
     inName = ''X'', inAcronym = ''X'', inYear = 2027, inLocation = ''M'', inWebsiteUrl = None,
     inCfpUrl = None, inPrimaryDeadline = Some 1800000000000000000, inAbstractDeadline = None,
     inNotificationDate = None, inCameraReadyDate = None, inEventStartDate = None,
     inEventEndDate = None, inCoreRank = None, inH5Index = None, inAcceptanceRatePct = None,
     inDblpKey = None, inNotes = None, inTagSlugs = Some [''t''], inTrackCodes = Some [''d'']\<rparr>"

lemma text_ok_ascii: "is_ascii s \<Longrightarrow> CHR 0x00 \<notin> set s \<Longrightarrow> text_ok s"
  using of_runes_ascii [of "bytes_of s"]
  by (simp add: text_ok_def runes_ascii) (simp add: is_ascii_def bytes_of_def of_bytes_def)

lemma sample_texts_ok [simp]: "text_ok ''X''" "text_ok ''M''" "text_ok ''t''" "text_ok ''d''" "text_ok ''UTC''"
  by (rule text_ok_ascii; simp add: is_ascii_def)+

lemma sample_wf: "wf_db sample_env sample_db"
  by (simp add: wf_db_def table_oks id_lists sample_db_def sample_user_def sample_settings_def
      sample_conference_def conference_check_def settings_check_def le_opt_def opt_in_def star_key_def)

lemma next_input_valid: "validateInput next_input = None"
  by (simp add: validateInput_def next_input_def after_opt_def TrimSpace_empty_def runes_ascii
      is_ascii_def bytes_of_def IsSpace_def)

lemma next_input_valid_year:
  "2000 \<le> y \<Longrightarrow> y \<le> 2100 \<Longrightarrow> validateInput (next_input\<lparr>inYear := y\<rparr>) = None"
  by (simp add: validateInput_def next_input_def after_opt_def TrimSpace_empty_def runes_ascii
      is_ascii_def bytes_of_def IsSpace_def)

lemma sample_slug: "Slugify sample_env ''t'' = ''t''"
  by (rule Slugify_slug) (simp add: is_slug_def slug_char_def alnum_rune_def)

lemmas conference_eval = create_in_tx_def update_in_tx_def archive_in_tx_def CreateConference_def
  UpdateConference_def create_params_def update_params_def input_params_def conference_params.defs
  CreateConferenceParams.defs UpdateConferenceParams.defs new_conference_def set_columns_def
  numeric_5_2_ok_def param_texts_def opt_list_def conference_check_def le_opt_def opt_in_def
  acronym_year_def float32PtrToNumeric_def intPtrToInt32Ptr_def int32_of_id conf_ids_def
  user_ids_def setTagsAndTracks_def DeleteAllConferenceTags_def DeleteAllConferenceTracks_def
  items_def set_tag_def set_track_def sample_slug UpsertTagBySlug_def tag_ids_def
  AddConferenceTag_def AddConferenceTrack_def track_codes_def tag_row_def GetConferenceTags_def
  GetConferenceTracks_def with_texts_def texts_ok_def rows_def one_row_def row_of_def

lemmas reminder_eval = rematerializeConferenceReminders_def DeleteConferencePendingReminders_def
  ListUsersStarringConferenceWithSettings_def materializeReminders_def conferenceDeadlines_def
  deadline_entries_def InsertReminderRow_def plan_row_def reminder_check_def reminder_key_def

lemmas sample_defs = sample_conn_def sample_db_def sample_user_def sample_settings_def
  sample_conference_def

end
