(* ===== verification/Conference_Facts.thy ===== *)
theory Conference_Facts
  imports Samples
begin

text \<open>
  What the operations of the conference service leave behind when they succeed, and what they
  leave alone when they fail: the tags and tracks of a conference, its reminders after a
  change, the state of an archived conference, and the properties of the service.
\<close>

subsection \<open>Tags and tracks\<close>

definition slugs_of :: "db \<Rightarrow> uuid \<Rightarrow> string set" where
  "slugs_of d i = {tSlug t | t. t \<in> set (tags d) \<and> (i, tID t) \<in> set (conference_tags d)}"

definition tracks_of :: "db \<Rightarrow> uuid \<Rightarrow> string set" where
  "tracks_of d i = {k. (i, k) \<in> set (conference_tracks d)}"

lemma slugs_of_pairs: "slugs_of d i =
    fst ` {p \<in> (\<lambda>t. (tSlug t, tID t)) ` set (tags d). (i, snd p) \<in> set (conference_tags d)}"
  by (force simp: slugs_of_def)

text \<open>Only the tags and tracks of the given conference may differ.\<close>

definition tags_frame :: "uuid \<Rightarrow> db \<Rightarrow> db \<Rightarrow> bool" where
  "tags_frame i d d' \<longleftrightarrow>
     (\<exists>ts cts cks. d' = d\<lparr>tags := ts, conference_tags := cts, conference_tracks := cks\<rparr>)
     \<and> (\<forall>j. j \<noteq> i \<longrightarrow> slugs_of d' j = slugs_of d j \<and> tracks_of d' j = tracks_of d j)"

lemma tags_frameI:
  assumes "d' = d\<lparr>tags := ts, conference_tags := cts, conference_tracks := cks\<rparr>"
    and "\<And>j. j \<noteq> i \<Longrightarrow> slugs_of d' j = slugs_of d j \<and> tracks_of d' j = tracks_of d j"
  shows "tags_frame i d d'"
  using assms unfolding tags_frame_def by blast

lemma tags_frame_refl: "tags_frame i d d"
  by (rule tags_frameI [where ts = "tags d" and cts = "conference_tags d" and cks = "conference_tracks d"])
    simp_all

lemma tags_frame_trans:
  assumes "tags_frame i a b" and "tags_frame i b c"
  shows "tags_frame i a c"
proof -
  obtain ts cts cks where b: "b = a\<lparr>tags := ts, conference_tags := cts, conference_tracks := cks\<rparr>"
    using assms(1) unfolding tags_frame_def by blast
  obtain ts' cts' cks' where "c = b\<lparr>tags := ts', conference_tags := cts', conference_tracks := cks'\<rparr>"
    using assms(2) unfolding tags_frame_def by blast
  then have "c = a\<lparr>tags := ts', conference_tags := cts', conference_tracks := cks'\<rparr>" using b by simp
  then show ?thesis using assms unfolding tags_frame_def by auto
qed

lemma UpsertTagBySlug_effect:
  assumes run: "UpsertTagBySlug slug nm x d = Inr (t, d')" and wf: "wf_db env d"
  shows "(\<exists>g \<in> set (tags d'). tID g = gtID t \<and> tSlug g = slug)
    \<and> (\<forall>j. slugs_of d' j = slugs_of d j) \<and> (\<exists>ts. d' = d\<lparr>tags := ts\<rparr>)"
proof (cases "find (\<lambda>t. tSlug t = slug) (tags d)")
  case None
  have ok: "tags_ok d" using wf by (rule wf_dbD)
  define g where "g = \<lparr>tID = x_gen x, tSlug = slug, tName = nm, tCreatedAt = x_now x, tUpdatedAt = x_now x\<rparr>"
  from None run have g: "d' = d\<lparr>tags := tags d @ [g]\<rparr>" "tID g \<notin> set (tag_ids d)"
      "tSlug g = slug" "gtID t = tID g"
    by (auto simp: UpsertTagBySlug_def with_texts_def Let_def tag_row_def g_def split: if_splits)
  then have "(j, tID g) \<notin> set (conference_tags d)" for j using ok by (auto simp: tags_ok_def)
  with g show ?thesis by (auto simp: slugs_of_def)
next
  case (Some old)
  have ok: "tags_ok d" using wf by (rule wf_dbD)
  have mem: "old \<in> set (tags d)" "tSlug old = slug" using find_Some_iff_mem [OF Some] by simp_all
  let ?g = "old\<lparr>tName := nm, tUpdatedAt := x_now x\<rparr>"
  let ?ts = "update_where (\<lambda>r. tSlug r = slug) (\<lambda>_. ?g) (tags d)"
  have d': "d' = d\<lparr>tags := ?ts\<rparr>" "gtID t = tID old"
    using run Some by (auto simp: UpsertTagBySlug_def with_texts_def Let_def tag_row_def split: if_splits)
  have same: "r = old" if "r \<in> set (tags d)" "tSlug r = slug" for r
    using ok that mem by (auto simp: tags_ok_def dest: distinct_map_eqD)
  have "slugs_of d' j = slugs_of d j" for j
  proof -
    have "map (\<lambda>t. (tSlug t, tID t)) ?ts = map (\<lambda>t. (tSlug t, tID t)) (tags d)"
      unfolding update_where_def map_map
    proof (intro map_cong refl)
      fix r assume "r \<in> set (tags d)"
      then show "((\<lambda>t. (tSlug t, tID t)) \<circ> (\<lambda>x. if tSlug x = slug then ?g else x)) r = (tSlug r, tID r)"
        using same [of r] by auto
    qed
    then have "set (map (\<lambda>t. (tSlug t, tID t)) ?ts) = set (map (\<lambda>t. (tSlug t, tID t)) (tags d))"
      by (rule arg_cong)
    moreover have "tags d' = ?ts" "conference_tags d' = conference_tags d"
      unfolding d'(1) by simp_all
    ultimately show ?thesis unfolding slugs_of_pairs by (simp only: set_map)
  qed
  moreover have "?g \<in> set (tags d')" using mem d' by (auto simp: in_update_where_iff)
  then have "\<exists>g \<in> set (tags d'). tID g = gtID t \<and> tSlug g = slug"
    by (rule bexI [rotated]) (simp add: mem d')
  ultimately show ?thesis using d'(1) by blast
qed

lemma AddConferenceTag_effect:
  assumes run: "AddConferenceTag i t x d = Inr (a, d')" and wf: "wf_db env d"
    and g: "g \<in> set (tags d)" "tID g = t" "tSlug g = slug"
  shows "slugs_of d' i = insert slug (slugs_of d i) \<and> (\<forall>j. j \<noteq> i \<longrightarrow> slugs_of d' j = slugs_of d j)
    \<and> (\<exists>cts. d' = d\<lparr>conference_tags := cts\<rparr>)"
proof -
  have ok: "tags_ok d" using wf by (rule wf_dbD)
  have same: "r = g" if "r \<in> set (tags d)" "tID r = t" for r
    using ok that g by (auto simp: tags_ok_def tag_ids_def dest: distinct_map_eqD)
  have d': "(i, t) \<in> set (conference_tags d) \<and> d' = d
      \<or> d' = d\<lparr>conference_tags := conference_tags d @ [(i, t)]\<rparr>"
    using run by (auto simp: AddConferenceTag_def split: if_splits)
  then show ?thesis
  proof
    assume "(i, t) \<in> set (conference_tags d) \<and> d' = d"
    moreover from this g have "slug \<in> slugs_of d i" by (auto simp: slugs_of_def)
    ultimately show ?thesis by (auto intro: exI [of _ "conference_tags d"])
  next
    assume d': "d' = d\<lparr>conference_tags := conference_tags d @ [(i, t)]\<rparr>"
    have only: "(\<exists>r. r \<in> set (tags d) \<and> s = tSlug r \<and> tID r = t) \<longleftrightarrow> s = slug" for s
      using g same by blast
    have "s \<in> slugs_of d' j \<longleftrightarrow> s \<in> slugs_of d j \<or> j = i \<and> s = slug" for j s
      unfolding only [of s, symmetric] by (auto simp: slugs_of_def d')
    then show ?thesis using d' by (auto simp: set_eq_iff)
  qed
qed

lemma set_tag_post:
  assumes "wf_db env d"
  shows "tx_post (set_tag env i s) d (\<lambda>_ d'. slugs_of d' i = insert (Slugify env s) (slugs_of d i)
    \<and> tags_frame i d d' \<and> tracks_of d' i = tracks_of d i)"
  unfolding set_tag_def Let_def
proof (intro tx_post_andthen tx_post_on_err tx_post_exec)
  fix x t d1 y a d2
  assume up: "UpsertTagBySlug (Slugify env s) (Slugify env s) x d = Inr (t, d1)"
    and add: "AddConferenceTag i (gtID t) y d1 = Inr (a, d2)"
  have wf1: "wf_db env d1"
    using wf_UpsertTagBySlug up assms unfolding sql_step_def wf_step_def by blast
  obtain g where g: "g \<in> set (tags d1)" "tID g = gtID t" "tSlug g = Slugify env s"
    and s1: "\<And>j. slugs_of d1 j = slugs_of d j" and d1: "\<exists>ts. d1 = d\<lparr>tags := ts\<rparr>"
    using UpsertTagBySlug_effect [OF up assms] by blast
  have e2: "slugs_of d2 i = insert (Slugify env s) (slugs_of d1 i)"
      "\<And>j. j \<noteq> i \<Longrightarrow> slugs_of d2 j = slugs_of d1 j" "\<exists>cts. d2 = d1\<lparr>conference_tags := cts\<rparr>"
    using AddConferenceTag_effect [OF add wf1 g] by blast+
  from d1 e2(3) obtain ts cts where d2: "d2 = d\<lparr>tags := ts, conference_tags := cts\<rparr>" by auto
  then have "tracks_of d2 j = tracks_of d j" for j by (simp add: tracks_of_def)
  moreover have "tags_frame i d d2"
    by (rule tags_frameI [where ts = ts and cts = cts and cks = "conference_tracks d"])
      (simp_all add: s1 e2(2) calculation, simp add: d2)
  ultimately show "slugs_of d2 i = insert (Slugify env s) (slugs_of d i)
      \<and> tags_frame i d d2 \<and> tracks_of d2 i = tracks_of d i"
    by (simp add: e2 s1)
qed

lemma set_track_post:
  "tx_post (set_track env i k) d (\<lambda>_ d'. tracks_of d' i = insert k (tracks_of d i)
    \<and> tags_frame i d d' \<and> slugs_of d' i = slugs_of d i)"
  unfolding set_track_def
proof (intro tx_post_on_err tx_post_exec)
  fix x a d'
  assume "AddConferenceTrack i k x d = Inr (a, d')"
  then have "(i, k) \<in> set (conference_tracks d) \<and> d' = d
      \<or> d' = d\<lparr>conference_tracks := conference_tracks d @ [(i, k)]\<rparr>"
    by (auto simp: AddConferenceTrack_def with_texts_def split: if_splits)
  then show "tracks_of d' i = insert k (tracks_of d i) \<and> tags_frame i d d' \<and> slugs_of d' i = slugs_of d i"
  proof
    assume d': "d' = d\<lparr>conference_tracks := conference_tracks d @ [(i, k)]\<rparr>"
    have "tags_frame i d d'"
      by (rule tags_frameI [where ts = "tags d" and cts = "conference_tags d"
            and cks = "conference_tracks d @ [(i, k)]"]) (auto simp: d' slugs_of_def tracks_of_def)
    then show ?thesis by (auto simp: d' slugs_of_def tracks_of_def)
  qed (auto simp: tracks_of_def tags_frame_refl)
qed

text \<open>The loops over the slugs and the codes of the input.\<close>

lemma set_tags_post:
  assumes "wf_db env d"
  shows "tx_post (for_each (set_tag env i) ss) d (\<lambda>_ d'. slugs_of d' i = slugs_of d i \<union> Slugify env ` set ss
    \<and> tags_frame i d d' \<and> tracks_of d' i = tracks_of d i \<and> wf_db env d')"
proof (rule tx_post_for_each)
  show "slugs_of d i = slugs_of d i \<union> Slugify env ` set [] \<and> tags_frame i d d
      \<and> tracks_of d i = tracks_of d i \<and> wf_db env d"
    using assms by (simp add: tags_frame_refl)
next
  fix ys s and v :: db
  assume v: "slugs_of v i = slugs_of d i \<union> Slugify env ` set ys \<and> tags_frame i d v
      \<and> tracks_of v i = tracks_of d i \<and> wf_db env v"
  have "tx_evolves (wf_step env) (set_tag env i s)"
    unfolding set_tag_def Let_def by (intro wf.tx_rules wf.tx_exec keeps_intros)
  show "tx_post (set_tag env i s) v (\<lambda>_ d'. slugs_of d' i = slugs_of d i \<union> Slugify env ` set (ys @ [s])
      \<and> tags_frame i d d' \<and> tracks_of d' i = tracks_of d i \<and> wf_db env d')"
    by (rule tx_post_also [OF set_tag_post [of env] \<open>tx_evolves _ _\<close>])
      (use v in \<open>auto simp: wf_step_def intro: tags_frame_trans\<close>)
qed

lemma set_tracks_post:
  "tx_post (for_each (set_track env i) ks) d (\<lambda>_ d'. tracks_of d' i = tracks_of d i \<union> set ks
    \<and> tags_frame i d d' \<and> slugs_of d' i = slugs_of d i)"
proof (rule tx_post_for_each)
  show "tracks_of d i = tracks_of d i \<union> set [] \<and> tags_frame i d d \<and> slugs_of d i = slugs_of d i"
    by (simp add: tags_frame_refl)
next
  fix ys k and v :: db
  assume v: "tracks_of v i = tracks_of d i \<union> set ys \<and> tags_frame i d v \<and> slugs_of v i = slugs_of d i"
  show "tx_post (set_track env i k) v (\<lambda>_ d'. tracks_of d' i = tracks_of d i \<union> set (ys @ [k])
      \<and> tags_frame i d d' \<and> slugs_of d' i = slugs_of d i)"
    by (rule tx_post_mono [OF set_track_post]) (use v in \<open>auto intro: tags_frame_trans\<close>)
qed

lemma DeleteAllConferenceTags_post:
  "tx_post (exec Tx (DeleteAllConferenceTags i)) d (\<lambda>_ d'. slugs_of d' i = {} \<and> tags_frame i d d'
    \<and> tracks_of d' i = tracks_of d i)"
proof (rule tx_post_exec)
  fix x a d'
  assume "DeleteAllConferenceTags i x d = Inr (a, d')"
  then have d': "d' = d\<lparr>conference_tags := delete_where (\<lambda>(c, t). c = i) (conference_tags d)\<rparr>"
    by (simp add: DeleteAllConferenceTags_def)
  have "tags_frame i d d'"
    by (rule tags_frameI [where ts = "tags d" and cks = "conference_tracks d"
          and cts = "delete_where (\<lambda>(c, t). c = i) (conference_tags d)"])
      (auto simp: d' slugs_of_def tracks_of_def)
  then show "slugs_of d' i = {} \<and> tags_frame i d d' \<and> tracks_of d' i = tracks_of d i"
    by (simp add: d' slugs_of_def tracks_of_def)
qed

lemma DeleteAllConferenceTracks_post:
  "tx_post (exec Tx (DeleteAllConferenceTracks i)) d (\<lambda>_ d'. tracks_of d' i = {} \<and> tags_frame i d d'
    \<and> slugs_of d' i = slugs_of d i)"
proof (rule tx_post_exec)
  fix x a d'
  assume "DeleteAllConferenceTracks i x d = Inr (a, d')"
  then have d': "d' = d\<lparr>conference_tracks := delete_where (\<lambda>(c, t). c = i) (conference_tracks d)\<rparr>"
    by (simp add: DeleteAllConferenceTracks_def)
  have "tags_frame i d d'"
    by (rule tags_frameI [where ts = "tags d" and cts = "conference_tags d"
          and cks = "delete_where (\<lambda>(c, t). c = i) (conference_tracks d)"])
      (auto simp: d' slugs_of_def tracks_of_def)
  then show "tracks_of d' i = {} \<and> tags_frame i d d' \<and> slugs_of d' i = slugs_of d i"
    by (simp add: d' slugs_of_def tracks_of_def)
qed

text \<open>What \<^verbatim>\<open>setTagsAndTracks\<close> returns is what it stored.\<close>

lemma GetConferenceTags_slugs:
  "GetConferenceTags env i x d = Inr (tgs, d') \<Longrightarrow> gtSlug ` set tgs = slugs_of d i \<and> d' = d"
  by (auto simp: GetConferenceTags_def rows_Inr_iff slugs_of_def tag_row_def image_iff)

lemma GetConferenceTracks_codes:
  "GetConferenceTracks env i x d = Inr (trs, d') \<Longrightarrow> tracks_ok d \<Longrightarrow> gkCode ` set trs = tracks_of d i \<and> d' = d"
  by (fastforce simp: GetConferenceTracks_def rows_Inr_iff tracks_of_def track_row_def image_iff
      tracks_ok_def track_codes_def)

lemma setTagsAndTracks_post:
  assumes wf: "wf_db env d"
  shows "tx_post (setTagsAndTracks env i ts ks) d (\<lambda>tt d'.
    slugs_of d' i = Slugify env ` set (items ts) \<and> tracks_of d' i = set (items ks) \<and> tags_frame i d d'
    \<and> gtSlug ` set (fst tt) = slugs_of d' i \<and> gkCode ` set (snd tt) = tracks_of d' i)"
proof -
  define Done where "Done = (\<lambda>d'. slugs_of d' i = Slugify env ` set (items ts)
    \<and> tracks_of d' i = set (items ks) \<and> tags_frame i d d' \<and> wf_db env d')"
  define S2 where "S2 = (\<lambda>d'. slugs_of d' i = Slugify env ` set (items ts) \<and> tags_frame i d d' \<and> wf_db env d')"
  have read: "tx_post (andthen (on_err (Wrapf ''get tags after set'' \<circ> Pg) (exec Tx (GetConferenceTags env i))) (\<lambda>tgs.
       andthen (on_err (Wrapf ''get tracks after set'' \<circ> Pg) (exec Tx (GetConferenceTracks env i))) (\<lambda>trs.
       ret (tgs, trs)))) v (\<lambda>tt d'. Done d' \<and> gtSlug ` set (fst tt) = slugs_of d' i
         \<and> gkCode ` set (snd tt) = tracks_of d' i)" if "Done v" for v
    using that wf_dbD(4)
    by (intro tx_post_rules)
      (auto simp: Done_def dest!: GetConferenceTags_slugs GetConferenceTracks_codes)
  have tracks: "tx_post (for_each (set_track env i) (items ks)) v (\<lambda>_ d'. Done d')"
    if "S2 v" "tracks_of v i = {}" for v
  proof -
    have "tx_evolves (wf_step env) (for_each (set_track env i) (items ks))"
      unfolding set_track_def by (intro wf.tx_rules wf.tx_exec keeps_intros)
    then show ?thesis
      by (rule tx_post_also [OF set_tracks_post])
        (use that in \<open>auto simp: Done_def S2_def wf_step_def intro: tags_frame_trans\<close>)
  qed
  have clear_tracks: "tx_post (exec Tx (DeleteAllConferenceTracks i)) v (\<lambda>_ d'. S2 d' \<and> tracks_of d' i = {})"
    if "S2 v" for v
  proof -
    have "tx_evolves (wf_step env) (exec Tx (DeleteAllConferenceTracks i))"
      by (intro wf.tx_exec keeps_intros)
    then show ?thesis
      by (rule tx_post_also [OF DeleteAllConferenceTracks_post])
        (use that in \<open>auto simp: S2_def wf_step_def intro: tags_frame_trans\<close>)
  qed
  have tags: "tx_post (for_each (set_tag env i) (items ts)) v (\<lambda>_ d'. S2 d')"
    if "slugs_of v i = {}" "tags_frame i d v" "wf_db env v" for v
    by (rule tx_post_mono [OF set_tags_post [OF that(3)]])
      (use that in \<open>auto simp: S2_def intro: tags_frame_trans\<close>)
  have clear_tags: "tx_post (exec Tx (DeleteAllConferenceTags i)) d
      (\<lambda>_ d'. slugs_of d' i = {} \<and> tags_frame i d d' \<and> wf_db env d')"
  proof -
    have "tx_evolves (wf_step env) (exec Tx (DeleteAllConferenceTags i))"
      by (intro wf.tx_exec keeps_intros)
    then show ?thesis
      by (rule tx_post_also [OF DeleteAllConferenceTags_post]) (use wf in \<open>auto simp: wf_step_def\<close>)
  qed
  show ?thesis
    unfolding setTagsAndTracks_def
    by (rule tx_post_bind_err [OF clear_tags], rule tx_post_bind [OF tags]; (elim conjE)?; assumption?)
      (rule tx_post_bind_err [OF clear_tracks], assumption, rule tx_post_bind [OF tracks],
        (elim conjE, assumption)+, rule tx_post_mono [OF read], assumption, simp add: Done_def)
qed

subsection \<open>Reminders after a change\<close>

text \<open>
  The pending reminders of a conference are on schedule when each of them belongs to a user who
  has starred it and has the send time that the user's current settings and the current
  deadlines give, and none that these ask for is missing from the log.
\<close>

definition starring :: "db \<Rightarrow> uuid \<Rightarrow> star \<Rightarrow> user_setting \<Rightarrow> bool" where
  "starring d i s us \<longleftrightarrow> s \<in> set (stars d) \<and> sConferenceID s = i \<and> us \<in> set (user_settings d)
     \<and> usUserID us = sUserID s"

definition on_schedule :: "env \<Rightarrow> db \<Rightarrow> conference \<Rightarrow> bool" where
  "on_schedule env d c \<longleftrightarrow>
     (\<forall>r \<in> set (reminders d). rStatus r = Pending \<longrightarrow> rConferenceID r = cID c \<longrightarrow>
        (\<exists>s us. starring d (cID c) s us \<and> planned (LoadLocation_or_UTC env (usTimezone us))
           (sUserID s) (cID c) (usReminderLeadDays us) (conferenceDeadlines c) r))
     \<and> (\<forall>s us. starring d (cID c) s us \<longrightarrow> (\<forall>e \<in> set (conferenceDeadlines c). \<forall>l \<in> set (usReminderLeadDays us).
          (sUserID s, cID c, deKind e, l) \<in> set (map reminder_key (reminders d))))"

lemma starring_rows:
  "ListUsersStarringConferenceWithSettings i x d = Inr (us, d') \<Longrightarrow> d' = d \<and>
     set us = {\<lparr>srUserID = sUserID s, srReminderLeadDays = usReminderLeadDays u, srTimezone = usTimezone u\<rparr>
               | s u. starring d i s u}"
  by (force simp: ListUsersStarringConferenceWithSettings_def rows_Inr_iff starring_def)

text \<open>The loop over the users who starred the conference.\<close>

lemma plan_users_post:
  assumes "\<forall>r \<in> set (reminders d). rStatus r = Pending \<longrightarrow> rConferenceID r \<noteq> cID c"
  shows "tx_post (for_each (\<lambda>u. materializeReminders env Tx (srUserID u) (cID c) (srTimezone u)
      (srReminderLeadDays u) (conferenceDeadlines c)) us) d (\<lambda>_ d'.
    (\<exists>rs. d' = d\<lparr>reminders := rs\<rparr>)
    \<and> (\<forall>r \<in> set (reminders d'). rStatus r = Pending \<longrightarrow> rConferenceID r = cID c \<longrightarrow>
         (\<exists>u \<in> set us. planned (LoadLocation_or_UTC env (srTimezone u)) (srUserID u) (cID c)
            (srReminderLeadDays u) (conferenceDeadlines c) r))
    \<and> (\<forall>u \<in> set us. \<forall>e \<in> set (conferenceDeadlines c). \<forall>l \<in> set (srReminderLeadDays u).
         (srUserID u, cID c, deKind e, l) \<in> set (map reminder_key (reminders d'))))"
proof (rule tx_post_for_each, goal_cases)
  case 1
  then show ?case using assms by (auto intro: exI [of _ "reminders d"])
next
  case (2 ys u v)
  let ?m = "materializeReminders env Tx (srUserID u) (cID c) (srTimezone u) (srReminderLeadDays u)
    (conferenceDeadlines c)"
  let ?P = "planned (LoadLocation_or_UTC env (srTimezone u)) (srUserID u) (cID c)
    (srReminderLeadDays u) (conferenceDeadlines c)"
  show ?case
  proof (rule tx_post_also [OF materializeReminders_covers materializeReminders_adds], intro conjI)
    fix a v'
    assume cov: "\<forall>e \<in> set (conferenceDeadlines c). \<forall>l \<in> set (srReminderLeadDays u).
        (srUserID u, cID c, deKind e, l) \<in> set (map reminder_key (reminders v'))"
      and adds: "adds_reminders ?P v v'"
    obtain rs where rs: "v' = v\<lparr>reminders := reminders v @ rs\<rparr>" "\<forall>r \<in> set rs. ?P r"
      using adds by (auto simp: adds_reminders_def)
    show "\<exists>rs. v' = d\<lparr>reminders := rs\<rparr>" using 2 rs by auto
    show "\<forall>r \<in> set (reminders v'). rStatus r = Pending \<longrightarrow> rConferenceID r = cID c \<longrightarrow>
         (\<exists>u \<in> set (ys @ [u]). planned (LoadLocation_or_UTC env (srTimezone u)) (srUserID u) (cID c)
            (srReminderLeadDays u) (conferenceDeadlines c) r)"
      using 2 rs by auto
    show "\<forall>u \<in> set (ys @ [u]). \<forall>e \<in> set (conferenceDeadlines c). \<forall>l \<in> set (srReminderLeadDays u).
         (srUserID u, cID c, deKind e, l) \<in> set (map reminder_key (reminders v'))"
      using 2 cov adds_reminders_keys [OF adds] by auto
  qed
qed

lemma rematerialize_post:
  "tx_post (rematerializeConferenceReminders env c) d (\<lambda>_ d'. on_schedule env d' c
    \<and> (\<exists>rs. d' = d\<lparr>reminders := rs\<rparr>))"
  unfolding rematerializeConferenceReminders_def
proof (intro tx_post_andthen tx_post_on_err tx_post_exec)
  fix x a d1 y us d2
  assume del: "DeleteConferencePendingReminders (cID c) x d = Inr (a, d1)"
    and sel: "ListUsersStarringConferenceWithSettings (cID c) y d1 = Inr (us, d2)"
  have d1: "d1 = d\<lparr>reminders := delete_where (\<lambda>r. rStatus r = Pending \<and> rConferenceID r = cID c) (reminders d)\<rparr>"
    using del by (simp add: DeleteConferencePendingReminders_def)
  have d2: "d2 = d1" and us: "set us = {\<lparr>srUserID = sUserID s, srReminderLeadDays = usReminderLeadDays u,
      srTimezone = usTimezone u\<rparr> | s u. starring d1 (cID c) s u}"
    using starring_rows [OF sel] by simp_all
  have none: "\<forall>r \<in> set (reminders d1). rStatus r = Pending \<longrightarrow> rConferenceID r \<noteq> cID c"
    by (auto simp: d1)
  show "tx_post (for_each (\<lambda>u. materializeReminders env Tx (srUserID u) (cID c) (srTimezone u)
      (srReminderLeadDays u) (conferenceDeadlines c)) us) d2
      (\<lambda>_ d'. on_schedule env d' c \<and> (\<exists>rs. d' = d\<lparr>reminders := rs\<rparr>))"
    unfolding d2
  proof (rule tx_post_mono [OF plan_users_post [OF none]], elim conjE exE, intro conjI)
    fix d' rs
    assume d': "d' = d1\<lparr>reminders := rs\<rparr>"
      and on: "\<forall>r \<in> set (reminders d'). rStatus r = Pending \<longrightarrow> rConferenceID r = cID c \<longrightarrow>
         (\<exists>u \<in> set us. planned (LoadLocation_or_UTC env (srTimezone u)) (srUserID u) (cID c)
            (srReminderLeadDays u) (conferenceDeadlines c) r)"
      and cov: "\<forall>u \<in> set us. \<forall>e \<in> set (conferenceDeadlines c). \<forall>l \<in> set (srReminderLeadDays u).
         (srUserID u, cID c, deKind e, l) \<in> set (map reminder_key (reminders d'))"
    have "starring d' = starring d1" by (simp add: d' starring_def fun_eq_iff)
    then show "on_schedule env d' c"
      using on cov unfolding on_schedule_def us by fastforce
    show "\<exists>rs. d' = d\<lparr>reminders := rs\<rparr>" using d' d1 by auto
  qed
qed

subsection \<open>The operations\<close>

lemma set_columns_params [simp]:
  "set_columns (create_params p a) c = set_columns p c" "set_columns (update_params p i) c = set_columns p c"
  "pCreatedBy (create_params p a) = Some a" "pID (update_params p i) = i"
  "pAcceptanceRatePct (create_params p a) = pAcceptanceRatePct p"
  "pUpdatedBy (create_params p a) = pUpdatedBy p" "param_texts (create_params p a) = param_texts p"
  by (simp_all add: set_columns_def create_params_def update_params_def conference_params.defs
      CreateConferenceParams.defs UpdateConferenceParams.defs param_texts_def)

lemma set_columns_twice [simp]: "set_columns p (set_columns p c) = set_columns p c"
  by (simp add: set_columns_def)

lemma CreateConference_effect:
  assumes "CreateConference env (create_params p actor) x d = Inr (row, d')"
  shows "conferences d' = conferences d @ [row] \<and> d' = d\<lparr>conferences := conferences d @ [row]\<rparr>
    \<and> cID row \<notin> set (conf_ids d) \<and> set_columns p row = row \<and> cArchivedAt row = None
    \<and> cCreatedBy row = Some actor"
proof -
  have row: "row = new_conference x (create_params p actor)"
    and d': "d' = d\<lparr>conferences := conferences d @ [row]\<rparr>" "cID row \<notin> set (conf_ids d)"
    using assms by (auto simp: CreateConference_def with_texts_def Let_def split: if_splits option.splits)
  then show ?thesis by (simp add: new_conference_def) (simp add: set_columns_def)
qed

lemma UpdateConference_effect:
  assumes "UpdateConference env (update_params p i) x d = Inr (row, d')"
  shows "d' = d\<lparr>conferences := update_where (\<lambda>r. cID r = i) (\<lambda>_. row) (conferences d)\<rparr>
    \<and> cID row = i \<and> set_columns p row = row
    \<and> (\<exists>old \<in> set (conferences d). cID old = i \<and> cArchivedAt row = cArchivedAt old
         \<and> cCreatedBy row = cCreatedBy old \<and> cCreatedAt row = cCreatedAt old)"
proof -
  from assms obtain old where old: "find (\<lambda>c. cID c = i) (conferences d) = Some old"
    and row: "row = (set_columns p old)\<lparr>cUpdatedAt := x_now x\<rparr>"
    and d': "d' = d\<lparr>conferences := update_where (\<lambda>r. cID r = i) (\<lambda>_. row) (conferences d)\<rparr>"
    by (auto simp: UpdateConference_def with_texts_def Let_def split: if_splits option.splits)
  have "old \<in> set (conferences d)" "cID old = i" using find_Some_iff_mem [OF old] by simp_all
  then show ?thesis using row d' by (auto simp: set_columns_def intro!: bexI [of _ old])
qed

text \<open>The result of an operation on a conference row: what the log of tags and tracks says.\<close>

definition described :: "env \<Rightarrow> ConferenceInput \<Rightarrow> uuid \<Rightarrow> db \<Rightarrow> bool" where
  "described env inp i d \<longleftrightarrow> slugs_of d i = Slugify env ` set (items (inTagSlugs inp))
     \<and> tracks_of d i = set (items (inTrackCodes inp))"

text \<open>
  The reply to a conference that was stored: the input, with the times of the deadlines to the
  microsecond and the acceptance rate to two decimals, as the columns keep them.
\<close>

definition reply_shows :: "env \<Rightarrow> ConferenceInput \<Rightarrow> Conference \<Rightarrow> bool" where
  "reply_shows env inp a \<longleftrightarrow>
     apName a = inName inp \<and> apAcronym a = inAcronym inp \<and> apYear a = int32_of (inYear inp)
     \<and> apLocation a = inLocation inp \<and> apWebsiteUrl a = inWebsiteUrl inp \<and> apCfpUrl a = inCfpUrl inp
     \<and> apPrimaryDeadline a = map_option pg_ts (inPrimaryDeadline inp)
     \<and> apAbstractDeadline a = map_option pg_ts (inAbstractDeadline inp)
     \<and> apNotificationDate a = map_option pg_ts (inNotificationDate inp)
     \<and> apCameraReadyDate a = map_option pg_ts (inCameraReadyDate inp)
     \<and> apEventStartDate a = inEventStartDate inp \<and> apEventEndDate a = inEventEndDate inp
     \<and> apCoreRank a = inCoreRank inp \<and> apH5Index a = map_option int32_of (inH5Index inp)
     \<and> apAcceptanceRatePct a = map_option (\<lambda>q. float32_of (float64_of (of_int (round_half_even (q * 100)) / 100)))
          (inAcceptanceRatePct inp)
     \<and> apDblpKey a = inDblpKey inp \<and> apNotes a = inNotes inp
     \<and> tagSlug ` set (apTags a) = Slugify env ` set (items (inTagSlugs inp))
     \<and> trackCode ` set (apTracks a) = set (items (inTrackCodes inp))"

definition shows_stamps :: "conference \<Rightarrow> Conference \<Rightarrow> bool" where
  "shows_stamps row a \<longleftrightarrow> apId a = cID row \<and> apArchivedAt a = cArchivedAt row \<and> apCreatedAt a = cCreatedAt row
     \<and> apUpdatedAt a = cUpdatedAt row \<and> apCreatedBy a = cCreatedBy row \<and> apUpdatedBy a = cUpdatedBy row"

lemma shows_stamps_row [simp]: "shows_stamps row (toAPIConference row tgs trs)" "apId (toAPIConference row tgs trs) = cID row"
  by (simp_all add: shows_stamps_def toAPIConference_def)

lemma reply_shows_row:
  assumes row: "set_columns (input_params inp actor) row = row"
    and "gtSlug ` set tgs = Slugify env ` set (items (inTagSlugs inp))" "gkCode ` set trs = set (items (inTrackCodes inp))"
  shows "reply_shows env inp (toAPIConference row tgs trs)"
proof -
  have col: "f row = f (set_columns (input_params inp actor) row)" for f :: "conference \<Rightarrow> 'a"
    by (simp add: row)
  have "cName row = inName inp" "cAcronym row = inAcronym inp" "cYear row = int32_of (inYear inp)"
    "cLocation row = inLocation inp" "cWebsiteUrl row = inWebsiteUrl inp" "cCfpUrl row = inCfpUrl inp"
    "cPrimaryDeadline row = map_option pg_ts (inPrimaryDeadline inp)"
    "cAbstractDeadline row = map_option pg_ts (inAbstractDeadline inp)"
    "cNotificationDate row = map_option pg_ts (inNotificationDate inp)"
    "cCameraReadyDate row = map_option pg_ts (inCameraReadyDate inp)"
    "cEventStartDate row = inEventStartDate inp" "cEventEndDate row = inEventEndDate inp"
    "cCoreRank row = inCoreRank inp" "cDblpKey row = inDblpKey inp" "cNotes row = inNotes inp"
    "cH5Index row = intPtrToInt32Ptr (inH5Index inp)"
    "cAcceptanceRatePct row = float32PtrToNumeric (map_option Finite (inAcceptanceRatePct inp))"
    by (subst col, simp add: set_columns_def input_params_def)+
  then show ?thesis
    using assms(2,3)
    by (auto simp: reply_shows_def toAPIConference_def apiTags_def apiTracks_def intPtrToInt32Ptr_def
        float32PtrToNumeric_def image_image split: option.splits)
qed

lemma tags_frame_conferences: "tags_frame i d d' \<Longrightarrow> conferences d' = conferences d \<and> reminders d' = reminders d"
  unfolding tags_frame_def by auto

lemma create_in_tx_post:
  assumes wf: "wf_db env d"
  shows "tx_post (create_in_tx env inp actor) d (\<lambda>a d'. \<exists>row.
    conferences d' = conferences d @ [row] \<and> cID row = apId a \<and> cID row \<notin> set (conf_ids d)
    \<and> set_columns (input_params inp actor) row = row \<and> cArchivedAt row = None
    \<and> cCreatedBy row = Some actor \<and> described env inp (cID row) d'
    \<and> reply_shows env inp a \<and> shows_stamps row a)"
  unfolding create_in_tx_def
proof (intro tx_post_andthen tx_post_on_err tx_post_exec)
  fix x row d1
  assume run: "CreateConference env (create_params (input_params inp actor) actor) x d = Inr (row, d1)"
  have wf1: "wf_db env d1"
    using wf_CreateConference run wf unfolding sql_step_def wf_step_def by blast
  show "tx_post (setTagsAndTracks env (cID row) (inTagSlugs inp) (inTrackCodes inp)) d1
      (\<lambda>tt v. tx_post (ret (toAPIConference row (fst tt) (snd tt))) v (\<lambda>a d'. \<exists>row.
        conferences d' = conferences d @ [row] \<and> cID row = apId a \<and> cID row \<notin> set (conf_ids d)
        \<and> set_columns (input_params inp actor) row = row \<and> cArchivedAt row = None
        \<and> cCreatedBy row = Some actor \<and> described env inp (cID row) d'
        \<and> reply_shows env inp a \<and> shows_stamps row a))"
    by (rule tx_post_mono [OF setTagsAndTracks_post [OF wf1]], rule tx_post_ret, rule exI [of _ row])
      (use CreateConference_effect [OF run] in \<open>auto simp: described_def shows_stamps_row
        dest!: tags_frame_conferences intro!: reply_shows_row [where actor = actor]\<close>)
qed

lemma update_in_tx_post:
  assumes wf: "wf_db env d"
  shows "tx_post (update_in_tx env i inp actor) d (\<lambda>a d'. \<exists>row.
    conferences d' = update_where (\<lambda>r. cID r = i) (\<lambda>_. row) (conferences d) \<and> cID row = i \<and> apId a = i
    \<and> set_columns (input_params inp actor) row = row
    \<and> (\<exists>old \<in> set (conferences d). cID old = i \<and> cArchivedAt row = cArchivedAt old)
    \<and> described env inp i d' \<and> on_schedule env d' row)"
  unfolding update_in_tx_def
proof (intro tx_post_andthen tx_post_on_err tx_post_exec)
  fix x row d1
  assume run: "UpdateConference env (update_params (input_params inp actor) i) x d = Inr (row, d1)"
  have wf1: "wf_db env d1"
    using wf_UpdateConference run wf unfolding sql_step_def wf_step_def by blast
  note eff = UpdateConference_effect [OF run]
  show "tx_post (setTagsAndTracks env (cID row) (inTagSlugs inp) (inTrackCodes inp)) d1
      (\<lambda>tt v. tx_post (andthen (rematerializeConferenceReminders env row)
          (\<lambda>_. ret (toAPIConference row (fst tt) (snd tt)))) v (\<lambda>a d'. \<exists>row.
    conferences d' = update_where (\<lambda>r. cID r = i) (\<lambda>_. row) (conferences d) \<and> cID row = i \<and> apId a = i
    \<and> set_columns (input_params inp actor) row = row
    \<and> (\<exists>old \<in> set (conferences d). cID old = i \<and> cArchivedAt row = cArchivedAt old)
    \<and> described env inp i d' \<and> on_schedule env d' row))"
  proof (rule tx_post_mono [OF setTagsAndTracks_post [OF wf1]], rule tx_post_bind [OF rematerialize_post],
      rule tx_post_ret, rule exI [of _ row], elim conjE exE, intro conjI)
    fix tt v a w rs
    assume fr: "tags_frame (cID row) d1 v" and on: "on_schedule env w row"
      and w: "w = v\<lparr>reminders := rs\<rparr>"
      and s: "slugs_of v (cID row) = Slugify env ` set (items (inTagSlugs inp))"
        "tracks_of v (cID row) = set (items (inTrackCodes inp))"
    show "conferences w = update_where (\<lambda>r. cID r = i) (\<lambda>_. row) (conferences d)"
      using tags_frame_conferences [OF fr] w eff by simp
    show "described env inp i w"
      using s eff w by (simp add: described_def slugs_of_def tracks_of_def)
    show "on_schedule env w row" by (rule on)
  qed (use eff in \<open>auto simp: toAPIConference_def\<close>)
qed

lemma archive_in_tx_post:
  "tx_post (archive_in_tx i) d (\<lambda>row d'. \<exists>t t'. \<exists>old \<in> set (conferences d). cID old = i
    \<and> cArchivedAt row = Some (case cArchivedAt old of Some u \<Rightarrow> u | None \<Rightarrow> t')
    \<and> d' = d\<lparr>conferences := update_where (\<lambda>r. cID r = i) (\<lambda>_. row) (conferences d),
          reminders := update_where (\<lambda>r. rStatus r = Pending \<and> rConferenceID r = i) (cancelled t) (reminders d)\<rparr>)"
  unfolding archive_in_tx_def
proof (intro tx_post_andthen tx_post_on_err tx_post_exec tx_post_ret)
  fix x row d1 y b d2
  assume arch: "ArchiveConference i x d = Inr (row, d1)" and cancel: "CancelConferenceReminders i y d1 = Inr (b, d2)"
  from arch obtain old where old: "find (\<lambda>c. cID c = i) (conferences d) = Some old"
      "cArchivedAt row = (case cArchivedAt old of Some t \<Rightarrow> Some t | None \<Rightarrow> Some (x_now x))"
      "d1 = d\<lparr>conferences := update_where (\<lambda>r. cID r = i) (\<lambda>_. row) (conferences d)\<rparr>"
    by (auto simp: ArchiveConference_def Let_def split: option.splits)
  have mem: "old \<in> set (conferences d)" "cID old = i" using find_Some_iff_mem [OF old(1)] by simp_all
  show "\<exists>t t'. \<exists>old \<in> set (conferences d). cID old = i
    \<and> cArchivedAt row = Some (case cArchivedAt old of Some u \<Rightarrow> u | None \<Rightarrow> t')
    \<and> d2 = d\<lparr>conferences := update_where (\<lambda>r. cID r = i) (\<lambda>_. row) (conferences d),
          reminders := update_where (\<lambda>r. rStatus r = Pending \<and> rConferenceID r = i) (cancelled t) (reminders d)\<rparr>"
    by (rule exI [of _ "x_now y"], rule exI [of _ "x_now x"], rule bexI [OF _ mem(1)])
      (use mem old(2,3) cancel in \<open>auto simp: CancelConferenceReminders_def split: option.splits\<close>)
qed

subsection \<open>Properties\<close>

text \<open>
  Every operation of the conference service takes a database that satisfies the constraints
  of the schema to one that does and leaves no transaction open, on success and on every error,
  failures of the connection included.
\<close>

theorem conference_ops_keep_schema:
  "evolves (wf_step env) (Create_conference env inp actor) \<and> evolves (wf_step env) (Update_conference env i inp actor)
   \<and> evolves (wf_step env) (Delete_conference i) \<and> evolves (wf_step env) (Archive_conference env i)
   \<and> evolves (wf_step env) (Unarchive_conference env i) \<and> evolves (wf_step env) (UpsertFromImport env imp actor)"
  by (intro conjI wf_conf.keeps_Create wf_conf.keeps_Update wf_Delete wf_conf.keeps_Archive
      wf_conf.keeps_Unarchive wf_conf.keeps_UpsertFromImport)

text \<open>
  Creating, replacing, archiving, restoring and importing a conference never change or remove
  a reminder that is no longer pending: what was sent, failed or cancelled stays on record.
\<close>

theorem conference_ops_keep_history:
  "evolves keeps_history (Create_conference env inp actor) \<and> evolves keeps_history (Update_conference env i inp actor)
   \<and> evolves keeps_history (Archive_conference env i) \<and> evolves keeps_history (Unarchive_conference env i)
   \<and> evolves keeps_history (UpsertFromImport env imp actor)"
  by (intro conjI hist_conf.keeps_Create hist_conf.keeps_Update hist_conf.keeps_Archive
      hist_conf.keeps_Unarchive hist_conf.keeps_UpsertFromImport)

lemma atomic_checked: "atomic m \<Longrightarrow> atomic (checked e m)"
  by (cases e) (simp_all add: checked_def atomic_fail)

lemma atomic_conferences:
  "atomic (Create_conference env inp actor)" "atomic (Update_conference env i inp actor)"
  "atomic (UpsertFromImport env imp actor)"
  unfolding Create_conference_def Update_conference_def UpsertFromImport_def
  by (intro atomic_checked atomic_in_tx atomic_andthen any_conf.body_create any_conf.body_update
      any_conf.body_import same.out_attempt same.out_exec same.step_of_reads conference_reads_only)+

text \<open>The connection broke during the commit: the caller cannot know whether it took effect.\<close>

definition commit_unknown :: "err \<Rightarrow> bool" where
  "commit_unknown e \<longleftrightarrow> (\<exists>m. e = Wrapf ''commit'' (Pg (ConnError m)))"

text \<open>
  C23: When creating a conference, replacing one, or the upsert of one imported entry returns an
  error, whatever the error and at whatever statement it arose, a broken connection included, the
  committed database is what it was before. Only of a connection that breaks during the commit
  nothing is said, since the database may have committed before its answer was lost; nor of an
  import of several entries, which keeps the entries before the error.
\<close>

theorem conference_errors_roll_back:
  assumes "c_tx c = None" and "\<not> commit_unknown e"
  shows "(Create_conference env inp actor c = (Inl e, c') \<longrightarrow> c_com c' = c_com c)
    \<and> (Update_conference env i inp actor c = (Inl e, c') \<longrightarrow> c_com c' = c_com c)
    \<and> (UpsertFromImport env imp actor c = (Inl e, c') \<longrightarrow> c_com c' = c_com c)"
  using atomic_conferences [of env] assms(1) unfolding atomic_def by blast

theorem conference_errors_roll_back_witness:
  "\<exists>m c'. Create_conference sample_env next_input 1 (sample_conn\<lparr>c_fault := (\<lambda>n. if n = 2 then Some m else None)\<rparr>)
       = (Inl (Wrapf ''clear tags'' (Pg (ConnError m))), c') \<and> c_com c' = sample_db"
proof -
  let ?c = "sample_conn\<lparr>c_fault := (\<lambda>n. if n = 2 then Some ''broken'' else None)\<rparr>"
  have "\<exists>c'. Create_conference sample_env next_input 1 ?c = (Inl (Wrapf ''clear tags'' (Pg (ConnError ''broken''))), c')"
    unfolding Create_conference_def next_input_valid checked_def option.case
    by (simp add: run_eval conference_eval sample_defs next_input_def)
  then obtain c' where run: "Create_conference sample_env next_input 1 ?c = (Inl (Wrapf ''clear tags'' (Pg (ConnError ''broken''))), c')"
    by blast
  have "c_tx ?c = None" "\<not> commit_unknown (Wrapf ''clear tags'' (Pg (ConnError ''broken'')))"
    by (simp_all add: sample_conn_def commit_unknown_def)
  from conference_errors_roll_back [OF this, of sample_env next_input 1 c'] run
  show ?thesis by (auto simp: sample_conn_def)
qed

text \<open>
  C10: A conference that is created gets a new identifier and one row, which holds the input, is
  not archived and names its creator; its tags are the slugs of the input and its tracks the
  codes of the input; no other conference changes. The conference that is returned shows every
  field of the input, the slugs and the codes, and the identifier, the creator and the stamps of
  the row.
\<close>

theorem create_conference_correct:
  assumes "Create_conference env inp actor c = (Inr a, c')" and "c_tx c = None" and "wf_db env (c_com c)"
  shows "\<exists>row. conferences (c_com c') = conferences (c_com c) @ [row] \<and> cID row = apId a
    \<and> cID row \<notin> set (conf_ids (c_com c)) \<and> set_columns (input_params inp actor) row = row
    \<and> cArchivedAt row = None \<and> cCreatedBy row = Some actor \<and> described env inp (cID row) (c_com c')
    \<and> reply_shows env inp a \<and> shows_stamps row a"
proof -
  have "in_tx (Wrapf ''begin tx'' \<circ> Pg) (Wrapf ''commit'' \<circ> Pg) (create_in_tx env inp actor) c = (Inr a, c')"
    using assms(1) by (simp add: Create_conference_def checked_def split: option.splits)
  from out_postD [OF out_post_in_tx [OF create_in_tx_post [OF assms(3)]] assms(2) this] show ?thesis
    by blast
qed

lemma sample_create: "\<exists>a c'. Create_conference sample_env next_input 1 sample_conn = (Inr a, c')"
  unfolding Create_conference_def next_input_valid checked_def option.case
  by (simp add: run_eval conference_eval sample_defs next_input_def)

theorem create_conference_correct_witness:
  "\<exists>a c' row. Create_conference sample_env next_input 1 sample_conn = (Inr a, c')
     \<and> conferences (c_com c') = conferences sample_db @ [row] \<and> cAcronym row = ''X'' \<and> cYear row = 2027"
proof -
  obtain a c' where run: "Create_conference sample_env next_input 1 sample_conn = (Inr a, c')"
    using sample_create by blast
  have "c_tx sample_conn = None" "wf_db sample_env (c_com sample_conn)"
    using sample_wf by (simp_all add: sample_conn_def)
  from create_conference_correct [OF run this] obtain row where
    row: "conferences (c_com c') = conferences sample_db @ [row]" "set_columns (input_params next_input 1) row = row"
    by (auto simp: sample_conn_def)
  from row(2) have "cAcronym row = cAcronym (set_columns (input_params next_input 1) row)"
      "cYear row = cYear (set_columns (input_params next_input 1) row)" by simp_all
  then have "cAcronym row = ''X''" "cYear row = 2027"
    by (simp_all add: set_columns_def input_params_def next_input_def int32_of_id)
  with run row(1) show ?thesis by blast
qed

text \<open>
  C11: A conference that is replaced holds the input afterwards and keeps its identifier and its
  archive stamp; its tags and tracks are those of the input; every pending reminder of it is
  for a user who has starred it and at the time that the user's current settings and the new
  deadlines give, and none they ask for is missing. No other conference changes.
\<close>

theorem update_conference_correct:
  assumes "Update_conference env i inp actor c = (Inr a, c')" and "c_tx c = None" and "wf_db env (c_com c)"
  shows "\<exists>row. conferences (c_com c') = update_where (\<lambda>r. cID r = i) (\<lambda>_. row) (conferences (c_com c))
    \<and> cID row = i \<and> apId a = i \<and> set_columns (input_params inp actor) row = row
    \<and> (\<exists>old \<in> set (conferences (c_com c)). cID old = i \<and> cArchivedAt row = cArchivedAt old)
    \<and> described env inp i (c_com c') \<and> on_schedule env (c_com c') row"
proof -
  have "in_tx (Wrapf ''begin tx'' \<circ> Pg) (Wrapf ''commit'' \<circ> Pg) (update_in_tx env i inp actor) c = (Inr a, c')"
    using assms(1) by (simp add: Update_conference_def checked_def split: option.splits)
  from out_postD [OF out_post_in_tx [OF update_in_tx_post [OF assms(3)]] assms(2) this] show ?thesis
    by blast
qed

lemma sample_update: "\<exists>a c'. Update_conference sample_env 2 next_input 1 sample_conn = (Inr a, c')"
  unfolding Update_conference_def next_input_valid checked_def option.case
  by (simp add: run_eval conference_eval reminder_eval sample_defs next_input_def)

theorem update_conference_correct_witness:
  "\<exists>a c' row. Update_conference sample_env 2 next_input 1 sample_conn = (Inr a, c')
     \<and> conferences (c_com c') = [row] \<and> on_schedule sample_env (c_com c') row"
proof -
  obtain a c' where run: "Update_conference sample_env 2 next_input 1 sample_conn = (Inr a, c')"
    using sample_update by blast
  have "c_tx sample_conn = None" "wf_db sample_env (c_com sample_conn)"
    using sample_wf by (simp_all add: sample_conn_def)
  from update_conference_correct [OF run this] show ?thesis
    using run by (auto simp: sample_defs)
qed

text \<open>
  C20: Archiving a conference stamps it, keeping the stamp it may already have, cancels all of its
  pending reminders and changes nothing else.
\<close>

theorem archive_conference_correct:
  assumes "Archive_conference env i c = (Inr a, c')" and "c_tx c = None"
  shows "\<exists>t t' row. \<exists>old \<in> set (conferences (c_com c)). cID old = i
    \<and> apArchivedAt a = Some (case cArchivedAt old of Some u \<Rightarrow> u | None \<Rightarrow> t') \<and> cArchivedAt row = apArchivedAt a
    \<and> c_com c' = (c_com c)\<lparr>conferences := update_where (\<lambda>r. cID r = i) (\<lambda>_. row) (conferences (c_com c)),
          reminders := update_where (\<lambda>r. rStatus r = Pending \<and> rConferenceID r = i) (cancelled t) (reminders (c_com c))\<rparr>"
proof -
  have attach: "out_post (attachTagsAndTracks env row) d (\<lambda>a d'. apArchivedAt a = cArchivedAt row \<and> d' = d)"
    for row and d :: db
    unfolding attachTagsAndTracks_def
    by (intro out_post_rules)
      (auto simp: GetConferenceTags_def GetConferenceTracks_def rows_Inr_iff toAPIConference_def)
  have "out_post (Archive_conference env i) (c_com c) (\<lambda>a d'. \<exists>t t' row. \<exists>old \<in> set (conferences (c_com c)). cID old = i
    \<and> apArchivedAt a = Some (case cArchivedAt old of Some u \<Rightarrow> u | None \<Rightarrow> t') \<and> cArchivedAt row = apArchivedAt a
    \<and> d' = (c_com c)\<lparr>conferences := update_where (\<lambda>r. cID r = i) (\<lambda>_. row) (conferences (c_com c)),
          reminders := update_where (\<lambda>r. rStatus r = Pending \<and> rConferenceID r = i) (cancelled t) (reminders (c_com c))\<rparr>)"
    unfolding Archive_conference_def
    by (rule out_post_andthen [OF out_post_mono [OF out_post_in_tx [OF archive_in_tx_post]]],
        rule out_post_mono [OF attach]) fastforce
  from out_postD [OF this assms(2,1)] show ?thesis by blast
qed

theorem archive_conference_correct_witness:
  "\<exists>a c'. Archive_conference sample_env 2 sample_conn = (Inr a, c') \<and> apArchivedAt a \<noteq> None"
proof -
  have "\<exists>a c'. Archive_conference sample_env 2 sample_conn = (Inr a, c')"
    by (simp add: Archive_conference_def attachTagsAndTracks_def CancelConferenceReminders_def
        ArchiveConference_def run_eval conference_eval sample_defs)
  then obtain a c' where run: "Archive_conference sample_env 2 sample_conn = (Inr a, c')" by blast
  have "c_tx sample_conn = None" by (simp add: sample_conn_def)
  from archive_conference_correct [OF run this] have "apArchivedAt a \<noteq> None" by auto
  with run show ?thesis by blast
qed

text \<open>
  C21: Deleting succeeds exactly on a conference that exists, unless the connection fails, and
  then nothing in the database refers to it any more; otherwise nothing changes.
\<close>

theorem delete_conference_correct:
  assumes "c_fault c (c_stmts c) = None" and "c_tx c = None" and "wf_db env (c_com c)"
  shows "case Delete_conference i c of (r, c') \<Rightarrow>
    (if i \<in> set (conf_ids (c_com c))
     then r = Inr () \<and> conferences (c_com c') = delete_where (\<lambda>x. cID x = i) (conferences (c_com c))
       \<and> i \<notin> set (conf_ids (c_com c')) \<and> slugs_of (c_com c') i = {} \<and> tracks_of (c_com c') i = {}
       \<and> (\<forall>s \<in> set (stars (c_com c')). sConferenceID s \<noteq> i)
       \<and> (\<forall>s \<in> set (reminders (c_com c')). rConferenceID s \<noteq> i)
     else r = Inl ErrNotFound \<and> c_com c' = c_com c)"
proof (cases "i \<in> set (conf_ids (c_com c))")
  case True
  then have "filter (\<lambda>x. cID x = i) (conferences (c_com c)) \<noteq> []"
    by (auto simp: conf_ids_def filter_empty_conv)
  then show ?thesis
    using True assms by (auto simp: Delete_conference_def run_eval DeleteConference_def slugs_of_def
        tracks_of_def conf_ids_def)
next
  case False
  then have "filter (\<lambda>x. cID x = i) (conferences (c_com c)) = []"
      "delete_where (\<lambda>x. cID x = i) (conferences (c_com c)) = conferences (c_com c)"
    by (auto simp: conf_ids_def filter_empty_conv delete_where_def filter_id_conv)
  then show ?thesis
    using False assms by (simp add: Delete_conference_def run_eval DeleteConference_def)
qed

theorem delete_conference_correct_witness:
  "fst (Delete_conference 2 sample_conn) = Inr () \<and> fst (Delete_conference 9 sample_conn) = Inl ErrNotFound"
  using delete_conference_correct [of sample_conn sample_env 2]
    delete_conference_correct [of sample_conn sample_env 9] sample_wf
  by (simp add: split_def sample_defs conf_ids_def)

text \<open>
  C25: An input that passes the validation, but has the acronym, in whatever case, and the year of a
  conference that is there, is refused as a conflict, and the database is not changed: if the rank
  is one of the ranks, the h5-index fits 32 bits, the texts are ones the database takes, no
  statement fails, and the messages of the database name unique constraints as such.
\<close>

theorem duplicate_acronym_year_conflict:
  assumes "validateInput inp = None"
    and "case inCoreRank inp of None \<Rightarrow> True | Some r \<Rightarrow> r \<in> set core_ranks"
    and "case inH5Index inp of None \<Rightarrow> True | Some h \<Rightarrow> h < 2 ^ 31"
    and "texts_ok (param_texts (input_params inp actor))"
    and "\<And>n. c_fault c n = None"
    and "\<And>k. contains (e_pg_msg env (UniqueViolation k)) ''unique''"
    and "(e_pg_lower env (inAcronym inp), inYear inp) \<in> set (map (acronym_year env) (conferences (c_com c)))"
  shows "fst (Create_conference env inp actor c) = Inl conflict_err \<and> errors_Is conflict_err ErrConflict
    \<and> c_com (snd (Create_conference env inp actor c)) = c_com c"
proof -
  let ?p = "create_params (input_params inp actor) actor"
  let ?c = "c\<lparr>c_stmts := Suc (c_stmts c), c_tx := Some (c_com c), c_aborted := False\<rparr>"
  have texts: "texts_ok (param_texts ?p)" using assms(4) by simp
  have chk: "conference_check (new_conference x ?p) = None" "numeric_5_2_ok (pAcceptanceRatePct ?p)" for x
    using valid_input_checks [OF assms(1-3)] by (simp_all add: new_conference_def)
  have "2000 \<le> inYear inp" "inYear inp \<le> 2100" using assms(1) by (auto simp: validateInput_def split: if_splits)
  then have "int32_of (inYear inp) = inYear inp" by (intro int32_of_id) simp_all
  then have key: "acronym_year env (new_conference x ?p) = (e_pg_lower env (inAcronym inp), inYear inp)" for x
    by (simp add: acronym_year_def new_conference_def) (simp add: set_columns_def input_params_def)
  have "\<exists>k. CreateConference env ?p (ctx_of ?c) (c_com c) = Inl (UniqueViolation k)"
    using texts chk assms(7) by (simp add: CreateConference_def with_texts_def Let_def key del: set_map)
  then obtain k where "CreateConference env ?p (ctx_of ?c) (c_com c) = Inl (UniqueViolation k)" by blast
  moreover have "create_err env (UniqueViolation k) = conflict_err"
    using assms(6) by (simp add: create_err_def isUniqueViolation_def)
  ultimately show ?thesis
    using assms(1,5) by (simp add: Create_conference_def checked_def create_in_tx_def run_eval conflict_err_def)
qed

theorem duplicate_acronym_year_conflict_witness:
  "fst (Create_conference sample_env (next_input\<lparr>inYear := 2026\<rparr>) 1 sample_conn) = Inl conflict_err"
proof -
  have valid: "validateInput (next_input\<lparr>inYear := 2026\<rparr>) = None"
    by (rule next_input_valid_year) simp_all
  have msg: "contains (e_pg_msg sample_env (UniqueViolation k)) ''unique''" for k
    by (simp add: sample_env_def sample_msg_def)
  have "fst (Create_conference sample_env (next_input\<lparr>inYear := 2026\<rparr>) 1 sample_conn) = Inl conflict_err
      \<and> errors_Is conflict_err ErrConflict
      \<and> c_com (snd (Create_conference sample_env (next_input\<lparr>inYear := 2026\<rparr>) 1 sample_conn)) = c_com sample_conn"
    by (rule duplicate_acronym_year_conflict [OF valid _ _ _ _ msg])
      (simp_all add: next_input_def input_params_def param_texts_def opt_list_def texts_ok_def
        sample_defs acronym_year_def sample_env_def)
  then show ?thesis by blast
qed

end
