(* ===== verification/Stars.thy ===== *)
theory Stars
  imports Conference_Facts
begin

text \<open>
  The star service (\<^verbatim>\<open>service/stars.go\<close>): a star and the reminders it plans are
  written in one transaction, an unstar cancels what is pending. The lemmas show what is left
  behind, that starring twice is starring once, and what starring again after an unstar does.
\<close>

definition star_in_tx ::
  "env \<Rightarrow> uuid \<Rightarrow> uuid \<Rightarrow> conference \<Rightarrow> user_setting \<Rightarrow> 'm conn_scheme \<Rightarrow> (err + unit) \<times> 'm conn_scheme" where
  "star_in_tx env userID conferenceID conf settings =
     andthen (on_err (Wrapf ''create star'' \<circ> Pg) (exec Tx (CreateStar userID conferenceID))) (\<lambda>_.
     materializeReminders env Tx userID conferenceID (usTimezone settings)
       (usReminderLeadDays settings) (conferenceDeadlines conf))"

definition Star ::
  "env \<Rightarrow> uuid \<Rightarrow> uuid \<Rightarrow> 'm conn_scheme \<Rightarrow> (err + unit) \<times> 'm conn_scheme" where
  "Star env userID conferenceID =
     andthen (on_err (\<lambda>_. ErrNotFound) (exec Pool (GetConference conferenceID))) (\<lambda>conf.
     andthen (on_err (Wrapf ''get user settings'' \<circ> Pg) (exec Pool (GetUserSettings userID))) (\<lambda>settings.
     in_tx (Wrapf ''begin tx'' \<circ> Pg) Pg (star_in_tx env userID conferenceID conf settings)))"

definition unstar_in_tx :: "uuid \<Rightarrow> uuid \<Rightarrow> 'm conn_scheme \<Rightarrow> (err + unit) \<times> 'm conn_scheme" where
  "unstar_in_tx userID conferenceID =
     andthen (on_err (Wrapf ''delete star'' \<circ> Pg) (exec Tx (DeleteStar userID conferenceID))) (\<lambda>_.
     on_err (Wrapf ''cancel reminders'' \<circ> Pg) (exec Tx (CancelUserConferenceReminders userID conferenceID)))"

definition Unstar :: "uuid \<Rightarrow> uuid \<Rightarrow> 'm conn_scheme \<Rightarrow> (err + unit) \<times> 'm conn_scheme" where
  "Unstar userID conferenceID =
     andthen (on_err (\<lambda>_. ErrNotFound) (exec Pool (GetConference conferenceID))) (\<lambda>_.
     in_tx (Wrapf ''begin tx'' \<circ> Pg) Pg (unstar_in_tx userID conferenceID))"

definition ListStarred :: "env \<Rightarrow> uuid \<Rightarrow> 'm conn_scheme \<Rightarrow> (err + Conference list) \<times> 'm conn_scheme" where
  "ListStarred env userID =
     andthen (on_err (Wrapf ''list starred'' \<circ> Pg) (exec Pool (ListUserStarredConferences env userID)))
       (map_each (list_row env))"

subsection \<open>What the operations keep\<close>

locale star_writes = evolution R for R :: "db \<Rightarrow> db \<Rightarrow> bool" +
  assumes step_star: "sql_step R (CreateStar u i)"
    and step_unstar: "sql_step R (DeleteStar u i)"
    and step_cancel: "sql_step R (CancelUserConferenceReminders u i)"
    and step_plan: "sql_step R (InsertReminderRow rp)"
begin

lemma body_star: "tx_evolves R (star_in_tx env u i c us)"
  unfolding star_in_tx_def materializeReminders_def
  by (intro tx_rules tx_exec step_star step_plan)

lemma body_unstar: "tx_evolves R (unstar_in_tx u i)"
  unfolding unstar_in_tx_def by (intro tx_rules tx_exec step_unstar step_cancel)

lemma keeps_Star: "evolves R (Star env u i)"
  unfolding Star_def
  by (intro out_rules out_exec out_in_tx body_star step_of_reads conference_reads_only user_reads_only)

lemma keeps_Unstar: "evolves R (Unstar u i)"
  unfolding Unstar_def
  by (intro out_rules out_exec out_in_tx body_unstar step_of_reads conference_reads_only)

end

interpretation wf_star: star_writes "wf_step env" for env
  by unfold_locales (rule keeps_intros)+

interpretation hist_star: star_writes keeps_history
  by unfold_locales (rule keeps_intros)+

interpretation any_star: star_writes "\<lambda>_ _. True"
  by unfold_locales (simp_all add: sql_step_def)

subsection \<open>What a star leaves behind\<close>

text \<open>The rows that the deadlines of a conference and a user's lead times ask for.\<close>

definition star_keys :: "uuid \<Rightarrow> uuid \<Rightarrow> conference \<Rightarrow> user_setting \<Rightarrow> (uuid \<times> uuid \<times> deadline_kind \<times> int) set" where
  "star_keys u i c us = {(u, i, deKind e, l) | e l. e \<in> set (conferenceDeadlines c) \<and> l \<in> set (usReminderLeadDays us)}"

definition reminder_keys :: "db \<Rightarrow> (uuid \<times> uuid \<times> deadline_kind \<times> int) set" where
  "reminder_keys d = reminder_key ` set (reminders d)"

text \<open>
  \<open>starred_from env u i c us d d'\<close>: \<open>d'\<close> is \<open>d\<close> with the star and with pending reminders appended
  that the settings ask for, and every reminder they ask for is there.
\<close>

definition starred_from :: "env \<Rightarrow> uuid \<Rightarrow> uuid \<Rightarrow> conference \<Rightarrow> user_setting \<Rightarrow> db \<Rightarrow> db \<Rightarrow> bool" where
  "starred_from env u i c us d d' \<longleftrightarrow>
     (\<exists>ss rs. d' = d\<lparr>stars := ss, reminders := reminders d @ rs\<rparr>
       \<and> set (map star_key ss) = insert (u, i) (set (map star_key (stars d)))
       \<and> ((u, i) \<in> set (map star_key (stars d)) \<longrightarrow> ss = stars d)
       \<and> (\<forall>r \<in> set rs. rStatus r = Pending
            \<and> planned (LoadLocation_or_UTC env (usTimezone us)) u i (usReminderLeadDays us) (conferenceDeadlines c) r))
     \<and> star_keys u i c us \<subseteq> reminder_keys d'"

lemma CreateStar_effect:
  assumes run: "CreateStar u i x d = Inr (a, d')"
  shows "\<exists>ss. d' = d\<lparr>stars := ss\<rparr>
     \<and> set (map star_key ss) = insert (u, i) (set (map star_key (stars d)))
     \<and> ((u, i) \<in> set (map star_key (stars d)) \<longrightarrow> ss = stars d)"
proof (cases "(u, i) \<in> set (map star_key (stars d))")
  case True
  then show ?thesis using run by (intro exI [of _ "stars d"]) (auto simp: CreateStar_def)
next
  case False
  let ?s = "\<lparr>sUserID = u, sConferenceID = i, sCreatedAt = x_now x\<rparr>"
  show ?thesis
    by (rule exI [of _ "stars d @ [?s]"])
      (use run False in \<open>auto simp: CreateStar_def star_key_def split: if_splits\<close>)
qed

lemma star_in_tx_post: "tx_post (star_in_tx env u i c us) d (\<lambda>_ d'. starred_from env u i c us d d')"
  unfolding star_in_tx_def
proof (intro tx_post_andthen tx_post_on_err tx_post_exec)
  fix x a d1
  assume "CreateStar u i x d = Inr (a, d1)"
  then obtain ss where d1: "d1 = d\<lparr>stars := ss\<rparr>"
      and ss: "set (map star_key ss) = insert (u, i) (set (map star_key (stars d)))"
        "(u, i) \<in> set (map star_key (stars d)) \<Longrightarrow> ss = stars d"
    using CreateStar_effect by blast
  show "tx_post (materializeReminders env Tx u i (usTimezone us) (usReminderLeadDays us)
      (conferenceDeadlines c)) d1 (\<lambda>_ d'. starred_from env u i c us d d')"
  proof (rule tx_post_also [OF materializeReminders_covers materializeReminders_adds])
    fix b d'
    assume cov: "\<forall>e \<in> set (conferenceDeadlines c). \<forall>l \<in> set (usReminderLeadDays us).
        (u, i, deKind e, l) \<in> set (map reminder_key (reminders d'))"
      and adds: "adds_reminders (planned (LoadLocation_or_UTC env (usTimezone us)) u i
        (usReminderLeadDays us) (conferenceDeadlines c)) d1 d'"
    from adds obtain rs where rs: "d' = d\<lparr>stars := ss, reminders := reminders d @ rs\<rparr>"
        "\<forall>r \<in> set rs. rStatus r = Pending \<and> planned (LoadLocation_or_UTC env (usTimezone us)) u i
          (usReminderLeadDays us) (conferenceDeadlines c) r"
      by (auto simp: adds_reminders_def d1)
    have "star_keys u i c us \<subseteq> reminder_keys d'"
      using cov by (auto simp: star_keys_def reminder_keys_def)
    then show "starred_from env u i c us d d'"
      unfolding starred_from_def using rs ss by blast
  qed
qed

lemma Star_post:
  "out_post (Star env u i) d (\<lambda>_ d'. \<exists>c us. find (\<lambda>c. cID c = i) (conferences d) = Some c
     \<and> find (\<lambda>s. usUserID s = u) (user_settings d) = Some us \<and> starred_from env u i c us d d')"
  unfolding Star_def
  by (intro out_post_andthen out_post_on_err out_post_exec)
    (auto simp: GetConference_def GetUserSettings_def one_row_Inr_iff
      intro!: out_post_mono [OF out_post_in_tx [OF star_in_tx_post]])

lemma Unstar_post:
  "out_post (Unstar u i) d (\<lambda>_ d'. \<exists>t. d' = d\<lparr>stars := delete_where (\<lambda>s. star_key s = (u, i)) (stars d),
     reminders := update_where (\<lambda>r. rStatus r = Pending \<and> rUserID r = u \<and> rConferenceID r = i)
       (cancelled t) (reminders d)\<rparr>)"
proof -
  have "tx_post (unstar_in_tx u i) d (\<lambda>_ d'. \<exists>t. d' = d\<lparr>stars := delete_where (\<lambda>s. star_key s = (u, i)) (stars d),
     reminders := update_where (\<lambda>r. rStatus r = Pending \<and> rUserID r = u \<and> rConferenceID r = i)
       (cancelled t) (reminders d)\<rparr>)" for d
    unfolding unstar_in_tx_def
    by (intro tx_post_andthen tx_post_on_err tx_post_exec)
      (auto simp: DeleteStar_def CancelUserConferenceReminders_def)
  then show ?thesis
    unfolding Unstar_def
    by (intro out_post_andthen out_post_on_err out_post_exec)
      (auto simp: GetConference_def one_row_Inr_iff intro!: out_post_in_tx)
qed

lemma none_pending_after_cancel:
  "r \<in> set (update_where (\<lambda>r. rStatus r = Pending \<and> Q r) (cancelled t) rs) \<Longrightarrow> \<not> (rStatus r = Pending \<and> Q r)"
  by (induction rs) (auto simp: cancelled_def split: if_splits)

text \<open>Nothing is left to do for a star that is there with all its reminders.\<close>

lemma InsertReminderRow_present:
  "InsertReminderRow p x d = Inr (a, d') \<Longrightarrow>
     (irUserID p, irConferenceID p, irDeadlineKind p, irLeadTimeDays p) \<in> reminder_keys d \<Longrightarrow> d' = d"
  by (auto simp: InsertReminderRow_def Let_def reminder_keys_def reminder_key_def image_iff
      split: if_splits option.splits)

lemma materialize_again:
  assumes keys: "star_keys u i c us \<subseteq> reminder_keys d"
  shows "tx_post (materializeReminders env Tx u i (usTimezone us) (usReminderLeadDays us)
    (conferenceDeadlines c)) d (\<lambda>_ d'. d' = d)"
proof -
  let ?ins = "\<lambda>e l. on_err (Wrapf (insert_reminder_msg e l) \<circ> Pg)
    (exec Tx (InsertReminderRow (plan_row (LoadLocation_or_UTC env (usTimezone us)) u i e l)))"
  have one: "tx_post (?ins e l) d (\<lambda>_ d'. d' = d)"
    if "e \<in> set (conferenceDeadlines c)" "l \<in> set (usReminderLeadDays us)" for e l
  proof (intro tx_post_on_err tx_post_exec)
    fix x a d'
    assume ins: "InsertReminderRow (plan_row (LoadLocation_or_UTC env (usTimezone us)) u i e l) x d = Inr (a, d')"
    have "(u, i, deKind e, l) \<in> reminder_keys d" using keys that by (auto simp: star_keys_def)
    then show "d' = d" by (intro InsertReminderRow_present [OF ins]) (simp add: plan_row_def)
  qed
  have row: "tx_post (for_each (?ins e) (usReminderLeadDays us)) d (\<lambda>_ d'. d' = d)"
    if "e \<in> set (conferenceDeadlines c)" for e
    by (rule tx_post_for_each [where I = "\<lambda>_ d'. d' = d"]) (use one that in auto)
  show ?thesis
    unfolding materializeReminders_def
    by (rule tx_post_for_each [where I = "\<lambda>_ d'. d' = d"]) (use row in auto)
qed

lemma star_in_tx_again:
  assumes keys: "star_keys u i c us \<subseteq> reminder_keys d"
  shows "tx_post (star_in_tx env u i c us) d (\<lambda>_ d'. reminders d' = reminders d
    \<and> ((u, i) \<in> set (map star_key (stars d)) \<longrightarrow> d' = d))"
  unfolding star_in_tx_def
proof (intro tx_post_andthen tx_post_on_err tx_post_exec)
  fix x a d1
  assume "CreateStar u i x d = Inr (a, d1)"
  then obtain ss where d1: "d1 = d\<lparr>stars := ss\<rparr>" "(u, i) \<in> set (map star_key (stars d)) \<longrightarrow> ss = stars d"
    using CreateStar_effect by blast
  then have "star_keys u i c us \<subseteq> reminder_keys d1" using keys by (simp add: reminder_keys_def)
  then show "tx_post (materializeReminders env Tx u i (usTimezone us) (usReminderLeadDays us)
      (conferenceDeadlines c)) d1 (\<lambda>_ d'. reminders d' = reminders d
        \<and> ((u, i) \<in> set (map star_key (stars d)) \<longrightarrow> d' = d))"
    by (rule tx_post_mono [OF materialize_again]) (use d1 in auto)
qed

text \<open>A star on a database that has all of its reminders.\<close>

lemma Star_again_post:
  assumes "find (\<lambda>c. cID c = i) (conferences d) = Some conf" and "find (\<lambda>s. usUserID s = u) (user_settings d) = Some us"
    and "star_keys u i conf us \<subseteq> reminder_keys d"
  shows "out_post (Star env u i) d (\<lambda>_ d'. reminders d' = reminders d
    \<and> ((u, i) \<in> set (map star_key (stars d)) \<longrightarrow> d' = d))"
  unfolding Star_def
proof (intro out_post_andthen out_post_on_err out_post_exec)
  fix x row d1 y settings d2
  assume "GetConference i x d = Inr (row, d1)" and "GetUserSettings u y d1 = Inr (settings, d2)"
  then have eq: "d1 = d" "d2 = d" "row = conf" "settings = us"
    using assms(1,2) by (auto simp: GetConference_def GetUserSettings_def one_row_Inr_iff)
  show "out_post (in_tx (Wrapf ''begin tx'' \<circ> Pg) Pg (star_in_tx env u i row settings)) d2
      (\<lambda>_ d'. reminders d' = reminders d \<and> ((u, i) \<in> set (map star_key (stars d)) \<longrightarrow> d' = d))"
    unfolding eq by (rule out_post_in_tx [OF star_in_tx_again [OF assms(3)]])
qed

lemma starred_fromD:
  assumes "starred_from env u i c us d d'"
  shows "conferences d' = conferences d" "user_settings d' = user_settings d"
    "(u, i) \<in> set (map star_key (stars d'))" "star_keys u i c us \<subseteq> reminder_keys d'"
proof -
  obtain ss rs where "d' = d\<lparr>stars := ss, reminders := reminders d @ rs\<rparr>"
      "set (map star_key ss) = insert (u, i) (set (map star_key (stars d)))"
      "star_keys u i c us \<subseteq> reminder_keys d'"
    using assms unfolding starred_from_def by blast
  then show "conferences d' = conferences d" "user_settings d' = user_settings d"
    "(u, i) \<in> set (map star_key (stars d'))" "star_keys u i c us \<subseteq> reminder_keys d'" by simp_all
qed

subsection \<open>Properties\<close>

lemma starred_from_plans:
  assumes "starred_from env u i c us d d'" and "k \<in> star_keys u i c us" and "k \<notin> reminder_keys d"
  shows "\<exists>r \<in> set (reminders d'). reminder_key r = k \<and> rStatus r = Pending
    \<and> planned (LoadLocation_or_UTC env (usTimezone us)) u i (usReminderLeadDays us) (conferenceDeadlines c) r"
proof -
  obtain rs where rs: "reminders d' = reminders d @ rs" "star_keys u i c us \<subseteq> reminder_keys d'"
    "\<forall>r \<in> set rs. rStatus r = Pending
      \<and> planned (LoadLocation_or_UTC env (usTimezone us)) u i (usReminderLeadDays us) (conferenceDeadlines c) r"
    using assms(1) unfolding starred_from_def by auto
  then show ?thesis using assms(2,3) by (fastforce simp: reminder_keys_def)
qed

text \<open>
  C12: A star that succeeds is on record. Every deadline that is set and every lead time of the
  user's current settings has its row in the log: where there was no row of this key, a pending one
  is added, at the time the settings and the deadline give; a row of the key that is there already
  stays as it is, whether pending, sent, failed or cancelled (ON CONFLICT DO NOTHING). Nothing else
  is added, and nothing is removed.
\<close>

theorem star_correct:
  assumes "Star env u i c = (Inr (), c')" and "c_tx c = None"
  shows "\<exists>conf us. find (\<lambda>c. cID c = i) (conferences (c_com c)) = Some conf
    \<and> find (\<lambda>s. usUserID s = u) (user_settings (c_com c)) = Some us
    \<and> starred_from env u i conf us (c_com c) (c_com c')
    \<and> (\<forall>k \<in> star_keys u i conf us. k \<notin> reminder_keys (c_com c) \<longrightarrow>
         (\<exists>r \<in> set (reminders (c_com c')). reminder_key r = k \<and> rStatus r = Pending
           \<and> planned (LoadLocation_or_UTC env (usTimezone us)) u i (usReminderLeadDays us) (conferenceDeadlines conf) r))"
  using out_postD [OF Star_post assms(2,1)] starred_from_plans by blast

lemma sample_star: "\<exists>c'. Star sample_env 1 2 sample_conn = (Inr (), c')"
  by (simp add: Star_def star_in_tx_def GetConference_def GetUserSettings_def CreateStar_def star_key_def
      run_eval conference_eval reminder_eval sample_defs)

theorem star_correct_witness:
  "\<exists>c'. Star sample_env 1 2 sample_conn = (Inr (), c')
     \<and> (\<exists>r \<in> set (reminders (c_com c')). reminder_key r = (1, 2, Submission, 7) \<and> rStatus r = Pending)"
proof -
  obtain c' where run: "Star sample_env 1 2 sample_conn = (Inr (), c')" using sample_star by blast
  have "c_tx sample_conn = None" by (simp add: sample_conn_def)
  from star_correct [OF run this]
  have "\<forall>k \<in> star_keys 1 2 sample_conference sample_settings. k \<notin> reminder_keys sample_db \<longrightarrow>
      (\<exists>r \<in> set (reminders (c_com c')). reminder_key r = k \<and> rStatus r = Pending)"
    by (fastforce simp: sample_conn_def sample_db_def sample_settings_def sample_conference_def split: if_splits)
  moreover have "(1, 2, Submission, 7) \<notin> reminder_keys sample_db"
    by (simp add: reminder_keys_def sample_db_def)
  moreover have "(1, 2, Submission, 7) \<in> star_keys 1 2 sample_conference sample_settings"
    by (auto simp: star_keys_def sample_conference_def sample_settings_def conferenceDeadlines_def
        deadline_entries_def)
  ultimately show ?thesis using run by blast
qed

text \<open>
  Starring twice is starring once: the second star changes nothing.\<close>

theorem star_idempotent:
  assumes "Star env u i c = (Inr (), c1)" and "Star env u i c1 = (Inr (), c2)" and "c_tx c = None"
  shows "c_com c2 = c_com c1"
proof -
  have n1: "c_tx c1 = None" using out_postD [OF Star_post assms(3,1)] by blast
  obtain conf us where conf: "find (\<lambda>c. cID c = i) (conferences (c_com c)) = Some conf"
      and us: "find (\<lambda>s. usUserID s = u) (user_settings (c_com c)) = Some us"
      and st: "starred_from env u i conf us (c_com c) (c_com c1)"
    using out_postD [OF Star_post assms(3,1)] by blast
  note same = starred_fromD [OF st]
  have "out_post (Star env u i) (c_com c1) (\<lambda>_ d'. reminders d' = reminders (c_com c1)
      \<and> ((u, i) \<in> set (map star_key (stars (c_com c1))) \<longrightarrow> d' = c_com c1))"
    by (rule Star_again_post) (use conf us same in simp_all)
  from out_postD [OF this n1 assms(2)] same(3) show ?thesis by blast
qed

lemma sample_star_twice: "\<exists>c1 c2. Star sample_env 1 2 sample_conn = (Inr (), c1) \<and> Star sample_env 1 2 c1 = (Inr (), c2)"
  by (simp add: Star_def star_in_tx_def GetConference_def GetUserSettings_def CreateStar_def star_key_def
      run_eval conference_eval reminder_eval sample_defs)

theorem star_idempotent_witness:
  "\<exists>c1 c2. Star sample_env 1 2 sample_conn = (Inr (), c1) \<and> Star sample_env 1 2 c1 = (Inr (), c2)
     \<and> c_com c2 = c_com c1"
proof -
  obtain c1 c2 where run: "Star sample_env 1 2 sample_conn = (Inr (), c1)" "Star sample_env 1 2 c1 = (Inr (), c2)"
    using sample_star_twice by blast
  have "c_tx sample_conn = None" by (simp add: sample_conn_def)
  from star_idempotent [OF run this] run show ?thesis by blast
qed

text \<open>
  C22: An unstar that succeeds removes the star, cancels the pending reminders of the pair and
  leaves every other row, the ones already sent among them, as it was.
\<close>

theorem unstar_correct:
  assumes "Unstar u i c = (Inr (), c')" and "c_tx c = None"
  shows "\<exists>t. c_com c' = (c_com c)\<lparr>stars := delete_where (\<lambda>s. star_key s = (u, i)) (stars (c_com c)),
     reminders := update_where (\<lambda>r. rStatus r = Pending \<and> rUserID r = u \<and> rConferenceID r = i)
       (cancelled t) (reminders (c_com c))\<rparr>"
  using out_postD [OF Unstar_post assms(2,1)] by blast

lemma sample_unstar: "\<exists>c'. Unstar 1 2 sample_conn = (Inr (), c')"
  by (simp add: Unstar_def unstar_in_tx_def GetConference_def DeleteStar_def CancelUserConferenceReminders_def
      run_eval conference_eval sample_defs)

theorem unstar_correct_witness: "\<exists>c'. Unstar 1 2 sample_conn = (Inr (), c') \<and> stars (c_com c') = []"
proof -
  obtain c' where run: "Unstar 1 2 sample_conn = (Inr (), c')" using sample_unstar by blast
  have "c_tx sample_conn = None" by (simp add: sample_conn_def)
  from unstar_correct [OF run this] run show ?thesis by (auto simp: sample_defs star_key_def)
qed

text \<open>
  A conference that is starred again after an unstar has no pending reminder, if its reminders
  had been planned before: the cancelled rows keep their keys, and the insertion skips them.
\<close>

theorem star_again_plans_nothing:
  assumes "Unstar u i c = (Inr (), c1)" and "Star env u i c1 = (Inr (), c2)" and "c_tx c = None"
    and "find (\<lambda>x. cID x = i) (conferences (c_com c)) = Some conf"
    and "find (\<lambda>s. usUserID s = u) (user_settings (c_com c)) = Some us"
    and "star_keys u i conf us \<subseteq> reminder_keys (c_com c)"
  shows "\<not> (\<exists>r \<in> set (reminders (c_com c2)). rStatus r = Pending \<and> rUserID r = u \<and> rConferenceID r = i)"
proof -
  obtain t where c1: "c_tx c1 = None" "c_com c1 = (c_com c)\<lparr>stars := delete_where (\<lambda>s. star_key s = (u, i)) (stars (c_com c)),
     reminders := update_where (\<lambda>r. rStatus r = Pending \<and> rUserID r = u \<and> rConferenceID r = i)
       (cancelled t) (reminders (c_com c))\<rparr>"
    using out_postD [OF Unstar_post assms(3,1)] by blast
  let ?d1 = "c_com c1"
  have keys: "map reminder_key (reminders ?d1) = map reminder_key (reminders (c_com c))"
    unfolding c1(2) by (simp, intro map_update_where_key) (simp add: cancelled_def reminder_key_def)
  then have "reminder_keys ?d1 = reminder_keys (c_com c)"
    unfolding reminder_keys_def set_map [symmetric] by simp
  then have "out_post (Star env u i) ?d1 (\<lambda>_ d'. reminders d' = reminders ?d1
      \<and> ((u, i) \<in> set (map star_key (stars ?d1)) \<longrightarrow> d' = ?d1))"
    using assms(4-6) by (intro Star_again_post) (simp_all add: c1(2))
  from out_postD [OF this c1(1) assms(2)] have "reminders (c_com c2) = reminders ?d1" by simp
  then show ?thesis
    using none_pending_after_cancel [of _ "\<lambda>r. rUserID r = u \<and> rConferenceID r = i" t "reminders (c_com c)"]
    unfolding c1(2) by simp
qed

lemma sample_star_unstar_star:
  "fst (Star sample_env 1 2 sample_conn) = Inr ()
   \<and> fst (Unstar 1 2 (snd (Star sample_env 1 2 sample_conn))) = Inr ()
   \<and> fst (Star sample_env 1 2 (snd (Unstar 1 2 (snd (Star sample_env 1 2 sample_conn))))) = Inr ()"
  by (simp add: Star_def star_in_tx_def GetConference_def GetUserSettings_def CreateStar_def star_key_def
      Unstar_def unstar_in_tx_def DeleteStar_def CancelUserConferenceReminders_def cancelled_def
      run_eval conference_eval reminder_eval sample_defs)

theorem star_again_plans_nothing_witness:
  "\<exists>c0 c1 c2. Star sample_env 1 2 sample_conn = (Inr (), c0) \<and> Unstar 1 2 c0 = (Inr (), c1)
    \<and> Star sample_env 1 2 c1 = (Inr (), c2)
    \<and> \<not> (\<exists>r \<in> set (reminders (c_com c2)). rStatus r = Pending \<and> rUserID r = 1 \<and> rConferenceID r = 2)"
proof -
  obtain c0 c1 c2 where run: "Star sample_env 1 2 sample_conn = (Inr (), c0)" "Unstar 1 2 c0 = (Inr (), c1)"
      "Star sample_env 1 2 c1 = (Inr (), c2)"
    using sample_star_unstar_star by (metis prod.collapse)
  have "c_tx sample_conn = None" by (simp add: sample_conn_def)
  from out_postD [OF Star_post this run(1)] have n0: "c_tx c0 = None"
      and st: "starred_from sample_env 1 2 sample_conference sample_settings sample_db (c_com c0)"
    by (auto simp: sample_conn_def sample_db_def sample_settings_def sample_conference_def split: if_splits)
  have "find (\<lambda>x. cID x = 2) (conferences (c_com c0)) = Some sample_conference"
      "find (\<lambda>s. usUserID s = 1) (user_settings (c_com c0)) = Some sample_settings"
    using starred_fromD(1,2) [OF st] by (simp_all add: sample_defs)
  from star_again_plans_nothing [OF run(2,3) n0 this starred_fromD(4) [OF st]] run show ?thesis by blast
qed

end
