(* ===== verification/Settings.thy ===== *)
theory Settings
  imports Stars "HOL-Library.Multiset"
begin

text \<open>
  The settings service (\<^verbatim>\<open>service/settings.go\<close>): validation of a user's preferences, and
  the update, which plans the user's pending reminders anew in the same transaction. The lemmas
  show that valid settings pass the CHECK constraints and are read back as they were given, and
  that the pending reminders of every starred conference follow the new settings.
\<close>

definition toAPISettings :: "user_setting \<Rightarrow> UserSettings" where
  "toAPISettings row = \<lparr>
     seTimezone = usTimezone row, seReminderLeadDays = usReminderLeadDays row,
     seWeeklyDigestEnabled = usWeeklyDigestEnabled row, seWeeklyDigestDay = usWeeklyDigestDay row,
     seWeeklyDigestHour = usWeeklyDigestHour row,
     seWeeklyDigestHorizonWeeks = usWeeklyDigestHorizonWeeks row\<rparr>"

definition validateSettings :: "env \<Rightarrow> UserSettingsInput \<Rightarrow> err option" where
  "validateSettings env i =
     (if e_loc env (seTimezone i) = None
      then Some (ValidationError ''timezone'' ''must be a valid IANA timezone name'')
      else if 10 < length (seReminderLeadDays i)
      then Some (ValidationError ''reminder_lead_days'' ''at most 10 entries allowed'')
      else if list_ex (\<lambda>d. d < 0 \<or> 365 < d) (seReminderLeadDays i)
      then Some (ValidationError ''reminder_lead_days'' ''each value must be between 0 and 365'')
      else if seWeeklyDigestDay i < 0 \<or> 6 < seWeeklyDigestDay i
      then Some (ValidationError ''weekly_digest_day'' ''must be between 0 and 6'')
      else if seWeeklyDigestHour i < 0 \<or> 23 < seWeeklyDigestHour i
      then Some (ValidationError ''weekly_digest_hour'' ''must be between 0 and 23'')
      else if seWeeklyDigestHorizonWeeks i < 1 \<or> 52 < seWeeklyDigestHorizonWeeks i
      then Some (ValidationError ''weekly_digest_horizon_weeks'' ''must be between 1 and 52'')
      else None)"

definition Get_settings :: "uuid \<Rightarrow> 'm conn_scheme \<Rightarrow> (err + UserSettings) \<times> 'm conn_scheme" where
  "Get_settings userID =
     andthen (on_err (Wrapf ''get user settings'' \<circ> Pg) (exec Pool (GetUserSettings userID)))
       (\<lambda>row. ret (toAPISettings row))"

definition settings_params :: "uuid \<Rightarrow> UserSettingsInput \<Rightarrow> UpdateUserSettingsParams" where
  "settings_params userID i = \<lparr>
     upTimezone = seTimezone i, upReminderLeadDays = map int32_of (seReminderLeadDays i),
     upWeeklyDigestEnabled = seWeeklyDigestEnabled i,
     upWeeklyDigestDay = int16_of (seWeeklyDigestDay i),
     upWeeklyDigestHour = int16_of (seWeeklyDigestHour i),
     upWeeklyDigestHorizonWeeks = int16_of (seWeeklyDigestHorizonWeeks i), upUserID = userID\<rparr>"

definition replan_starred ::
  "env \<Rightarrow> uuid \<Rightarrow> user_setting \<Rightarrow> conference \<Rightarrow> 'm conn_scheme \<Rightarrow> (err + unit) \<times> 'm conn_scheme" where
  "replan_starred env userID row conf =
     andthen (on_err (Wrapf ''delete pending reminders'' \<circ> Pg)
       (exec Tx (DeleteUserConferencePendingReminders userID (cID conf)))) (\<lambda>_.
     materializeReminders env Tx userID (cID conf) (usTimezone row) (usReminderLeadDays row)
       (conferenceDeadlines conf))"

definition settings_in_tx ::
  "env \<Rightarrow> uuid \<Rightarrow> UserSettingsInput \<Rightarrow> 'm conn_scheme \<Rightarrow> (err + UserSettings) \<times> 'm conn_scheme" where
  "settings_in_tx env userID i =
     andthen (on_err (Wrapf ''update user settings'' \<circ> Pg)
       (exec Tx (UpdateUserSettings (settings_params userID i)))) (\<lambda>row.
     andthen (on_err (Wrapf ''list starred'' \<circ> Pg)
       (exec Tx (ListUserStarredConferences env userID))) (\<lambda>starred.
     andthen (for_each (replan_starred env userID row) starred) (\<lambda>_.
     ret (toAPISettings row))))"

definition Update_settings ::
  "env \<Rightarrow> uuid \<Rightarrow> UserSettingsInput \<Rightarrow> 'm conn_scheme \<Rightarrow> (err + UserSettings) \<times> 'm conn_scheme" where
  "Update_settings env userID i = checked (validateSettings env i)
     (in_tx (Wrapf ''begin tx'' \<circ> Pg) (Wrapf ''commit'' \<circ> Pg) (settings_in_tx env userID i))"

subsection \<open>What the operations keep\<close>

locale settings_writes = evolution R for R :: "db \<Rightarrow> db \<Rightarrow> bool" +
  assumes step_settings: "sql_step R (UpdateUserSettings p)"
    and step_replan: "sql_step R (DeleteUserConferencePendingReminders u i)"
    and step_plan: "sql_step R (InsertReminderRow rp)"
begin

lemma body_settings: "tx_evolves R (settings_in_tx env u i)"
  unfolding settings_in_tx_def replan_starred_def materializeReminders_def
  by (intro tx_rules tx_exec step_settings step_replan step_plan step_of_reads conference_reads_only)

lemma keeps_Update_settings: "evolves R (Update_settings env u i)"
  unfolding Update_settings_def checked_def
  by (cases "validateSettings env i") (simp_all add: out_in_tx body_settings out_fail)

end

interpretation wf_settings: settings_writes "wf_step env" for env
  by unfold_locales (rule keeps_intros)+

interpretation hist_settings: settings_writes keeps_history
  by unfold_locales (rule keeps_intros)+

interpretation any_settings: settings_writes "\<lambda>_ _. True"
  by unfold_locales (simp_all add: sql_step_def)

subsection \<open>Valid settings\<close>

lemma validateSettings_None:
  "validateSettings env i = None \<longleftrightarrow> e_loc env (seTimezone i) \<noteq> None
     \<and> length (seReminderLeadDays i) \<le> 10 \<and> (\<forall>d \<in> set (seReminderLeadDays i). 0 \<le> d \<and> d \<le> 365)
     \<and> 0 \<le> seWeeklyDigestDay i \<and> seWeeklyDigestDay i \<le> 6
     \<and> 0 \<le> seWeeklyDigestHour i \<and> seWeeklyDigestHour i \<le> 23
     \<and> 1 \<le> seWeeklyDigestHorizonWeeks i \<and> seWeeklyDigestHorizonWeeks i \<le> 52"
proof -
  have "list_ex (\<lambda>d. d < 0 \<or> 365 < d) xs \<longleftrightarrow> \<not> (\<forall>d \<in> set xs. 0 \<le> d \<and> d \<le> 365)" for xs :: "int list"
    by (induction xs) auto
  then show ?thesis by (simp add: validateSettings_def not_less)
qed

lemma narrowed_settings:
  assumes "validateSettings env i = None"
  shows "settings_params u i = \<lparr>
     upTimezone = seTimezone i, upReminderLeadDays = seReminderLeadDays i,
     upWeeklyDigestEnabled = seWeeklyDigestEnabled i, upWeeklyDigestDay = seWeeklyDigestDay i,
     upWeeklyDigestHour = seWeeklyDigestHour i,
     upWeeklyDigestHorizonWeeks = seWeeklyDigestHorizonWeeks i, upUserID = u\<rparr>"
proof -
  note v = assms [unfolded validateSettings_None]
  have "map int32_of (seReminderLeadDays i) = seReminderLeadDays i"
    using v by (intro map_idI) (auto intro!: int32_of_id)
  moreover have "int16_of (seWeeklyDigestDay i) = seWeeklyDigestDay i"
    "int16_of (seWeeklyDigestHour i) = seWeeklyDigestHour i"
    "int16_of (seWeeklyDigestHorizonWeeks i) = seWeeklyDigestHorizonWeeks i"
    using v by (auto intro!: int16_of_id)
  ultimately show ?thesis by (simp add: settings_params_def)
qed

subsection \<open>Planning anew for the starred conferences\<close>

text \<open>The pending reminders of a user for a conference follow the settings.\<close>

definition follows :: "env \<Rightarrow> uuid \<Rightarrow> user_setting \<Rightarrow> db \<Rightarrow> conference \<Rightarrow> bool" where
  "follows env u us d c \<longleftrightarrow>
     (\<forall>r \<in> set (reminders d). rStatus r = Pending \<longrightarrow> rUserID r = u \<longrightarrow> rConferenceID r = cID c \<longrightarrow>
        planned (LoadLocation_or_UTC env (usTimezone us)) u (cID c) (usReminderLeadDays us) (conferenceDeadlines c) r)
     \<and> star_keys u (cID c) c us \<subseteq> reminder_keys d"

definition other_reminders :: "uuid \<Rightarrow> uuid \<Rightarrow> db \<Rightarrow> reminder list" where
  "other_reminders u i d = filter (\<lambda>r. \<not> (rUserID r = u \<and> rConferenceID r = i)) (reminders d)"

lemma replan_starred_post:
  "tx_post (replan_starred env u us c) d (\<lambda>_ d'. follows env u us d' c \<and> (\<exists>rs. d' = d\<lparr>reminders := rs\<rparr>)
     \<and> other_reminders u (cID c) d' = other_reminders u (cID c) d)"
  unfolding replan_starred_def
proof (intro tx_post_andthen tx_post_on_err tx_post_exec)
  fix x a d1
  assume "DeleteUserConferencePendingReminders u (cID c) x d = Inr (a, d1)"
  then have d1: "d1 = d\<lparr>reminders := delete_where
      (\<lambda>r. rStatus r = Pending \<and> rUserID r = u \<and> rConferenceID r = cID c) (reminders d)\<rparr>"
    by (simp add: DeleteUserConferencePendingReminders_def)
  have other1: "other_reminders u (cID c) d1 = other_reminders u (cID c) d"
    unfolding d1 other_reminders_def by (simp, rule filter_delete_where_other) auto
  show "tx_post (materializeReminders env Tx u (cID c) (usTimezone us) (usReminderLeadDays us)
      (conferenceDeadlines c)) d1 (\<lambda>_ d'. follows env u us d' c \<and> (\<exists>rs. d' = d\<lparr>reminders := rs\<rparr>)
        \<and> other_reminders u (cID c) d' = other_reminders u (cID c) d)"
  proof (rule tx_post_also [OF materializeReminders_covers materializeReminders_adds], intro conjI)
    fix b d'
    assume cov: "\<forall>e \<in> set (conferenceDeadlines c). \<forall>l \<in> set (usReminderLeadDays us).
        (u, cID c, deKind e, l) \<in> set (map reminder_key (reminders d'))"
      and adds: "adds_reminders (planned (LoadLocation_or_UTC env (usTimezone us)) u (cID c)
        (usReminderLeadDays us) (conferenceDeadlines c)) d1 d'"
    from adds obtain rs where rs: "d' = d1\<lparr>reminders := reminders d1 @ rs\<rparr>"
        "\<forall>r \<in> set rs. planned (LoadLocation_or_UTC env (usTimezone us)) u (cID c)
          (usReminderLeadDays us) (conferenceDeadlines c) r"
      by (auto simp: adds_reminders_def)
    have "star_keys u (cID c) c us \<subseteq> reminder_keys d'"
      using cov by (auto simp: star_keys_def reminder_keys_def)
    then show "follows env u us d' c" using rs by (auto simp: follows_def d1)
    show "\<exists>rs. d' = d\<lparr>reminders := rs\<rparr>" using rs d1 by auto
    have "filter (\<lambda>r. \<not> (rUserID r = u \<and> rConferenceID r = cID c)) rs = []"
      using rs(2) by (auto simp: filter_empty_conv planned_def)
    then show "other_reminders u (cID c) d' = other_reminders u (cID c) d"
      using other1 rs(1) by (simp add: other_reminders_def)
  qed
qed

lemma follows_transfer:
  assumes "follows env u us d c"
    and mem: "\<And>r. rConferenceID r = cID c \<Longrightarrow> r \<in> set (reminders d') \<longleftrightarrow> r \<in> set (reminders d)"
  shows "follows env u us d' c"
proof -
  have "star_keys u (cID c) c us \<subseteq> reminder_keys d'"
  proof
    fix k assume k: "k \<in> star_keys u (cID c) c us"
    then obtain r where "r \<in> set (reminders d)" "k = reminder_key r"
      using assms(1) by (auto simp: follows_def reminder_keys_def)
    moreover from this k have "rConferenceID r = cID c" by (auto simp: star_keys_def reminder_key_def)
    ultimately show "k \<in> reminder_keys d'" using mem by (auto simp: reminder_keys_def)
  qed
  then show ?thesis using assms(1) mem by (auto simp: follows_def)
qed

lemma replan_all_post:
  assumes "distinct (map cID cs)"
  shows "tx_post (for_each (replan_starred env u us) cs :: 'm conn_scheme \<Rightarrow> _) d (\<lambda>_ d'. (\<forall>c \<in> set cs. follows env u us d' c)
    \<and> (\<exists>rs. d' = d\<lparr>reminders := rs\<rparr>)
    \<and> (\<forall>r. rUserID r \<noteq> u \<or> rConferenceID r \<notin> set (map cID cs) \<longrightarrow>
         (r \<in> set (reminders d') \<longleftrightarrow> r \<in> set (reminders d))))"
  using assms
proof (induction cs arbitrary: d)
  case Nil
  then show ?case by (auto intro!: tx_post_ret exI [of _ "reminders d"])
next
  case (Cons c cs)
  have dist: "distinct (map cID cs)" using Cons.prems by simp
  have rest: "tx_post (for_each (replan_starred env u us) cs :: 'm conn_scheme \<Rightarrow> _) d1 (\<lambda>_ d'. (\<forall>c \<in> set (c # cs). follows env u us d' c)
      \<and> (\<exists>rs. d' = d\<lparr>reminders := rs\<rparr>)
      \<and> (\<forall>r. rUserID r \<noteq> u \<or> rConferenceID r \<notin> set (map cID (c # cs)) \<longrightarrow>
           (r \<in> set (reminders d') \<longleftrightarrow> r \<in> set (reminders d))))"
    if d1: "follows env u us d1 c" "\<exists>rs. d1 = d\<lparr>reminders := rs\<rparr>"
      "other_reminders u (cID c) d1 = other_reminders u (cID c) d" for d1
  proof (rule tx_post_mono [OF Cons.IH [OF dist]], elim conjE, intro conjI)
    fix a d'
    assume fol: "\<forall>c \<in> set cs. follows env u us d' c" and upd: "\<exists>rs. d' = d1\<lparr>reminders := rs\<rparr>"
      and oth: "\<forall>r. rUserID r \<noteq> u \<or> rConferenceID r \<notin> set (map cID cs) \<longrightarrow>
         (r \<in> set (reminders d') \<longleftrightarrow> r \<in> set (reminders d1))"
    have mem1: "r \<in> set (reminders d1) \<longleftrightarrow> r \<in> set (reminders d)" if "rUserID r \<noteq> u \<or> rConferenceID r \<noteq> cID c" for r
    proof -
      have "r \<in> set (other_reminders u (cID c) d1) \<longleftrightarrow> r \<in> set (other_reminders u (cID c) d)" by (simp add: d1(3))
      then show ?thesis using that by (auto simp: other_reminders_def)
    qed
    have "follows env u us d' c"
      by (rule follows_transfer [OF d1(1)]) (use oth Cons.prems in auto)
    then show "\<forall>c \<in> set (c # cs). follows env u us d' c" using fol by simp
    show "\<exists>rs. d' = d\<lparr>reminders := rs\<rparr>" using upd d1(2) by auto
    show "\<forall>r. rUserID r \<noteq> u \<or> rConferenceID r \<notin> set (map cID (c # cs)) \<longrightarrow>
         (r \<in> set (reminders d') \<longleftrightarrow> r \<in> set (reminders d))"
      using oth mem1 by auto
  qed
  show ?case
    by (simp only: for_each.simps, rule tx_post_bind [OF replan_starred_post]) (elim conjE, rule rest)
qed

lemma settings_in_tx_post:
  assumes wf: "wf_db env d" and v: "validateSettings env i = None"
  shows "tx_post (settings_in_tx env u i) d (\<lambda>a d'. a = i \<and> (\<exists>us. us \<in> set (user_settings d') \<and> usUserID us = u
    \<and> toAPISettings us = i \<and> (\<forall>c \<in> set (conferences d'). (u, cID c) \<in> set (map star_key (stars d')) \<longrightarrow> follows env u us d' c))
    \<and> conferences d' = conferences d \<and> stars d' = stars d)"
  unfolding settings_in_tx_def
proof (intro tx_post_andthen tx_post_on_err tx_post_exec)
  fix x row d1 y starred d2
  assume upd: "UpdateUserSettings (settings_params u i) x d = Inr (row, d1)"
    and sel: "ListUserStarredConferences env u y d1 = Inr (starred, d2)"
  have row: "usUserID row = u" "toAPISettings row = i" "row \<in> set (user_settings d1)"
      "conferences d1 = conferences d" "stars d1 = stars d"
    using upd unfolding narrowed_settings [OF v]
    by (auto simp: UpdateUserSettings_def with_texts_def Let_def toAPISettings_def in_update_where_iff
        split: if_splits option.splits dest!: find_Some_iff_mem)
  have d2: "d2 = d1" and starred: "set starred = {c \<in> set (conferences d). (u, cID c) \<in> set (map star_key (stars d))}"
    using sel row by (auto simp: ListUserStarredConferences_def rows_Inr_iff)
  have "distinct (map cID (conferences d))"
    using wf_dbD(2) [OF wf] by (simp add: conferences_ok_def conf_ids_def)
  moreover have "mset (map cID starred) \<subseteq># mset (map cID (conferences d))"
    using sel row(4) by (auto simp: ListUserStarredConferences_def rows_Inr_iff multiset_filter_subset image_mset_subseteq_mono)
  ultimately have dist: "distinct (map cID starred)"
    by (metis mset_subset_eq_exists_conv distinct_append mset_append ex_mset mset_eq_imp_distinct_iff)
  show "tx_post (for_each (replan_starred env u row) starred) d2
      (\<lambda>_ w. tx_post (ret (toAPISettings row)) w (\<lambda>a d'. a = i \<and> (\<exists>us. us \<in> set (user_settings d') \<and> usUserID us = u
    \<and> toAPISettings us = i \<and> (\<forall>c \<in> set (conferences d'). (u, cID c) \<in> set (map star_key (stars d')) \<longrightarrow> follows env u us d' c))
    \<and> conferences d' = conferences d \<and> stars d' = stars d))"
    unfolding d2
    by (rule tx_post_mono [OF replan_all_post [OF dist]], rule tx_post_ret)
      (use row starred in \<open>auto intro!: exI [of _ row]\<close>)
qed

subsection \<open>Properties\<close>

text \<open>
  C39: Settings that pass the validation pass every CHECK constraint of the table once they are
  narrowed to the 16 and 32 bits of its columns, and the narrowing changes none of them: the row
  they make reads back as the settings that were given.
\<close>

theorem valid_settings_pass_checks:
  assumes "validateSettings env i = None"
    and "row = \<lparr>usUserID = u, usTimezone = upTimezone (settings_params u i),
     usReminderLeadDays = upReminderLeadDays (settings_params u i),
     usWeeklyDigestEnabled = upWeeklyDigestEnabled (settings_params u i),
     usWeeklyDigestDay = upWeeklyDigestDay (settings_params u i),
     usWeeklyDigestHour = upWeeklyDigestHour (settings_params u i),
     usWeeklyDigestHorizonWeeks = upWeeklyDigestHorizonWeeks (settings_params u i), usUpdatedAt = t\<rparr>"
  shows "settings_check row = None \<and> toAPISettings row = i"
proof
  show "settings_check row = None"
    using assms(1) unfolding assms(2) narrowed_settings [OF assms(1)] validateSettings_None
    by (auto simp: settings_check_def list_all_iff)
  show "toAPISettings row = i"
    unfolding assms(2) narrowed_settings [OF assms(1)] by (simp add: toAPISettings_def)
qed

definition sample_settings_input :: UserSettingsInput where
  "sample_settings_input = \<lparr>seTimezone = ''UTC'', seReminderLeadDays = [14, 0], seWeeklyDigestEnabled = False,
     seWeeklyDigestDay = 2, seWeeklyDigestHour = 9, seWeeklyDigestHorizonWeeks = 8\<rparr>"

lemma sample_settings_valid: "validateSettings sample_env sample_settings_input = None"
  by (simp add: validateSettings_None sample_settings_input_def sample_env_def)

theorem valid_settings_pass_checks_witness:
  "settings_check \<lparr>usUserID = 1, usTimezone = ''UTC'', usReminderLeadDays = [14, 0],
     usWeeklyDigestEnabled = False, usWeeklyDigestDay = 2, usWeeklyDigestHour = 9,
     usWeeklyDigestHorizonWeeks = 8, usUpdatedAt = 0\<rparr> = None"
  using valid_settings_pass_checks [OF sample_settings_valid refl, of 1 0]
  unfolding narrowed_settings [OF sample_settings_valid] by (simp add: sample_settings_input_def)

text \<open>
  C13: An update of the settings returns and stores what was given; afterwards the pending
  reminders of every conference the user has starred are at the times the new settings give, and
  none they ask for is missing; stars and conferences stay.
\<close>

theorem update_settings_correct:
  assumes "Update_settings env u i c = (Inr a, c')" and "c_tx c = None" and "wf_db env (c_com c)"
  shows "a = i \<and> (\<exists>us. us \<in> set (user_settings (c_com c')) \<and> usUserID us = u \<and> toAPISettings us = i
    \<and> (\<forall>x \<in> set (conferences (c_com c')). (u, cID x) \<in> set (map star_key (stars (c_com c'))) \<longrightarrow> follows env u us (c_com c') x))
    \<and> conferences (c_com c') = conferences (c_com c) \<and> stars (c_com c') = stars (c_com c)"
proof -
  have v: "validateSettings env i = None"
    and run: "in_tx (Wrapf ''begin tx'' \<circ> Pg) (Wrapf ''commit'' \<circ> Pg) (settings_in_tx env u i) c = (Inr a, c')"
    using assms(1) by (auto simp: Update_settings_def checked_def split: option.splits)
  from out_postD [OF out_post_in_tx [OF settings_in_tx_post [OF assms(3) v]] assms(2) run]
  show ?thesis by blast
qed

lemma sample_update_settings: "\<exists>a c'. Update_settings sample_env 1 sample_settings_input sample_conn = (Inr a, c')"
  unfolding Update_settings_def sample_settings_valid checked_def option.case settings_in_tx_def
    narrowed_settings [OF sample_settings_valid]
  by (simp add: UpdateUserSettings_def ListUserStarredConferences_def replan_starred_def star_key_def
      DeleteUserConferencePendingReminders_def settings_check_def sample_settings_input_def
      run_eval conference_eval reminder_eval sample_defs)

theorem update_settings_correct_witness:
  "\<exists>a c' us. Update_settings sample_env 1 sample_settings_input sample_conn = (Inr a, c')
     \<and> toAPISettings us = sample_settings_input \<and> follows sample_env 1 us (c_com c') sample_conference"
proof -
  obtain a c' where run: "Update_settings sample_env 1 sample_settings_input sample_conn = (Inr a, c')"
    using sample_update_settings by blast
  have "c_tx sample_conn = None" "wf_db sample_env (c_com sample_conn)"
    using sample_wf by (simp_all add: sample_conn_def)
  from update_settings_correct [OF run this] obtain us where us: "toAPISettings us = sample_settings_input"
      "\<forall>x \<in> set (conferences (c_com c')). (1, cID x) \<in> set (map star_key (stars (c_com c'))) \<longrightarrow>
         follows sample_env 1 us (c_com c') x"
      and same: "conferences (c_com c') = [sample_conference]"
        "map star_key (stars (c_com c')) = [(1, cID sample_conference)]"
    by (auto simp: sample_conn_def sample_db_def star_key_def sample_conference_def)
  from us(2) have "follows sample_env 1 us (c_com c') sample_conference" unfolding same by simp
  with run us(1) show ?thesis by blast
qed

end
