(* ===== verification/Calendar_Tokens.thy ===== *)
theory Calendar_Tokens
  imports Samples
begin

text \<open>
  Calendar tokens (\<^verbatim>\<open>service/calendar.go\<close>): the secret in the address of a personal
  feed. Creating one revokes the one before in the same transaction. The random bytes are an
  argument. The lemmas show that distinct bytes give distinct tokens over a URL-safe alphabet,
  and which tokens are active after each operation.
\<close>

definition calendarTokenKind :: string where
  "calendarTokenKind = ''personal_starred''"

subsection \<open>Base64\<close>

definition b64_alphabet :: string where
  "b64_alphabet = ''ABCDEFGHIJKLMNOPQRSTUVWXYZabcdefghijklmnopqrstuvwxyz0123456789-_''"

definition b64_digit :: "nat \<Rightarrow> char" where
  "b64_digit i = b64_alphabet ! i"

text \<open>\<^verbatim>\<open>base64.RawURLEncoding.EncodeToString\<close>\<close>

fun b64_encode :: "nat list \<Rightarrow> string" where
  "b64_encode (a # b # c # r) =
     b64_digit (a div 4) # b64_digit (a mod 4 * 16 + b div 16)
       # b64_digit (b mod 16 * 4 + c div 64) # b64_digit (c mod 64) # b64_encode r"
| "b64_encode [a, b] =
     [b64_digit (a div 4), b64_digit (a mod 4 * 16 + b div 16), b64_digit (b mod 16 * 4)]"
| "b64_encode [a] = [b64_digit (a div 4), b64_digit (a mod 4 * 16)]"
| "b64_encode [] = []"

definition generateToken :: "err + nat list \<Rightarrow> err + string" where
  "generateToken random = (case random of Inl e \<Rightarrow> Inl e | Inr b \<Rightarrow> Inr (b64_encode b))"

subsection \<open>The service\<close>

definition token_toAPI :: "string \<Rightarrow> calendar_token \<Rightarrow> CalendarToken" where
  "token_toAPI publicBaseURL r = \<lparr>
     ctId = kID r, ctKind = ''personal_starred'', ctToken = kToken r,
     ctFeedUrl = publicBaseURL @ ''/calendar/u/'' @ kToken r @ ''.ics'',
     ctCreatedAt = kCreatedAt r, ctLastUsedAt = kLastUsedAt r\<rparr>"

definition List_tokens :: "string \<Rightarrow> uuid \<Rightarrow> 'm conn_scheme \<Rightarrow> (err + CalendarToken list) \<times> 'm conn_scheme" where
  "List_tokens url userID =
     andthen (on_err (Wrapf ''list calendar tokens'' \<circ> Pg) (exec Pool (ListCalendarTokensByUser userID)))
       (\<lambda>rs. ret (map (token_toAPI url) rs))"

definition token_in_tx :: "uuid \<Rightarrow> string \<Rightarrow> 'm conn_scheme \<Rightarrow> (err + calendar_token) \<times> 'm conn_scheme" where
  "token_in_tx userID rawToken =
     andthen (on_err (Wrapf ''revoke existing tokens'' \<circ> Pg)
       (exec Tx (RevokeCalendarTokensByUser userID calendarTokenKind))) (\<lambda>_.
     on_err (Wrapf ''create calendar token'' \<circ> Pg)
       (exec Tx (CreateCalendarToken userID rawToken calendarTokenKind)))"

definition Create_token ::
  "string \<Rightarrow> err + nat list \<Rightarrow> uuid \<Rightarrow> 'm conn_scheme \<Rightarrow> (err + CalendarToken) \<times> 'm conn_scheme" where
  "Create_token url random userID =
     (case generateToken random of
        Inl e \<Rightarrow> fail (Wrapf ''generate token'' e)
      | Inr rawToken \<Rightarrow>
          andthen (in_tx (Wrapf ''begin tx'' \<circ> Pg) (Wrapf ''commit'' \<circ> Pg) (token_in_tx userID rawToken))
            (\<lambda>row. ret (token_toAPI url row)))"

definition Delete_token :: "uuid \<Rightarrow> 'm conn_scheme \<Rightarrow> (err + unit) \<times> 'm conn_scheme" where
  "Delete_token userID =
     andthen (on_err (Wrapf ''list tokens'' \<circ> Pg) (exec Pool (ListCalendarTokensByUser userID))) (\<lambda>ts.
     if ts = [] then fail ErrNotFound
     else on_err Pg (exec Pool (RevokeCalendarTokensByUser userID calendarTokenKind)))"

text \<open>\<^verbatim>\<open>Builder.LookupToken\<close> of \<^verbatim>\<open>calendar/feeds.go\<close>\<close>

definition LookupToken :: "string \<Rightarrow> 'm conn_scheme \<Rightarrow> (err + uuid) \<times> 'm conn_scheme" where
  "LookupToken token =
     andthen (on_err (\<lambda>_. ErrTokenNotFound) (exec Pool (GetCalendarTokenByValue token)))
       (\<lambda>row. ret (kUserID row))"

subsection \<open>What the operations keep\<close>

locale token_writes = evolution R for R :: "db \<Rightarrow> db \<Rightarrow> bool" +
  assumes step_revoke: "sql_step R (RevokeCalendarTokensByUser u k)"
    and step_token: "sql_step R (CreateCalendarToken u t k)"
    and step_touch: "sql_step R (GetCalendarTokenByValue t)"
begin

lemma body_token: "tx_evolves R (token_in_tx u t)"
  unfolding token_in_tx_def by (intro tx_rules tx_exec step_revoke step_token)

lemma keeps_Create_token: "evolves R (Create_token url random u)"
  unfolding Create_token_def
  by (cases "generateToken random") (simp_all add: out_fail out_andthen out_in_tx body_token out_ret)

lemma keeps_Delete_token: "evolves R (Delete_token u)"
proof -
  have "evolves R (if ts = [] then fail ErrNotFound
      else on_err Pg (exec Pool (RevokeCalendarTokensByUser u calendarTokenKind)))" for ts :: "calendar_token list"
    by (simp add: out_fail out_on_err out_exec step_revoke)
  then show ?thesis
    unfolding Delete_token_def
    by (intro out_andthen out_on_err out_exec step_of_reads user_reads_only)
qed

lemma keeps_LookupToken: "evolves R (LookupToken t)"
  unfolding LookupToken_def by (intro out_rules out_exec step_touch)

end

interpretation wf_token: token_writes "wf_step env" for env
  by unfold_locales (rule keeps_intros)+

interpretation hist_token: token_writes keeps_history
  by unfold_locales (rule keeps_intros)+

subsection \<open>Tokens\<close>

lemma b64_digit_inj: "i < 64 \<Longrightarrow> j < 64 \<Longrightarrow> b64_digit i = b64_digit j \<longleftrightarrow> i = j"
proof -
  have "distinct b64_alphabet" "length b64_alphabet = 64" by (simp_all add: b64_alphabet_def)
  then show "i < 64 \<Longrightarrow> j < 64 \<Longrightarrow> b64_digit i = b64_digit j \<longleftrightarrow> i = j"
    by (simp add: b64_digit_def nth_eq_iff_index_eq)
qed

lemma b64_digit_alphabet: "i < 64 \<Longrightarrow> b64_digit i \<in> set b64_alphabet"
  unfolding b64_digit_def by (rule nth_mem) (simp add: b64_alphabet_def)

lemma b64_lengths: "length (b64_encode bs) = length bs + (length bs + 2) div 3"
  by (induction bs rule: b64_encode.induct) auto

lemma b64_encode_alphabet: "\<forall>b \<in> set bs. b < 256 \<Longrightarrow> set (b64_encode bs) \<subseteq> set b64_alphabet"
proof (induction bs rule: b64_encode.induct)
  case (1 a b c r)
  then have "a div 4 < 64" "a mod 4 * 16 + b div 16 < 64" "b mod 16 * 4 + c div 64 < 64" "c mod 64 < 64"
    by auto
  with 1 show ?case by (simp add: b64_digit_alphabet)
qed (auto intro!: b64_digit_alphabet)

lemma digits_inj:
  fixes x y :: nat
  assumes "x * k + y = x' * k + y'" and "y < k" and "y' < k"
  shows "x = x' \<and> y = y'"
proof -
  have "(x * k + y) div k = (x' * k + y') div k" "(x * k + y) mod k = (x' * k + y') mod k"
    using assms(1) by simp_all
  then show ?thesis using assms(2,3) by simp
qed

lemma div_mod_inj:
  fixes x y :: nat
  shows "x div k = y div k \<Longrightarrow> x mod k = y mod k \<Longrightarrow> x = y"
  by (metis div_mult_mod_eq)

lemma sextet_inj:
  assumes "(b::nat) < 256" and "b' < 256" and "a mod 4 * 16 + b div 16 = a' mod 4 * 16 + b' div 16"
  shows "a mod 4 = a' mod 4 \<and> b div 16 = b' div 16"
  using assms by (intro digits_inj) auto

lemma sextet_inj':
  assumes "(c::nat) < 256" and "c' < 256" and "b mod 16 * 4 + c div 64 = b' mod 16 * 4 + c' div 64"
  shows "b mod 16 = b' mod 16 \<and> c div 64 = c' div 64"
  using assms by (intro digits_inj) auto

lemma b64_encode_inj:
  assumes "\<forall>b \<in> set bs. b < 256" and "\<forall>b \<in> set cs. b < 256" and "length bs = length cs"
    and "b64_encode bs = b64_encode cs"
  shows "bs = cs"
  using assms
proof (induction bs arbitrary: cs rule: b64_encode.induct)
  case (1 a b c r)
  then obtain a' b' c' r' where cs: "cs = a' # b' # c' # r'"
    by (metis length_Suc_conv)
  have lt: "a < 256" "b < 256" "c < 256" "a' < 256" "b' < 256" "c' < 256" using 1(2,3) by (simp_all add: cs)
  then have "a div 4 < 64" "a mod 4 * 16 + b div 16 < 64" "b mod 16 * 4 + c div 64 < 64" "c mod 64 < 64"
      "a' div 4 < 64" "a' mod 4 * 16 + b' div 16 < 64" "b' mod 16 * 4 + c' div 64 < 64" "c' mod 64 < 64"
    by auto
  then have a: "a div 4 = a' div 4" and ab: "a mod 4 * 16 + b div 16 = a' mod 4 * 16 + b' div 16"
      and bc: "b mod 16 * 4 + c div 64 = b' mod 16 * 4 + c' div 64" and c: "c mod 64 = c' mod 64"
    using 1(5) by (simp_all only: cs b64_encode.simps list.inject b64_digit_inj)
  have "a = a'" using a sextet_inj [OF lt(2,5) ab] by (blast intro: div_mod_inj)
  moreover have "b = b'"
    using sextet_inj [OF lt(2,5) ab] sextet_inj' [OF lt(3,6) bc] by (blast intro: div_mod_inj)
  moreover have "c = c'" using c sextet_inj' [OF lt(3,6) bc] by (blast intro: div_mod_inj)
  moreover have "r = r'" using 1 by (simp add: cs)
  ultimately show ?case by (simp add: cs)
next
  case (2 a b)
  then obtain a' b' where cs: "cs = [a', b']" by (metis length_0_conv length_Suc_conv)
  have lt: "a < 256" "b < 256" "a' < 256" "b' < 256" using 2(1,2) by (simp_all add: cs)
  then have "a div 4 < 64" "a mod 4 * 16 + b div 16 < 64" "b mod 16 * 4 < 64"
      "a' div 4 < 64" "a' mod 4 * 16 + b' div 16 < 64" "b' mod 16 * 4 < 64"
    by auto
  then have a: "a div 4 = a' div 4" and ab: "a mod 4 * 16 + b div 16 = a' mod 4 * 16 + b' div 16"
      and b: "b mod 16 * 4 = b' mod 16 * 4"
    using 2(4) by (simp_all only: cs b64_encode.simps list.inject b64_digit_inj)
  have "a = a'" using a sextet_inj [OF lt(2,4) ab] by (blast intro: div_mod_inj)
  moreover have "b mod 16 = b' mod 16" using b by simp
  then have "b = b'" using sextet_inj [OF lt(2,4) ab] by (blast intro: div_mod_inj)
  ultimately show ?case by (simp add: cs)
next
  case (3 a)
  then obtain a' where cs: "cs = [a']" by (metis length_0_conv length_Suc_conv)
  have lt: "a < 256" "a' < 256" using 3(1,2) by (simp_all add: cs)
  then have "a div 4 < 64" "a mod 4 * 16 < 64" "a' div 4 < 64" "a' mod 4 * 16 < 64" by auto
  then have "a div 4 = a' div 4" "a mod 4 * 16 = a' mod 4 * 16"
    using 3(4) by (simp_all only: cs b64_encode.simps list.inject b64_digit_inj)
  then have "a div 4 = a' div 4" "a mod 4 = a' mod 4" by simp_all
  then have "a = a'" by (rule div_mod_inj)
  then show ?case by (simp add: cs)
qed simp

subsection \<open>What a successful run leaves behind\<close>

definition tokens_of :: "uuid \<Rightarrow> db \<Rightarrow> calendar_token list" where
  "tokens_of u d = filter (\<lambda>k. kUserID k = u) (active_tokens d)"

definition revoked :: "instant \<Rightarrow> calendar_token \<Rightarrow> calendar_token" where
  "revoked t k = k\<lparr>kRevokedAt := Some t\<rparr>"

definition owns :: "uuid \<Rightarrow> calendar_token \<Rightarrow> bool" where
  "owns u k \<longleftrightarrow> kUserID k = u \<and> kKind k = calendarTokenKind \<and> kRevokedAt k = None"

definition token_issued :: "uuid \<Rightarrow> string \<Rightarrow> calendar_token \<Rightarrow> db \<Rightarrow> db \<Rightarrow> bool" where
  "token_issued u tok k d d' \<longleftrightarrow>
     kUserID k = u \<and> kToken k = tok \<and> kKind k = calendarTokenKind \<and> kRevokedAt k = None
     \<and> tok \<notin> set (map kToken (calendar_tokens d))
     \<and> (\<exists>t. d' = d\<lparr>calendar_tokens := update_where (owns u) (revoked t) (calendar_tokens d) @ [k]\<rparr>)"

lemma token_in_tx_post:
  "tx_post (token_in_tx u tok) d (\<lambda>k d'. token_issued u tok k d d')"
  unfolding token_in_tx_def
proof (intro tx_post_andthen tx_post_on_err tx_post_exec)
  fix x a d1 y k d'
  assume "RevokeCalendarTokensByUser u calendarTokenKind x d = Inr (a, d1)"
    and new: "CreateCalendarToken u tok calendarTokenKind y d1 = Inr (k, d')"
  then have d1: "d1 = d\<lparr>calendar_tokens := update_where (owns u) (revoked (x_now x)) (calendar_tokens d)\<rparr>"
    by (auto simp: RevokeCalendarTokensByUser_def with_texts_Inr_iff owns_def [abs_def] revoked_def [abs_def])
  have "kUserID k = u \<and> kToken k = tok \<and> kKind k = calendarTokenKind \<and> kRevokedAt k = None
      \<and> tok \<notin> set (map kToken (calendar_tokens d1)) \<and> d' = d1\<lparr>calendar_tokens := calendar_tokens d1 @ [k]\<rparr>"
    using new by (auto simp: CreateCalendarToken_def with_texts_Inr_iff Let_def split: if_splits)
  moreover have "map kToken (calendar_tokens d1) = map kToken (calendar_tokens d)"
    unfolding d1 by (simp add: map_update_where_key revoked_def)
  ultimately have "kUserID k = u \<and> kToken k = tok \<and> kKind k = calendarTokenKind \<and> kRevokedAt k = None
      \<and> tok \<notin> set (map kToken (calendar_tokens d)) \<and> d' = d1\<lparr>calendar_tokens := calendar_tokens d1 @ [k]\<rparr>"
    by (simp only:) simp
  then show "token_issued u tok k d d'"
    unfolding token_issued_def d1 by simp blast
qed

lemma Create_token_post:
  "out_post (Create_token url (Inr bs) u) d
     (\<lambda>t d'. \<exists>k. t = token_toAPI url k \<and> token_issued u (b64_encode bs) k d d')"
  unfolding Create_token_def generateToken_def sum.case
  by (intro out_post_andthen out_post_mono [OF out_post_in_tx [OF token_in_tx_post]] out_post_ret) blast

lemma Delete_token_post:
  "out_post (Delete_token u) d (\<lambda>_ d'. (\<exists>k \<in> set (calendar_tokens d). kUserID k = u \<and> kRevokedAt k = None)
     \<and> (\<exists>t. d' = d\<lparr>calendar_tokens := update_where (owns u) (revoked t) (calendar_tokens d)\<rparr>))"
proof -
  have rev: "out_post (on_err Pg (exec Pool (RevokeCalendarTokensByUser u calendarTokenKind))) d
     (\<lambda>_ d'. \<exists>t. d' = d\<lparr>calendar_tokens := update_where (owns u) (revoked t) (calendar_tokens d)\<rparr>)"
    by (intro out_post_on_err out_post_exec)
      (auto simp: RevokeCalendarTokensByUser_def with_texts_Inr_iff owns_def [abs_def] revoked_def [abs_def])
  show ?thesis
    unfolding Delete_token_def
  proof (intro out_post_andthen out_post_on_err out_post_exec)
    fix x ts d1
    assume "ListCalendarTokensByUser u x d = Inr (ts, d1)"
    then have ts: "ts = sort_key (\<lambda>k. - kCreatedAt k) (filter (\<lambda>k. kUserID k = u \<and> kRevokedAt k = None) (calendar_tokens d))"
        and d1: "d1 = d"
      by (auto simp: ListCalendarTokensByUser_def rows_Inr_iff)
    have some: "ts \<noteq> [] \<Longrightarrow> \<exists>k \<in> set (calendar_tokens d). kUserID k = u \<and> kRevokedAt k = None"
    proof -
      assume "ts \<noteq> []"
      then obtain k where "k \<in> set ts" by (cases ts) auto
      then show ?thesis unfolding ts by auto
    qed
    show "out_post (if ts = [] then fail ErrNotFound
          else on_err Pg (exec Pool (RevokeCalendarTokensByUser u calendarTokenKind))) d1
        (\<lambda>_ d'. (\<exists>k \<in> set (calendar_tokens d). kUserID k = u \<and> kRevokedAt k = None)
          \<and> (\<exists>t. d' = d\<lparr>calendar_tokens := update_where (owns u) (revoked t) (calendar_tokens d)\<rparr>))"
    proof (cases "ts = []")
      case False
      then show ?thesis unfolding d1 using out_post_mono [OF rev] some by (simp add: out_post_def)
    qed (simp add: out_post_fail)
  qed
qed

lemma LookupToken_InrE:
  assumes "LookupToken t c = (Inr v, c')"
  obtains k where "k \<in> set (active_tokens (c_com c))" "kToken k = t" "kUserID k = v"
proof -
  from assms have "\<exists>k \<in> set (active_tokens (c_com c)). kToken k = t \<and> kUserID k = v"
    unfolding LookupToken_def
    by (elim andthen_InrE on_err_InrE exec_Pool_InrE)
      (auto simp: GetCalendarTokenByValue_def with_texts_Inr_iff Let_def active_tokens_def
        split: option.splits dest!: find_Some_iff_mem)
  with that show ?thesis by blast
qed

lemma tokens_of_filter: "tokens_of u d = filter (\<lambda>k. kUserID k = u \<and> kRevokedAt k = None) (calendar_tokens d)"
  by (simp add: tokens_of_def active_tokens_def conj_commute)

lemma active_after_revoke:
  assumes "\<forall>k \<in> set ks. kKind k = calendarTokenKind"
  shows "filter (\<lambda>k. kUserID k = v \<and> kRevokedAt k = None) (update_where (owns u) (revoked t) ks)
    = (if v = u then [] else filter (\<lambda>k. kUserID k = v \<and> kRevokedAt k = None) ks)"
  using assms by (induction ks) (auto simp: owns_def revoked_def)

lemma tokens_ok_kind: "tokens_ok d \<Longrightarrow> \<forall>k \<in> set (calendar_tokens d). kKind k = calendarTokenKind"
  by (simp add: tokens_ok_def calendarTokenKind_def)

lemma tokens_of_issued:
  assumes "token_issued u tok k d d'" and "tokens_ok d"
  shows "tokens_of v d' = (if v = u then [k] else tokens_of v d)"
proof -
  obtain t where d': "d' = d\<lparr>calendar_tokens := update_where (owns u) (revoked t) (calendar_tokens d) @ [k]\<rparr>"
      and k: "kUserID k = u" "kRevokedAt k = None"
    using assms(1) unfolding token_issued_def by blast
  show ?thesis
    unfolding tokens_of_filter d' by (simp add: active_after_revoke [OF tokens_ok_kind [OF assms(2)]] k)
qed

lemma tokens_of_deleted:
  assumes "tokens_ok d"
  shows "tokens_of v (d\<lparr>calendar_tokens := update_where (owns u) (revoked t) (calendar_tokens d)\<rparr>)
    = (if v = u then [] else tokens_of v d)"
  unfolding tokens_of_filter by (simp add: active_after_revoke [OF tokens_ok_kind [OF assms]])

lemma LookupToken_owner:
  assumes "LookupToken t c = (Inr v, c')"
  shows "\<exists>k \<in> set (tokens_of v (c_com c)). kToken k = t"
  using assms by (elim LookupToken_InrE) (auto simp: tokens_of_def)

lemma keys_after_revoke: "map kToken (update_where P (revoked t) ks) = map kToken ks"
  by (rule map_update_where_key) (simp add: revoked_def)

lemma b64_text_ok:
  assumes "\<forall>b \<in> set bs. b < 256"
  shows "text_ok (b64_encode bs)"
proof (rule text_ok_ascii)
  have "\<forall>ch \<in> set b64_alphabet. of_char ch < (128 :: nat) \<and> ch \<noteq> CHR 0x00"
    by (simp add: b64_alphabet_def)
  with b64_encode_alphabet [OF assms] show "is_ascii (b64_encode bs)" "CHR 0x00 \<notin> set (b64_encode bs)"
    by (auto simp: is_ascii_def)
qed

lemma LookupToken_issued:
  assumes iss: "token_issued u tok k d (c_com c)" and ok: "text_ok tok"
    and up: "c_fault c (c_stmts c) = None"
  shows "\<exists>c'. LookupToken tok c = (Inr u, c')"
proof -
  obtain t where ts: "calendar_tokens (c_com c) = update_where (owns u) (revoked t) (calendar_tokens d) @ [k]"
      and k: "kUserID k = u" "kToken k = tok" "kRevokedAt k = None"
      and new: "tok \<notin> set (map kToken (calendar_tokens d))"
    using iss unfolding token_issued_def by auto
  obtain old where old: "find (\<lambda>k. kToken k = tok \<and> kRevokedAt k = None) (calendar_tokens (c_com c)) = Some old"
    using k by (cases "find (\<lambda>k. kToken k = tok \<and> kRevokedAt k = None) (calendar_tokens (c_com c))")
      (auto simp: find_None_iff ts)
  then have "old \<in> set (calendar_tokens (c_com c))" "kToken old = tok"
    by (auto dest: find_Some_iff_mem)
  moreover have "tok \<notin> set (map kToken (update_where (owns u) (revoked t) (calendar_tokens d)))"
    using new by (simp only: keys_after_revoke simp_thms)
  ultimately have "old = k" by (auto simp: ts image_iff)
  then show ?thesis
    using old ok up k
    by (simp add: LookupToken_def run_eval GetCalendarTokenByValue_def with_texts_def texts_ok_def)
qed

lemma kind_text_ok: "text_ok ''personal_starred''"
  by (rule text_ok_ascii) (simp_all add: is_ascii_def)

lemma Delete_token_runs:
  assumes "tokens_of u (c_com c) \<noteq> []" and "\<forall>n. c_fault c n = None"
  shows "\<exists>c'. Delete_token u c = (Inr (), c')"
proof -
  let ?ts = "sort_key (\<lambda>k. - kCreatedAt k) (tokens_of u (c_com c))"
  have ne: "?ts \<noteq> []" using assms(1) by (metis set_empty set_sort)
  have step: "exec Pool (ListCalendarTokensByUser u) c = (Inr ?ts, c\<lparr>c_stmts := Suc (c_stmts c)\<rparr>)"
    using assms(2) by (simp add: run_eval ListCalendarTokensByUser_def rows_def tokens_of_filter)
  show ?thesis
    unfolding Delete_token_def andthen_def on_err_def step
    using ne assms(2) by (simp add: run_eval RevokeCalendarTokensByUser_def with_texts_def texts_ok_def
        calendarTokenKind_def kind_text_ok)
qed

subsection \<open>Properties\<close>

text \<open>
  Thirty-two random bytes give a token of 43 characters, each a letter, a digit, a hyphen or an
  underscore, so that it can stand in a path; and different bytes give different tokens.
\<close>

theorem generated_tokens:
  assumes "length bs = 32" and "\<forall>b \<in> set bs. b < 256" and "length cs = 32" and "\<forall>b \<in> set cs. b < 256"
  shows "(\<exists>t. generateToken (Inr bs) = Inr t \<and> length t = 43 \<and> set t \<subseteq> set b64_alphabet)
    \<and> (generateToken (Inr bs) = generateToken (Inr cs) \<longleftrightarrow> bs = cs)"
  using b64_encode_inj [OF assms(2,4)] b64_encode_alphabet [OF assms(2)] assms(1,3)
  by (auto simp: generateToken_def b64_lengths)

theorem generated_tokens_witness:
  "generateToken (Inr (replicate 32 0)) \<noteq> generateToken (Inr (replicate 31 0 @ [1]))"
  using generated_tokens [of "replicate 32 0" "replicate 31 0 @ [1]"]
  by (simp add: eval_nat_numeral)

text \<open>
  C31: A token that is issued is the only one the user then has, and it opens the user's feed as
  long as the database answers; every other token, the user's earlier ones among them, does not.
  The tokens of the other users stay as they are and no row is removed.
\<close>

theorem create_token_correct:
  assumes run: "Create_token url (Inr bs) u c = (Inr t, c1)" and n: "c_tx c = None"
    and wf: "wf_db env (c_com c)" and bytes: "\<forall>b \<in> set bs. b < 256"
  shows "\<exists>k. tokens_of u (c_com c1) = [k] \<and> kToken k = b64_encode bs \<and> t = token_toAPI url k
      \<and> map kToken (calendar_tokens (c_com c1)) = map kToken (calendar_tokens (c_com c)) @ [kToken k]
      \<and> (c_fault c1 (c_stmts c1) = None \<longrightarrow> (\<exists>c2. LookupToken (ctToken t) c1 = (Inr u, c2)))
      \<and> (\<forall>tok c2. LookupToken tok c1 = (Inr u, c2) \<longrightarrow> tok = ctToken t)
      \<and> (\<forall>v. v \<noteq> u \<longrightarrow> tokens_of v (c_com c1) = tokens_of v (c_com c))"
proof -
  obtain k where t: "t = token_toAPI url k" and iss: "token_issued u (b64_encode bs) k (c_com c) (c_com c1)"
    using out_postD [OF Create_token_post n run] by blast
  have mine: "tokens_of v (c_com c1) = (if v = u then [k] else tokens_of v (c_com c))" for v
    by (rule tokens_of_issued [OF iss wf_dbD(7) [OF wf]])
  have tok: "kToken k = b64_encode bs" "ctToken t = b64_encode bs"
    using iss by (simp_all add: token_issued_def t token_toAPI_def)
  have "map kToken (calendar_tokens (c_com c1)) = map kToken (calendar_tokens (c_com c)) @ [kToken k]"
    using iss by (auto simp: token_issued_def keys_after_revoke)
  moreover have "\<exists>c2. LookupToken (ctToken t) c1 = (Inr u, c2)" if "c_fault c1 (c_stmts c1) = None"
    unfolding tok by (rule LookupToken_issued [OF iss b64_text_ok [OF bytes] that])
  moreover have "x = ctToken t" if "LookupToken x c1 = (Inr u, c2)" for x c2
    using LookupToken_owner [OF that] mine tok by auto
  ultimately show ?thesis using mine t tok by auto
qed

lemma sample_create_token:
  "\<exists>t c1. Create_token ''u'' (Inr [0]) 1 sample_conn = (Inr t, c1) \<and> c_fault c1 = (\<lambda>_. None)
     \<and> tokens_of 1 (c_com c1) \<noteq> []"
  by (simp add: Create_token_def generateToken_def token_in_tx_def RevokeCalendarTokensByUser_def
      CreateCalendarToken_def active_tokens_def user_ids_def run_eval conference_eval sample_defs
      calendarTokenKind_def tokens_of_filter kind_text_ok b64_text_ok [of "[0]", simplified])

theorem create_token_correct_witness:
  "\<exists>t c1. Create_token ''u'' (Inr [0]) 1 sample_conn = (Inr t, c1)
     \<and> (\<forall>tok c2. LookupToken tok c1 = (Inr 1, c2) \<longrightarrow> tok = ctToken t)"
proof -
  obtain t c1 where run: "Create_token ''u'' (Inr [0]) 1 sample_conn = (Inr t, c1)"
    using sample_create_token by blast
  have "c_tx sample_conn = None" "wf_db sample_env (c_com sample_conn)" "\<forall>b \<in> set [0 :: nat]. b < 256"
    using sample_wf by (simp_all add: sample_conn_def)
  from create_token_correct [OF run this] run show ?thesis by blast
qed

text \<open>
  Revoking succeeds only for a user who has a token, and then no token opens the user's feed any
  more; the tokens of the other users stay as they are.
\<close>

theorem delete_token_correct:
  assumes run: "Delete_token u c = (Inr (), c1)" and n: "c_tx c = None" and wf: "wf_db env (c_com c)"
  shows "tokens_of u (c_com c) \<noteq> [] \<and> tokens_of u (c_com c1) = []
    \<and> (\<forall>tok. fst (LookupToken tok c1) \<noteq> Inr u)
    \<and> (\<forall>v. v \<noteq> u \<longrightarrow> tokens_of v (c_com c1) = tokens_of v (c_com c))"
proof -
  from out_postD [OF Delete_token_post n run] obtain k s where
    k: "k \<in> set (calendar_tokens (c_com c))" "kUserID k = u" "kRevokedAt k = None" and
    c1: "c_com c1 = (c_com c)\<lparr>calendar_tokens := update_where (owns u) (revoked s) (calendar_tokens (c_com c))\<rparr>"
    by blast
  have mine: "tokens_of v (c_com c1) = (if v = u then [] else tokens_of v (c_com c))" for v
    unfolding c1 by (rule tokens_of_deleted [OF wf_dbD(7) [OF wf]])
  have "k \<in> set (tokens_of u (c_com c))" using k by (simp add: tokens_of_filter)
  moreover have "fst (LookupToken tok c1) \<noteq> Inr u" for tok
  proof
    assume "fst (LookupToken tok c1) = Inr u"
    then have "LookupToken tok c1 = (Inr u, snd (LookupToken tok c1))" by (metis prod.collapse)
    from LookupToken_owner [OF this] mine show False by simp
  qed
  ultimately show ?thesis using mine by auto
qed

theorem delete_token_correct_witness:
  "\<exists>t c1 c2. Create_token ''u'' (Inr [0]) 1 sample_conn = (Inr t, c1) \<and> Delete_token 1 c1 = (Inr (), c2)
     \<and> fst (LookupToken (ctToken t) c2) \<noteq> Inr 1"
proof -
  obtain t c1 where run: "Create_token ''u'' (Inr [0]) 1 sample_conn = (Inr t, c1)"
      and up: "c_fault c1 = (\<lambda>_. None)" and some: "tokens_of 1 (c_com c1) \<noteq> []"
    using sample_create_token by blast
  have start: "c_tx sample_conn = None" "wf_db sample_env (c_com sample_conn)"
    using sample_wf by (simp_all add: sample_conn_def)
  have c1: "c_tx c1 = None" "wf_db sample_env (c_com c1)"
    using evolvesD [OF wf_token.keeps_Create_token start(1) run] start(2) by (auto simp: wf_step_def)
  obtain c2 where del: "Delete_token 1 c1 = (Inr (), c2)" using Delete_token_runs [OF some] up by auto
  from delete_token_correct [OF del c1] have "fst (LookupToken (ctToken t) c2) \<noteq> Inr 1" by simp
  with run del show ?thesis by blast
qed

end
