(* ===== verification/Ical.thy ===== *)
theory Ical
  imports Go_Time
begin

text \<open>
  The iCalendar encoder (\<^verbatim>\<open>server/internal/ical/encoder.go\<close>). \<open>content_lines\<close> is the reader's
  side of RFC 5545: it undoes the folding and splits the stream at the line ends; \<open>unescape\<close>
  reads a TEXT value. The lemmas show that escaping and folding are undone by them, and that what
  the encoder writes reads back as the lines \<open>calendar_lines\<close> of the calendar.
\<close>

subsection \<open>The encoder\<close>

record Event =
  evUID :: string
  evSummary :: string
  evDescription :: string
  evLocation :: string
  evURL :: string
  evDTStart :: instant
  evDTEnd :: instant
  evAllDay :: bool

record Calendar =
  calProdID :: string
  calVersion :: string
  calEvents :: "Event list"

definition foldLimit :: nat where "foldLimit = 75"

definition foldCont :: string where "foldCont = CRLF @ '' ''"

text \<open>The loop over the runes that are left, 74 at a time.\<close>

function fold_rest :: "rune list \<Rightarrow> string" where
  "fold_rest rs = (if rs = [] then [] else foldCont @ of_runes (take 74 rs) @ fold_rest (drop 74 rs))"
  by auto
termination
  by (relation "measure length") auto

declare fold_rest.simps [simp del]

definition foldProperty :: "string \<Rightarrow> string \<Rightarrow> string" where
  "foldProperty name v =
     (let line = name @ '':'' @ v; rs = runes line in
      if length rs \<le> foldLimit then line
      else of_runes (take foldLimit rs) @ fold_rest (drop foldLimit rs))"

definition escapeText :: "string \<Rightarrow> string" where
  "escapeText s =
     ReplaceAll1 (ReplaceAll1 (ReplaceAll1 (ReplaceAll1 s
       (CHR 0x5C) [CHR 0x5C, CHR 0x5C]) (CHR '';'') [CHR 0x5C, CHR '';''])
       (CHR '','') [CHR 0x5C, CHR '','']) (CHR 0x0A) [CHR 0x5C, CHR ''n'']"

definition writeLine :: "string \<Rightarrow> string" where
  "writeLine s = s @ CRLF"

definition encode_event :: "Event \<Rightarrow> string" where
  "encode_event e =
     writeLine ''BEGIN:VEVENT''
     @ writeLine (foldProperty ''UID'' (evUID e))
     @ writeLine (foldProperty ''SUMMARY'' (escapeText (evSummary e)))
     @ (if evAllDay e then
          writeLine (''DTSTART;VALUE=DATE:'' @ format_date (evDTStart e))
          @ (if evDTEnd e \<noteq> zero_time then writeLine (''DTEND;VALUE=DATE:'' @ format_date (evDTEnd e)) else [])
        else
          writeLine (''DTSTART:'' @ format_datetime (evDTStart e))
          @ (if evDTEnd e \<noteq> zero_time then writeLine (''DTEND:'' @ format_datetime (evDTEnd e)) else []))
     @ (if evDescription e \<noteq> [] then writeLine (foldProperty ''DESCRIPTION'' (escapeText (evDescription e))) else [])
     @ (if evLocation e \<noteq> [] then writeLine (foldProperty ''LOCATION'' (escapeText (evLocation e))) else [])
     @ (if evURL e \<noteq> [] then writeLine (foldProperty ''URL'' (evURL e)) else [])
     @ writeLine ''END:VEVENT''"

definition Encode :: "Calendar \<Rightarrow> string" where
  "Encode c =
     writeLine ''BEGIN:VCALENDAR'' @ writeLine ''VERSION:2.0''
     @ writeLine (foldProperty ''PRODID'' (calProdID c))
     @ writeLine ''CALSCALE:GREGORIAN'' @ writeLine ''METHOD:PUBLISH''
     @ concat (map encode_event (calEvents c)) @ writeLine ''END:VCALENDAR''"

subsection \<open>The reader\<close>

fun content_lines_from :: "string \<Rightarrow> string \<Rightarrow> string list" where
  "content_lines_from cur [] = (if cur = [] then [] else [cur])"
| "content_lines_from cur (a # s) =
     (if a = CHR 0x0D \<and> take 2 s = [CHR 0x0A, CHR '' ''] then content_lines_from cur (drop 2 s)
      else if a = CHR 0x0D \<and> take 1 s = [CHR 0x0A] then cur # content_lines_from [] (drop 1 s)
      else content_lines_from (cur @ [a]) s)"

abbreviation content_lines :: "string \<Rightarrow> string list" where
  "content_lines \<equiv> content_lines_from []"

fun unescape :: "string \<Rightarrow> string" where
  "unescape [] = []"
| "unescape [a] = [a]"
| "unescape (a # b # s) =
     (if a = CHR 0x5C \<and> (b = CHR 0x5C \<or> b = CHR '';'' \<or> b = CHR '','') then b # unescape s
      else if a = CHR 0x5C \<and> b = CHR ''n'' then CHR 0x0A # unescape s
      else a # unescape (b # s))"

subsection \<open>Escaping\<close>

lemma ReplaceAll1_append: "ReplaceAll1 (a @ b) c n = ReplaceAll1 a c n @ ReplaceAll1 b c n"
  by (simp add: ReplaceAll1_def)

lemma escapeText_append: "escapeText (a @ b) = escapeText a @ escapeText b"
  by (simp add: escapeText_def ReplaceAll1_append)

lemma escapeText_Nil [simp]: "escapeText [] = []"
  by (simp add: escapeText_def ReplaceAll1_def)

definition escape_char :: "char \<Rightarrow> string" where
  "escape_char c =
     (if c = CHR 0x5C \<or> c = CHR '';'' \<or> c = CHR '','' then [CHR 0x5C, c]
      else if c = CHR 0x0A then [CHR 0x5C, CHR ''n''] else [c])"

lemma escapeText_single: "escapeText [c] = escape_char c"
  by (simp add: escapeText_def ReplaceAll1_def escape_char_def)

lemma escapeText_Cons: "escapeText (c # s) = escape_char c @ escapeText s"
  using escapeText_append [of "[c]" s] by (simp add: escapeText_single)

lemma escapeText_no_LF: "CHR 0x0A \<notin> set (escapeText s)"
  by (induction s) (auto simp: escapeText_Cons escape_char_def)

lemma unescape_escape_char: "unescape (escape_char c @ s) = c # unescape s"
  by (cases s) (auto simp: escape_char_def)

lemma unescape_escapeText: "unescape (escapeText s) = s"
  by (induction s) (simp_all add: escapeText_Cons unescape_escape_char)

subsection \<open>Valid UTF-8\<close>

definition utf8_ok :: "string \<Rightarrow> bool" where
  "utf8_ok s \<longleftrightarrow> of_runes (runes s) = s"

lemma bytes_of_append: "bytes_of (a @ b) = bytes_of a @ bytes_of b"
  by (simp add: bytes_of_def)

lemma of_runes_append: "of_runes (a @ b) = of_runes a @ of_runes b"
  by (simp add: of_runes_def of_bytes_def utf8_encode_def)

lemma of_runes_Nil [simp]: "of_runes [] = []"
  by (simp add: of_runes_def of_bytes_def utf8_encode_def)

lemma bytes_of_of_runes: "bytes_of (of_runes rs) = utf8_encode rs"
  unfolding of_runes_def
  by (rule bytes_of_of_bytes) (auto simp: utf8_encode_def dest: encode_rune_byte)

lemma runes_of_runes_append:
  "\<forall>r \<in> set rs. valid_rune r \<Longrightarrow> runes (of_runes rs @ s) = rs @ runes s"
proof (induction rs)
  case (Cons r rs)
  have "utf8_encode (r # rs) = encode_rune r @ utf8_encode rs" by (simp add: utf8_encode_def)
  then show ?case
    using Cons by (simp add: runes_def bytes_of_append bytes_of_of_runes utf8_decode_encode_rune)
qed simp

lemma of_runes_runes_valid [simp]: "\<forall>r \<in> set (runes s). valid_rune r"
  using runes_valid by blast

lemma runes_append: "utf8_ok a \<Longrightarrow> runes (a @ b) = runes a @ runes b"
  using runes_of_runes_append [of "runes a" b] by (simp add: utf8_ok_def)

lemma utf8_ok_append: "utf8_ok a \<Longrightarrow> utf8_ok b \<Longrightarrow> utf8_ok (a @ b)"
  by (simp add: utf8_ok_def runes_append of_runes_append)

lemma utf8_ok_of_runes: "\<forall>r \<in> set rs. valid_rune r \<Longrightarrow> utf8_ok (of_runes rs)"
  by (simp add: utf8_ok_def runes_of_runes)

lemma utf8_ok_ascii: "is_ascii s \<Longrightarrow> utf8_ok s"
  using of_runes_ascii [of "bytes_of s"]
  by (simp add: utf8_ok_def runes_ascii) (simp add: is_ascii_def bytes_of_def of_bytes_def)

lemma encode_rune_high: "128 \<le> r \<Longrightarrow> b \<in> set (encode_rune r) \<Longrightarrow> 128 \<le> b"
  by (auto simp: encode_rune_def Let_def RuneError_def split: if_splits)

lemma escape_high: "\<forall>c \<in> set s. 128 \<le> (of_char c :: nat) \<Longrightarrow> escapeText s = s"
proof (induction s)
  case (Cons c s)
  then have "c \<noteq> CHR 0x5C" "c \<noteq> CHR '';''" "c \<noteq> CHR '',''" "c \<noteq> CHR 0x0A" by auto
  with Cons show ?case by (simp add: escapeText_Cons escape_char_def)
qed simp

lemma of_runes_single: "of_runes [r] = of_bytes (encode_rune r)"
  by (simp add: of_runes_def utf8_encode_def)

lemma utf8_ok_escape_rune: "utf8_ok (escapeText (of_runes [r]))"
proof (cases "r < 128")
  case True
  then have "is_ascii (escapeText (of_runes [r]))"
    by (auto simp: of_runes_single of_bytes_def escapeText_Cons escape_char_def is_ascii_def split: if_splits)
  then show ?thesis by (rule utf8_ok_ascii)
next
  case False
  then have "\<forall>c \<in> set (of_runes [r]). 128 \<le> (of_char c :: nat)"
    using encode_rune_high [of r] encode_rune_byte [of _ r] by (auto simp: of_runes_single of_bytes_def)
  moreover have "utf8_ok (of_runes [r])"
  proof (cases "valid_rune r")
    case False
    then have "of_runes [r] = of_runes [RuneError]"
      by (simp add: of_runes_single encode_rune_def)
    then show ?thesis by (simp add: utf8_ok_of_runes)
  qed (simp add: utf8_ok_of_runes)
  ultimately show ?thesis by (simp add: escape_high)
qed

lemma utf8_ok_escape:
  assumes "utf8_ok s"
  shows "utf8_ok (escapeText s)"
proof -
  have "utf8_ok (escapeText (of_runes rs))" for rs
  proof (induction rs)
    case (Cons r rs)
    have "of_runes (r # rs) = of_runes [r] @ of_runes rs" using of_runes_append [of "[r]" rs] by simp
    then show ?case using Cons utf8_ok_escape_rune by (simp add: escapeText_append utf8_ok_append)
  qed (simp add: utf8_ok_ascii is_ascii_def)
  then show ?thesis using assms by (metis utf8_ok_def)
qed

subsection \<open>Folding\<close>

lemma content_lines_step:
  "CHR 0x0A \<notin> set x \<Longrightarrow> content_lines_from cur (x @ CHR 0x0D # s) = content_lines_from (cur @ x) (CHR 0x0D # s)"
proof (induction x arbitrary: cur)
  case (Cons a x)
  have "take 1 (x @ CHR 0x0D # s) \<noteq> [CHR 0x0A]" "take 2 (x @ CHR 0x0D # s) \<noteq> [CHR 0x0A, CHR '' '']"
    using Cons.prems by (cases x; auto)+
  then have "content_lines_from cur ((a # x) @ CHR 0x0D # s) = content_lines_from (cur @ [a]) (x @ CHR 0x0D # s)"
    by simp
  then show ?case using Cons by simp
qed simp

lemma content_lines_fold:
  "CHR 0x0A \<notin> set x \<Longrightarrow> content_lines_from cur (x @ foldCont @ s) = content_lines_from (cur @ x) s"
  using content_lines_step [of x cur "CHR 0x0A # CHR '' '' # s"] by (simp add: foldCont_def CRLF_def)

lemma content_lines_CRLF:
  assumes "CHR 0x0A \<notin> set x" and "take 1 s \<noteq> '' ''"
  shows "content_lines_from cur (x @ CRLF @ s) = (cur @ x) # content_lines s"
proof -
  have "take 2 (CHR 0x0A # s) \<noteq> [CHR 0x0A, CHR '' '']" using assms(2) by (cases s) auto
  then show ?thesis
    using content_lines_step [of x cur "CHR 0x0A # s"] assms(1) by (simp add: CRLF_def)
qed

lemma not_LF_char: "(b :: nat) < 256 \<Longrightarrow> CHR 0x0A = char_of b \<Longrightarrow> b = 10"
proof -
  assume "b < 256" and "CHR 0x0A = char_of b"
  from this(2) have "(of_char (CHR 0x0A) :: nat) = of_char (char_of b :: char)" by (rule arg_cong)
  then show "b = 10" using \<open>b < 256\<close> by simp
qed

lemma of_runes_no_LF: "10 \<notin> set rs \<Longrightarrow> CHR 0x0A \<notin> set (of_runes rs)"
proof (induction rs)
  case (Cons r rs)
  have "10 \<notin> set (encode_rune r)"
  proof (cases "r < 128")
    case False
    then show ?thesis using encode_rune_high [of r 10] by auto
  qed (use Cons.prems in auto)
  then have "CHR 0x0A \<notin> set (of_runes [r])"
    using not_LF_char [OF encode_rune_byte] by (auto simp: of_runes_single of_bytes_def)
  moreover have "of_runes (r # rs) = of_runes [r] @ of_runes rs" using of_runes_append [of "[r]" rs] by simp
  ultimately show ?case using Cons by simp
qed simp

lemma runes_no_LF: "utf8_ok s \<Longrightarrow> CHR 0x0A \<notin> set s \<Longrightarrow> 10 \<notin> set (runes s)"
proof
  assume ok: "utf8_ok s" and lf: "CHR 0x0A \<notin> set s" and "10 \<in> set (runes s)"
  then obtain as bs where "runes s = as @ 10 # bs" by (metis split_list)
  then have "s = of_runes as @ of_runes [10] @ of_runes bs"
    using ok by (metis append_Cons append_Nil of_runes_append utf8_ok_def)
  moreover have "of_runes [10] = [CHR 0x0A]"
    by (simp add: of_runes_single of_bytes_def char_of_eq_iff take_bit_eq_mod)
  ultimately show False using lf by auto
qed

lemma content_lines_fold_rest:
  "10 \<notin> set rs \<Longrightarrow> CHR 0x0A \<notin> set x \<Longrightarrow> take 1 s \<noteq> '' '' \<Longrightarrow>
   content_lines_from cur (x @ fold_rest rs @ CRLF @ s) = (cur @ x @ of_runes rs) # content_lines s"
proof (induction rs arbitrary: cur x rule: fold_rest.induct)
  case (1 rs)
  show ?case
  proof (cases "rs = []")
    case True
    then show ?thesis using content_lines_CRLF [of x s cur] 1 by (simp add: fold_rest.simps)
  next
    case False
    have drop: "10 \<notin> set (drop 74 rs)" and take: "10 \<notin> set (take 74 rs)"
      using 1(2) by (auto dest: in_set_dropD in_set_takeD)
    have "content_lines_from cur (x @ fold_rest rs @ CRLF @ s)
        = content_lines_from cur (x @ foldCont @ (of_runes (take 74 rs) @ fold_rest (drop 74 rs) @ CRLF @ s))"
      using False by (simp add: fold_rest.simps [of rs])
    also have "\<dots> = content_lines_from (cur @ x) (of_runes (take 74 rs) @ fold_rest (drop 74 rs) @ CRLF @ s)"
      by (rule content_lines_fold [OF 1(3)])
    also have "\<dots> = ((cur @ x) @ of_runes (take 74 rs) @ of_runes (drop 74 rs)) # content_lines s"
      by (rule 1(1) [OF False drop of_runes_no_LF [OF take] 1(4)])
    finally show ?thesis by (simp flip: of_runes_append)
  qed
qed

text \<open>The text of a property, and what a reader finds in its place.\<close>

definition prop_line :: "string \<Rightarrow> string \<Rightarrow> string" where
  "prop_line name v = name @ '':'' @ v"

definition plain_text :: "string \<Rightarrow> bool" where
  "plain_text s \<longleftrightarrow> utf8_ok s \<and> CHR 0x0A \<notin> set s"

lemma plain_text_append: "plain_text a \<Longrightarrow> plain_text b \<Longrightarrow> plain_text (a @ b)"
  by (simp add: plain_text_def utf8_ok_append)

lemma plain_text_ascii: "is_ascii s \<Longrightarrow> CHR 0x0A \<notin> set s \<Longrightarrow> plain_text s"
  by (simp add: plain_text_def utf8_ok_ascii)

lemma plain_text_escape: "utf8_ok s \<Longrightarrow> plain_text (escapeText s)"
  by (simp add: plain_text_def utf8_ok_escape escapeText_no_LF)

definition no_space :: "string \<Rightarrow> bool" where
  "no_space s \<longleftrightarrow> take 1 s \<noteq> '' ''"

lemma no_space_Cons [simp]: "no_space (a # s) \<longleftrightarrow> a \<noteq> CHR '' ''"
  by (simp add: no_space_def)

lemma content_lines_property:
  assumes "plain_text name" and "plain_text v" and "no_space s"
  shows "content_lines (writeLine (foldProperty name v) @ s) = prop_line name v # content_lines s"
proof -
  let ?line = "name @ '':'' @ v"
  have "plain_text '':''" by (rule plain_text_ascii) (simp_all add: is_ascii_def)
  then have line: "plain_text ?line" using assms by (intro plain_text_append)
  show ?thesis
  proof (cases "length (runes ?line) \<le> foldLimit")
    case True
    then show ?thesis
      using content_lines_CRLF [of ?line s "[]"] line assms(3)
      by (simp add: foldProperty_def writeLine_def prop_line_def plain_text_def no_space_def)
  next
    case False
    have lf: "10 \<notin> set (runes ?line)" using line by (auto simp: plain_text_def dest: runes_no_LF)
    then have drop: "10 \<notin> set (drop foldLimit (runes ?line))" and take: "10 \<notin> set (take foldLimit (runes ?line))"
      by (auto dest: in_set_dropD in_set_takeD)
    have "content_lines (writeLine (foldProperty name v) @ s)
        = content_lines (of_runes (take foldLimit (runes ?line)) @ fold_rest (drop foldLimit (runes ?line)) @ CRLF @ s)"
      using False by (simp add: foldProperty_def writeLine_def Let_def)
    also have "\<dots> = ([] @ of_runes (take foldLimit (runes ?line)) @ of_runes (drop foldLimit (runes ?line))) # content_lines s"
      by (rule content_lines_fold_rest [OF drop of_runes_no_LF [OF take] assms(3) [unfolded no_space_def]])
    also have "of_runes (take foldLimit (runes ?line)) @ of_runes (drop foldLimit (runes ?line)) = ?line"
      using line by (simp add: plain_text_def utf8_ok_def flip: of_runes_append)
    finally show ?thesis by (simp add: prop_line_def)
  qed
qed

lemma content_lines_line:
  assumes "plain_text l" and "no_space s"
  shows "content_lines (writeLine l @ s) = l # content_lines s"
  using content_lines_CRLF [of l s "[]"] assms by (simp add: writeLine_def plain_text_def no_space_def)

subsection \<open>Reading a calendar back\<close>

text \<open>
  \<open>reads b ls\<close>: in front of anything that does not look like a continuation, the block \<open>b\<close> reads
  as the lines \<open>ls\<close>, and it does not look like a continuation itself.
\<close>

definition reads :: "string \<Rightarrow> string list \<Rightarrow> bool" where
  "reads b ls \<longleftrightarrow> (\<forall>s. no_space s \<longrightarrow> content_lines (b @ s) = ls @ content_lines s \<and> no_space (b @ s))"

lemma reads_Nil: "reads [] []"
  by (simp add: reads_def)

lemma reads_append: "reads a ls \<Longrightarrow> reads b ms \<Longrightarrow> reads (a @ b) (ls @ ms)"
  by (simp add: reads_def)

lemma reads_if: "(P \<Longrightarrow> reads a ls) \<Longrightarrow> (\<not> P \<Longrightarrow> reads b ms) \<Longrightarrow> reads (if P then a else b) (if P then ls else ms)"
  by simp

lemma reads_concat: "(\<And>x. x \<in> set xs \<Longrightarrow> reads (f x) (g x)) \<Longrightarrow> reads (concat (map f xs)) (concat (map g xs))"
  by (induction xs) (auto intro: reads_Nil reads_append)

lemma reads_line: "plain_text l \<Longrightarrow> l \<noteq> [] \<Longrightarrow> hd l \<noteq> CHR '' '' \<Longrightarrow> reads (writeLine l) [l]"
  unfolding reads_def by (cases l) (simp_all add: content_lines_line, simp add: writeLine_def)

lemma foldProperty_head:
  assumes "is_ascii (a # n)"
  shows "\<exists>r. foldProperty (a # n) v = a # r"
proof -
  let ?line = "(a # n) @ '':'' @ v"
  have a: "of_char a < (128 :: nat)" using assms by (simp add: is_ascii_def)
  have "runes ?line = of_char a # runes (n @ '':'' @ v)"
    using a by (simp add: runes_def bytes_of_def decode_ascii)
  then have "of_runes (take foldLimit (runes ?line)) = of_runes ([of_char a] @ take (foldLimit - 1) (runes (n @ '':'' @ v)))"
    by (simp add: foldLimit_def)
  also have "\<dots> = a # of_runes (take (foldLimit - 1) (runes (n @ '':'' @ v)))"
    using a by (simp only: of_runes_append) (simp add: of_runes_single of_bytes_def)
  finally show ?thesis by (simp add: foldProperty_def Let_def)
qed

lemma reads_property:
  assumes "is_ascii name" and "CHR 0x0A \<notin> set name" and "name \<noteq> []" and "hd name \<noteq> CHR '' ''" and "plain_text v"
  shows "reads (writeLine (foldProperty name v)) [prop_line name v]"
proof -
  obtain a n where n: "name = a # n" using assms(3) by (cases name) auto
  obtain r where "foldProperty name v = a # r" using foldProperty_head assms(1) n by blast
  then show ?thesis
    using content_lines_property [OF plain_text_ascii [OF assms(1,2)] assms(5)] assms(4) n
    by (simp add: reads_def no_space_def [symmetric]) (simp add: writeLine_def)
qed

definition digits :: string where "digits = ''0123456789-TZ''"

lemma digit_char_digits: "d < 10 \<Longrightarrow> digit_char d \<in> set digits"
proof -
  assume "d < 10"
  then have "d = 0 \<or> d = 1 \<or> d = 2 \<or> d = 3 \<or> d = 4 \<or> d = 5 \<or> d = 6 \<or> d = 7 \<or> d = 8 \<or> d = 9" by arith
  then show ?thesis by (elim disjE) (simp_all add: digit_char_def digits_def char_of_eq_iff take_bit_eq_mod)
qed

lemma nat_str_digits: "set (nat_str n) \<subseteq> set digits"
proof (induction n rule: nat_str.induct)
  case (1 n)
  then show ?case by (subst nat_str.simps) (auto simp: digit_char_digits)
qed

lemma pad_num_digits: "set (pad_num w n) \<subseteq> set digits"
  using nat_str_digits [of n] by (auto simp: pad_num_def Let_def) (simp add: digits_def)

lemma format_date_digits: "set (format_date t) \<subseteq> set digits"
  using pad_num_digits by (auto simp: format_date_def year_str_def split: prod.splits if_splits)
    (auto simp: digits_def)

lemma format_datetime_digits: "set (format_datetime t) \<subseteq> set digits"
  using pad_num_digits format_date_digits
  by (auto simp: format_datetime_def Let_def) (auto simp: digits_def)

lemma plain_digits:
  assumes "set s \<subseteq> set digits" and "is_ascii p" and "CHR 0x0A \<notin> set p"
  shows "plain_text (p @ s)"
proof (rule plain_text_ascii)
  have "\<forall>c \<in> set digits. (of_char c :: nat) < 128 \<and> c \<noteq> CHR 0x0A" by (simp add: digits_def)
  with assms show "is_ascii (p @ s)" "CHR 0x0A \<notin> set (p @ s)" by (auto simp: is_ascii_def)
qed

lemma reads_date:
  "set s \<subseteq> set digits \<Longrightarrow> is_ascii p \<Longrightarrow> CHR 0x0A \<notin> set p \<Longrightarrow> p \<noteq> [] \<Longrightarrow> hd p \<noteq> CHR '' ''
   \<Longrightarrow> reads (writeLine (p @ s)) [p @ s]"
  by (intro reads_line plain_digits) simp_all

text \<open>The lines of an event and of a calendar, without folding.\<close>

definition opt_line :: "string \<Rightarrow> string \<Rightarrow> string list" where
  "opt_line name v = (if v \<noteq> [] then [prop_line name v] else [])"

definition event_lines :: "Event \<Rightarrow> string list" where
  "event_lines e =
     [''BEGIN:VEVENT'', prop_line ''UID'' (evUID e), prop_line ''SUMMARY'' (escapeText (evSummary e))]
     @ (if evAllDay e then
          [''DTSTART;VALUE=DATE:'' @ format_date (evDTStart e)]
          @ (if evDTEnd e \<noteq> zero_time then [''DTEND;VALUE=DATE:'' @ format_date (evDTEnd e)] else [])
        else
          [''DTSTART:'' @ format_datetime (evDTStart e)]
          @ (if evDTEnd e \<noteq> zero_time then [''DTEND:'' @ format_datetime (evDTEnd e)] else []))
     @ opt_line ''DESCRIPTION'' (escapeText (evDescription e))
     @ opt_line ''LOCATION'' (escapeText (evLocation e))
     @ opt_line ''URL'' (evURL e)
     @ [''END:VEVENT'']"

definition calendar_lines :: "Calendar \<Rightarrow> string list" where
  "calendar_lines c =
     [''BEGIN:VCALENDAR'', ''VERSION:2.0'', prop_line ''PRODID'' (calProdID c), ''CALSCALE:GREGORIAN'', ''METHOD:PUBLISH'']
     @ concat (map event_lines (calEvents c)) @ [''END:VCALENDAR'']"

definition event_ok :: "Event \<Rightarrow> bool" where
  "event_ok e \<longleftrightarrow> plain_text (evUID e) \<and> plain_text (evURL e) \<and> utf8_ok (evSummary e)
     \<and> utf8_ok (evDescription e) \<and> utf8_ok (evLocation e)"

lemma escapeText_eq_Nil [simp]: "escapeText s = [] \<longleftrightarrow> s = []"
  by (cases s) (simp_all add: escapeText_Cons escape_char_def)

lemma reads_const: "is_ascii l \<Longrightarrow> CHR 0x0A \<notin> set l \<Longrightarrow> l \<noteq> [] \<Longrightarrow> hd l \<noteq> CHR '' '' \<Longrightarrow> reads (writeLine l) [l]"
  by (rule reads_line) (simp_all add: plain_text_ascii)

lemma reads_opt:
  assumes "is_ascii name" and "CHR 0x0A \<notin> set name" and "name \<noteq> []" and "hd name \<noteq> CHR '' ''" and "plain_text v"
  shows "reads (if v \<noteq> [] then writeLine (foldProperty name v) else []) (opt_line name v)"
  using reads_property [OF assms] by (simp add: opt_line_def reads_Nil)

lemma reads_event:
  assumes "event_ok e"
  shows "reads (encode_event e) (event_lines e)"
proof -
  have ok: "plain_text (evUID e)" "plain_text (evURL e)" "plain_text (escapeText (evSummary e))"
      "plain_text (escapeText (evDescription e))" "plain_text (escapeText (evLocation e))"
    using assms by (simp_all add: event_ok_def plain_text_escape)
  have desc: "reads (if evDescription e \<noteq> [] then writeLine (foldProperty ''DESCRIPTION'' (escapeText (evDescription e))) else [])
      (opt_line ''DESCRIPTION'' (escapeText (evDescription e)))"
    using reads_opt [OF _ _ _ _ ok(4), of "''DESCRIPTION''"] by (simp add: is_ascii_def)
  have loc: "reads (if evLocation e \<noteq> [] then writeLine (foldProperty ''LOCATION'' (escapeText (evLocation e))) else [])
      (opt_line ''LOCATION'' (escapeText (evLocation e)))"
    using reads_opt [OF _ _ _ _ ok(5), of "''LOCATION''"] by (simp add: is_ascii_def)
  have url: "reads (if evURL e \<noteq> [] then writeLine (foldProperty ''URL'' (evURL e)) else []) (opt_line ''URL'' (evURL e))"
    using reads_opt [OF _ _ _ _ ok(2), of "''URL''"] by (simp add: is_ascii_def)
  have head: "reads (writeLine ''BEGIN:VEVENT'' @ writeLine (foldProperty ''UID'' (evUID e))
        @ writeLine (foldProperty ''SUMMARY'' (escapeText (evSummary e))))
      ([''BEGIN:VEVENT''] @ [prop_line ''UID'' (evUID e)] @ [prop_line ''SUMMARY'' (escapeText (evSummary e))])"
    by (intro reads_append reads_const reads_property ok) (simp_all add: is_ascii_def)
  have dates: "reads (if evAllDay e then
        writeLine (''DTSTART;VALUE=DATE:'' @ format_date (evDTStart e))
        @ (if evDTEnd e \<noteq> zero_time then writeLine (''DTEND;VALUE=DATE:'' @ format_date (evDTEnd e)) else [])
      else writeLine (''DTSTART:'' @ format_datetime (evDTStart e))
        @ (if evDTEnd e \<noteq> zero_time then writeLine (''DTEND:'' @ format_datetime (evDTEnd e)) else []))
     (if evAllDay e then
        [''DTSTART;VALUE=DATE:'' @ format_date (evDTStart e)]
        @ (if evDTEnd e \<noteq> zero_time then [''DTEND;VALUE=DATE:'' @ format_date (evDTEnd e)] else [])
      else [''DTSTART:'' @ format_datetime (evDTStart e)]
        @ (if evDTEnd e \<noteq> zero_time then [''DTEND:'' @ format_datetime (evDTEnd e)] else []))"
    by (intro reads_if reads_append reads_date reads_Nil format_date_digits format_datetime_digits)
      (simp_all add: is_ascii_def)
  have tail: "reads (writeLine ''END:VEVENT'') [''END:VEVENT'']"
    by (rule reads_const) (simp_all add: is_ascii_def)
  from reads_append [OF head reads_append [OF dates reads_append [OF desc
      reads_append [OF loc reads_append [OF url tail]]]]]
  show ?thesis by (simp only: encode_event_def event_lines_def append_assoc append_Cons append_Nil)
qed

lemma Encode_content_lines:
  assumes "\<forall>e \<in> set (calEvents c). event_ok e" and "plain_text (calProdID c)"
  shows "content_lines (Encode c) = calendar_lines c"
proof -
  have "reads (Encode c) ([''BEGIN:VCALENDAR''] @ [''VERSION:2.0''] @ [prop_line ''PRODID'' (calProdID c)]
      @ [''CALSCALE:GREGORIAN''] @ [''METHOD:PUBLISH'']
      @ concat (map event_lines (calEvents c)) @ [''END:VCALENDAR''])"
    unfolding Encode_def
    by (intro reads_append reads_const reads_property reads_concat reads_event assms(2) assms(1) [rule_format])
      (simp_all add: is_ascii_def)
  moreover have "no_space []" by (simp add: no_space_def)
  ultimately have "content_lines (Encode c @ []) = ([''BEGIN:VCALENDAR''] @ [''VERSION:2.0'']
      @ [prop_line ''PRODID'' (calProdID c)] @ [''CALSCALE:GREGORIAN''] @ [''METHOD:PUBLISH'']
      @ concat (map event_lines (calEvents c)) @ [''END:VCALENDAR'']) @ content_lines []"
    unfolding reads_def by blast
  then show ?thesis by (simp add: calendar_lines_def)
qed

subsection \<open>The pieces of a folded line\<close>

lemma fold_rest_pieces:
  "\<forall>r \<in> set rs. valid_rune r \<Longrightarrow>
   \<exists>cs. fold_rest rs = concat (map (\<lambda>c. foldCont @ c) cs) \<and> concat cs = of_runes rs
     \<and> (\<forall>c \<in> set cs. c \<noteq> [] \<and> length (runes c) \<le> 74)"
proof (induction rs rule: fold_rest.induct)
  case (1 rs)
  show ?case
  proof (cases "rs = []")
    case True
    then show ?thesis by (intro exI [of _ "[]"]) (simp add: fold_rest.simps)
  next
    case False
    have ok: "\<forall>r \<in> set (drop 74 rs). valid_rune r" and ok': "\<forall>r \<in> set (take 74 rs). valid_rune r"
      using 1(2) by (auto dest: in_set_dropD in_set_takeD)
    obtain cs where cs: "fold_rest (drop 74 rs) = concat (map (\<lambda>c. foldCont @ c) cs)"
        "concat cs = of_runes (drop 74 rs)" "\<forall>c \<in> set cs. c \<noteq> [] \<and> length (runes c) \<le> 74"
      using 1(1) [OF False ok] by blast
    have "runes (of_runes (take 74 rs)) = take 74 rs" by (rule runes_of_runes [OF ok'])
    then have "of_runes (take 74 rs) \<noteq> [] \<and> length (runes (of_runes (take 74 rs))) \<le> 74"
      using False by (metis length_take min.cobounded2 runes_Nil take_eq_Nil zero_neq_numeral)
    then show ?thesis
      using False cs
      by (intro exI [of _ "of_runes (take 74 rs) # cs"]) (simp add: fold_rest.simps [of rs] flip: of_runes_append)
  qed
qed

lemma runes_space: "runes ('' '' @ s) = 32 # runes s"
  by (simp add: runes_def bytes_of_def decode_ascii)

subsection \<open>Properties\<close>

text \<open>
  Escaping is undone by a reader, for every text, and an escaped text has no line feed, so it
  cannot end its line.
\<close>

theorem escape_roundtrip: "unescape (escapeText s) = s \<and> CHR 0x0A \<notin> set (escapeText s)"
  by (simp add: unescape_escapeText escapeText_no_LF)

text \<open>
  A line is folded into pieces that join to the line again; with the space that starts a
  continuation, each piece has at most 75 characters.
\<close>

theorem fold_pieces:
  assumes "utf8_ok name" and "utf8_ok v"
  shows "\<exists>p ps. foldProperty name v = p @ concat (map (\<lambda>c. CRLF @ '' '' @ c) ps)
    \<and> p @ concat ps = prop_line name v \<and> length (runes p) \<le> 75
    \<and> (\<forall>c \<in> set ps. c \<noteq> [] \<and> length (runes ('' '' @ c)) \<le> 75)"
proof -
  let ?line = "name @ '':'' @ v"
  have "utf8_ok '':''" by (rule utf8_ok_ascii) (simp add: is_ascii_def)
  then have ok: "of_runes (runes ?line) = ?line"
    using utf8_ok_append [OF assms(1) utf8_ok_append [OF _ assms(2)], of "'':''"] by (simp add: utf8_ok_def)
  show ?thesis
  proof (cases "length (runes ?line) \<le> foldLimit")
    case True
    then show ?thesis
      by (intro exI [of _ ?line] exI [of _ "[]"]) (simp add: foldProperty_def prop_line_def foldLimit_def)
  next
    case False
    have valid: "\<forall>r \<in> set (drop foldLimit (runes ?line)). valid_rune r" "\<forall>r \<in> set (take foldLimit (runes ?line)). valid_rune r"
      using runes_valid by (auto dest: in_set_dropD in_set_takeD)
    obtain cs where cs: "fold_rest (drop foldLimit (runes ?line)) = concat (map (\<lambda>c. foldCont @ c) cs)"
        "concat cs = of_runes (drop foldLimit (runes ?line))" "\<forall>c \<in> set cs. c \<noteq> [] \<and> length (runes c) \<le> 74"
      using fold_rest_pieces [OF valid(1)] by blast
    let ?p = "of_runes (take foldLimit (runes ?line))"
    have "foldProperty name v = ?p @ concat (map (\<lambda>c. CRLF @ '' '' @ c) cs)"
      using False cs(1) by (simp add: foldProperty_def Let_def foldCont_def)
    moreover have "?p @ concat cs = prop_line name v"
      using ok cs(2) by (simp add: prop_line_def flip: of_runes_append)
    moreover have "length (runes ?p) \<le> 75"
      unfolding runes_of_runes [OF valid(2)] by (simp add: foldLimit_def)
    moreover have "\<forall>c \<in> set cs. c \<noteq> [] \<and> length (runes ('' '' @ c)) \<le> 75"
      using cs(3) by (simp only: runes_space) simp
    ultimately show ?thesis by blast
  qed
qed

theorem fold_pieces_witness:
  "\<exists>p ps. foldProperty ''SUMMARY'' ''x'' = p @ concat (map (\<lambda>c. CRLF @ '' '' @ c) ps)
    \<and> p @ concat ps = prop_line ''SUMMARY'' ''x'' \<and> length (runes p) \<le> 75
    \<and> (\<forall>c \<in> set ps. c \<noteq> [] \<and> length (runes ('' '' @ c)) \<le> 75)"
  by (rule fold_pieces) (simp_all add: utf8_ok_ascii is_ascii_def)

text \<open>
  The limit counts characters and not octets: a line of 60 letters u with a diaeresis is not
  folded and takes 128 octets.
\<close>

theorem fold_counts_characters:
  "foldProperty ''SUMMARY'' (of_runes (replicate 60 252)) = prop_line ''SUMMARY'' (of_runes (replicate 60 252))
   \<and> length (foldProperty ''SUMMARY'' (of_runes (replicate 60 252))) = 128"
proof -
  let ?v = "of_runes (replicate 60 252)"
  have v: "runes ?v = replicate 60 252" by (rule runes_of_runes) (simp add: valid_rune_def)
  have "utf8_ok (''SUMMARY'' @ '':'')" by (rule utf8_ok_ascii) (simp add: is_ascii_def)
  then have "runes ((''SUMMARY'' @ '':'') @ ?v) = runes (''SUMMARY'' @ '':'') @ replicate 60 252"
    by (simp only: runes_append v)
  then have "length (runes (''SUMMARY'' @ '':'' @ ?v)) = 68"
    by (simp add: runes_ascii is_ascii_def bytes_of_def)
  then have fold: "foldProperty ''SUMMARY'' ?v = ''SUMMARY'' @ '':'' @ ?v"
    by (simp add: foldProperty_def foldLimit_def Let_def)
  have "length ?v = (\<Sum>r\<leftarrow>replicate 60 (252::nat). length (encode_rune r))"
    by (simp add: of_runes_def of_bytes_def utf8_encode_def length_concat comp_def)
  also have "\<dots> = 120" by (simp add: encode_rune_def valid_rune_def sum_list_replicate)
  finally have "length ?v = 120" .
  with fold show ?thesis by (simp add: prop_line_def)
qed

text \<open>
  C30: What the encoder writes reads back, unfolded and split at the line ends, as the lines of the
  calendar: one per property, in order, nothing lost and nothing added. The UID, the URL and the
  product identifier, which are not escaped, must not contain a line feed.
\<close>

theorem feed_reads_back:
  assumes "\<forall>e \<in> set (calEvents c). event_ok e" and "plain_text (calProdID c)"
  shows "content_lines (Encode c) = calendar_lines c"
  by (rule Encode_content_lines [OF assms])

definition sample_event :: Event where
  "sample_event = \<lparr>evUID = ''1'', evSummary = ''a,b'', evDescription = [], evLocation = ''M'', evURL = ''u'',
     evDTStart = 0, evDTEnd = 0, evAllDay = True\<rparr>"

theorem feed_reads_back_witness:
  "content_lines (Encode \<lparr>calProdID = ''p'', calVersion = ''2.0'', calEvents = [sample_event]\<rparr>)
   = calendar_lines \<lparr>calProdID = ''p'', calVersion = ''2.0'', calEvents = [sample_event]\<rparr>"
  by (rule feed_reads_back)
    (simp_all add: sample_event_def event_ok_def plain_text_ascii utf8_ok_ascii is_ascii_def)

end
