(* ===== verification/Sessions.thy ===== *)
theory Sessions
  imports Conn Ical
begin

text \<open>
  Roles and session tokens: \<^verbatim>\<open>auth/roles.go\<close> and \<^verbatim>\<open>auth/tokens.go\<close>.

  The JWT library is not part of the repository. It is an argument, a record of the two calls
  the code makes: signing claims with a method and a key, and parsing a token at a time of day
  with a key function and a required issuer. \<open>jwt_lawful\<close> states what the documentation of the
  library promises of them; no law says anything about this program's own claims.
\<close>

subsection \<open>Roles\<close>

record Roles =
  rlMember :: bool
  rlAdmin :: bool

definition decode_group :: "string \<Rightarrow> string \<Rightarrow> string \<Rightarrow> Roles \<Rightarrow> Roles" where
  "decode_group memberValue adminValue g r =
     (let r = (if g = memberValue then r\<lparr>rlMember := True\<rparr> else r) in
      if g = adminValue then r\<lparr>rlMember := True, rlAdmin := True\<rparr> else r)"

definition DecodeRoles :: "string list \<Rightarrow> string \<Rightarrow> string \<Rightarrow> Roles" where
  "DecodeRoles groups memberValue adminValue =
     fold (decode_group memberValue adminValue) groups \<lparr>rlMember = False, rlAdmin = False\<rparr>"

definition ToStringSlice :: "Roles \<Rightarrow> string list" where
  "ToStringSlice r =
     (if rlAdmin r then [''member'', ''admin''] else if rlMember r then [''member''] else [])"

lemma decode_groups:
  "fold (decode_group m a) gs \<lparr>rlMember = b1, rlAdmin = b2\<rparr> =
     \<lparr>rlMember = b1 \<or> m \<in> set gs \<or> a \<in> set gs, rlAdmin = b2 \<or> a \<in> set gs\<rparr>"
  by (induction gs arbitrary: b1 b2) (auto simp: decode_group_def Let_def)

lemma DecodeRoles_eq:
  "DecodeRoles gs m a = \<lparr>rlMember = m \<in> set gs \<or> a \<in> set gs, rlAdmin = a \<in> set gs\<rparr>"
  by (simp add: DecodeRoles_def decode_groups)

text \<open>
  The roles decoded from a group list depend on which groups it holds and not on their order
  or number: a session has the role admin exactly when the admin group is listed, member exactly
  when the member group or the admin group is listed, so an admin is always a member; and no
  other role is ever written into a session.
\<close>

theorem decode_roles_correct:
  "rlAdmin (DecodeRoles gs m a) = (a \<in> set gs)
   \<and> rlMember (DecodeRoles gs m a) = (m \<in> set gs \<or> a \<in> set gs)
   \<and> set (ToStringSlice (DecodeRoles gs m a)) =
       {r. r = ''member'' \<and> (m \<in> set gs \<or> a \<in> set gs) \<or> r = ''admin'' \<and> a \<in> set gs}"
  by (auto simp: DecodeRoles_eq ToStringSlice_def)

subsection \<open>Claims\<close>

text \<open>
  The claims of a session with the registered claims of the library it embeds. \<open>nil\<close> and the
  empty slice are the same list.
\<close>

record SessionClaims =
  scIssuer :: string
  scSubject :: string
  scAudience :: "string list"
  scExpiresAt :: "instant option"
  scNotBefore :: "instant option"
  scIssuedAt :: "instant option"
  scID :: string
  scEmail :: string
  scName :: string
  scOIDCSub :: string
  scRoles :: "string list"

definition tokenIssuer :: string where "tokenIssuer = ''confero''"
definition tokenTTL :: int where "tokenTTL = 3600 * 10 ^ 9"
definition cookieName :: string where "cookieName = ''session''"
definition OIDCClaimName :: string where "OIDCClaimName = ''groups''"

text \<open>\<^verbatim>\<open>jwt.NewNumericDate\<close> keeps whole seconds.\<close>

definition NewNumericDate :: "instant \<Rightarrow> instant" where
  "NewNumericDate t = t - t mod 10 ^ 9"

datatype signing_method = SigningMethodHMAC string | OtherMethod string

definition SigningMethodHS256 :: signing_method where
  "SigningMethodHS256 = SigningMethodHMAC ''HS256''"

definition alg :: "signing_method \<Rightarrow> string" where
  "alg m = (case m of SigningMethodHMAC a \<Rightarrow> a | OtherMethod a \<Rightarrow> a)"

record jwt_lib =
  j_SignedString :: "signing_method \<Rightarrow> string \<Rightarrow> SessionClaims \<Rightarrow> string + string"
  j_ParseWithClaims :: "instant \<Rightarrow> string \<Rightarrow> (signing_method \<Rightarrow> err + string) \<Rightarrow> string
      \<Rightarrow> string + (SessionClaims \<times> bool)"

subsection \<open>Issue and verify\<close>

text \<open>The claims \<^verbatim>\<open>Issue\<close> signs: the caller's, with the registered claims replaced.\<close>

definition issued_claims :: "instant \<Rightarrow> SessionClaims \<Rightarrow> SessionClaims" where
  "issued_claims now c = c\<lparr>
     scIssuer := tokenIssuer, scAudience := [],
     scExpiresAt := Some (NewNumericDate (now + tokenTTL)), scNotBefore := None,
     scIssuedAt := Some (NewNumericDate now), scID := []\<rparr>"

definition Issue :: "jwt_lib \<Rightarrow> string \<Rightarrow> instant \<Rightarrow> SessionClaims \<Rightarrow> err + string" where
  "Issue J secret now claims =
     (case j_SignedString J SigningMethodHS256 secret (issued_claims now claims) of
        Inl e \<Rightarrow> Inl (Wrapf ''sign token'' (OtherErr e))
      | Inr s \<Rightarrow> Inr s)"

definition session_key :: "string \<Rightarrow> signing_method \<Rightarrow> err + string" where
  "session_key secret m =
     (case m of
        SigningMethodHMAC _ \<Rightarrow> Inr secret
      | OtherMethod _ \<Rightarrow> Inl (OtherErr (''unexpected signing method: '' @ alg m)))"

definition Verify :: "jwt_lib \<Rightarrow> string \<Rightarrow> instant \<Rightarrow> string \<Rightarrow> err + SessionClaims" where
  "Verify J secret now tokenStr =
     (case j_ParseWithClaims J now tokenStr (session_key secret) tokenIssuer of
        Inl e \<Rightarrow> Inl (Wrapf ''parse token'' (OtherErr e))
      | Inr (claims, valid) \<Rightarrow>
          if \<not> valid then Inl (OtherErr ''token is not valid'') else Inr claims)"

subsection \<open>What the library promises\<close>

text \<open>
  Claims that JSON carries unchanged: text that is UTF-8, and dates of whole seconds in the range
  where a double is exact.
\<close>

definition json_date_ok :: "instant option \<Rightarrow> bool" where
  "json_date_ok t = (case t of None \<Rightarrow> True | Some t \<Rightarrow> t mod 10 ^ 9 = 0 \<and> 0 \<le> t \<and> t < 2 ^ 53 * 10 ^ 9)"

definition json_claims_ok :: "SessionClaims \<Rightarrow> bool" where
  "json_claims_ok c \<longleftrightarrow>
     list_all utf8_ok ([scIssuer c, scSubject c, scID c, scEmail c, scName c, scOIDCSub c]
       @ scAudience c @ scRoles c)
     \<and> json_date_ok (scExpiresAt c) \<and> json_date_ok (scNotBefore c) \<and> json_date_ok (scIssuedAt c)"

definition accepts_at :: "instant \<Rightarrow> string \<Rightarrow> SessionClaims \<Rightarrow> bool" where
  "accepts_at now iss c \<longleftrightarrow> scIssuer c = iss
     \<and> (case scExpiresAt c of None \<Rightarrow> False | Some e \<Rightarrow> now < e)
     \<and> (case scNotBefore c of None \<Rightarrow> True | Some b \<Rightarrow> b \<le> now)"

definition jwt_lawful :: "jwt_lib \<Rightarrow> bool" where
  "jwt_lawful J \<longleftrightarrow>
     (\<forall>m key c s now kf iss.
        j_SignedString J m key c = Inr s \<longrightarrow> json_claims_ok c \<longrightarrow> kf m = Inr key \<longrightarrow>
        j_ParseWithClaims J now s kf iss = (if accepts_at now iss c then Inr (c, True)
          else j_ParseWithClaims J now s kf iss)
        \<and> (\<forall>c' b. j_ParseWithClaims J now s kf iss = Inr (c', b) \<longrightarrow> c' = c))
     \<and> (\<forall>now s kf iss c b. j_ParseWithClaims J now s kf iss = Inr (c, b) \<longrightarrow>
          accepts_at now iss c \<and> (\<exists>m key. kf m = Inr key))"

lemma jwt_parses_back:
  assumes "jwt_lawful J" "j_SignedString J m key c = Inr s" "json_claims_ok c" "kf m = Inr key"
    and "accepts_at now iss c"
  shows "j_ParseWithClaims J now s kf iss = Inr (c, True)"
  using assms unfolding jwt_lawful_def by metis

lemma jwt_same_claims:
  assumes "jwt_lawful J" "j_SignedString J m key c = Inr s" "json_claims_ok c" "kf m = Inr key"
    and "j_ParseWithClaims J now s kf iss = Inr (c', b)"
  shows "c' = c"
  using assms unfolding jwt_lawful_def by metis

lemma jwt_checks:
  assumes "jwt_lawful J" "j_ParseWithClaims J now s kf iss = Inr (c, b)"
  shows "accepts_at now iss c"
  using assms unfolding jwt_lawful_def by metis

lemma Verify_accepts:
  assumes "jwt_lawful J" "Verify J secret now s = Inr c"
  shows "accepts_at now tokenIssuer c"
  using assms by (auto simp: Verify_def split: sum.splits if_splits dest: jwt_checks)

lemma NewNumericDate_bounds: "NewNumericDate t \<le> t" "t - 10 ^ 9 < NewNumericDate t"
  by (simp_all add: NewNumericDate_def)

lemma NewNumericDate_json:
  assumes "0 \<le> t" "t < 2 ^ 53 * 10 ^ 9"
  shows "json_date_ok (Some (NewNumericDate t))"
proof -
  have "t mod 10 ^ 9 \<le> t" using assms(1) by (simp add: zmod_le_nonneg_dividend)
  moreover have "(t - t mod 10 ^ 9) mod 10 ^ 9 = 0" by (simp add: minus_mod_eq_mult_div)
  moreover have "0 \<le> t mod 10 ^ 9" by simp
  ultimately show ?thesis using assms by (simp add: json_date_ok_def NewNumericDate_def)
qed

definition session_texts_ok :: "SessionClaims \<Rightarrow> bool" where
  "session_texts_ok c \<longleftrightarrow>
     list_all utf8_ok ([scSubject c, scEmail c, scName c, scOIDCSub c] @ scRoles c)"

lemma utf8_ok_Nil: "utf8_ok []"
  by (simp add: utf8_ok_def)

lemma issued_json:
  assumes "session_texts_ok c" "0 \<le> now" "now + tokenTTL < 2 ^ 53 * 10 ^ 9"
  shows "json_claims_ok (issued_claims now c)"
proof -
  have "utf8_ok tokenIssuer" by (simp add: tokenIssuer_def utf8_ok_ascii is_ascii_def)
  moreover have "json_date_ok (Some (NewNumericDate (now + tokenTTL)))"
    "json_date_ok (Some (NewNumericDate now))"
    using assms(2,3) by (auto intro!: NewNumericDate_json simp: tokenTTL_def)
  ultimately show ?thesis using assms(1)
    by (simp add: json_claims_ok_def issued_claims_def session_texts_ok_def utf8_ok_Nil)
      (simp add: json_date_ok_def)
qed

lemma issued_token:
  assumes "jwt_lawful J" and "session_texts_ok c" and "0 \<le> now" and "now + tokenTTL < 2 ^ 53 * 10 ^ 9"
    and issue: "Issue J secret now c = Inr s"
  shows "t < NewNumericDate (now + tokenTTL) \<Longrightarrow> Verify J secret t s = Inr (issued_claims now c)"
    and "Verify J secret t s = Inr x \<Longrightarrow> t < NewNumericDate (now + tokenTTL) \<and> x = issued_claims now c"
proof -
  have signed: "j_SignedString J SigningMethodHS256 secret (issued_claims now c) = Inr s"
    using issue by (simp add: Issue_def split: sum.splits)
  have key: "session_key secret SigningMethodHS256 = Inr secret"
    by (simp add: session_key_def SigningMethodHS256_def)
  note json = issued_json [OF assms(2-4)]
  have accepts: "accepts_at t tokenIssuer (issued_claims now c) \<longleftrightarrow> t < NewNumericDate (now + tokenTTL)"
    by (simp add: accepts_at_def issued_claims_def)
  show "Verify J secret t s = Inr (issued_claims now c)" if "t < NewNumericDate (now + tokenTTL)"
    using jwt_parses_back [where kf = "session_key secret", OF assms(1) signed json key] accepts that by (simp add: Verify_def)
  show "t < NewNumericDate (now + tokenTTL) \<and> x = issued_claims now c" if v: "Verify J secret t s = Inr x"
  proof -
    have "x = issued_claims now c"
      using v jwt_same_claims [where kf = "session_key secret", OF assms(1) signed json key]
      by (auto simp: Verify_def split: sum.splits if_splits)
    with Verify_accepts [OF assms(1) v] accepts show ?thesis by simp
  qed
qed

text \<open>
  C36: A session token issued for claims is accepted by Verify with the same secret at every
  time before its expiry, an hour after it was issued to the second, and at no later time, and
  what comes back is the subject, mail address, name, OIDC subject and roles it was issued for,
  under the issuer confero.
\<close>

theorem session_round_trip:
  assumes "jwt_lawful J" and "session_texts_ok c" and "0 \<le> now" and "now + tokenTTL < 2 ^ 53 * 10 ^ 9"
    and "Issue J secret now c = Inr s"
  shows "((\<exists>x. Verify J secret t s = Inr x) \<longleftrightarrow> t < NewNumericDate (now + tokenTTL))
    \<and> (\<forall>x. Verify J secret t s = Inr x \<longrightarrow>
         scSubject x = scSubject c \<and> scEmail x = scEmail c \<and> scName x = scName c
         \<and> scOIDCSub x = scOIDCSub c \<and> scRoles x = scRoles c \<and> scIssuer x = tokenIssuer)"
proof (intro conjI allI impI)
  show "(\<exists>x. Verify J secret t s = Inr x) \<longleftrightarrow> t < NewNumericDate (now + tokenTTL)"
    using issued_token [OF assms] by blast
next
  fix x assume "Verify J secret t s = Inr x"
  with issued_token(2) [OF assms] have "x = issued_claims now c" by blast
  then show "scSubject x = scSubject c" "scEmail x = scEmail c" "scName x = scName c"
    "scOIDCSub x = scOIDCSub c" "scRoles x = scRoles c" "scIssuer x = tokenIssuer"
    by (simp_all add: issued_claims_def)
qed

text \<open>A library that signs one set of claims.\<close>

definition sample_claims :: SessionClaims where
  "sample_claims = \<lparr>scIssuer = [], scSubject = ''1'', scAudience = [], scExpiresAt = None,
     scNotBefore = None, scIssuedAt = None, scID = [], scEmail = ''a@x'', scName = ''A'',
     scOIDCSub = ''s'', scRoles = [''member'']\<rparr>"

definition sample_jwt :: jwt_lib where
  "sample_jwt = \<lparr>
     j_SignedString = (\<lambda>m key c. if m = SigningMethodHS256 \<and> c = issued_claims 0 sample_claims
       then Inr ''token'' else Inl ''unsupported''),
     j_ParseWithClaims = (\<lambda>now s kf iss. let c = issued_claims 0 sample_claims in
       if s = ''token'' \<and> accepts_at now iss c
       then (case kf SigningMethodHS256 of Inl e \<Rightarrow> Inl ''key'' | Inr key \<Rightarrow> Inr (c, True))
       else Inl ''invalid'')\<rparr>"

lemma sample_jwt_lawful: "jwt_lawful sample_jwt"
  by (auto simp: jwt_lawful_def sample_jwt_def Let_def split: if_splits sum.splits)

lemma sample_session_texts: "session_texts_ok sample_claims"
  by (simp add: session_texts_ok_def sample_claims_def utf8_ok_ascii utf8_ok_Nil is_ascii_def)

theorem session_round_trip_witness:
  "(\<exists>x. Verify sample_jwt ''key'' 3599999999999 ''token'' = Inr x)
   \<and> \<not> (\<exists>x. Verify sample_jwt ''key'' 3600000000000 ''token'' = Inr x)"
proof -
  have "Issue sample_jwt ''key'' 0 sample_claims = Inr ''token''"
    by (simp add: Issue_def sample_jwt_def)
  then have "((\<exists>x. Verify sample_jwt ''key'' t ''token'' = Inr x) \<longleftrightarrow> t < NewNumericDate (0 + tokenTTL))" for t
    using session_round_trip [OF sample_jwt_lawful sample_session_texts, of 0 "''key''" "''token''" t]
    by (simp add: tokenTTL_def)
  then show ?thesis by (simp add: NewNumericDate_def tokenTTL_def)
qed

end
