(* ===== verification/Web.thy ===== *)
theory Web
  imports Sessions Api
begin

text \<open>
  Requests and replies, as the handlers see them.

  A request holds what the handlers read of it, a reply what they write: the status, headers,
  cookies and the body. A JSON body is kept as the value that is encoded, so a body says which
  type of the API it carries. Whether the encoder accepts a value is an argument where it
  matters: types of the OpenAPI runtime, such as the mail address of \<^verbatim>\<open>GET /me\<close>, check
  themselves when they are encoded.
\<close>

subsection \<open>Requests\<close>

text \<open>
  \<open>qCookie\<close> is \<^verbatim>\<open>r.Cookie\<close>, \<open>qQuery\<close> the first value of a query parameter if there is
  one, \<open>qURLParam\<close> \<^verbatim>\<open>chi.URLParam\<close>, and \<open>qClaims\<close> the session claims in the context.
\<close>

record request =
  qMethod :: string
  qCookie :: "string \<Rightarrow> string option"
  qQuery :: "string \<Rightarrow> string option"
  qURLParam :: "string \<Rightarrow> string"
  qIfNoneMatch :: "string list"
  qBody :: string
  qClaims :: "SessionClaims option"

definition Query_Get :: "request \<Rightarrow> string \<Rightarrow> string" where
  "Query_Get r k = (case qQuery r k of None \<Rightarrow> [] | Some v \<Rightarrow> v)"

subsection \<open>Replies\<close>

record ProblemDetail =
  pdDetail :: "string option"
  pdStatus :: "int option"
  pdTitle :: "string option"

record CurrentUser =
  cuEmail :: string
  cuId :: uuid
  cuName :: string
  cuRoles :: "string list"

datatype body =
    NoBody
  | PlainBody string
  | ProblemBody ProblemDetail
  | UserBody CurrentUser
  | ConferenceBody Conference
  | ConferencesBody "Conference list"
  | TagsBody "Tag list"
  | TracksBody "Track list"
  | SettingsBody UserSettings
  | TokenBody CalendarToken
  | TokensBody "CalendarToken list"
  | AuditBody "AuditEntry list"
  | ImportBody ImportResult
  | HealthBody string
  | CalendarBody string

record cookie =
  ckName :: string
  ckValue :: string
  ckPath :: string
  ckHttpOnly :: bool
  ckSecure :: bool
  ckSameSiteLax :: bool
  ckMaxAge :: int
  ckExpires :: "instant option"

text \<open>
  The status 0 is that of a handler that never wrote one; the server then sends 200, as
  \<open>status200\<close> has it.
\<close>

record reply =
  rpStatus :: int
  rpHeaders :: "(string \<times> string) list"
  rpCookies :: "cookie list"
  rpBody :: body

definition reply_with :: "int \<Rightarrow> string \<Rightarrow> body \<Rightarrow> reply" where
  "reply_with status ctype b =
     \<lparr>rpStatus = status, rpHeaders = [(''Content-Type'', ctype)], rpCookies = [], rpBody = b\<rparr>"

definition no_content :: "int \<Rightarrow> reply" where
  "no_content status = \<lparr>rpStatus = status, rpHeaders = [], rpCookies = [], rpBody = NoBody\<rparr>"

definition problem :: "int \<Rightarrow> string \<Rightarrow> string \<Rightarrow> ProblemDetail" where
  "problem status title detail =
     \<lparr>pdDetail = Some detail, pdStatus = Some status, pdTitle = Some title\<rparr>"

text \<open>\<^verbatim>\<open>http.Error\<close>, which keeps the cookies that were set before.\<close>

definition http_Error :: "string \<Rightarrow> int \<Rightarrow> reply" where
  "http_Error msg code =
     \<lparr>rpStatus = code,
      rpHeaders = [(''Content-Type'', ''text/plain; charset=utf-8''), (''X-Content-Type-Options'', ''nosniff'')],
      rpCookies = [], rpBody = PlainBody (msg @ LF)\<rparr>"

text \<open>
  \<^verbatim>\<open>http.Redirect\<close> with status 302 to a URL that is absolute or a clean absolute path: a
  short page follows when the request was a GET.
\<close>

definition html_quote :: "char \<Rightarrow> string" where
  "html_quote c =
     (if c = CHR ''&'' then ''&amp;'' else if c = CHR ''<'' then ''&lt;''
      else if c = CHR ''>'' then ''&gt;'' else if c = CHR 0x22 then ''&#34;''
      else if c = CHR 0x27 then ''&#39;'' else [c])"

definition http_Redirect :: "request \<Rightarrow> string \<Rightarrow> reply" where
  "http_Redirect r url =
     \<lparr>rpStatus = 302,
      rpHeaders = (''Location'', url) #
        (if qMethod r = ''GET'' \<or> qMethod r = ''HEAD'' then [(''Content-Type'', ''text/html; charset=utf-8'')] else []),
      rpCookies = [],
      rpBody = (if qMethod r = ''GET''
        then PlainBody (''<a href='' @ [CHR 0x22] @ concat (map html_quote url) @ [CHR 0x22]
          @ ''>Found</a>.'' @ LF @ LF) else NoBody)\<rparr>"

definition with_cookies :: "cookie list \<Rightarrow> reply \<Rightarrow> reply" where
  "with_cookies cs p = p\<lparr>rpCookies := cs @ rpCookies p\<rparr>"

definition success :: "reply \<Rightarrow> bool" where
  "success p \<longleftrightarrow> 200 \<le> rpStatus p \<and> rpStatus p < 300"

lemma reply_with_fields [simp]:
  "rpStatus (reply_with st ct b) = st" "rpBody (reply_with st ct b) = b"
  "rpCookies (reply_with st ct b) = []"
  by (simp_all add: reply_with_def)

lemma no_content_fields [simp]:
  "rpStatus (no_content st) = st" "rpBody (no_content st) = NoBody" "rpCookies (no_content st) = []"
  by (simp_all add: no_content_def)

lemma http_Error_fields [simp]:
  "rpStatus (http_Error m code) = code" "rpBody (http_Error m code) = PlainBody (m @ LF)"
  "rpCookies (http_Error m code) = []"
  by (simp_all add: http_Error_def)

lemma http_Redirect_fields [simp]:
  "rpStatus (http_Redirect r url) = 302" "rpCookies (http_Redirect r url) = []"
  by (simp_all add: http_Redirect_def)

lemma with_cookies_fields [simp]:
  "rpStatus (with_cookies cs p) = rpStatus p" "rpBody (with_cookies cs p) = rpBody p"
  "rpCookies (with_cookies cs p) = cs @ rpCookies p"
  by (simp_all add: with_cookies_def)

subsection \<open>Handlers\<close>

text \<open>
  A handler maps a request and the state to a reply and the next state. With the reply comes the
  entity that the handler has marked for the audit log, the content of the
  \<^verbatim>\<open>entityHolder\<close> in the context.
\<close>

type_synonym 's handler = "request \<Rightarrow> 's \<Rightarrow> (reply \<times> uuid option) \<times> 's"

definition writes :: "reply \<Rightarrow> 's handler" where
  "writes p r s = ((p, None), s)"

subsection \<open>Middleware\<close>

text \<open>\<^verbatim>\<open>auth/middleware.go\<close>\<close>

definition writeProblem :: "int \<Rightarrow> string \<Rightarrow> string \<Rightarrow> reply" where
  "writeProblem status title detail =
     reply_with status ''application/problem+json'' (ProblemBody (problem status title detail))"

definition writeUnauthorized :: "string \<Rightarrow> reply" where
  "writeUnauthorized detail = writeProblem 401 ''Unauthorized'' detail"

definition writeForbidden :: "string \<Rightarrow> reply" where
  "writeForbidden detail = writeProblem 403 ''Forbidden'' detail"

definition ClaimsFromContext :: "request \<Rightarrow> SessionClaims option" where
  "ClaimsFromContext r = qClaims r"

definition hasMemberRole :: "SessionClaims \<Rightarrow> bool" where
  "hasMemberRole c \<longleftrightarrow> list_ex (\<lambda>r. r = ''member'') (scRoles c)"

definition hasAdminRole :: "SessionClaims \<Rightarrow> bool" where
  "hasAdminRole c \<longleftrightarrow> list_ex (\<lambda>r. r = ''admin'') (scRoles c)"

definition RequireToken :: "jwt_lib \<Rightarrow> string \<Rightarrow> instant \<Rightarrow> 's handler \<Rightarrow> 's handler" where
  "RequireToken J secret now nxt r s =
     (case qCookie r cookieName of
        None \<Rightarrow> writes (writeUnauthorized ''authentication required'') r s
      | Some v \<Rightarrow>
          if v = [] then writes (writeUnauthorized ''authentication required'') r s
          else (case Verify J secret now v of
                  Inl e \<Rightarrow> writes (writeUnauthorized ''invalid or expired token'') r s
                | Inr claims \<Rightarrow> nxt (r\<lparr>qClaims := Some claims\<rparr>) s))"

definition RequireMember :: "'s handler \<Rightarrow> 's handler" where
  "RequireMember nxt r s =
     (case ClaimsFromContext r of
        None \<Rightarrow> writes (writeForbidden ''member role required'') r s
      | Some c \<Rightarrow> if hasMemberRole c then nxt r s
          else writes (writeForbidden ''member role required'') r s)"

definition RequireAdmin :: "'s handler \<Rightarrow> 's handler" where
  "RequireAdmin nxt r s =
     (case ClaimsFromContext r of
        None \<Rightarrow> writes (writeForbidden ''admin role required'') r s
      | Some c \<Rightarrow> if hasAdminRole c then nxt r s
          else writes (writeForbidden ''admin role required'') r s)"

lemma roles_iff: "hasMemberRole c \<longleftrightarrow> ''member'' \<in> set (scRoles c)" "hasAdminRole c \<longleftrightarrow> ''admin'' \<in> set (scRoles c)"
  by (auto simp: hasMemberRole_def hasAdminRole_def list_ex_iff)

text \<open>The session of a request: the claims of the token in its cookie.\<close>

definition session_of :: "jwt_lib \<Rightarrow> string \<Rightarrow> instant \<Rightarrow> request \<Rightarrow> SessionClaims option" where
  "session_of J secret now r =
     (case qCookie r cookieName of
        None \<Rightarrow> None
      | Some v \<Rightarrow> if v = [] then None
          else (case Verify J secret now v of Inl e \<Rightarrow> None | Inr c \<Rightarrow> Some c))"

lemma RequireToken_session:
  "RequireToken J secret now nxt r s =
     (case session_of J secret now r of
        Some c \<Rightarrow> nxt (r\<lparr>qClaims := Some c\<rparr>) s
      | None \<Rightarrow> ((writeUnauthorized (if qCookie r cookieName \<in> {None, Some []}
          then ''authentication required'' else ''invalid or expired token''), None), s))"
  by (auto simp: RequireToken_def session_of_def writes_def split: option.splits sum.splits)

lemma write_problem_fields [simp]:
  "rpStatus (writeUnauthorized d) = 401" "rpStatus (writeForbidden d) = 403"
  by (simp_all add: writeUnauthorized_def writeForbidden_def writeProblem_def)

end
