(* ===== verification/Api_Server.thy ===== *)
theory Api_Server
  imports Web
begin

text \<open>
  The responses of the generated server, \<^verbatim>\<open>api/api.gen.go\<close>: for each operation a
  datatype with the responses it can give, and its \<^verbatim>\<open>Visit\<close> methods, which write one. A JSON
  response is encoded before anything is written, so a value that cannot be encoded is an error
  and leaves the reply to the error handler.
\<close>

text \<open>The encoder: no error, or its message.\<close>

type_synonym encoder = "body \<Rightarrow> string option"

definition visit_json :: "encoder \<Rightarrow> int \<Rightarrow> string \<Rightarrow> body \<Rightarrow> err + reply" where
  "visit_json enc status ctype b =
     (case enc b of Some e \<Rightarrow> Inl (OtherErr e) | None \<Rightarrow> Inr (reply_with status ctype b))"

definition problem_json :: string where
  "problem_json = ''application/problem+json''"

text \<open>A calendar: its text with its length, and the two optional headers.\<close>

record calendar_response =
  crBody :: string
  crCacheControl :: "string option"
  crETag :: "string option"
  crContentLength :: int

definition opt_header :: "string \<Rightarrow> string option \<Rightarrow> (string \<times> string) list" where
  "opt_header name v = (case v of None \<Rightarrow> [] | Some x \<Rightarrow> [(name, x)])"

definition visit_calendar :: "calendar_response \<Rightarrow> reply" where
  "visit_calendar x =
     \<lparr>rpStatus = 200,
      rpHeaders = [(''Content-Type'', ''text/calendar'')]
        @ (if crContentLength x \<noteq> 0 then [(''Content-Length'', Itoa (crContentLength x))] else [])
        @ opt_header ''Cache-Control'' (crCacheControl x) @ opt_header ''ETag'' (crETag x),
      rpCookies = [], rpBody = CalendarBody (crBody x)\<rparr>"

subsection \<open>The responses\<close>

datatype ListAuditLogResponseObject =
    ListAuditLog200JSONResponse "AuditEntry list"
  | ListAuditLog401ApplicationProblemPlusJSONResponse ProblemDetail
  | ListAuditLog403ApplicationProblemPlusJSONResponse ProblemDetail

fun VisitListAuditLogResponse :: "encoder \<Rightarrow> ListAuditLogResponseObject \<Rightarrow> err + reply" where
  "VisitListAuditLogResponse enc (ListAuditLog200JSONResponse x) =
     visit_json enc 200 ''application/json'' (AuditBody x)"
| "VisitListAuditLogResponse enc (ListAuditLog401ApplicationProblemPlusJSONResponse p) =
     visit_json enc 401 problem_json (ProblemBody p)"
| "VisitListAuditLogResponse enc (ListAuditLog403ApplicationProblemPlusJSONResponse p) =
     visit_json enc 403 problem_json (ProblemBody p)"

datatype ListConferencesResponseObject =
    ListConferences200JSONResponse "Conference list"

fun VisitListConferencesResponse :: "encoder \<Rightarrow> ListConferencesResponseObject \<Rightarrow> err + reply" where
  "VisitListConferencesResponse enc (ListConferences200JSONResponse x) =
     visit_json enc 200 ''application/json'' (ConferencesBody x)"

datatype CreateConferenceResponseObject =
    CreateConference201JSONResponse Conference
  | CreateConference400ApplicationProblemPlusJSONResponse ProblemDetail
  | CreateConference401ApplicationProblemPlusJSONResponse ProblemDetail
  | CreateConference403ApplicationProblemPlusJSONResponse ProblemDetail
  | CreateConference409ApplicationProblemPlusJSONResponse ProblemDetail

fun VisitCreateConferenceResponse :: "encoder \<Rightarrow> CreateConferenceResponseObject \<Rightarrow> err + reply" where
  "VisitCreateConferenceResponse enc (CreateConference201JSONResponse x) =
     visit_json enc 201 ''application/json'' (ConferenceBody x)"
| "VisitCreateConferenceResponse enc (CreateConference400ApplicationProblemPlusJSONResponse p) =
     visit_json enc 400 problem_json (ProblemBody p)"
| "VisitCreateConferenceResponse enc (CreateConference401ApplicationProblemPlusJSONResponse p) =
     visit_json enc 401 problem_json (ProblemBody p)"
| "VisitCreateConferenceResponse enc (CreateConference403ApplicationProblemPlusJSONResponse p) =
     visit_json enc 403 problem_json (ProblemBody p)"
| "VisitCreateConferenceResponse enc (CreateConference409ApplicationProblemPlusJSONResponse p) =
     visit_json enc 409 problem_json (ProblemBody p)"

datatype DeleteConferenceResponseObject =
    DeleteConference204Response
  | DeleteConference401ApplicationProblemPlusJSONResponse ProblemDetail
  | DeleteConference403ApplicationProblemPlusJSONResponse ProblemDetail
  | DeleteConference404ApplicationProblemPlusJSONResponse ProblemDetail

fun VisitDeleteConferenceResponse :: "encoder \<Rightarrow> DeleteConferenceResponseObject \<Rightarrow> err + reply" where
  "VisitDeleteConferenceResponse enc DeleteConference204Response = Inr (no_content 204)"
| "VisitDeleteConferenceResponse enc (DeleteConference401ApplicationProblemPlusJSONResponse p) =
     visit_json enc 401 problem_json (ProblemBody p)"
| "VisitDeleteConferenceResponse enc (DeleteConference403ApplicationProblemPlusJSONResponse p) =
     visit_json enc 403 problem_json (ProblemBody p)"
| "VisitDeleteConferenceResponse enc (DeleteConference404ApplicationProblemPlusJSONResponse p) =
     visit_json enc 404 problem_json (ProblemBody p)"

datatype GetConferenceResponseObject =
    GetConference200JSONResponse Conference
  | GetConference404ApplicationProblemPlusJSONResponse ProblemDetail

fun VisitGetConferenceResponse :: "encoder \<Rightarrow> GetConferenceResponseObject \<Rightarrow> err + reply" where
  "VisitGetConferenceResponse enc (GetConference200JSONResponse x) =
     visit_json enc 200 ''application/json'' (ConferenceBody x)"
| "VisitGetConferenceResponse enc (GetConference404ApplicationProblemPlusJSONResponse p) =
     visit_json enc 404 problem_json (ProblemBody p)"

datatype UpdateConferenceResponseObject =
    UpdateConference200JSONResponse Conference
  | UpdateConference400ApplicationProblemPlusJSONResponse ProblemDetail
  | UpdateConference401ApplicationProblemPlusJSONResponse ProblemDetail
  | UpdateConference403ApplicationProblemPlusJSONResponse ProblemDetail
  | UpdateConference404ApplicationProblemPlusJSONResponse ProblemDetail
  | UpdateConference409ApplicationProblemPlusJSONResponse ProblemDetail

fun VisitUpdateConferenceResponse :: "encoder \<Rightarrow> UpdateConferenceResponseObject \<Rightarrow> err + reply" where
  "VisitUpdateConferenceResponse enc (UpdateConference200JSONResponse x) =
     visit_json enc 200 ''application/json'' (ConferenceBody x)"
| "VisitUpdateConferenceResponse enc (UpdateConference400ApplicationProblemPlusJSONResponse p) =
     visit_json enc 400 problem_json (ProblemBody p)"
| "VisitUpdateConferenceResponse enc (UpdateConference401ApplicationProblemPlusJSONResponse p) =
     visit_json enc 401 problem_json (ProblemBody p)"
| "VisitUpdateConferenceResponse enc (UpdateConference403ApplicationProblemPlusJSONResponse p) =
     visit_json enc 403 problem_json (ProblemBody p)"
| "VisitUpdateConferenceResponse enc (UpdateConference404ApplicationProblemPlusJSONResponse p) =
     visit_json enc 404 problem_json (ProblemBody p)"
| "VisitUpdateConferenceResponse enc (UpdateConference409ApplicationProblemPlusJSONResponse p) =
     visit_json enc 409 problem_json (ProblemBody p)"

datatype ArchiveConferenceResponseObject =
    ArchiveConference200JSONResponse Conference
  | ArchiveConference401ApplicationProblemPlusJSONResponse ProblemDetail
  | ArchiveConference403ApplicationProblemPlusJSONResponse ProblemDetail
  | ArchiveConference404ApplicationProblemPlusJSONResponse ProblemDetail

fun VisitArchiveConferenceResponse :: "encoder \<Rightarrow> ArchiveConferenceResponseObject \<Rightarrow> err + reply" where
  "VisitArchiveConferenceResponse enc (ArchiveConference200JSONResponse x) =
     visit_json enc 200 ''application/json'' (ConferenceBody x)"
| "VisitArchiveConferenceResponse enc (ArchiveConference401ApplicationProblemPlusJSONResponse p) =
     visit_json enc 401 problem_json (ProblemBody p)"
| "VisitArchiveConferenceResponse enc (ArchiveConference403ApplicationProblemPlusJSONResponse p) =
     visit_json enc 403 problem_json (ProblemBody p)"
| "VisitArchiveConferenceResponse enc (ArchiveConference404ApplicationProblemPlusJSONResponse p) =
     visit_json enc 404 problem_json (ProblemBody p)"

datatype UnstarConferenceResponseObject =
    UnstarConference204Response
  | UnstarConference401ApplicationProblemPlusJSONResponse ProblemDetail
  | UnstarConference403ApplicationProblemPlusJSONResponse ProblemDetail
  | UnstarConference404ApplicationProblemPlusJSONResponse ProblemDetail

fun VisitUnstarConferenceResponse :: "encoder \<Rightarrow> UnstarConferenceResponseObject \<Rightarrow> err + reply" where
  "VisitUnstarConferenceResponse enc UnstarConference204Response = Inr (no_content 204)"
| "VisitUnstarConferenceResponse enc (UnstarConference401ApplicationProblemPlusJSONResponse p) =
     visit_json enc 401 problem_json (ProblemBody p)"
| "VisitUnstarConferenceResponse enc (UnstarConference403ApplicationProblemPlusJSONResponse p) =
     visit_json enc 403 problem_json (ProblemBody p)"
| "VisitUnstarConferenceResponse enc (UnstarConference404ApplicationProblemPlusJSONResponse p) =
     visit_json enc 404 problem_json (ProblemBody p)"

datatype StarConferenceResponseObject =
    StarConference204Response
  | StarConference401ApplicationProblemPlusJSONResponse ProblemDetail
  | StarConference403ApplicationProblemPlusJSONResponse ProblemDetail
  | StarConference404ApplicationProblemPlusJSONResponse ProblemDetail

fun VisitStarConferenceResponse :: "encoder \<Rightarrow> StarConferenceResponseObject \<Rightarrow> err + reply" where
  "VisitStarConferenceResponse enc StarConference204Response = Inr (no_content 204)"
| "VisitStarConferenceResponse enc (StarConference401ApplicationProblemPlusJSONResponse p) =
     visit_json enc 401 problem_json (ProblemBody p)"
| "VisitStarConferenceResponse enc (StarConference403ApplicationProblemPlusJSONResponse p) =
     visit_json enc 403 problem_json (ProblemBody p)"
| "VisitStarConferenceResponse enc (StarConference404ApplicationProblemPlusJSONResponse p) =
     visit_json enc 404 problem_json (ProblemBody p)"

datatype UnarchiveConferenceResponseObject =
    UnarchiveConference200JSONResponse Conference
  | UnarchiveConference401ApplicationProblemPlusJSONResponse ProblemDetail
  | UnarchiveConference403ApplicationProblemPlusJSONResponse ProblemDetail
  | UnarchiveConference404ApplicationProblemPlusJSONResponse ProblemDetail

fun VisitUnarchiveConferenceResponse :: "encoder \<Rightarrow> UnarchiveConferenceResponseObject \<Rightarrow> err + reply" where
  "VisitUnarchiveConferenceResponse enc (UnarchiveConference200JSONResponse x) =
     visit_json enc 200 ''application/json'' (ConferenceBody x)"
| "VisitUnarchiveConferenceResponse enc (UnarchiveConference401ApplicationProblemPlusJSONResponse p) =
     visit_json enc 401 problem_json (ProblemBody p)"
| "VisitUnarchiveConferenceResponse enc (UnarchiveConference403ApplicationProblemPlusJSONResponse p) =
     visit_json enc 403 problem_json (ProblemBody p)"
| "VisitUnarchiveConferenceResponse enc (UnarchiveConference404ApplicationProblemPlusJSONResponse p) =
     visit_json enc 404 problem_json (ProblemBody p)"

datatype ImportConferencesResponseObject =
    ImportConferences200JSONResponse ImportResult
  | ImportConferences400ApplicationProblemPlusJSONResponse ProblemDetail
  | ImportConferences401ApplicationProblemPlusJSONResponse ProblemDetail
  | ImportConferences403ApplicationProblemPlusJSONResponse ProblemDetail

fun VisitImportConferencesResponse :: "encoder \<Rightarrow> ImportConferencesResponseObject \<Rightarrow> err + reply" where
  "VisitImportConferencesResponse enc (ImportConferences200JSONResponse x) =
     visit_json enc 200 ''application/json'' (ImportBody x)"
| "VisitImportConferencesResponse enc (ImportConferences400ApplicationProblemPlusJSONResponse p) =
     visit_json enc 400 problem_json (ProblemBody p)"
| "VisitImportConferencesResponse enc (ImportConferences401ApplicationProblemPlusJSONResponse p) =
     visit_json enc 401 problem_json (ProblemBody p)"
| "VisitImportConferencesResponse enc (ImportConferences403ApplicationProblemPlusJSONResponse p) =
     visit_json enc 403 problem_json (ProblemBody p)"

datatype GetMeResponseObject =
    GetMe200JSONResponse CurrentUser
  | GetMe401ApplicationProblemPlusJSONResponse ProblemDetail

fun VisitGetMeResponse :: "encoder \<Rightarrow> GetMeResponseObject \<Rightarrow> err + reply" where
  "VisitGetMeResponse enc (GetMe200JSONResponse x) =
     visit_json enc 200 ''application/json'' (UserBody x)"
| "VisitGetMeResponse enc (GetMe401ApplicationProblemPlusJSONResponse p) =
     visit_json enc 401 problem_json (ProblemBody p)"

datatype DeleteCalendarTokenResponseObject =
    DeleteCalendarToken204Response
  | DeleteCalendarToken401ApplicationProblemPlusJSONResponse ProblemDetail
  | DeleteCalendarToken404ApplicationProblemPlusJSONResponse ProblemDetail

fun VisitDeleteCalendarTokenResponse :: "encoder \<Rightarrow> DeleteCalendarTokenResponseObject \<Rightarrow> err + reply" where
  "VisitDeleteCalendarTokenResponse enc DeleteCalendarToken204Response = Inr (no_content 204)"
| "VisitDeleteCalendarTokenResponse enc (DeleteCalendarToken401ApplicationProblemPlusJSONResponse p) =
     visit_json enc 401 problem_json (ProblemBody p)"
| "VisitDeleteCalendarTokenResponse enc (DeleteCalendarToken404ApplicationProblemPlusJSONResponse p) =
     visit_json enc 404 problem_json (ProblemBody p)"

datatype ListMyCalendarTokensResponseObject =
    ListMyCalendarTokens200JSONResponse "CalendarToken list"
  | ListMyCalendarTokens401ApplicationProblemPlusJSONResponse ProblemDetail

fun VisitListMyCalendarTokensResponse :: "encoder \<Rightarrow> ListMyCalendarTokensResponseObject \<Rightarrow> err + reply" where
  "VisitListMyCalendarTokensResponse enc (ListMyCalendarTokens200JSONResponse x) =
     visit_json enc 200 ''application/json'' (TokensBody x)"
| "VisitListMyCalendarTokensResponse enc (ListMyCalendarTokens401ApplicationProblemPlusJSONResponse p) =
     visit_json enc 401 problem_json (ProblemBody p)"

datatype CreateCalendarTokenResponseObject =
    CreateCalendarToken201JSONResponse CalendarToken
  | CreateCalendarToken401ApplicationProblemPlusJSONResponse ProblemDetail

fun VisitCreateCalendarTokenResponse :: "encoder \<Rightarrow> CreateCalendarTokenResponseObject \<Rightarrow> err + reply" where
  "VisitCreateCalendarTokenResponse enc (CreateCalendarToken201JSONResponse x) =
     visit_json enc 201 ''application/json'' (TokenBody x)"
| "VisitCreateCalendarTokenResponse enc (CreateCalendarToken401ApplicationProblemPlusJSONResponse p) =
     visit_json enc 401 problem_json (ProblemBody p)"

datatype GetMySettingsResponseObject =
    GetMySettings200JSONResponse UserSettings
  | GetMySettings401ApplicationProblemPlusJSONResponse ProblemDetail

fun VisitGetMySettingsResponse :: "encoder \<Rightarrow> GetMySettingsResponseObject \<Rightarrow> err + reply" where
  "VisitGetMySettingsResponse enc (GetMySettings200JSONResponse x) =
     visit_json enc 200 ''application/json'' (SettingsBody x)"
| "VisitGetMySettingsResponse enc (GetMySettings401ApplicationProblemPlusJSONResponse p) =
     visit_json enc 401 problem_json (ProblemBody p)"

datatype UpdateMySettingsResponseObject =
    UpdateMySettings200JSONResponse UserSettings
  | UpdateMySettings400ApplicationProblemPlusJSONResponse ProblemDetail
  | UpdateMySettings401ApplicationProblemPlusJSONResponse ProblemDetail

fun VisitUpdateMySettingsResponse :: "encoder \<Rightarrow> UpdateMySettingsResponseObject \<Rightarrow> err + reply" where
  "VisitUpdateMySettingsResponse enc (UpdateMySettings200JSONResponse x) =
     visit_json enc 200 ''application/json'' (SettingsBody x)"
| "VisitUpdateMySettingsResponse enc (UpdateMySettings400ApplicationProblemPlusJSONResponse p) =
     visit_json enc 400 problem_json (ProblemBody p)"
| "VisitUpdateMySettingsResponse enc (UpdateMySettings401ApplicationProblemPlusJSONResponse p) =
     visit_json enc 401 problem_json (ProblemBody p)"

datatype ListMyStarsResponseObject =
    ListMyStars200JSONResponse "Conference list"
  | ListMyStars401ApplicationProblemPlusJSONResponse ProblemDetail

fun VisitListMyStarsResponse :: "encoder \<Rightarrow> ListMyStarsResponseObject \<Rightarrow> err + reply" where
  "VisitListMyStarsResponse enc (ListMyStars200JSONResponse x) =
     visit_json enc 200 ''application/json'' (ConferencesBody x)"
| "VisitListMyStarsResponse enc (ListMyStars401ApplicationProblemPlusJSONResponse p) =
     visit_json enc 401 problem_json (ProblemBody p)"

datatype ListTagsResponseObject =
    ListTags200JSONResponse "Tag list"
  | ListTags401ApplicationProblemPlusJSONResponse ProblemDetail

fun VisitListTagsResponse :: "encoder \<Rightarrow> ListTagsResponseObject \<Rightarrow> err + reply" where
  "VisitListTagsResponse enc (ListTags200JSONResponse x) =
     visit_json enc 200 ''application/json'' (TagsBody x)"
| "VisitListTagsResponse enc (ListTags401ApplicationProblemPlusJSONResponse p) =
     visit_json enc 401 problem_json (ProblemBody p)"

datatype ListTracksResponseObject =
    ListTracks200JSONResponse "Track list"
  | ListTracks401ApplicationProblemPlusJSONResponse ProblemDetail

fun VisitListTracksResponse :: "encoder \<Rightarrow> ListTracksResponseObject \<Rightarrow> err + reply" where
  "VisitListTracksResponse enc (ListTracks200JSONResponse x) =
     visit_json enc 200 ''application/json'' (TracksBody x)"
| "VisitListTracksResponse enc (ListTracks401ApplicationProblemPlusJSONResponse p) =
     visit_json enc 401 problem_json (ProblemBody p)"

datatype GetPublicCalendarResponseObject =
    GetPublicCalendar200TextcalendarResponse calendar_response
  | GetPublicCalendar304Response

fun VisitGetPublicCalendarResponse :: "encoder \<Rightarrow> GetPublicCalendarResponseObject \<Rightarrow> err + reply" where
  "VisitGetPublicCalendarResponse enc (GetPublicCalendar200TextcalendarResponse x) = Inr (visit_calendar x)"
| "VisitGetPublicCalendarResponse enc GetPublicCalendar304Response = Inr (no_content 304)"

datatype GetPersonalCalendarResponseObject =
    GetPersonalCalendar200TextcalendarResponse calendar_response
  | GetPersonalCalendar304Response
  | GetPersonalCalendar404ApplicationProblemPlusJSONResponse ProblemDetail

fun VisitGetPersonalCalendarResponse :: "encoder \<Rightarrow> GetPersonalCalendarResponseObject \<Rightarrow> err + reply" where
  "VisitGetPersonalCalendarResponse enc (GetPersonalCalendar200TextcalendarResponse x) = Inr (visit_calendar x)"
| "VisitGetPersonalCalendarResponse enc GetPersonalCalendar304Response = Inr (no_content 304)"
| "VisitGetPersonalCalendarResponse enc (GetPersonalCalendar404ApplicationProblemPlusJSONResponse p) =
     visit_json enc 404 problem_json (ProblemBody p)"

datatype GetHealthResponseObject =
    GetHealth200JSONResponse string

fun VisitGetHealthResponse :: "encoder \<Rightarrow> GetHealthResponseObject \<Rightarrow> err + reply" where
  "VisitGetHealthResponse enc (GetHealth200JSONResponse x) =
     visit_json enc 200 ''application/json'' (HealthBody x)"

subsection \<open>Errors of the parameters\<close>

definition RequiredParamError_msg :: "string \<Rightarrow> string" where
  "RequiredParamError_msg name = ''Query argument '' @ name @ '' is required, but not found''"

definition InvalidParamFormatError_msg :: "string \<Rightarrow> string \<Rightarrow> string" where
  "InvalidParamFormatError_msg name e = ''Invalid format for parameter '' @ name @ '': '' @ e"

definition TooManyValuesForParamError_msg :: "string \<Rightarrow> nat \<Rightarrow> string" where
  "TooManyValuesForParamError_msg name n =
     ''Expected one value for '' @ name @ '', got '' @ Itoa (int n)"

lemma visit_json_Inr: "visit_json enc st ct b = Inr p \<Longrightarrow> rpStatus p = st \<and> rpBody p = b \<and> rpCookies p = []"
  by (auto simp: visit_json_def split: option.splits)

end
