(* ===== verification/Feeds.thy ===== *)
theory Feeds
  imports Ical Calendar_Tokens "HOL-Library.Multiset"
begin

text \<open>
  The calendar feeds (\<^verbatim>\<open>server/internal/calendar/feeds.go\<close>): the events of a conference and
  the public and the personal feed. The lemmas show which events a feed has, that their UIDs are
  distinct and that they end after they start, and that a feed reads back as its events.
\<close>

subsection \<open>Events\<close>

definition prodID :: string where
  "prodID = ''-//Confero//Conference Tracker//EN''"

definition derefStr :: "string option \<Rightarrow> string" where
  "derefStr s = (case s of None \<Rightarrow> [] | Some x \<Rightarrow> x)"

definition uid :: "env \<Rightarrow> uuid \<Rightarrow> string \<Rightarrow> string" where
  "uid env i kind = e_uuid_str env i @ '':'' @ kind @ ''@confero''"

definition deadlineEvent :: "env \<Rightarrow> uuid \<Rightarrow> string \<Rightarrow> string \<Rightarrow> string \<Rightarrow> instant \<Rightarrow> Event" where
  "deadlineEvent env i confName label kind t = \<lparr>
     evUID = uid env i kind, evSummary = confName @ '': '' @ label, evDescription = [], evLocation = [],
     evURL = [], evDTStart = t, evDTEnd = t + 15 * minute, evAllDay = False\<rparr>"

definition dates_event :: "env \<Rightarrow> conference \<Rightarrow> instant \<Rightarrow> instant \<Rightarrow> Event" where
  "dates_event env c start fin = \<lparr>
     evUID = uid env (cID c) ''dates'', evSummary = cName c, evDescription = [], evLocation = cLocation c,
     evURL = derefStr (cWebsiteUrl c), evDTStart = start, evDTEnd = AddDate UTC fin 0 0 1, evAllDay = True\<rparr>"

definition opt_event :: "(instant \<Rightarrow> Event) \<Rightarrow> instant option \<Rightarrow> Event list" where
  "opt_event f t = (case t of None \<Rightarrow> [] | Some t \<Rightarrow> [f t])"

definition eventsForConference :: "env \<Rightarrow> conference \<Rightarrow> Event list" where
  "eventsForConference env c =
     (case (cEventStartDate c, cEventEndDate c) of
        (Some start, Some fin) \<Rightarrow> [dates_event env c start fin] | _ \<Rightarrow> [])
     @ opt_event (deadlineEvent env (cID c) (cName c) ''Submission Deadline'' ''submission'') (cPrimaryDeadline c)
     @ opt_event (deadlineEvent env (cID c) (cName c) ''Abstract Deadline'' ''abstract'') (cAbstractDeadline c)
     @ opt_event (deadlineEvent env (cID c) (cName c) ''Author Notification'' ''notification'') (cNotificationDate c)
     @ opt_event (deadlineEvent env (cID c) (cName c) ''Camera-Ready Deadline'' ''camera-ready'') (cCameraReadyDate c)"

definition feed_calendar :: "env \<Rightarrow> conference list \<Rightarrow> Calendar" where
  "feed_calendar env cs =
     \<lparr>calProdID = prodID, calVersion = ''2.0'', calEvents = concat (map (eventsForConference env) cs)\<rparr>"

subsection \<open>The feeds\<close>

definition BuildPublicFeed :: "env \<Rightarrow> 'm conn_scheme \<Rightarrow> (err + string) \<times> 'm conn_scheme" where
  "BuildPublicFeed env =
     andthen (on_err (Wrapf ''list conferences'' \<circ> Pg) (exec Pool (ListConferences env
         \<lparr>lpIncludeArchived = None, lpTagSlug = None, lpTrackCode = None, lpSearch = None\<rparr>)))
       (\<lambda>confs. ret (Encode (feed_calendar env confs)))"

definition BuildPersonalFeed :: "env \<Rightarrow> uuid \<Rightarrow> 'm conn_scheme \<Rightarrow> (err + string) \<times> 'm conn_scheme" where
  "BuildPersonalFeed env userID =
     andthen (on_err (Wrapf ''list starred conferences'' \<circ> Pg) (exec Pool (ListUserStarredConferences env userID)))
       (\<lambda>confs. ret (Encode (feed_calendar env confs)))"

lemma feeds_read_only: "evolves (=) (BuildPublicFeed env)" "evolves (=) (BuildPersonalFeed env u)"
  unfolding BuildPublicFeed_def BuildPersonalFeed_def
  by (intro same.out_rules same.out_exec same.step_of_reads conference_reads_only)+

lemma list_where_public:
  "list_where env d \<lparr>lpIncludeArchived = None, lpTagSlug = None, lpTrackCode = None, lpSearch = None\<rparr>
   = (\<lambda>c. cArchivedAt c = None)"
  by (simp add: list_where_def fun_eq_iff)

lemma BuildPublicFeed_post:
  "out_post (BuildPublicFeed env) d (\<lambda>body d'. d' = d \<and>
     body = Encode (feed_calendar env (sort_key (deadline_key env) (filter (\<lambda>c. cArchivedAt c = None) (conferences d)))))"
  unfolding BuildPublicFeed_def
  by (intro out_post_andthen out_post_on_err out_post_exec)
    (auto simp: ListConferences_def with_texts_Inr_iff rows_Inr_iff list_where_public intro!: out_post_ret)

lemma BuildPersonalFeed_post:
  "out_post (BuildPersonalFeed env u) d (\<lambda>body d'. d' = d \<and>
     body = Encode (feed_calendar env (sort_key (deadline_key env)
       (filter (\<lambda>c. (u, cID c) \<in> set (map star_key (stars d))) (conferences d)))))"
  unfolding BuildPersonalFeed_def
  by (intro out_post_andthen out_post_on_err out_post_exec)
    (auto simp: ListUserStarredConferences_def rows_Inr_iff intro!: out_post_ret)

subsection \<open>The events of a conference\<close>

lemma AddDate_next_day: "AddDate UTC t 0 0 1 = t + 86400 * second"
proof -
  have "(unix t div day_secs + 1) * day_secs + unix t mod day_secs = unix t + day_secs"
    using div_mult_mod_eq [of "unix t" day_secs] by (simp add: distrib_right)
  then have "AddDate UTC t 0 0 1 = (unix t + day_secs) * second + nsec_of t"
    by (simp add: AddDate_days clock_in_def)
  also have "\<dots> = (unix t * second + nsec_of t) + day_secs * second" by (simp add: distrib_right)
  also have "unix t * second + nsec_of t = t" by (simp add: unix_def nsec_of_def)
  finally show ?thesis by (simp add: day_secs_def)
qed

lemma event_cases:
  assumes "e \<in> set (eventsForConference env c)"
  obtains (dates) start fin where "cEventStartDate c = Some start" "cEventEndDate c = Some fin" "e = dates_event env c start fin"
  | (deadline) label kind t where "e = deadlineEvent env (cID c) (cName c) label kind t"
      "is_ascii label" "is_ascii kind" "CHR 0x0A \<notin> set label" "CHR 0x0A \<notin> set kind"
proof -
  let ?d = "deadlineEvent env (cID c) (cName c)"
  have "(\<exists>start fin. cEventStartDate c = Some start \<and> cEventEndDate c = Some fin \<and> e = dates_event env c start fin)
    \<or> (\<exists>t. e = ?d ''Submission Deadline'' ''submission'' t) \<or> (\<exists>t. e = ?d ''Abstract Deadline'' ''abstract'' t)
    \<or> (\<exists>t. e = ?d ''Author Notification'' ''notification'' t) \<or> (\<exists>t. e = ?d ''Camera-Ready Deadline'' ''camera-ready'' t)"
    using assms
    by (cases "cEventStartDate c"; cases "cEventEndDate c")
      (auto simp: eventsForConference_def opt_event_def split: option.splits)
  then show ?thesis by (elim disjE exE conjE) (erule dates deadline; simp add: is_ascii_def)+
qed

lemma event_interval:
  assumes "e \<in> set (eventsForConference env c)" and "conference_check c = None"
  shows "evDTStart e < evDTEnd e"
  using assms(1)
proof (cases rule: event_cases)
  case (dates start fin)
  then have "start \<le> fin" using assms(2) by (auto simp: conference_check_def le_opt_def split: if_splits)
  then show ?thesis using dates by (simp add: dates_event_def AddDate_next_day second_def)
next
  case deadline
  then show ?thesis by (simp add: deadlineEvent_def minute_def second_def)
qed

definition uid_kinds :: "Event list \<Rightarrow> env \<Rightarrow> uuid \<Rightarrow> bool" where
  "uid_kinds es env i \<longleftrightarrow> (\<exists>kinds. map evUID es = map (uid env i) kinds \<and> distinct kinds)"

lemma event_uids: "\<exists>kinds. map evUID (eventsForConference env c) = map (uid env (cID c)) kinds \<and> distinct kinds"
proof -
  let ?k = "\<lambda>t n. case t of None \<Rightarrow> [] | Some (_ :: instant) \<Rightarrow> [n]"
  let ?kinds = "(case (cEventStartDate c, cEventEndDate c) of (Some _, Some _) \<Rightarrow> [''dates''] | _ \<Rightarrow> [])
     @ ?k (cPrimaryDeadline c) ''submission'' @ ?k (cAbstractDeadline c) ''abstract''
     @ ?k (cNotificationDate c) ''notification'' @ ?k (cCameraReadyDate c) ''camera-ready''"
  have "map evUID (eventsForConference env c) = map (uid env (cID c)) ?kinds"
    by (simp add: eventsForConference_def opt_event_def dates_event_def deadlineEvent_def split: option.split)
  moreover have "distinct ?kinds" by (simp split: option.split)
  ultimately show ?thesis by blast
qed

text \<open>The text form of a UUID: one for each, and without a colon.\<close>

definition uuid_text_ok :: "env \<Rightarrow> bool" where
  "uuid_text_ok env \<longleftrightarrow> inj (e_uuid_str env) \<and> (\<forall>i. CHR '':'' \<notin> set (e_uuid_str env i))"

lemma uid_inj:
  assumes "uuid_text_ok env"
  shows "uid env i k = uid env j l \<longleftrightarrow> i = j \<and> k = l"
proof
  assume eq: "uid env i k = uid env j l"
  have "takeWhile (\<lambda>c. c \<noteq> CHR '':'') (uid env n m) = e_uuid_str env n" for n m
  proof -
    have "\<forall>c \<in> set (e_uuid_str env n). c \<noteq> CHR '':''" using assms by (auto simp: uuid_text_ok_def)
    then show ?thesis by (simp add: uid_def)
  qed
  then have "e_uuid_str env i = e_uuid_str env j" using eq by metis
  then have "i = j" using assms by (simp add: uuid_text_ok_def inj_eq)
  with eq show "i = j \<and> k = l" by (simp add: uid_def)
qed simp

lemma feed_uids_aux:
  assumes "uuid_text_ok env" and "distinct (map cID cs)"
  shows "distinct (map evUID (concat (map (eventsForConference env) cs)))"
  using assms(2)
proof (induction cs)
  case (Cons c cs)
  obtain kinds where kinds: "map evUID (eventsForConference env c) = map (uid env (cID c)) kinds" "distinct kinds"
    using event_uids by blast
  have "inj_on (uid env (cID c)) (set kinds)" using uid_inj [OF assms(1)] by (auto simp: inj_on_def)
  then have "distinct (map evUID (eventsForConference env c))" using kinds by (simp add: distinct_map)
  moreover have "set (map evUID (eventsForConference env c)) \<inter> set (map evUID (concat (map (eventsForConference env) cs))) = {}"
  proof (rule ccontr)
    assume "\<not> ?thesis"
    then obtain u d where d: "d \<in> set cs" "u \<in> set (map evUID (eventsForConference env d))"
        and u: "u \<in> set (map evUID (eventsForConference env c))" by auto
    from u have "u \<in> uid env (cID c) ` set kinds" using kinds(1) by (metis list.set_map)
    moreover obtain ks where "map evUID (eventsForConference env d) = map (uid env (cID d)) ks" using event_uids by blast
    then have "u \<in> uid env (cID d) ` set ks" using d(2) by (metis list.set_map)
    ultimately have "cID c = cID d" using uid_inj [OF assms(1)] by auto
    with Cons.prems d(1) show False by auto
  qed
  ultimately show ?case using Cons by (simp add: distinct_append)
qed simp

subsection \<open>Properties\<close>

text \<open>The texts that a feed takes from a conference: UTF-8, and no line feed in the address, which is not escaped.\<close>

definition feed_texts_ok :: "env \<Rightarrow> conference \<Rightarrow> bool" where
  "feed_texts_ok env c \<longleftrightarrow> utf8_ok (cName c) \<and> utf8_ok (cLocation c)
     \<and> plain_text (derefStr (cWebsiteUrl c)) \<and> plain_text (e_uuid_str env (cID c))"

lemma plain_ascii_append: "plain_text s \<Longrightarrow> is_ascii a \<Longrightarrow> CHR 0x0A \<notin> set a \<Longrightarrow> plain_text (s @ a)"
  by (simp add: plain_text_append plain_text_ascii)

lemma plain_uid:
  assumes "plain_text (e_uuid_str env i)" and "is_ascii k" and "CHR 0x0A \<notin> set k"
  shows "plain_text (uid env i k)"
  unfolding uid_def by (rule plain_ascii_append) (use assms in \<open>auto simp: is_ascii_def\<close>)

lemma events_ok:
  assumes "feed_texts_ok env c" and "e \<in> set (eventsForConference env c)"
  shows "event_ok e"
  using assms(2)
proof (cases rule: event_cases)
  case (dates start fin)
  have "plain_text (uid env (cID c) ''dates'')"
    by (rule plain_uid) (use assms(1) in \<open>simp_all add: feed_texts_ok_def is_ascii_def\<close>)
  then show ?thesis using assms(1) dates
    by (simp add: event_ok_def dates_event_def feed_texts_ok_def utf8_ok_ascii is_ascii_def)
next
  case (deadline label kind t)
  have "plain_text (uid env (cID c) kind)"
    by (rule plain_uid) (use assms(1) deadline in \<open>simp_all add: feed_texts_ok_def\<close>)
  moreover have "utf8_ok ('': '' @ label)"
    by (rule utf8_ok_ascii) (use deadline in \<open>simp add: is_ascii_def\<close>)
  then have "utf8_ok (cName c @ '': '' @ label)"
    using assms(1) utf8_ok_append [of "cName c"] by (simp add: feed_texts_ok_def)
  ultimately show ?thesis using deadline
    by (simp add: event_ok_def deadlineEvent_def plain_text_ascii utf8_ok_ascii is_ascii_def)
qed

lemma plain_prodID: "plain_text prodID"
  by (rule plain_text_ascii) (simp_all add: prodID_def is_ascii_def)

lemma feed_calendar_reads:
  assumes "\<forall>c \<in> set cs. feed_texts_ok env c"
  shows "content_lines (Encode (feed_calendar env cs)) = calendar_lines (feed_calendar env cs)"
  by (rule Encode_content_lines)
    (use assms events_ok in \<open>auto simp: feed_calendar_def plain_prodID\<close>)

lemma sort_key_props: "mset (sort_key f xs) = mset xs \<and> sorted (map f (sort_key f xs))"
  by simp

subsection \<open>What a feed should hold\<close>

text \<open>
  An event of a feed, by the lines a reader finds: the identifier, some title, when it starts and
  when it ends, and possibly a description, a place and an address. The time zero of Go, in the year
  1, stands for no end.
\<close>

definition end_line :: "string \<Rightarrow> instant \<Rightarrow> (instant \<Rightarrow> string) \<Rightarrow> string list" where
  "end_line name t fmt = (if t = zero_time then [] else [name @ fmt t])"

definition vevent :: "string \<Rightarrow> string list \<Rightarrow> string list \<Rightarrow> bool" where
  "vevent u ts b \<longleftrightarrow> (\<exists>title more.
     b = [''BEGIN:VEVENT'', ''UID:'' @ u, ''SUMMARY:'' @ title] @ ts @ more @ [''END:VEVENT'']
     \<and> (\<forall>l \<in> set more. \<exists>v. l = ''DESCRIPTION:'' @ v \<or> l = ''LOCATION:'' @ v \<or> l = ''URL:'' @ v))"

definition all_day :: "instant \<Rightarrow> instant \<Rightarrow> string list" where
  "all_day start fin = (''DTSTART;VALUE=DATE:'' @ format_date start)
     # end_line ''DTEND;VALUE=DATE:'' (fin + day_secs * second) format_date"

definition quarter_hour :: "instant \<Rightarrow> string list" where
  "quarter_hour t = (''DTSTART:'' @ format_datetime t) # end_line ''DTEND:'' (t + 15 * minute) format_datetime"

text \<open>The events that the dates of a conference ask for, by their kinds.\<close>

inductive vevent_of :: "env \<Rightarrow> conference \<Rightarrow> string \<Rightarrow> string list \<Rightarrow> bool" for env :: env and k :: conference where
  dates: "cEventStartDate k = Some s \<Longrightarrow> cEventEndDate k = Some e \<Longrightarrow>
    vevent (e_uuid_str env (cID k) @ '':dates@confero'') (all_day s e) b \<Longrightarrow> vevent_of env k ''dates'' b"
| submission: "cPrimaryDeadline k = Some t \<Longrightarrow>
    vevent (e_uuid_str env (cID k) @ '':submission@confero'') (quarter_hour t) b \<Longrightarrow> vevent_of env k ''submission'' b"
| abstract: "cAbstractDeadline k = Some t \<Longrightarrow>
    vevent (e_uuid_str env (cID k) @ '':abstract@confero'') (quarter_hour t) b \<Longrightarrow> vevent_of env k ''abstract'' b"
| notification: "cNotificationDate k = Some t \<Longrightarrow>
    vevent (e_uuid_str env (cID k) @ '':notification@confero'') (quarter_hour t) b \<Longrightarrow> vevent_of env k ''notification'' b"
| camera_ready: "cCameraReadyDate k = Some t \<Longrightarrow>
    vevent (e_uuid_str env (cID k) @ '':camera-ready@confero'') (quarter_hour t) b \<Longrightarrow> vevent_of env k ''camera-ready'' b"

definition event_kinds :: "conference \<Rightarrow> string set" where
  "event_kinds k = {kind. kind = ''dates'' \<and> cEventStartDate k \<noteq> None \<and> cEventEndDate k \<noteq> None
     \<or> kind = ''submission'' \<and> cPrimaryDeadline k \<noteq> None \<or> kind = ''abstract'' \<and> cAbstractDeadline k \<noteq> None
     \<or> kind = ''notification'' \<and> cNotificationDate k \<noteq> None
     \<or> kind = ''camera-ready'' \<and> cCameraReadyDate k \<noteq> None}"

text \<open>One event for each kind, and the whole feed of a list of conferences.\<close>

definition conference_events :: "env \<Rightarrow> conference \<Rightarrow> string list list \<Rightarrow> bool" where
  "conference_events env k bs \<longleftrightarrow>
     (\<exists>kinds. distinct kinds \<and> set kinds = event_kinds k \<and> list_all2 (vevent_of env k) kinds bs)"

definition feed_has :: "env \<Rightarrow> conference list \<Rightarrow> string list \<Rightarrow> bool" where
  "feed_has env ks ls \<longleftrightarrow> (\<exists>bss. list_all2 (conference_events env) ks bss
     \<and> ls = [''BEGIN:VCALENDAR'', ''VERSION:2.0'', ''PRODID:-//Confero//Conference Tracker//EN'',
             ''CALSCALE:GREGORIAN'', ''METHOD:PUBLISH''] @ concat (concat bss) @ [''END:VCALENDAR''])"

lemma dates_lines:
  "vevent (e_uuid_str env (cID k) @ '':dates@confero'') (all_day s e) (event_lines (dates_event env k s e))"
  unfolding vevent_def
  by (rule exI [of _ "escapeText (cName k)"],
      rule exI [of _ "opt_line ''LOCATION'' (escapeText (cLocation k)) @ opt_line ''URL'' (derefStr (cWebsiteUrl k))"])
    (rule conjI, simp add: event_lines_def dates_event_def prop_line_def uid_def all_day_def end_line_def
      AddDate_next_day opt_line_def day_secs_def, auto simp: opt_line_def prop_line_def)

lemma deadline_lines:
  "vevent (e_uuid_str env i @ '':'' @ kind @ ''@confero'') (quarter_hour t)
     (event_lines (deadlineEvent env i nm label kind t))"
  unfolding vevent_def
  by (rule exI [of _ "escapeText (nm @ '': '' @ label)"], rule exI [of _ "[]"])
    (simp add: event_lines_def deadlineEvent_def prop_line_def uid_def quarter_hour_def end_line_def opt_line_def)

lemma one_event:
  "(\<And>t. x = Some t \<Longrightarrow> P kind (event_lines (f t))) \<Longrightarrow>
    list_all2 P (case x of None \<Rightarrow> [] | Some _ \<Rightarrow> [kind]) (map event_lines (opt_event f x))"
  by (cases x) (simp_all add: opt_event_def)

lemma opt_kinds:
  "set (case t of None \<Rightarrow> [] | Some _ \<Rightarrow> [n]) = {kind. kind = n \<and> t \<noteq> None}"
  "set (case (s, e) of (Some _, Some _) \<Rightarrow> [n] | _ \<Rightarrow> []) = {kind. kind = n \<and> s \<noteq> None \<and> e \<noteq> None}"
  by (auto split: option.split)

lemma conference_events_lines: "conference_events env k (map event_lines (eventsForConference env k))"
proof -
  let ?k = "\<lambda>t n. case t of None \<Rightarrow> [] | Some (_ :: instant) \<Rightarrow> [n]"
  let ?kinds = "(case (cEventStartDate k, cEventEndDate k) of (Some _, Some _) \<Rightarrow> [''dates''] | _ \<Rightarrow> [])
     @ ?k (cPrimaryDeadline k) ''submission'' @ ?k (cAbstractDeadline k) ''abstract''
     @ ?k (cNotificationDate k) ''notification'' @ ?k (cCameraReadyDate k) ''camera-ready''"
  have "distinct ?kinds" by (simp split: option.split)
  moreover have "set ?kinds = event_kinds k"
    unfolding set_append event_kinds_def opt_kinds by (simp only: Un_def mem_Collect_eq)
  moreover have "list_all2 (vevent_of env k) ?kinds (map event_lines (eventsForConference env k))"
    unfolding eventsForConference_def map_append
  proof (intro list_all2_appendI)
    show "list_all2 (vevent_of env k) (case (cEventStartDate k, cEventEndDate k) of (Some _, Some _) \<Rightarrow> [''dates''] | _ \<Rightarrow> [])
        (map event_lines (case (cEventStartDate k, cEventEndDate k) of
          (Some start, Some fin) \<Rightarrow> [dates_event env k start fin] | _ \<Rightarrow> []))"
      by (cases "cEventStartDate k"; cases "cEventEndDate k") (simp_all add: vevent_of.dates [OF _ _ dates_lines])
  qed (rule one_event, erule vevent_of.intros, rule deadline_lines [of _ _ "''submission''", simplified]
      deadline_lines [of _ _ "''abstract''", simplified] deadline_lines [of _ _ "''notification''", simplified]
      deadline_lines [of _ _ "''camera-ready''", simplified])+
  ultimately show ?thesis unfolding conference_events_def by blast
qed

lemma feed_calendar_has:
  assumes "\<forall>k \<in> set ks. feed_texts_ok env k"
  shows "feed_has env ks (content_lines (Encode (feed_calendar env ks)))"
proof -
  have "concat (map event_lines (concat (map (eventsForConference env) ks)))
      = concat (concat (map (\<lambda>k. map event_lines (eventsForConference env k)) ks))"
    by (induction ks) auto
  then show ?thesis
    unfolding feed_calendar_reads [OF assms] feed_has_def
    by (intro exI [of _ "map (\<lambda>k. map event_lines (eventsForConference env k)) ks"])
      (simp add: calendar_lines_def feed_calendar_def prop_line_def prodID_def list_all2_conv_all_nth conference_events_lines)
qed

text \<open>
  C28: The public feed, unfolded and split into its lines as a reader does, has the events of the
  conferences that are not archived, in the order of their submission deadlines and names, and
  nothing else: for each conference one event for its dates, if both are set, and one for each of the
  four deadlines that is set, with the identifier of its kind, the first and the last day or the
  instant and a quarter of an hour. Building it changes nothing. The texts of the conferences must be
  valid UTF-8 and their web addresses free of line feeds, which the program does not check: without
  that an editor can write further lines into the feed.
\<close>

theorem public_feed_correct:
  assumes run: "BuildPublicFeed env c = (Inr body, c')" and n: "c_tx c = None"
    and texts: "\<forall>k \<in> set (conferences (c_com c)). feed_texts_ok env k"
  shows "c_com c' = c_com c \<and> (\<exists>ks. feed_has env ks (content_lines body)
    \<and> mset ks = mset (filter (\<lambda>k. cArchivedAt k = None) (conferences (c_com c)))
    \<and> sorted (map (deadline_key env) ks))"
proof -
  let ?ks = "sort_key (deadline_key env) (filter (\<lambda>k. cArchivedAt k = None) (conferences (c_com c)))"
  have post: "c_com c' = c_com c \<and> body = Encode (feed_calendar env ?ks)"
    using out_postD [OF BuildPublicFeed_post n run] by blast
  have "\<forall>k \<in> set ?ks. feed_texts_ok env k" using texts by simp
  from feed_calendar_has [OF this] post sort_key_props show ?thesis by blast
qed

lemma plain_nat_str: "plain_text (nat_str n)"
  using plain_digits [OF nat_str_digits, of "[]"] by (simp add: is_ascii_def)

lemma sample_feed_texts: "\<forall>k \<in> set (conferences (c_com sample_conn)). feed_texts_ok sample_env k"
  by (simp add: sample_defs feed_texts_ok_def derefStr_def utf8_ok_ascii plain_text_ascii is_ascii_def
      sample_env_def plain_nat_str)

theorem public_feed_correct_witness:
  "\<exists>body c' b. BuildPublicFeed sample_env sample_conn = (Inr body, c')
     \<and> vevent ''2:submission@confero'' (quarter_hour 1800000000000000000) b
     \<and> content_lines body = [''BEGIN:VCALENDAR'', ''VERSION:2.0'', ''PRODID:-//Confero//Conference Tracker//EN'',
         ''CALSCALE:GREGORIAN'', ''METHOD:PUBLISH''] @ b @ [''END:VCALENDAR'']"
proof -
  have "\<exists>body c'. BuildPublicFeed sample_env sample_conn = (Inr body, c')"
    by (simp add: BuildPublicFeed_def ListConferences_def run_eval conference_eval sample_defs)
  then obtain body c' where run: "BuildPublicFeed sample_env sample_conn = (Inr body, c')" by blast
  have "c_tx sample_conn = None" by (simp add: sample_conn_def)
  from public_feed_correct [OF run this sample_feed_texts] obtain ks where
    ks: "feed_has sample_env ks (content_lines body)"
    "mset ks = mset (filter (\<lambda>k. cArchivedAt k = None) (conferences (c_com sample_conn)))" by blast
  have "filter (\<lambda>k. cArchivedAt k = None) (conferences (c_com sample_conn)) = [sample_conference]"
    by (simp add: sample_conn_def sample_db_def) (simp add: sample_conference_def)
  with ks(2) have "ks = [sample_conference]" by (cases ks) auto
  with ks(1) obtain bs where bs: "conference_events sample_env sample_conference bs"
    and body: "content_lines body = [''BEGIN:VCALENDAR'', ''VERSION:2.0'', ''PRODID:-//Confero//Conference Tracker//EN'',
         ''CALSCALE:GREGORIAN'', ''METHOD:PUBLISH''] @ concat bs @ [''END:VCALENDAR'']"
    by (auto simp: feed_has_def list_all2_Cons1)
  from bs obtain kinds where kinds: "distinct kinds" "set kinds = {''submission''}"
    "list_all2 (vevent_of sample_env sample_conference) kinds bs"
    by (auto simp: conference_events_def event_kinds_def sample_conference_def)
  have "kinds = [''submission'']" using kinds(1,2) by (cases kinds; cases "tl kinds") auto
  with kinds(3) obtain b where b: "bs = [b]" "vevent_of sample_env sample_conference ''submission'' b"
    by (auto simp: list_all2_Cons1)
  have "nat_str 2 = ''2''" by (simp add: nat_str.simps digit_char_def char_of_eq_iff)
  with b(2) have "vevent ''2:submission@confero'' (quarter_hour 1800000000000000000) b"
    by (cases rule: vevent_of.cases) (simp_all add: sample_conference_def sample_env_def)
  with run body b(1) show ?thesis by auto
qed

text \<open>
  No two events of a feed share their UID, given that the text of a UUID determines it and has
  no colon; and every event ends after it starts, if the conference passes the checks of the table.
\<close>

theorem feed_events_distinct:
  assumes "uuid_text_ok env" and "distinct (map cID cs)" and "\<forall>c \<in> set cs. conference_check c = None"
  shows "distinct (map evUID (calEvents (feed_calendar env cs)))
    \<and> (\<forall>e \<in> set (calEvents (feed_calendar env cs)). evDTStart e < evDTEnd e)"
  using feed_uids_aux [OF assms(1,2)] event_interval assms(3) by (auto simp: feed_calendar_def)

lemma nat_str_value: "foldl (\<lambda>n c. n * 10 + (of_char c - 48)) 0 (nat_str n) = (n :: nat)"
proof (induction n rule: nat_str.induct)
  case (1 n)
  have digit: "of_char (digit_char d) = 48 + d" if "d < 10" for d :: nat
    using that by (simp add: digit_char_def)
  show ?case
  proof (cases "n < 10")
    case True
    then show ?thesis using digit by (simp add: nat_str.simps [of n])
  next
    case False
    have "of_char (digit_char (n mod 10)) - 48 = n mod 10" using digit [of "n mod 10"] by simp
    with False 1 show ?thesis by (simp add: nat_str.simps [of n])
  qed
qed

lemma sample_uuid_text: "uuid_text_ok sample_env"
proof -
  have "inj nat_str" by (metis injI nat_str_value)
  then have "inj (\<lambda>u :: uuid. nat_str (unat u))"
    by (auto simp: inj_def word_unat_eq_iff)
  moreover have "CHR '':'' \<notin> set (nat_str n)" for n
    using nat_str_digits [of n] by (auto simp: digits_def)
  ultimately show ?thesis by (simp add: uuid_text_ok_def sample_env_def)
qed

theorem feed_events_distinct_witness:
  "distinct (map evUID (calEvents (feed_calendar sample_env [sample_conference])))
   \<and> (\<forall>e \<in> set (calEvents (feed_calendar sample_env [sample_conference])). evDTStart e < evDTEnd e)"
  by (rule feed_events_distinct)
    (simp_all add: sample_uuid_text sample_conference_def conference_check_def le_opt_def)

text \<open>
  A web address with a line break adds lines of its own to the feed: whoever may edit a
  conference can write any property into the feeds of all readers.
\<close>

theorem feed_url_injection:
  assumes "plain_text u" and "plain_text v" and "v \<noteq> []" and "hd v \<noteq> CHR '' ''"
    and "length (runes (''URL:'' @ u @ CRLF @ v)) \<le> 75" and "no_space s"
  shows "content_lines (writeLine (foldProperty ''URL'' (u @ CRLF @ v)) @ s)
    = prop_line ''URL'' u # v # content_lines s"
proof -
  have "writeLine (foldProperty ''URL'' (u @ CRLF @ v)) = writeLine (''URL:'' @ u) @ writeLine v"
    using assms(5) by (simp add: foldProperty_def writeLine_def foldLimit_def)
  moreover have "plain_text (''URL:'' @ u)"
    by (rule plain_text_append) (simp_all add: assms(1) plain_text_ascii is_ascii_def)
  then have "reads (writeLine (''URL:'' @ u)) [''URL:'' @ u]" by (rule reads_line) simp_all
  then have "reads (writeLine (''URL:'' @ u) @ writeLine v) ([''URL:'' @ u] @ [v])"
    by (rule reads_append) (rule reads_line [OF assms(2-4)])
  ultimately show ?thesis using assms(6) by (simp add: reads_def prop_line_def)
qed

theorem feed_url_injection_witness:
  "content_lines (writeLine (foldProperty ''URL'' (''u'' @ CRLF @ ''END:VEVENT'')) @ [])
   = [''URL:u'', ''END:VEVENT'']"
proof -
  have "runes (''URL:'' @ ''u'' @ CRLF @ ''END:VEVENT'') = bytes_of (''URL:'' @ ''u'' @ CRLF @ ''END:VEVENT'')"
    by (rule runes_ascii) (simp add: is_ascii_def CRLF_def)
  then have "length (runes (''URL:'' @ ''u'' @ CRLF @ ''END:VEVENT'')) \<le> 75"
    by (simp add: bytes_of_def CRLF_def)
  moreover have "plain_text ''u''" "plain_text ''END:VEVENT''" "no_space []"
    by (simp_all add: plain_text_ascii is_ascii_def no_space_def)
  ultimately show ?thesis
    using feed_url_injection [of "''u''" "''END:VEVENT''" "[]"] by (simp add: prop_line_def)
qed

end
