(* ===== verification/Go_Parse.thy ===== *)
theory Go_Parse
  imports Go_Time
begin

text \<open>
  \<^verbatim>\<open>time.Parse\<close> for the three layouts the import tries: RFC 3339, the same with a literal Z, and
  the date alone. A parser takes the text and returns a value and the text left, or nothing. As in
  the library an hour may have one digit, a fraction of the second may follow with a point or a
  comma though the layout has none, an offset may have up to 24 hours and 60 minutes, and the day
  is checked against the month at the end. The lemmas show that the RFC 3339 text of an instant
  parses to the instant.
\<close>

type_synonym 'a parser = "string \<Rightarrow> ('a \<times> string) option"

definition isDigit :: "char \<Rightarrow> bool" where
  "isDigit c \<longleftrightarrow> 48 \<le> (of_char c :: nat) \<and> (of_char c :: nat) \<le> 57"

definition digit_value :: "char \<Rightarrow> int" where
  "digit_value c = int (of_char c) - 48"

definition and_then :: "'a parser \<Rightarrow> ('a \<Rightarrow> 'b parser) \<Rightarrow> 'b parser" where
  "and_then p f s = (case p s of None \<Rightarrow> None | Some (a, r) \<Rightarrow> f a r)"

definition done_with :: "'a \<Rightarrow> 'a parser" where
  "done_with a s = Some (a, s)"

definition provided :: "bool \<Rightarrow> 'a parser \<Rightarrow> 'a parser" where
  "provided b p s = (if b then p s else None)"

fun literal :: "char \<Rightarrow> unit parser" where
  "literal c [] = None"
| "literal c (a # s) = (if a = c then Some ((), s) else None)"

text \<open>\<^verbatim>\<open>getnum(s, true)\<close> and \<^verbatim>\<open>getnum(s, false)\<close>\<close>

fun two_digits :: "int parser" where
  "two_digits (a # b # s) =
     (if isDigit a \<and> isDigit b then Some (digit_value a * 10 + digit_value b, s) else None)"
| "two_digits _ = None"

fun getnum :: "int parser" where
  "getnum [] = None"
| "getnum [a] = (if isDigit a then Some (digit_value a, []) else None)"
| "getnum (a # b # s) =
     (if \<not> isDigit a then None
      else if isDigit b then Some (digit_value a * 10 + digit_value b, s)
      else Some (digit_value a, b # s))"

fun four_digits :: "int parser" where
  "four_digits (a # b # c # d # s) =
     (if isDigit a \<and> isDigit b \<and> isDigit c \<and> isDigit d
      then Some (digit_value a * 1000 + digit_value b * 100 + digit_value c * 10 + digit_value d, s)
      else None)"
| "four_digits _ = None"

definition digits_value :: "string \<Rightarrow> int" where
  "digits_value s = foldl (\<lambda>n c. n * 10 + digit_value c) 0 s"

text \<open>
  The fraction after the seconds: a point or a comma and at least one digit; all digits are read,
  nine of them count.
\<close>

definition fraction :: "int parser" where
  "fraction s =
     (case s of
        c # d # r \<Rightarrow>
          if (c = CHR ''.'' \<or> c = CHR '','') \<and> isDigit d then
            (let ds = takeWhile isDigit (d # r); n = take 9 ds in
             Some (digits_value n * 10 ^ (9 - length n), dropWhile isDigit (d # r)))
          else Some (0, s)
      | _ \<Rightarrow> Some (0, s))"

definition ymd :: "(int \<times> int \<times> int) parser" where
  "ymd =
     and_then four_digits (\<lambda>y. and_then (literal (CHR ''-'')) (\<lambda>_.
     and_then two_digits (\<lambda>m. provided (1 \<le> m \<and> m \<le> 12) (and_then (literal (CHR ''-'')) (\<lambda>_.
     and_then two_digits (\<lambda>d. done_with (y, m, d)))))))"

text \<open>The clock: seconds of the day and nanoseconds.\<close>

definition clock :: "(int \<times> int) parser" where
  "clock =
     and_then (literal (CHR ''T'')) (\<lambda>_.
     and_then getnum (\<lambda>h. provided (h < 24) (and_then (literal (CHR '':'')) (\<lambda>_.
     and_then two_digits (\<lambda>mi. provided (mi < 60) (and_then (literal (CHR '':'')) (\<lambda>_.
     and_then two_digits (\<lambda>s. provided (s < 60) (
     and_then fraction (\<lambda>ns. done_with (h * 3600 + mi * 60 + s, ns)))))))))))"

text \<open>\<^verbatim>\<open>Z07:00\<close>: the offset in seconds\<close>

fun offset :: "int parser" where
  "offset [] = None"
| "offset (c # r) =
     (if c = CHR ''Z'' then Some (0, r)
      else if c = CHR ''+'' \<or> c = CHR ''-'' then
        and_then two_digits (\<lambda>h. and_then (literal (CHR '':'')) (\<lambda>_. and_then two_digits (\<lambda>m.
          provided (h \<le> 24 \<and> m \<le> 60) (done_with ((if c = CHR ''+'' then 1 else - 1) * (h * 3600 + m * 60)))))) r
      else None)"

definition datetime :: "(int \<times> int \<times> int) \<times> (int \<times> int) \<times> int \<Rightarrow> instant option" where
  "datetime p =
     (case p of ((y, m, d), (secs, ns), off) \<Rightarrow>
        if valid_date y m d then Some (go_Date y m d secs ns UTC - off * second) else None)"

text \<open>Nothing may be left.\<close>

definition whole :: "('a \<Rightarrow> 'b option) \<Rightarrow> ('a \<times> string) option \<Rightarrow> 'b option" where
  "whole f r = (case r of Some (a, []) \<Rightarrow> f a | _ \<Rightarrow> None)"

definition Parse_RFC3339 :: "string \<Rightarrow> instant option" where
  "Parse_RFC3339 s = whole datetime
     (and_then ymd (\<lambda>a. and_then clock (\<lambda>b. and_then offset (\<lambda>off. done_with (a, b, off)))) s)"

definition Parse_literal_Z :: "string \<Rightarrow> instant option" where
  "Parse_literal_Z s = whole datetime
     (and_then ymd (\<lambda>a. and_then clock (\<lambda>b. and_then (literal (CHR ''Z'')) (\<lambda>_. done_with (a, b, 0)))) s)"

definition Parse_date :: "string \<Rightarrow> instant option" where
  "Parse_date s = whole datetime (and_then ymd (\<lambda>a. done_with (a, (0, 0), 0)) s)"

subsection \<open>Texts of instants\<close>

definition two_text :: "int \<Rightarrow> string" where
  "two_text n = [digit_char (nat (n div 10)), digit_char (nat (n mod 10))]"

definition four_text :: "int \<Rightarrow> string" where
  "four_text n = two_text (n div 100) @ two_text (n mod 100)"

definition date_text :: "int \<times> int \<times> int \<Rightarrow> string" where
  "date_text p = (case p of (y, m, d) \<Rightarrow> four_text y @ ''-'' @ two_text m @ ''-'' @ two_text d)"

definition rfc3339_text :: "instant \<Rightarrow> string" where
  "rfc3339_text t = (let s = clock_in UTC t in
     date_text (date_in UTC t) @ ''T'' @ two_text (s div 3600) @ '':'' @ two_text (s div 60 mod 60)
       @ '':'' @ two_text (s mod 60) @ ''Z'')"

lemma of_char_digit: "d < 10 \<Longrightarrow> (of_char (digit_char d) :: nat) = 48 + d"
  by (simp add: digit_char_def)

lemma digit_char_read: "0 \<le> n \<Longrightarrow> n < 10 \<Longrightarrow> isDigit (digit_char (nat n)) \<and> digit_value (digit_char (nat n)) = n"
proof -
  assume n: "0 \<le> n" "n < 10"
  then have lt: "nat n < 10" by linarith
  then have c: "(of_char (digit_char (nat n)) :: nat) = 48 + nat n" by (rule of_char_digit)
  with n lt show ?thesis by (simp add: isDigit_def digit_value_def)
qed

lemma two_text_read: "0 \<le> n \<Longrightarrow> n < 100 \<Longrightarrow> two_digits (two_text n @ s) = Some (n, s)"
proof -
  assume n: "0 \<le> n" "n < 100"
  then have "0 \<le> n div 10" "n div 10 < 10" "0 \<le> n mod 10" "n mod 10 < 10" by auto
  then show ?thesis by (simp add: two_text_def digit_char_read)
qed

lemma two_text_getnum: "0 \<le> n \<Longrightarrow> n < 100 \<Longrightarrow> getnum (two_text n @ s) = Some (n, s)"
proof -
  assume n: "0 \<le> n" "n < 100"
  then have "0 \<le> n div 10" "n div 10 < 10" "0 \<le> n mod 10" "n mod 10 < 10" by auto
  then show ?thesis by (simp add: two_text_def digit_char_read)
qed

lemma four_text_read:
  assumes "0 \<le> n" and "n < 10000"
  shows "four_digits (four_text n @ s) = Some (n, s)"
proof -
  let ?h = "n div 100" and ?l = "n mod 100"
  have "0 \<le> ?h" "?h < 100" "0 \<le> ?l" "?l < 100" using assms by auto
  moreover have "n = ?h * 100 + ?l" by simp
  ultimately obtain h l where hl: "?h = h" "?l = l" "0 \<le> h" "h < 100" "0 \<le> l" "l < 100" "n = h * 100 + l" by blast
  have dig: "0 \<le> h div 10" "h div 10 < 10" "0 \<le> h mod 10" "h mod 10 < 10"
      "0 \<le> l div 10" "l div 10 < 10" "0 \<le> l mod 10" "l mod 10 < 10" using hl(3-6) by auto
  have "h div 10 * 1000 + h mod 10 * 100 + l div 10 * 10 + l mod 10 = n"
    using div_mult_mod_eq [of h 10] div_mult_mod_eq [of l 10] hl(7) by linarith
  then show ?thesis
    unfolding four_text_def two_text_def hl(1,2) using dig by (simp add: digit_char_read)
qed

lemma two_text_not_special: "0 \<le> n \<Longrightarrow> n < 100 \<Longrightarrow> \<exists>a b. two_text n = [a, b] \<and> isDigit a \<and> isDigit b"
proof -
  assume n: "0 \<le> n" "n < 100"
  then have "0 \<le> n div 10" "n div 10 < 10" "0 \<le> n mod 10" "n mod 10 < 10" by auto
  then show ?thesis by (simp add: two_text_def digit_char_read)
qed

lemma days_in_month_bound: "valid_date y m d \<Longrightarrow> 1 \<le> m \<and> m \<le> 12 \<and> 1 \<le> d \<and> d \<le> 31"
  using month_range [of m]
  by (auto simp: valid_date_def days_in_month_def days_before_month_def split: if_splits)

lemma ymd_read:
  assumes "valid_date y m d" and "0 \<le> y" and "y < 10000"
  shows "ymd (date_text (y, m, d) @ s) = Some ((y, m, d), s)"
proof -
  have "1 \<le> m" "m \<le> 12" "1 \<le> d" "d \<le> 31" using days_in_month_bound [OF assms(1)] by auto
  then show ?thesis
    using assms(2,3)
    by (simp add: ymd_def date_text_def and_then_def provided_def done_with_def four_text_read two_text_read)
qed

text \<open>The text of a date in four-digit years parses to its midnight.\<close>

lemma Parse_date_text:
  assumes "valid_date y m d" and "0 \<le> y" and "y < 10000"
  shows "Parse_date (date_text (y, m, d)) = Some (civil_to_days y m d * day_secs * second)"
proof -
  have "1 \<le> m" "m \<le> 12" using assms(1) by (auto simp: valid_date_def)
  then show ?thesis
    using ymd_read [OF assms, of "[]"] assms(1)
    by (simp add: Parse_date_def and_then_def done_with_def whole_def datetime_def go_Date_valid_month)
qed

lemma Parse_rfc3339_text:
  assumes "date_in UTC t = (y, m, d)" and "0 \<le> y" and "y < 10000" and "nsec_of t = 0"
  shows "Parse_RFC3339 (rfc3339_text t) = Some t"
proof -
  let ?s = "clock_in UTC t"
  have s: "0 \<le> ?s" "?s < 86400" by (simp_all add: clock_in_def day_secs_def)
  have h: "0 \<le> ?s div 3600" "?s div 3600 < 24" using s by auto
  have mi: "0 \<le> ?s div 60 mod 60" "?s div 60 mod 60 < 60" "0 \<le> ?s mod 60" "?s mod 60 < 60" by simp_all
  have v: "valid_date y m d" and days: "civil_to_days y m d = unix t div day_secs"
    using civil_to_days_to_civil [of "unix t div day_secs"] assms(1) by (auto simp: date_in_def)
  have m: "1 \<le> m" "m \<le> 12" using v by (auto simp: valid_date_def)
  have clock: "clock (''T'' @ two_text (?s div 3600) @ '':'' @ two_text (?s div 60 mod 60) @ '':'' @ two_text (?s mod 60) @ ''Z'')
      = Some ((?s div 3600 * 3600 + ?s div 60 mod 60 * 60 + ?s mod 60, 0), ''Z'')"
    using h mi by (simp add: clock_def and_then_def provided_def done_with_def two_text_getnum two_text_read fraction_def)
  have hms: "?s div 3600 * 3600 + ?s div 60 mod 60 * 60 + ?s mod 60 = ?s"
  proof -
    have "?s div 60 div 60 = ?s div 3600" by (simp add: zdiv_zmult2_eq [symmetric])
    then show ?thesis using div_mult_mod_eq [of ?s 60] div_mult_mod_eq [of "?s div 60" 60] by linarith
  qed
  have "unix t div day_secs * day_secs + ?s = unix t" by (simp add: clock_in_def)
  moreover have "unix t * second = t"
    using assms(4) div_mult_mod_eq [of t second] by (simp add: unix_def nsec_of_def)
  ultimately have "(unix t div day_secs * day_secs + ?s) * second = t" by simp
  then have "go_Date y m d ?s 0 UTC = t" by (simp add: go_Date_valid_month [OF m] days)
  then show ?thesis
    using ymd_read [OF v assms(2,3)] clock v hms
    by (simp add: Parse_RFC3339_def rfc3339_text_def Let_def assms(1) and_then_def done_with_def whole_def datetime_def)
qed

end
