(* ===== verification/Frames.thy ===== *)
theory Frames
  imports Conferences
begin

text \<open>
  What a service leaves alone: the failures and the identifiers still to come, and whatever an
  extension of the connection adds to it, such as the counters of the web server. Every program
  built of statements and transactions has this frame, as the rules show.
\<close>

definition outside :: "'m conn_scheme \<Rightarrow> 'm \<times> (nat \<Rightarrow> string option) \<times> (nat \<Rightarrow> uuid)" where
  "outside c = (conn.more c, c_fault c, c_gen c)"

definition frames :: "('m conn_scheme \<Rightarrow> 'r \<times> 'm conn_scheme) \<Rightarrow> bool" where
  "frames m \<longleftrightarrow> (\<forall>c. outside (snd (m c)) = outside c)"

lemma framesD: "frames m \<Longrightarrow> m c = (r, c') \<Longrightarrow> outside c' = outside c"
  unfolding frames_def by (metis snd_conv)

lemma frames_snd: "frames m \<Longrightarrow> outside (snd (m c)) = outside c"
  by (simp add: frames_def)

lemma frames_fault: "frames m \<Longrightarrow> m c = (r, c') \<Longrightarrow> c_fault c' = c_fault c"
  by (drule (1) framesD) (simp add: outside_def)

lemma frames_more: "frames m \<Longrightarrow> m c = (r, c') \<Longrightarrow> conn.more c' = conn.more c"
  by (drule (1) framesD) (simp add: outside_def)

lemma frames_ret: "frames (ret a)"
  by (simp add: frames_def ret_def)

lemma frames_fail: "frames (fail e)"
  by (simp add: frames_def fail_def)

lemma frames_andthen:
  assumes "frames m" "\<And>a. frames (f a)"
  shows "frames (andthen m f)"
  unfolding frames_def
proof
  fix c
  obtain r c1 where 1: "m c = (r, c1)" by force
  have "outside c1 = outside c" by (rule framesD [OF assms(1) 1])
  then show "outside (snd (andthen m f c)) = outside c"
    using assms(2) 1 unfolding frames_def by (simp add: andthen_def split: sum.split)
qed

lemma frames_on_err: "frames m \<Longrightarrow> frames (on_err w m)"
  by (simp add: frames_def on_err_snd)

lemma frames_attempt: "frames m \<Longrightarrow> frames (attempt m)"
  by (simp add: frames_def attempt_snd)

lemma frames_exec: "frames (exec q s)"
  by (simp add: frames_def outside_def exec_defs Let_def split: dbtx.split option.split sum.split prod.split)

lemma frames_for_each: "(\<And>x. frames (f x)) \<Longrightarrow> frames (for_each f xs)"
  by (induction xs) (simp_all add: frames_ret frames_andthen)

lemma frames_map_each: "(\<And>x. frames (f x)) \<Longrightarrow> frames (map_each f xs)"
  by (induction xs) (simp_all add: frames_ret frames_andthen)

lemma frames_in_tx:
  assumes "frames m"
  shows "frames (in_tx b k m)"
  unfolding frames_def
proof
  fix c
  have m: "outside c2 = outside c1" if "m c1 = (r, c2)" for c1 c2 r
    by (rule framesD [OF assms that])
  show "outside (snd (in_tx b k m c)) = outside c"
    by (auto simp: in_tx_def begin_tx_def commit_tx_def rollback_tx_def Let_def outside_def
        split: option.split sum.split prod.split dest!: m)
qed

lemma frames_checked: "frames m \<Longrightarrow> frames (checked e m)"
  by (simp add: checked_def frames_fail split: option.split)

lemma frames_if: "frames m \<Longrightarrow> frames m' \<Longrightarrow> frames (if b then m else m')"
  by simp

lemma frames_sum: "(\<And>e. frames (f e)) \<Longrightarrow> (\<And>a. frames (g a)) \<Longrightarrow> frames (case s of Inl e \<Rightarrow> f e | Inr a \<Rightarrow> g a)"
  by (simp split: sum.split)

lemma frames_option: "frames m \<Longrightarrow> (\<And>a. frames (g a)) \<Longrightarrow> frames (case s of None \<Rightarrow> m | Some a \<Rightarrow> g a)"
  by (simp split: option.split)

lemmas frames_rules = frames_ret frames_fail frames_andthen frames_on_err frames_attempt frames_exec
  frames_for_each frames_map_each frames_in_tx frames_checked frames_if frames_sum frames_option

lemma frames_conferences:
  "frames (Create_conference env inp actor)" "frames (Update_conference env i inp actor)"
  "frames (Archive_conference env i)" "frames (Unarchive_conference env i)" "frames (Delete_conference i)"
  "frames (UpsertFromImport env imp actor)"
  unfolding Create_conference_def Update_conference_def Archive_conference_def Unarchive_conference_def
    create_in_tx_def update_in_tx_def archive_in_tx_def attachTagsAndTracks_def setTagsAndTracks_def
    set_tag_def set_track_def rematerializeConferenceReminders_def materializeReminders_def Let_def
    Delete_conference_def UpsertFromImport_def import_create_in_tx_def import_update_in_tx_def
  by (intro frames_rules)+

lemma frames_conference_reads:
  "frames (List_conferences env p)" "frames (Get_conference env i)" "frames (ListTags_service env)"
  "frames (ListTracks_service env)"
  unfolding List_conferences_def list_row_def Get_conference_def ListTags_service_def ListTracks_service_def
  by (intro frames_rules)+

end
