(* ===== verification/Import.thy ===== *)
theory Import
  imports Go_Parse Conference_Facts Frames
begin

text \<open>
  The import (\<^verbatim>\<open>server/internal/importer\<close> and \<^verbatim>\<open>service/import.go\<close>): the entries of a
  document, their check, their conversion with the parsing of deadlines, and the loop that upserts
  one entry after the other. The YAML parser is a parameter, given the text and yielding entries or
  an error. The lemmas show what the counts say, that a strict run keeps what it wrote before its
  first error, and that importing an entry again updates the row it made.
\<close>

subsection \<open>Entries\<close>

record entry =
  yName :: string
  yAcronym :: string
  yYear :: int
  yLocation :: string
  yWebsiteURL :: string
  yCFPURL :: string
  yPrimaryDeadline :: string
  yAbstractDeadline :: string
  yNotificationDate :: string
  yCameraReadyDate :: string
  yEventStartDate :: string
  yEventEndDate :: string
  yCoreRank :: string
  yH5Index :: int
  yAcceptanceRatePct :: go_float
  yDblpKey :: string
  yNotes :: string
  yTags :: "string list"
  yTracks :: "string list"

definition Validate :: "entry \<Rightarrow> string" where
  "Validate c =
     (if yName c = [] then ''name is required''
      else if yAcronym c = [] then ''acronym is required''
      else if yYear c < 2000 \<or> 2100 < yYear c then ''year must be between 2000 and 2100''
      else [])"

definition Parse_yaml :: "(string \<Rightarrow> string + entry list) \<Rightarrow> string \<Rightarrow> err + entry list" where
  "Parse_yaml decode r =
     (case decode r of Inl m \<Rightarrow> Inl (Wrapf ''yaml parse'' (OtherErr m)) | Inr es \<Rightarrow> Inr es)"

text \<open>The layouts in the order the code tries them.\<close>

definition first_of :: "'a option \<Rightarrow> 'a option \<Rightarrow> 'a option" where
  "first_of a b = (case a of None \<Rightarrow> b | Some x \<Rightarrow> Some x)"

definition parseTimestamp :: "string \<Rightarrow> instant option" where
  "parseTimestamp s =
     (if s = [] then None
      else first_of (Parse_RFC3339 s) (first_of (Parse_literal_Z s) (Parse_date s)))"

definition parseDate :: "string \<Rightarrow> instant option" where
  "parseDate s = (if s = [] then None else Parse_date s)"

definition nonempty :: "string \<Rightarrow> string option" where
  "nonempty s = (if s \<noteq> [] then Some s else None)"

text \<open>The comparison of a float with zero and its conversion to 32 bits, which overflows to infinity.\<close>

definition positive :: "go_float \<Rightarrow> bool" where
  "positive x = (case x of Finite q \<Rightarrow> 0 < q | Pos_Inf \<Rightarrow> True | _ \<Rightarrow> False)"

definition to_float32 :: "go_float \<Rightarrow> go_float" where
  "to_float32 x =
     (case x of
        Finite q \<Rightarrow>
          (let r = float32_of q in if 2 ^ 128 \<le> r then Pos_Inf else if r \<le> - (2 ^ 128) then Neg_Inf else Finite r)
      | _ \<Rightarrow> x)"

definition importInputFromYAML :: "entry \<Rightarrow> ImportInput" where
  "importInputFromYAML e = \<lparr>
     imName = yName e, imAcronym = yAcronym e, imYear = yYear e, imLocation = yLocation e,
     imWebsiteURL = nonempty (yWebsiteURL e), imCFPURL = nonempty (yCFPURL e),
     imPrimaryDeadline = parseTimestamp (yPrimaryDeadline e),
     imAbstractDeadline = parseTimestamp (yAbstractDeadline e),
     imNotificationDate = parseTimestamp (yNotificationDate e),
     imCameraReadyDate = parseTimestamp (yCameraReadyDate e),
     imEventStartDate = parseDate (yEventStartDate e), imEventEndDate = parseDate (yEventEndDate e),
     imCoreRank = nonempty (yCoreRank e),
     imH5Index = (if 0 < yH5Index e then Some (yH5Index e) else None),
     imAcceptanceRatePct = (if positive (yAcceptanceRatePct e) then Some (to_float32 (yAcceptanceRatePct e)) else None),
     imDblpKey = nonempty (yDblpKey e), imNotes = nonempty (yNotes e), imTags = yTags e, imTracks = yTracks e\<rparr>"

subsection \<open>The loop\<close>

record counts =
  nCreated :: nat
  nUpdated :: nat
  nSkipped :: nat
  nErrs :: "string list"

text \<open>One entry: the message of the error that makes the loop skip or stop, or whether a row was created.\<close>

definition import_entry ::
  "env \<Rightarrow> uuid \<Rightarrow> entry \<Rightarrow> 'm conn_scheme \<Rightarrow> (string + bool) \<times> 'm conn_scheme" where
  "import_entry env actor e c =
     (let msg = Validate e in
      if msg \<noteq> [] then (Inl msg, c)
      else on_err (Error env) (UpsertFromImport env (importInputFromYAML e) actor) c)"

definition entry_msg :: "nat \<Rightarrow> entry \<Rightarrow> string \<Rightarrow> string" where
  "entry_msg i e msg = ''entry '' @ Itoa (int i + 1) @ '' ('' @ yAcronym e @ ''): '' @ msg"

fun import_loop ::
  "env \<Rightarrow> uuid \<Rightarrow> bool \<Rightarrow> nat \<Rightarrow> entry list \<Rightarrow> counts \<Rightarrow> 'm conn_scheme \<Rightarrow> counts \<times> 'm conn_scheme" where
  "import_loop env actor strict i [] r c = (r, c)"
| "import_loop env actor strict i (e # es) r c =
     (case import_entry env actor e c of
        (Inl msg, c') \<Rightarrow>
          (let r' = r\<lparr>nErrs := nErrs r @ [entry_msg i e msg]\<rparr> in
           if strict then (r', c')
           else import_loop env actor strict (Suc i) es (r'\<lparr>nSkipped := nSkipped r + 1\<rparr>) c')
      | (Inr created, c') \<Rightarrow>
          import_loop env actor strict (Suc i) es
            (if created then r\<lparr>nCreated := nCreated r + 1\<rparr> else r\<lparr>nUpdated := nUpdated r + 1\<rparr>) c')"

definition RunImport ::
  "env \<Rightarrow> entry list \<Rightarrow> uuid \<Rightarrow> bool \<Rightarrow> 'm conn_scheme \<Rightarrow> counts \<times> 'm conn_scheme" where
  "RunImport env entries actor strict =
     import_loop env actor strict 0 entries \<lparr>nCreated = 0, nUpdated = 0, nSkipped = 0, nErrs = []\<rparr>"

subsection \<open>One entry\<close>

lemma import_entry_cases:
  assumes "import_entry env actor e c = (s, c')"
  obtains (invalid) "Validate e \<noteq> []" "s = Inl (Validate e)" "c' = c"
  | (failed) x where "UpsertFromImport env (importInputFromYAML e) actor c = (Inl x, c')" "s = Inl (Error env x)"
  | (upserted) b where "Validate e = []" "UpsertFromImport env (importInputFromYAML e) actor c = (Inr b, c')" "s = Inr b"
  using assms by (auto simp: import_entry_def Let_def on_err_def split: if_splits prod.splits sum.splits)

lemma keeps_import_entry:
  fixes c :: "'m conn_scheme"
  assumes "evolves R (UpsertFromImport env (importInputFromYAML e) actor :: 'm conn_scheme \<Rightarrow> _)" and "\<And>d. R d d"
    and "c_tx c = None" and "import_entry env actor e c = (s, c')"
  shows "c_tx c' = None \<and> R (c_com c) (c_com c')"
  using assms(4)
proof (cases rule: import_entry_cases)
  case (failed x)
  from evolvesD [OF assms(1,3) this(1)] show ?thesis .
next
  case (upserted b)
  from evolvesD [OF assms(1,3) this(2)] show ?thesis .
qed (use assms in simp)

lemma import_entry_error_unchanged:
  fixes c :: "'m conn_scheme"
  assumes "atomic (UpsertFromImport env (importInputFromYAML e) actor :: 'm conn_scheme \<Rightarrow> _)"
    and "c_tx c = None" and "import_entry env actor e c = (Inl m, c')"
  shows "c_com c' = c_com c"
  using assms(3)
proof (cases rule: import_entry_cases)
  case (failed x)
  with assms(1,2) show ?thesis unfolding atomic_def by blast
qed simp_all

lemma atomic_UpsertFromImport: "atomic (UpsertFromImport env i actor)"
  by (rule atomic_conferences)

subsection \<open>The loop\<close>

lemma import_loop_keeps:
  fixes c :: "'m conn_scheme"
  assumes up: "\<And>i. evolves R (UpsertFromImport env i actor :: 'm conn_scheme \<Rightarrow> _)" and refl: "\<And>d. R d d"
    and trans: "\<And>a b d. R a b \<Longrightarrow> R b d \<Longrightarrow> R a d"
  shows "c_tx c = None \<Longrightarrow> import_loop env actor strict k es r c = (r', c') \<Longrightarrow>
    c_tx c' = None \<and> R (c_com c) (c_com c')"
proof (induction es arbitrary: k r c)
  case (Cons e es)
  obtain s c1 where one: "import_entry env actor e c = (s, c1)" by fastforce
  have c1: "c_tx c1 = None" "R (c_com c) (c_com c1)"
    using keeps_import_entry [OF up refl Cons.prems(1) one] by auto
  have rest: "c_tx c' = None \<and> R (c_com c) (c_com c')" if "import_loop env actor strict (Suc k) es q c1 = (r', c')" for q
    using Cons.IH [OF c1(1) that] trans c1(2) by blast
  show ?case
    using Cons.prems(2) one c1 rest by (auto simp: Let_def split: sum.splits if_splits)
qed (use refl in auto)

lemma frames_import_entry: "frames (import_entry env actor e)"
  by (simp add: frames_def import_entry_def Let_def frames_snd [OF frames_on_err [OF frames_conferences(6)]])

lemma frames_RunImport: "frames (RunImport env es actor strict)"
proof -
  have "outside (snd (import_loop env actor strict k es r c)) = outside c" for k r and c :: "'a conn_scheme"
  proof (induction es arbitrary: k r c)
    case (Cons e es)
    obtain s c1 where 1: "import_entry env actor e c = (s, c1)" by fastforce
    have "outside c1 = outside c" by (rule framesD [OF frames_import_entry 1])
    then show ?case using 1 Cons.IH by (cases strict) (simp_all add: Let_def split: sum.split)
  qed simp
  then show ?thesis by (simp add: frames_def RunImport_def)
qed

lemma import_loop_counts:
  "import_loop env actor False k es r c = (r', c') \<Longrightarrow>
     nCreated r' + nUpdated r' + nSkipped r' = nCreated r + nUpdated r + nSkipped r + length es
     \<and> length (nErrs r') + nSkipped r = length (nErrs r) + nSkipped r'"
proof (induction es arbitrary: k r c)
  case (Cons e es)
  obtain s c1 where one: "import_entry env actor e c = (s, c1)" by fastforce
  show ?case
  proof (cases s)
    case (Inl m)
    let ?r = "r\<lparr>nErrs := nErrs r @ [entry_msg k e m], nSkipped := nSkipped r + 1\<rparr>"
    have "import_loop env actor False (Suc k) es ?r c1 = (r', c')" using Cons.prems one Inl by (simp add: Let_def)
    from Cons.IH [OF this] show ?thesis by simp
  next
    case (Inr b)
    let ?r = "if b then r\<lparr>nCreated := nCreated r + 1\<rparr> else r\<lparr>nUpdated := nUpdated r + 1\<rparr>"
    have "import_loop env actor False (Suc k) es ?r c1 = (r', c')" using Cons.prems one Inr by simp
    from Cons.IH [OF this] show ?thesis by (simp split: if_splits)
  qed
qed simp

lemma import_loop_strict:
  "c_tx c = None \<Longrightarrow> import_loop env actor True i es r c = (r', c') \<Longrightarrow>
    (nErrs r' = nErrs r \<and> nSkipped r' = nSkipped r
       \<and> nCreated r' + nUpdated r' = nCreated r + nUpdated r + length es)
    \<or> (\<exists>k < length es. \<exists>r1 c1 m. import_loop env actor True i (take k es) r c = (r1, c1)
       \<and> nErrs r1 = nErrs r \<and> r' = r1\<lparr>nErrs := nErrs r @ [m]\<rparr> \<and> c_com c' = c_com c1)"
proof (induction es arbitrary: i r c)
  case (Cons e es)
  obtain s c1 where one: "import_entry env actor e c = (s, c1)" by fastforce
  show ?case
  proof (cases s)
    case (Inl m)
    have "c_com c1 = c_com c"
      using import_entry_error_unchanged [OF atomic_UpsertFromImport Cons.prems(1)] one Inl by simp
    then show ?thesis
      using Cons.prems(2) one Inl by (intro disjI2 exI [of _ 0]) (auto simp: Let_def)
  next
    case (Inr b)
    let ?r = "if b then r\<lparr>nCreated := nCreated r + 1\<rparr> else r\<lparr>nUpdated := nUpdated r + 1\<rparr>"
    have run: "import_loop env actor True (Suc i) es ?r c1 = (r', c')" using Cons.prems one Inr by simp
    have n: "c_tx c1 = None"
      using keeps_import_entry [OF any_conf.keeps_UpsertFromImport _ Cons.prems(1) one] by simp
    have r: "nErrs ?r = nErrs r" "nSkipped ?r = nSkipped r" "nCreated ?r + nUpdated ?r = nCreated r + nUpdated r + 1"
      by simp_all
    from Cons.IH [OF n run] consider
      "nErrs r' = nErrs r" "nSkipped r' = nSkipped r" "nCreated r' + nUpdated r' = nCreated r + nUpdated r + 1 + length es"
      | k r1 c2 m where "k < length es" "import_loop env actor True (Suc i) (take k es) ?r c1 = (r1, c2)"
        "nErrs r1 = nErrs r" "r' = r1\<lparr>nErrs := nErrs r @ [m]\<rparr>" "c_com c' = c_com c2"
      using r by metis
    then show ?thesis
    proof cases
      case 2
      have "import_loop env actor True i (take (Suc k) (e # es)) r c = (r1, c2)"
        using 2(2) one Inr by simp
      with 2 show ?thesis by (intro disjI2 exI [of _ "Suc k"]) auto
    qed simp
  qed
qed simp

subsection \<open>Properties\<close>

text \<open>
  An import, strict or not, keeps the constraints of the schema and never rewrites a reminder
  that is no longer pending.
\<close>

theorem import_keeps_schema:
  assumes "RunImport env es actor strict c = (r, c')" and "c_tx c = None" and "wf_db env (c_com c)"
  shows "wf_db env (c_com c') \<and> keeps_history (c_com c) (c_com c')"
proof -
  have run: "import_loop env actor strict 0 es \<lparr>nCreated = 0, nUpdated = 0, nSkipped = 0, nErrs = []\<rparr> c = (r, c')"
    using assms(1) by (simp add: RunImport_def)
  have "wf_step env (c_com c) (c_com c')"
    using import_loop_keeps [OF wf_conf.keeps_UpsertFromImport wf.R_refl _ assms(2) run] wf.R_trans by blast
  moreover have "keeps_history (c_com c) (c_com c')"
    using import_loop_keeps [OF hist_conf.keeps_UpsertFromImport hist.R_refl _ assms(2) run] hist.R_trans by blast
  ultimately show ?thesis using assms(3) by (simp add: wf_step_def)
qed

definition sample_entry :: entry where
  "sample_entry = \<lparr>yName = ''X'', yAcronym = ''X'', yYear = 2027, yLocation = ''M'', yWebsiteURL = [],
     yCFPURL = [], yPrimaryDeadline = [], yAbstractDeadline = [], yNotificationDate = [],
     yCameraReadyDate = [], yEventStartDate = [], yEventEndDate = [], yCoreRank = [], yH5Index = 0,
     yAcceptanceRatePct = Finite 0, yDblpKey = [], yNotes = [], yTags = [''t''], yTracks = [''d'']\<rparr>"

lemmas import_eval = RunImport_def import_entry_def Validate_def sample_entry_def UpsertFromImport_def
  importInputFromYAML_def parseTimestamp_def parseDate_def nonempty_def positive_def import_params_def ptrSlice_def
  import_create_in_tx_def import_update_in_tx_def GetConferenceByAcronymYear_def

lemma sample_upsert:
  "\<exists>c'. UpsertFromImport sample_env (importInputFromYAML sample_entry) 1 sample_conn = (Inr True, c')
     \<and> c_fault c' = (\<lambda>_. None)"
  by (simp add: import_eval run_eval conference_eval sample_defs)

theorem import_keeps_schema_witness:
  "\<exists>r c'. RunImport sample_env [sample_entry] 1 False sample_conn = (r, c') \<and> wf_db sample_env (c_com c')"
proof -
  obtain r c' where run: "RunImport sample_env [sample_entry] 1 False sample_conn = (r, c')" by fastforce
  have "c_tx sample_conn = None" "wf_db sample_env (c_com sample_conn)"
    using sample_wf by (simp_all add: sample_conn_def)
  from import_keeps_schema [OF run this] run show ?thesis by blast
qed

text \<open>
  A lenient import accounts for every entry: each is created, updated or skipped, and there is
  one message for each entry skipped.
\<close>

theorem lenient_import_counts:
  assumes "RunImport env es actor False c = (r, c')"
  shows "nCreated r + nUpdated r + nSkipped r = length es \<and> length (nErrs r) = nSkipped r"
  using import_loop_counts [OF assms [unfolded RunImport_def]] by simp

theorem lenient_import_counts_witness:
  "\<exists>r c'. RunImport sample_env [sample_entry, sample_entry] 1 False sample_conn = (r, c')
     \<and> nCreated r + nUpdated r + nSkipped r = 2"
proof -
  obtain r c' where run: "RunImport sample_env [sample_entry, sample_entry] 1 False sample_conn = (r, c')" by fastforce
  from lenient_import_counts [OF this] run show ?thesis by auto
qed

text \<open>
  A strict import either takes every entry, or stops at the first one refused: what the entries
  before it wrote stays committed, the counts are theirs, and there is one message.
\<close>

theorem strict_import_prefix:
  assumes "c_tx c = None" and "RunImport env es actor True c = (r, c')"
  shows "nErrs r = [] \<and> nSkipped r = 0 \<and> nCreated r + nUpdated r = length es
    \<or> (\<exists>k < length es. \<exists>r1 c1 m. RunImport env (take k es) actor True c = (r1, c1)
       \<and> nErrs r1 = [] \<and> r = r1\<lparr>nErrs := [m]\<rparr> \<and> c_com c' = c_com c1)"
  using import_loop_strict [OF assms(1) assms(2) [unfolded RunImport_def]] by (simp add: RunImport_def)

definition bad_entry :: entry where
  "bad_entry = sample_entry\<lparr>yName := []\<rparr>"

theorem strict_import_prefix_witness:
  "\<exists>r c' r1 c1 m. RunImport sample_env [sample_entry, bad_entry] 1 True sample_conn = (r, c')
     \<and> RunImport sample_env [sample_entry] 1 True sample_conn = (r1, c1)
     \<and> nErrs r1 = [] \<and> r = r1\<lparr>nErrs := [m]\<rparr> \<and> c_com c' = c_com c1"
proof -
  obtain r c' where run: "RunImport sample_env [sample_entry, bad_entry] 1 True sample_conn = (r, c')" by fastforce
  have one: "\<exists>c1. import_entry sample_env 1 sample_entry sample_conn = (Inr True, c1)"
    using sample_upsert by (auto simp: import_entry_def Validate_def sample_entry_def on_err_def)
  have two: "\<exists>m. import_entry sample_env 1 bad_entry c = (Inl m, c)" for c :: conn
    by (simp add: import_entry_def Validate_def bad_entry_def sample_entry_def)
  have "c_tx sample_conn = None" by (simp add: sample_conn_def)
  note prefix = strict_import_prefix [OF this run]
  obtain c1 where c1: "import_entry sample_env 1 sample_entry sample_conn = (Inr True, c1)" using one by blast
  obtain m where m: "import_entry sample_env 1 bad_entry c1 = (Inl m, c1)" using two by blast
  have r: "nErrs r \<noteq> [] \<and> nCreated r = 1" using run c1 m by (auto simp: RunImport_def Let_def)
  from prefix have "\<exists>k < 2. \<exists>r1 c2 x. RunImport sample_env (take k [sample_entry, bad_entry]) 1 True sample_conn = (r1, c2)
      \<and> nErrs r1 = [] \<and> r = r1\<lparr>nErrs := [x]\<rparr> \<and> c_com c' = c_com c2"
    using r by (simp add: numeral_2_eq_2)
  then obtain k r1 c2 x where k: "k < 2"
    "RunImport sample_env (take k [sample_entry, bad_entry]) 1 True sample_conn = (r1, c2)"
    "nErrs r1 = []" "r = r1\<lparr>nErrs := [x]\<rparr>" "c_com c' = c_com c2" by blast
  have "k \<noteq> 0" using k(2,4) r by (cases "k = 0") (auto simp: RunImport_def)
  with k(1) have "k = 1" by simp
  with k(2-) run show ?thesis by auto
qed

lemma date_only_is_no_time:
  assumes "valid_date y m d" and "0 \<le> y" and "y < 10000"
  shows "Parse_RFC3339 (date_text (y, m, d)) = None \<and> Parse_literal_Z (date_text (y, m, d)) = None"
  using ymd_read [OF assms, of "[]"]
  by (simp add: Parse_RFC3339_def Parse_literal_Z_def and_then_def clock_def whole_def)

lemma texts_not_empty: "date_text p \<noteq> []" "rfc3339_text t \<noteq> []"
  by (simp_all add: date_text_def rfc3339_text_def Let_def four_text_def two_text_def split: prod.splits)

text \<open>
  A deadline written in the RFC 3339 form of its instant, with a year of four digits and whole
  seconds, is imported as that instant; written as a bare date it is midnight UTC of the day; and a
  text no layout accepts is imported as no deadline, without a message.
\<close>

theorem import_deadline_read:
  assumes "date_in UTC t = (y, m, d)" and "0 \<le> y" and "y < 10000" and "nsec_of t = 0"
  shows "imPrimaryDeadline (importInputFromYAML (e\<lparr>yPrimaryDeadline := rfc3339_text t\<rparr>)) = Some t
    \<and> imPrimaryDeadline (importInputFromYAML (e\<lparr>yPrimaryDeadline := date_text (y, m, d)\<rparr>))
        = Some (unix t div day_secs * day_secs * second)
    \<and> imPrimaryDeadline (importInputFromYAML (e\<lparr>yPrimaryDeadline := ''soon''\<rparr>)) = None
    \<and> Validate (e\<lparr>yPrimaryDeadline := ''soon''\<rparr>) = Validate e"
proof -
  have v: "valid_date y m d" and days: "civil_to_days y m d = unix t div day_secs"
    using civil_to_days_to_civil [of "unix t div day_secs"] assms(1) by (auto simp: date_in_def)
  have "parseTimestamp (rfc3339_text t) = Some t"
    using Parse_rfc3339_text [OF assms] by (simp add: parseTimestamp_def first_of_def texts_not_empty)
  moreover have "parseTimestamp (date_text (y, m, d)) = Some (unix t div day_secs * day_secs * second)"
    using date_only_is_no_time [OF v assms(2,3)] Parse_date_text [OF v assms(2,3)] days
    by (simp add: parseTimestamp_def first_of_def texts_not_empty)
  moreover have "parseTimestamp ''soon'' = None"
    by (simp add: parseTimestamp_def first_of_def Parse_RFC3339_def Parse_literal_Z_def Parse_date_def ymd_def
        and_then_def isDigit_def whole_def)
  ultimately show ?thesis by (simp add: importInputFromYAML_def Validate_def)
qed

theorem import_deadline_read_witness:
  "imPrimaryDeadline (importInputFromYAML (sample_entry\<lparr>yPrimaryDeadline := ''2027-01-15T08:00:00Z''\<rparr>))
     = Some 1800000000000000000"
proof -
  have d: "date_in UTC 1800000000000000000 = (2027, 1, 15)" by code_simp
  have "rfc3339_text 1800000000000000000 = ''2027-01-15T08:00:00Z''" by code_simp
  then show ?thesis using import_deadline_read [OF d, of sample_entry] by (simp add: nsec_of_def second_def)
qed

end
