(* ===== verification/Go_Json.thy ===== *)
theory Go_Json
  imports Go_Text
begin

text \<open>
  \<^verbatim>\<open>json.Unmarshal\<close> into a slice of strings, as \<^verbatim>\<open>auth/oidc.go\<close> uses it on a group
  claim that comes as text, and \<^verbatim>\<open>sha256.Sum256\<close>. Both work on bytes.

  The text of a slice of strings is \<open>null\<close> or an array of strings and \<open>null\<close>s; every other text
  is an error, of the syntax or of the type. In a string an escape of a lone surrogate and bytes
  that are not UTF-8 become U+FFFD, as the library does it.
\<close>

subsection \<open>Strings\<close>

definition hex_value :: "nat \<Rightarrow> nat option" where
  "hex_value b =
     (if 48 \<le> b \<and> b \<le> 57 then Some (b - 48)
      else if 97 \<le> b \<and> b \<le> 102 then Some (b - 87)
      else if 65 \<le> b \<and> b \<le> 70 then Some (b - 55)
      else None)"

fun getu4 :: "nat list \<Rightarrow> (rune \<times> nat list) option" where
  "getu4 (a # b # c # d # r) =
     (case (hex_value a, hex_value b, hex_value c, hex_value d) of
        (Some h3, Some h2, Some h1, Some h0) \<Rightarrow> Some (((h3 * 16 + h2) * 16 + h1) * 16 + h0, r)
      | _ \<Rightarrow> None)"
| "getu4 _ = None"

definition surrogate_pair :: "rune \<Rightarrow> rune \<Rightarrow> rune option" where
  "surrogate_pair a b =
     (if 55296 \<le> a \<and> a < 56320 \<and> 56320 \<le> b \<and> b < 57344
      then Some ((a - 55296) * 1024 + (b - 56320) + 65536) else None)"

fun low_surrogate :: "rune \<Rightarrow> nat list \<Rightarrow> (rune \<times> nat list) option" where
  "low_surrogate a (x # y # r) =
     (if x = 92 \<and> y = 117
      then (case getu4 r of
              Some (b, r') \<Rightarrow> (case surrogate_pair a b of Some u \<Rightarrow> Some (u, r') | None \<Rightarrow> None)
            | None \<Rightarrow> None)
      else None)"
| "low_surrogate a _ = None"

definition u_escape :: "nat list \<Rightarrow> (nat list \<times> nat list) option" where
  "u_escape bs =
     (case getu4 bs of
        None \<Rightarrow> None
      | Some (a, r) \<Rightarrow>
          if 55296 \<le> a \<and> a < 57344
          then (case low_surrogate a r of
                  Some (u, r') \<Rightarrow> Some (encode_rune u, r')
                | None \<Rightarrow> Some (encode_rune RuneError, r))
          else Some (encode_rune a, r))"

text \<open>What follows a backslash.\<close>

fun escape_sequence :: "nat list \<Rightarrow> (nat list \<times> nat list) option" where
  "escape_sequence [] = None"
| "escape_sequence (b # r) =
     (if b = 34 \<or> b = 92 \<or> b = 47 then Some ([b], r)
      else if b = 98 then Some ([8], r)
      else if b = 102 then Some ([12], r)
      else if b = 110 then Some ([10], r)
      else if b = 114 then Some ([13], r)
      else if b = 116 then Some ([9], r)
      else if b = 117 then u_escape r
      else None)"

definition json_char :: "nat \<Rightarrow> nat list \<Rightarrow> (nat list \<times> nat list) option" where
  "json_char b bs =
     (if b = 92 then escape_sequence bs
      else if b < 32 then None
      else (case decode_rune b bs of (r, rest) \<Rightarrow> Some (encode_rune r, rest)))"

lemma getu4_shorter: "getu4 bs = Some (a, r) \<Longrightarrow> length r \<le> length bs"
  by (cases bs rule: getu4.cases) (auto split: option.splits)

lemma low_surrogate_shorter: "low_surrogate a bs = Some (u, r) \<Longrightarrow> length r \<le> length bs"
  by (cases "(a, bs)" rule: low_surrogate.cases)
    (auto split: option.splits if_splits dest!: getu4_shorter)

lemma u_escape_shorter: "u_escape bs = Some (out, r) \<Longrightarrow> length r \<le> length bs"
  by (auto simp: u_escape_def split: option.splits if_splits
      dest!: getu4_shorter low_surrogate_shorter)

lemma json_char_shorter: "json_char b bs = Some (out, r) \<Longrightarrow> length r \<le> length bs"
  using decode_rune_shorter [of b bs]
  by (cases bs) (auto simp: json_char_def split: if_splits prod.splits dest!: u_escape_shorter)

text \<open>The rest of a string after its opening quote, up to and without the closing one.\<close>

function json_string :: "nat list \<Rightarrow> (nat list \<times> nat list) option" where
  "json_string [] = None"
| "json_string (b # bs) =
     (if b = 34 then Some ([], bs)
      else (case json_char b bs of
              None \<Rightarrow> None
            | Some (out, r) \<Rightarrow>
                (case json_string r of None \<Rightarrow> None | Some (s, r') \<Rightarrow> Some (out @ s, r'))))"
  by pat_completeness auto

termination
  by (relation "measure length") (auto dest: json_char_shorter simp: less_Suc_eq_le)

lemma json_string_shorter: "json_string bs = Some (s, r) \<Longrightarrow> length r < length bs"
proof (induction bs arbitrary: s r rule: json_string.induct)
  case (2 b bs)
  show ?case
  proof (cases "b = 34")
    case False
    then obtain out r1 s' where step: "json_char b bs = Some (out, r1)" "json_string r1 = Some (s', r)"
      using "2.prems" by (auto split: option.splits)
    have "length r < length r1" using "2.IH" [OF False step(1) refl] step(2) by blast
    then show ?thesis using json_char_shorter [OF step(1)] by simp
  qed (use "2.prems" in auto)
qed simp

subsection \<open>Arrays\<close>

fun skip_space :: "nat list \<Rightarrow> nat list" where
  "skip_space [] = []"
| "skip_space (b # bs) = (if b = 32 \<or> b = 9 \<or> b = 10 \<or> b = 13 then skip_space bs else b # bs)"

lemma skip_space_shorter: "length (skip_space bs) \<le> length bs"
  by (induction bs) auto

fun json_null :: "nat list \<Rightarrow> nat list option" where
  "json_null (a # b # c # d # r) = (if [a, b, c, d] = [110, 117, 108, 108] then Some r else None)"
| "json_null _ = None"

lemma json_null_shorter: "json_null bs = Some r \<Longrightarrow> length r < length bs"
  by (cases bs rule: json_null.cases) (auto split: if_splits)

text \<open>An element: a string, or \<open>null\<close>, which leaves the empty string.\<close>

fun json_element :: "nat list \<Rightarrow> (nat list \<times> nat list) option" where
  "json_element [] = None"
| "json_element (b # bs) =
     (if b = 34 then json_string bs
      else (case json_null (b # bs) of Some r \<Rightarrow> Some ([], r) | None \<Rightarrow> None))"

lemma json_element_shorter: "json_element bs = Some (s, r) \<Longrightarrow> length r < length bs"
  by (cases bs) (auto split: if_splits option.splits dest!: json_string_shorter json_null_shorter)

lemma json_elements_smaller:
  assumes "json_element bs = Some (s, r)" and "skip_space r = b # r'"
  shows "length (skip_space r') < length bs"
  using json_element_shorter [OF assms(1)] skip_space_shorter [of r] skip_space_shorter [of r'] assms(2)
  by simp

function json_elements :: "nat list \<Rightarrow> (nat list list \<times> nat list) option" where
  "json_elements bs =
     (case json_element bs of
        None \<Rightarrow> None
      | Some (s, r) \<Rightarrow>
          (case skip_space r of
             [] \<Rightarrow> None
           | b # r' \<Rightarrow>
               if b = 93 then Some ([s], r')
               else if b = 44
               then (case json_elements (skip_space r') of
                       None \<Rightarrow> None | Some (ss, r'') \<Rightarrow> Some (s # ss, r''))
               else None))"
  by pat_completeness auto

termination
  by (relation "measure length") (auto intro: json_elements_smaller)

declare json_elements.simps [simp del]

definition json_strings :: "nat list \<Rightarrow> (nat list list \<times> nat list) option" where
  "json_strings bs =
     (case json_null bs of
        Some r \<Rightarrow> Some ([], r)
      | None \<Rightarrow>
          (case bs of
             b # r \<Rightarrow>
               if b = 91
               then (case skip_space r of
                       c # r' \<Rightarrow> if c = 93 then Some ([], r') else json_elements (c # r')
                     | [] \<Rightarrow> None)
               else None
           | [] \<Rightarrow> None))"

definition Unmarshal_strings :: "string \<Rightarrow> string list option" where
  "Unmarshal_strings s =
     (case json_strings (skip_space (bytes_of s)) of
        Some (xs, r) \<Rightarrow> if skip_space r = [] then Some (map of_bytes xs) else None
      | None \<Rightarrow> None)"

subsection \<open>SHA-256\<close>

type_synonym w32 = "32 word"

text \<open>
  The constants of the algorithm are the first 32 bits of the fractional parts of the cube roots
  of the first 64 primes, and of the square roots of the first 8. \<open>root_floor k n\<close> is the integer
  part of the \<open>k\<close>-th root, bit by bit from the 36th.
\<close>

definition root_floor :: "nat \<Rightarrow> nat \<Rightarrow> nat" where
  "root_floor k n = fold (\<lambda>i r. if (r + 2 ^ i) ^ k \<le> n then r + 2 ^ i else r) (rev [0..<36]) 0"

definition small_primes :: "nat list" where
  "small_primes = filter (\<lambda>p. list_all (\<lambda>d. p mod d \<noteq> 0) [2..<p]) [2..<312]"

definition root_fraction :: "nat \<Rightarrow> nat \<Rightarrow> w32" where
  "root_fraction k p = word_of_int (int (root_floor k (p * 2 ^ (32 * k))))"

definition sha_K :: "w32 list" where
  "sha_K = map (root_fraction 3) (take 64 small_primes)"

definition sha_H :: "w32 list" where
  "sha_H = map (root_fraction 2) (take 8 small_primes)"

definition big_endian :: "nat \<Rightarrow> nat \<Rightarrow> nat list" where
  "big_endian k n = map (\<lambda>i. n div 256 ^ (k - 1 - i) mod 256) [0..<k]"

definition sha_pad :: "nat list \<Rightarrow> nat list" where
  "sha_pad bs =
     (let n = length bs in
      bs @ [128] @ replicate ((119 - n mod 64) mod 64) 0 @ big_endian 8 (8 * n mod 2 ^ 64))"

fun sha_words :: "nat list \<Rightarrow> w32 list" where
  "sha_words (a # b # c # d # r) =
     word_of_int (int (((a * 256 + b) * 256 + c) * 256 + d)) # sha_words r"
| "sha_words _ = []"

definition sha_next :: "w32 list \<Rightarrow> w32" where
  "sha_next w =
     (let n = length w; x = w ! (n - 15); y = w ! (n - 2);
          s0 = xor (xor (word_rotr 7 x) (word_rotr 18 x)) (drop_bit 3 x);
          s1 = xor (xor (word_rotr 17 y) (word_rotr 19 y)) (drop_bit 10 y) in
      w ! (n - 16) + s0 + w ! (n - 7) + s1)"

definition sha_schedule :: "w32 list \<Rightarrow> w32 list" where
  "sha_schedule w = ((\<lambda>w. w @ [sha_next w]) ^^ 48) w"

fun sha_round :: "w32 \<times> w32 \<Rightarrow> w32 list \<Rightarrow> w32 list" where
  "sha_round (k, w) [a, b, c, d, e, f, g, h] =
     (let S1 = xor (xor (word_rotr 6 e) (word_rotr 11 e)) (word_rotr 25 e);
          ch = xor (and e f) (and (not e) g);
          t1 = h + S1 + ch + k + w;
          S0 = xor (xor (word_rotr 2 a) (word_rotr 13 a)) (word_rotr 22 a);
          maj = xor (xor (and a b) (and a c)) (and b c) in
      [t1 + S0 + maj, a, b, c, d + t1, e, f, g])"
| "sha_round _ s = s"

definition sha_block :: "w32 list \<Rightarrow> nat list \<Rightarrow> w32 list" where
  "sha_block h block =
     map2 (+) h (fold sha_round (zip sha_K (sha_schedule (sha_words block))) h)"

function sha_blocks :: "w32 list \<Rightarrow> nat list \<Rightarrow> w32 list" where
  "sha_blocks h bs = (if bs = [] then h else sha_blocks (sha_block h (take 64 bs)) (drop 64 bs))"
  by pat_completeness auto

termination
  by (relation "measure (length \<circ> snd)") auto

declare sha_blocks.simps [simp del]

definition Sum256 :: "nat list \<Rightarrow> nat list" where
  "Sum256 bs = concat (map (\<lambda>w. big_endian 4 (unat w)) (sha_blocks sha_H (sha_pad bs)))"

lemma length_sha_round [simp]: "length (sha_round kw s) = length s"
  by (cases "(kw, s)" rule: sha_round.cases) (auto simp: Let_def)

lemma length_sha_rounds [simp]: "length (fold sha_round kws s) = length s"
  by (induction kws arbitrary: s) simp_all

lemma length_sha_blocks: "length (sha_blocks h bs) = length h"
  by (induction h bs rule: sha_blocks.induct) (subst sha_blocks.simps, simp add: sha_block_def)

lemma length_sha_H: "length sha_H = 8"
proof -
  have upto: "[2..<312] = [2..<20] @ [20..<312 :: nat]"
    using upt_add_eq_append [of 2 20 292] by simp
  have first: "filter (\<lambda>p. list_all (\<lambda>d. p mod d \<noteq> 0) [2..<p]) [2..<20 :: nat] = [2, 3, 5, 7, 11, 13, 17, 19]"
    by (simp add: upt_conv_Cons)
  have "length (take 8 ([2, 3, 5, 7, 11, 13, 17, 19] @ ps)) = 8" for ps :: "nat list" by simp
  then show ?thesis unfolding sha_H_def small_primes_def upto filter_append first length_map .
qed

lemma length_Sum256 [simp]: "length (Sum256 bs) = 32"
proof -
  have "length (concat (map (\<lambda>w. big_endian 4 (unat w)) ws)) = 4 * length ws" for ws :: "w32 list"
    by (induction ws) (simp_all add: big_endian_def)
  then show ?thesis by (simp add: Sum256_def length_sha_blocks length_sha_H)
qed

lemma Sum256_bytes: "b \<in> set (Sum256 bs) \<Longrightarrow> b < 256"
  by (auto simp: Sum256_def big_endian_def)

end
