(* ===== verification/Server.thy ===== *)
theory Server
  imports Api_Server Conferences Stars Settings Calendar_Tokens Feeds Import Go_Json
begin

text \<open>
  The handlers of \<^verbatim>\<open>http/server.go\<close>. Each takes the request, whose context carries the claims,
  and the parameters of its request object, calls a service on the connection and turns the
  result into a response of the API, or passes the error on. With the response comes the entity
  the handler marks for the audit log; a handler marks one only when it answers with success.
\<close>

subsection \<open>Problems\<close>

definition unauthorized :: "string \<Rightarrow> ProblemDetail" where
  "unauthorized detail = problem 401 ''Unauthorized'' detail"

definition badRequest :: "string \<Rightarrow> ProblemDetail" where
  "badRequest detail = problem 400 ''Bad Request'' detail"

definition conflict :: "string \<Rightarrow> ProblemDetail" where
  "conflict detail = problem 409 ''Conflict'' detail"

definition notFound :: ProblemDetail where
  "notFound = problem 404 ''Not Found'' ''conference not found''"

definition actorFromContext :: "env \<Rightarrow> request \<Rightarrow> string + uuid" where
  "actorFromContext env r =
     (case ClaimsFromContext r of
        None \<Rightarrow> Inl ''authentication required''
      | Some claims \<Rightarrow>
          (case e_uuid_parse env (scSubject claims) of
             None \<Rightarrow> Inl ''invalid session subject''
           | Some i \<Rightarrow> Inr i))"

subsection \<open>Answers\<close>

type_synonym ('a, 's) answer = "'s \<Rightarrow> (err + ('a \<times> uuid option)) \<times> 's"

text \<open>
  Calls a service: its result becomes a response and a mark; an error becomes a response where
  the handler has a case for it, and is passed on otherwise.
\<close>

definition answer ::
  "('s \<Rightarrow> (err + 'b) \<times> 's) \<Rightarrow> ('b \<Rightarrow> 'a \<times> uuid option) \<Rightarrow> (err \<Rightarrow> 'a option) \<Rightarrow> ('a, 's) answer" where
  "answer m good bad s =
     (case m s of
        (Inr x, s') \<Rightarrow> (Inr (good x), s')
      | (Inl e, s') \<Rightarrow>
          (case bad e of Some a \<Rightarrow> (Inr (a, None), s') | None \<Rightarrow> (Inl e, s')))"

definition answers :: "'a \<Rightarrow> ('a, 's) answer" where
  "answers a s = (Inr (a, None), s)"

definition with_actor ::
  "env \<Rightarrow> request \<Rightarrow> (ProblemDetail \<Rightarrow> 'a) \<Rightarrow> (uuid \<Rightarrow> ('a, 's) answer) \<Rightarrow> ('a, 's) answer" where
  "with_actor env r no_actor f =
     (case actorFromContext env r of
        Inl e \<Rightarrow> answers (no_actor (unauthorized e))
      | Inr actorID \<Rightarrow> f actorID)"

definition never :: "err \<Rightarrow> 'a option" where
  "never e = None"

definition on_not_found :: "(ProblemDetail \<Rightarrow> 'a) \<Rightarrow> err \<Rightarrow> 'a option" where
  "on_not_found f e = (if errors_Is e ErrNotFound then Some (f notFound) else None)"

subsection \<open>The session\<close>

definition Server_GetHealth :: "(GetHealthResponseObject, 's) answer" where
  "Server_GetHealth = answers (GetHealth200JSONResponse ''ok'')"

definition Server_GetMe :: "env \<Rightarrow> request \<Rightarrow> (GetMeResponseObject, 's) answer" where
  "Server_GetMe env r =
     (case ClaimsFromContext r of
        None \<Rightarrow> answers (GetMe401ApplicationProblemPlusJSONResponse (unauthorized ''authentication required''))
      | Some claims \<Rightarrow>
          (case e_uuid_parse env (scSubject claims) of
             None \<Rightarrow> answers (GetMe401ApplicationProblemPlusJSONResponse (unauthorized ''invalid subject claim''))
           | Some i \<Rightarrow> answers (GetMe200JSONResponse
               \<lparr>cuEmail = scEmail claims, cuId = i, cuName = scName claims, cuRoles = scRoles claims\<rparr>)))"

subsection \<open>Conferences\<close>

record list_query =
  lqArchived :: "bool option"
  lqTag :: "string option"
  lqTrack :: "string option"
  lqQ :: "string option"

definition Server_ListConferences ::
  "env \<Rightarrow> list_query \<Rightarrow> (ListConferencesResponseObject, 'm conn_scheme) answer" where
  "Server_ListConferences env q =
     answer (List_conferences env \<lparr>
         lIncludeArchived = (case lqArchived q of None \<Rightarrow> False | Some b \<Rightarrow> b),
         lTagSlug = lqTag q, lTrackCode = lqTrack q, lSearch = lqQ q\<rparr>)
       (\<lambda>confs. (ListConferences200JSONResponse confs, None)) never"

definition Server_GetConference :: "env \<Rightarrow> uuid \<Rightarrow> (GetConferenceResponseObject, 'm conn_scheme) answer" where
  "Server_GetConference env i =
     answer (Get_conference env i) (\<lambda>conf. (GetConference200JSONResponse conf, None))
       (on_not_found GetConference404ApplicationProblemPlusJSONResponse)"

definition Server_CreateConference ::
  "env \<Rightarrow> request \<Rightarrow> ConferenceInput \<Rightarrow> (CreateConferenceResponseObject, 'm conn_scheme) answer" where
  "Server_CreateConference env r body =
     with_actor env r CreateConference401ApplicationProblemPlusJSONResponse (\<lambda>actorID.
     answer (Create_conference env body actorID)
       (\<lambda>conf. (CreateConference201JSONResponse conf, Some (apId conf)))
       (\<lambda>e. if errors_Is e ErrValidation
            then Some (CreateConference400ApplicationProblemPlusJSONResponse (badRequest (Error env e)))
            else if errors_Is e ErrConflict
            then Some (CreateConference409ApplicationProblemPlusJSONResponse (conflict (Error env e)))
            else None))"

definition Server_UpdateConference ::
  "env \<Rightarrow> request \<Rightarrow> uuid \<Rightarrow> ConferenceInput \<Rightarrow> (UpdateConferenceResponseObject, 'm conn_scheme) answer" where
  "Server_UpdateConference env r i body =
     with_actor env r UpdateConference401ApplicationProblemPlusJSONResponse (\<lambda>actorID.
     answer (Update_conference env i body actorID)
       (\<lambda>conf. (UpdateConference200JSONResponse conf, Some (apId conf)))
       (\<lambda>e. if errors_Is e ErrNotFound
            then Some (UpdateConference404ApplicationProblemPlusJSONResponse notFound)
            else if errors_Is e ErrValidation
            then Some (UpdateConference400ApplicationProblemPlusJSONResponse (badRequest (Error env e)))
            else if errors_Is e ErrConflict
            then Some (UpdateConference409ApplicationProblemPlusJSONResponse (conflict (Error env e)))
            else None))"

definition Server_DeleteConference :: "uuid \<Rightarrow> (DeleteConferenceResponseObject, 'm conn_scheme) answer" where
  "Server_DeleteConference i =
     answer (Delete_conference i) (\<lambda>_. (DeleteConference204Response, Some i))
       (on_not_found DeleteConference404ApplicationProblemPlusJSONResponse)"

definition Server_ArchiveConference :: "env \<Rightarrow> uuid \<Rightarrow> (ArchiveConferenceResponseObject, 'm conn_scheme) answer" where
  "Server_ArchiveConference env i =
     answer (Archive_conference env i) (\<lambda>conf. (ArchiveConference200JSONResponse conf, Some (apId conf)))
       (on_not_found ArchiveConference404ApplicationProblemPlusJSONResponse)"

definition Server_UnarchiveConference :: "env \<Rightarrow> uuid \<Rightarrow> (UnarchiveConferenceResponseObject, 'm conn_scheme) answer" where
  "Server_UnarchiveConference env i =
     answer (Unarchive_conference env i) (\<lambda>conf. (UnarchiveConference200JSONResponse conf, Some (apId conf)))
       (on_not_found UnarchiveConference404ApplicationProblemPlusJSONResponse)"

definition Server_ListTags :: "env \<Rightarrow> (ListTagsResponseObject, 'm conn_scheme) answer" where
  "Server_ListTags env = answer (ListTags_service env) (\<lambda>ts. (ListTags200JSONResponse ts, None)) never"

definition Server_ListTracks :: "env \<Rightarrow> (ListTracksResponseObject, 'm conn_scheme) answer" where
  "Server_ListTracks env = answer (ListTracks_service env) (\<lambda>ts. (ListTracks200JSONResponse ts, None)) never"

subsection \<open>Stars and settings\<close>

definition Server_StarConference ::
  "env \<Rightarrow> request \<Rightarrow> uuid \<Rightarrow> (StarConferenceResponseObject, 'm conn_scheme) answer" where
  "Server_StarConference env r i =
     with_actor env r StarConference401ApplicationProblemPlusJSONResponse (\<lambda>actorID.
     answer (Star env actorID i) (\<lambda>_. (StarConference204Response, None))
       (on_not_found StarConference404ApplicationProblemPlusJSONResponse))"

definition Server_UnstarConference ::
  "env \<Rightarrow> request \<Rightarrow> uuid \<Rightarrow> (UnstarConferenceResponseObject, 'm conn_scheme) answer" where
  "Server_UnstarConference env r i =
     with_actor env r UnstarConference401ApplicationProblemPlusJSONResponse (\<lambda>actorID.
     answer (Unstar actorID i) (\<lambda>_. (UnstarConference204Response, None))
       (on_not_found UnstarConference404ApplicationProblemPlusJSONResponse))"

definition Server_ListMyStars :: "env \<Rightarrow> request \<Rightarrow> (ListMyStarsResponseObject, 'm conn_scheme) answer" where
  "Server_ListMyStars env r =
     with_actor env r ListMyStars401ApplicationProblemPlusJSONResponse (\<lambda>actorID.
     answer (ListStarred env actorID) (\<lambda>confs. (ListMyStars200JSONResponse confs, None)) never)"

definition Server_GetMySettings :: "env \<Rightarrow> request \<Rightarrow> (GetMySettingsResponseObject, 'm conn_scheme) answer" where
  "Server_GetMySettings env r =
     with_actor env r GetMySettings401ApplicationProblemPlusJSONResponse (\<lambda>actorID.
     answer (Get_settings actorID) (\<lambda>st. (GetMySettings200JSONResponse st, None)) never)"

definition Server_UpdateMySettings ::
  "env \<Rightarrow> request \<Rightarrow> UserSettingsInput \<Rightarrow> (UpdateMySettingsResponseObject, 'm conn_scheme) answer" where
  "Server_UpdateMySettings env r body =
     with_actor env r UpdateMySettings401ApplicationProblemPlusJSONResponse (\<lambda>actorID.
     answer (Update_settings env actorID body) (\<lambda>st. (UpdateMySettings200JSONResponse st, None))
       (\<lambda>e. if errors_Is e ErrValidation
            then Some (UpdateMySettings400ApplicationProblemPlusJSONResponse (badRequest (Error env e)))
            else None))"

subsection \<open>Calendars\<close>

definition hex_digit :: "nat \<Rightarrow> char" where
  "hex_digit d = ''0123456789abcdef'' ! d"

definition computeETag :: "string \<Rightarrow> string" where
  "computeETag body =
     CHR 0x22 # concat (map (\<lambda>b. [hex_digit (b div 16), hex_digit (b mod 16)]) (take 8 (Sum256 (bytes_of body))))
       @ [CHR 0x22]"

definition calendar_answer :: "string \<Rightarrow> string \<Rightarrow> calendar_response" where
  "calendar_answer cc body =
     \<lparr>crBody = body, crCacheControl = Some cc, crETag = Some (computeETag body),
      crContentLength = int (length body)\<rparr>"

definition Server_GetPublicCalendar ::
  "env \<Rightarrow> string option \<Rightarrow> (GetPublicCalendarResponseObject, 'm conn_scheme) answer" where
  "Server_GetPublicCalendar env ifNoneMatch =
     answer (BuildPublicFeed env)
       (\<lambda>body. if ifNoneMatch = Some (computeETag body) then (GetPublicCalendar304Response, None)
         else (GetPublicCalendar200TextcalendarResponse (calendar_answer ''public, max-age=300'' body), None))
       never"

definition Server_GetPersonalCalendar ::
  "env \<Rightarrow> string \<Rightarrow> string option \<Rightarrow> (GetPersonalCalendarResponseObject, 'm conn_scheme) answer" where
  "Server_GetPersonalCalendar env token ifNoneMatch s =
     (case LookupToken token s of
        (Inl e, s) \<Rightarrow> answers (GetPersonalCalendar404ApplicationProblemPlusJSONResponse notFound) s
      | (Inr userID, s) \<Rightarrow>
          answer (BuildPersonalFeed env userID)
            (\<lambda>body. if ifNoneMatch = Some (computeETag body) then (GetPersonalCalendar304Response, None)
              else (GetPersonalCalendar200TextcalendarResponse
                (calendar_answer ''private, max-age=300'' body), None))
            never s)"

definition Server_ListMyCalendarTokens ::
  "env \<Rightarrow> string \<Rightarrow> request \<Rightarrow> (ListMyCalendarTokensResponseObject, 'm conn_scheme) answer" where
  "Server_ListMyCalendarTokens env url r =
     with_actor env r ListMyCalendarTokens401ApplicationProblemPlusJSONResponse (\<lambda>actorID.
     answer (List_tokens url actorID) (\<lambda>ts. (ListMyCalendarTokens200JSONResponse ts, None)) never)"

definition Server_CreateCalendarToken ::
  "env \<Rightarrow> string \<Rightarrow> err + nat list \<Rightarrow> request \<Rightarrow> (CreateCalendarTokenResponseObject, 'm conn_scheme) answer" where
  "Server_CreateCalendarToken env url random r =
     with_actor env r CreateCalendarToken401ApplicationProblemPlusJSONResponse (\<lambda>actorID.
     answer (Create_token url random actorID) (\<lambda>t. (CreateCalendarToken201JSONResponse t, None)) never)"

definition Server_DeleteCalendarToken ::
  "env \<Rightarrow> request \<Rightarrow> (DeleteCalendarTokenResponseObject, 'm conn_scheme) answer" where
  "Server_DeleteCalendarToken env r =
     with_actor env r DeleteCalendarToken401ApplicationProblemPlusJSONResponse (\<lambda>actorID.
     answer (Delete_token actorID) (\<lambda>_. (DeleteCalendarToken204Response, None))
       (on_not_found DeleteCalendarToken404ApplicationProblemPlusJSONResponse))"

subsection \<open>The audit log and the import\<close>

record audit_query =
  aqEntityType :: "string option"
  aqEntityId :: "uuid option"
  aqActor :: "string option"
  aqLimit :: "int option"
  aqBefore :: "instant option"

definition rowToAuditEntry :: "audit_entry \<Rightarrow> AuditEntry" where
  "rowToAuditEntry r = \<lparr>
     aeId = aID r, aeAction = aAction r, aeActorDisplayName = aActorDisplayName r,
     aeActorOidcSubject = aActorOidcSubject r, aeActorUserId = aActorUserID r,
     aeCreatedAt = aCreatedAt r, aeEntityId = aEntityID r, aeEntityType = aEntityType r\<rparr>"

definition Server_ListAuditLog :: "audit_query \<Rightarrow> (ListAuditLogResponseObject, 'm conn_scheme) answer" where
  "Server_ListAuditLog q =
     (let limit = (case aqLimit q of None \<Rightarrow> 50 | Some n \<Rightarrow> int32_of n) in
      answer (on_err Pg (exec Pool (ListAuditLog
          \<lparr>laEntityType = aqEntityType q, laEntityID = aqEntityId q, laActorOidcSubject = aqActor q,
           laBefore = aqBefore q, laLimitVal = Some limit\<rparr>)))
        (\<lambda>rs. (ListAuditLog200JSONResponse (map rowToAuditEntry rs), None)) never)"

definition import_result :: "counts \<Rightarrow> ImportResult" where
  "import_result n = \<lparr>irCreated = int (nCreated n), irUpdated = int (nUpdated n),
     irSkipped = int (nSkipped n), irErrors = Some (nErrs n)\<rparr>"

definition Server_ImportConferences ::
  "env \<Rightarrow> (string \<Rightarrow> string + entry list) \<Rightarrow> request \<Rightarrow> (ImportConferencesResponseObject, 'm conn_scheme) answer" where
  "Server_ImportConferences env decode r =
     with_actor env r ImportConferences401ApplicationProblemPlusJSONResponse (\<lambda>actorID.
       case Parse_yaml decode (qBody r) of
         Inl e \<Rightarrow> answers (ImportConferences400ApplicationProblemPlusJSONResponse (badRequest (Error env e)))
       | Inr entries \<Rightarrow> (\<lambda>s. case RunImport env entries actorID True s of (n, s') \<Rightarrow>
           answers (ImportConferences200JSONResponse (import_result n)) s'))"

end
