(* ===== verification/Feed_Facts.thy ===== *)
theory Feed_Facts
  imports Server
begin

text \<open>
  The personal feed as a caller with the secret address sees it: from the token in the path to the
  events in the answer.
\<close>

subsection \<open>What the feed of a token should hold\<close>

definition token_active :: "string \<Rightarrow> uuid \<Rightarrow> db \<Rightarrow> bool" where
  "token_active token u d \<longleftrightarrow>
     (\<exists>k \<in> set (calendar_tokens d). kToken k = token \<and> kUserID k = u \<and> kRevokedAt k = None)"

definition stars_of :: "uuid \<Rightarrow> db \<Rightarrow> conference list" where
  "stars_of u d = filter (\<lambda>k. \<exists>s \<in> set (stars d). sUserID s = u \<and> sConferenceID s = cID k) (conferences d)"

definition personal_feed :: "env \<Rightarrow> string \<Rightarrow> db \<Rightarrow> string \<Rightarrow> bool" where
  "personal_feed env token d body \<longleftrightarrow> (\<exists>u ks. token_active token u d \<and> feed_has env ks (content_lines body)
     \<and> mset ks = mset (stars_of u d) \<and> sorted (map (deadline_key env) ks))"

text \<open>The mark that a use leaves on the token.\<close>

definition used :: "string \<Rightarrow> instant \<Rightarrow> db \<Rightarrow> db" where
  "used token t d = d\<lparr>calendar_tokens := map (\<lambda>k. if kToken k = token \<and> kRevokedAt k = None
     then k\<lparr>kLastUsedAt := Some t\<rparr> else k) (calendar_tokens d)\<rparr>"

lemma LookupToken_found:
  assumes "LookupToken token c = (Inr u, c')"
  shows "token_active token u (c_com c) \<and> c_tx c' = c_tx c \<and> c_fault c' = c_fault c
    \<and> (\<exists>t. c_com c' = used token t (c_com c))"
  using assms unfolding LookupToken_def
  by (elim andthen_InrE on_err_InrE exec_Pool_InrE)
    (auto simp: GetCalendarTokenByValue_def with_texts_Inr_iff Let_def token_active_def used_def update_where_def
      split: option.splits dest!: find_Some_iff_mem)

lemma LookupToken_failed:
  "LookupToken token c = (Inl e, c') \<Longrightarrow> c_tx c = None \<Longrightarrow> c_com c' = c_com c"
  unfolding LookupToken_def
  by (auto simp: andthen_def on_err_def exec_def exec_pool_def Let_def
      split: prod.splits sum.splits option.splits if_splits)

lemma LookupToken_works:
  assumes "LookupToken token c = (Inl e, c')" and "text_ok token" and "\<forall>n. c_fault c n = None"
  shows "\<not> token_active token u (c_com c)"
proof
  assume "token_active token u (c_com c)"
  then have "find (\<lambda>k. kToken k = token \<and> kRevokedAt k = None) (calendar_tokens (c_com c)) \<noteq> None"
    by (auto simp: token_active_def find_None_iff)
  with assms show False
    by (auto simp: LookupToken_def run_eval GetCalendarTokenByValue_def with_texts_def texts_ok_def)
qed

lemma BuildPersonalFeed_works:
  assumes "\<forall>n. c_fault c n = None"
  shows "\<exists>body c'. BuildPersonalFeed env u c = (Inr body, c')"
  using assms by (simp add: BuildPersonalFeed_def run_eval ListUserStarredConferences_def rows_def)

lemma stars_of_used: "stars_of u (used token t d) = stars_of u d" "conferences (used token t d) = conferences d"
  by (simp_all add: stars_of_def used_def)

lemma personal_feed_built:
  assumes "BuildPersonalFeed env u c = (Inr body, c')" and "c_tx c = None"
    and texts: "\<forall>k \<in> set (conferences (c_com c)). feed_texts_ok env k"
  shows "c_com c' = c_com c \<and> (\<exists>ks. feed_has env ks (content_lines body)
    \<and> mset ks = mset (stars_of u (c_com c)) \<and> sorted (map (deadline_key env) ks))"
proof -
  let ?ks = "sort_key (deadline_key env) (stars_of u (c_com c))"
  have "filter (\<lambda>k. (u, cID k) \<in> set (map star_key (stars d))) (conferences d) = stars_of u d" for d
    unfolding stars_of_def by (rule filter_cong) (auto simp: star_key_def)
  then have post: "c_com c' = c_com c \<and> body = Encode (feed_calendar env ?ks)"
    using out_postD [OF BuildPersonalFeed_post assms(2,1)] by simp
  have "\<forall>k \<in> set ?ks. feed_texts_ok env k" using texts by (simp add: stars_of_def)
  from feed_calendar_has [OF this] post sort_key_props show ?thesis by blast
qed

subsection \<open>Properties\<close>

text \<open>
  C29: What the secret address of a feed answers. Without an active token of this value the answer is
  404 and nothing changes; with one, if the database works and takes the token as a text, it is a feed
  or 304. The feed, read as a reader does, has the events of the conferences that the owner of the
  token has starred, archived ones included, in the order of their submission deadlines and names,
  and nothing else, and all that changes is the time of the last use of the token; an answer 304 says
  that the caller already has such a feed, by its checksum. As for the public feed, the texts of the
  conferences must be valid UTF-8 and their web addresses free of line feeds, which the program does
  not check.
\<close>

theorem personal_feed_correct:
  assumes run: "Server_GetPersonalCalendar env token etag c = (res, c')" and n: "c_tx c = None"
    and texts: "\<forall>k \<in> set (conferences (c_com c)). feed_texts_ok env k"
  shows "((\<nexists>u. token_active token u (c_com c)) \<longrightarrow>
       res = Inr (GetPersonalCalendar404ApplicationProblemPlusJSONResponse notFound, None))
    \<and> ((\<exists>u. token_active token u (c_com c)) \<and> text_ok token \<and> (\<forall>n. c_fault c n = None) \<longrightarrow>
       (\<exists>r m. res = Inr (r, m) \<and> (\<forall>p. r \<noteq> GetPersonalCalendar404ApplicationProblemPlusJSONResponse p)))
    \<and> (case res of
        Inr (GetPersonalCalendar404ApplicationProblemPlusJSONResponse p, m) \<Rightarrow> c_com c' = c_com c
      | Inr (GetPersonalCalendar200TextcalendarResponse a, m) \<Rightarrow>
          personal_feed env token (c_com c) (crBody a) \<and> (\<exists>t. c_com c' = used token t (c_com c))
      | Inr (GetPersonalCalendar304Response, m) \<Rightarrow>
          (\<exists>body. etag = Some (computeETag body) \<and> personal_feed env token (c_com c) body)
          \<and> (\<exists>t. c_com c' = used token t (c_com c))
      | Inl e \<Rightarrow> True)"
proof -
  obtain a s where look: "LookupToken token c = (a, s)" by force
  show ?thesis
  proof (cases a)
    case (Inl e)
    then show ?thesis
      using run LookupToken_failed [OF look [unfolded Inl] n] look
      by (auto simp: Server_GetPersonalCalendar_def answers_def dest: LookupToken_works)
  next
    case (Inr u)
    from LookupToken_found [OF look [unfolded Inr]] n obtain t where
      act: "token_active token u (c_com c)" and s: "c_tx s = None" "c_fault s = c_fault c" "c_com s = used token t (c_com c)" by auto
    obtain b s' where feed: "BuildPersonalFeed env u s = (b, s')" by force
    have "personal_feed env token (c_com c) body \<and> c_com s' = used token t (c_com c)" if "b = Inr body" for body
      using personal_feed_built [OF feed [unfolded that] s(1)] texts act
      unfolding personal_feed_def s(3) stars_of_used by blast
    moreover have "b \<noteq> Inl e" if "\<forall>n. c_fault c n = None" for e
      using BuildPersonalFeed_works [of s env u] feed that s(2) by auto
    ultimately show ?thesis
      using run look act feed Inr
      by (cases b) (auto simp: Server_GetPersonalCalendar_def answer_def never_def calendar_answer_def)
  qed
qed

text \<open>The sample database with a token of its user.\<close>

definition token_db :: db where
  "token_db = sample_db\<lparr>calendar_tokens := [\<lparr>kID = 5, kUserID = 1, kToken = ''t'', kKind = ''personal_starred'',
     kLastUsedAt = None, kRevokedAt = None, kCreatedAt = 0\<rparr>]\<rparr>"

theorem personal_feed_correct_witness:
  "\<exists>a c'. Server_GetPersonalCalendar sample_env ''t'' None (sample_conn\<lparr>c_com := token_db\<rparr>)
      = (Inr (GetPersonalCalendar200TextcalendarResponse a, None), c')
    \<and> personal_feed sample_env ''t'' token_db (crBody a)"
proof -
  let ?c = "sample_conn\<lparr>c_com := token_db\<rparr>"
  have "\<exists>a c'. Server_GetPersonalCalendar sample_env ''t'' None ?c
      = (Inr (GetPersonalCalendar200TextcalendarResponse a, None), c')"
    by (simp add: Server_GetPersonalCalendar_def LookupToken_def GetCalendarTokenByValue_def
        BuildPersonalFeed_def ListUserStarredConferences_def answer_def run_eval conference_eval
        token_db_def update_where_def sample_defs)
  then obtain a c' where run: "Server_GetPersonalCalendar sample_env ''t'' None ?c
      = (Inr (GetPersonalCalendar200TextcalendarResponse a, None), c')" by blast
  have "c_tx ?c = None" by (simp add: sample_conn_def)
  moreover have "\<forall>k \<in> set (conferences (c_com ?c)). feed_texts_ok sample_env k"
    using sample_feed_texts by (simp add: sample_conn_def token_db_def)
  ultimately have "personal_feed sample_env ''t'' token_db (crBody a)"
    using personal_feed_correct [OF run] by simp
  with run show ?thesis by blast
qed

end
