(* ===== verification/Import_Facts.thy ===== *)
theory Import_Facts
  imports Import
begin

text \<open>
  What an import leaves in the database. An upsert changes one conference, the one with the acronym
  and the year of the entry, and an import without a message stores every entry, except for what a
  later entry with the same key overwrites. Repeated, it finds every key and creates nothing.
\<close>

subsection \<open>One upsert\<close>

definition import_key :: "env \<Rightarrow> ImportInput \<Rightarrow> string \<times> int" where
  "import_key env i = (e_pg_lower env (imAcronym i), imYear i)"

text \<open>The row of an input, with its tags and tracks.\<close>

definition row_of_input :: "env \<Rightarrow> ImportInput \<Rightarrow> uuid \<Rightarrow> conference \<Rightarrow> db \<Rightarrow> bool" where
  "row_of_input env i actor row d \<longleftrightarrow> set_columns (import_params i actor) row = row
     \<and> slugs_of d (cID row) = Slugify env ` set (imTags i) \<and> tracks_of d (cID row) = set (imTracks i)"

definition others_same :: "uuid \<Rightarrow> db \<Rightarrow> db \<Rightarrow> bool" where
  "others_same i d d' \<longleftrightarrow> (\<forall>j. j \<noteq> i \<longrightarrow> slugs_of d' j = slugs_of d j \<and> tracks_of d' j = tracks_of d j)"

definition upserted :: "env \<Rightarrow> ImportInput \<Rightarrow> uuid \<Rightarrow> bool \<Rightarrow> db \<Rightarrow> db \<Rightarrow> bool" where
  "upserted env i actor b d d' \<longleftrightarrow> text_ok (imAcronym i) \<and> (\<exists>row. row_of_input env i actor row d'
     \<and> others_same (cID row) d d'
     \<and> (if b then conferences d' = conferences d @ [row] \<and> cID row \<notin> set (conf_ids d)
        else (\<exists>old \<in> set (conferences d). cID old = cID row \<and> acronym_year env old = import_key env i)
          \<and> conferences d' = update_where (\<lambda>r. cID r = cID row) (\<lambda>_. row) (conferences d)))"

lemma items_ptrSlice: "items (ptrSlice xs) = xs"
  by (simp add: items_def ptrSlice_def)

lemma acronym_texts: "texts_ok (param_texts (import_params i actor)) \<Longrightarrow> text_ok (imAcronym i)"
  by (simp add: param_texts_def texts_ok_def import_params_def)

lemma update_texts: "param_texts (update_params p i) = param_texts p"
  by (simp add: update_params_def conference_params.defs UpdateConferenceParams.defs param_texts_def)

text \<open>What setting the tags of a row leaves, once the row is there.\<close>

lemma tags_of_row_post:
  assumes wf: "wf_db env d1" and row: "set_columns (import_params i actor) row = row"
  shows "tx_post (setTagsAndTracks env (cID row) (ptrSlice (imTags i)) (ptrSlice (imTracks i))) d1
    (\<lambda>_ d'. row_of_input env i actor row d' \<and> others_same (cID row) d1 d' \<and> conferences d' = conferences d1)"
  by (rule tx_post_mono [OF setTagsAndTracks_post [OF wf]])
    (use row in \<open>auto simp: row_of_input_def others_same_def items_ptrSlice tags_frame_def\<close>)

lemma tags_untouched: "conference_tags d' = conference_tags d \<Longrightarrow> tags d' = tags d \<Longrightarrow> slugs_of d' j = slugs_of d j"
  "conference_tracks d' = conference_tracks d \<Longrightarrow> tracks_of d' j = tracks_of d j"
  by (simp_all add: slugs_of_def tracks_of_def)

lemma others_same_conferences:
  "others_same j d1 d' \<Longrightarrow> d1 = d\<lparr>conferences := cs\<rparr> \<Longrightarrow> others_same j d d'"
  by (simp add: others_same_def slugs_of_def tracks_of_def)

lemma upserted_created:
  assumes "text_ok (imAcronym i)" "d1 = d\<lparr>conferences := conferences d @ [row]\<rparr>" "cID row \<notin> set (conf_ids d)"
    and "row_of_input env i actor row d'" "others_same (cID row) d1 d'" "conferences d' = conferences d1"
  shows "upserted env i actor True d d'"
  unfolding upserted_def
  by (intro conjI exI [of _ row])
    (use assms others_same_conferences in \<open>simp_all\<close>)

lemma upserted_updated:
  assumes "text_ok (imAcronym i)" "d1 = d\<lparr>conferences := update_where (\<lambda>r. cID r = cID old) (\<lambda>_. row) (conferences d)\<rparr>"
    and "cID row = cID old" "old \<in> set (conferences d)" "acronym_year env old = import_key env i"
    and "row_of_input env i actor row v" "others_same (cID row) d1 v" "conferences v = conferences d1"
    and "d' = v\<lparr>reminders := rs\<rparr>"
  shows "upserted env i actor False d d'"
  unfolding upserted_def
proof (intro conjI exI [of _ row])
  show "row_of_input env i actor row d'"
    using assms(6,9) by (simp add: row_of_input_def slugs_of_def tracks_of_def)
  show "others_same (cID row) d d'"
    using others_same_conferences [OF assms(7,2)] assms(9) by (simp add: others_same_def slugs_of_def tracks_of_def)
qed (use assms in auto)

lemma import_create_post:
  assumes wf: "wf_db env d"
  shows "tx_post (import_create_in_tx env i actor) d (\<lambda>b d'. b \<and> upserted env i actor True d d')"
  unfolding import_create_in_tx_def
proof (intro tx_post_andthen tx_post_on_err tx_post_exec)
  fix x row d1
  assume run: "CreateConference env (create_params (import_params i actor) actor) x d = Inr (row, d1)"
  have wf1: "wf_db env d1" using wf_CreateConference run wf unfolding sql_step_def wf_step_def by blast
  have ok: "text_ok (imAcronym i)"
    using run acronym_texts [of i actor] by (simp add: CreateConference_def with_texts_def split: if_splits)
  have row: "d1 = d\<lparr>conferences := conferences d @ [row]\<rparr>" "set_columns (import_params i actor) row = row"
    "cID row \<notin> set (conf_ids d)"
    using CreateConference_effect [OF run] by blast+
  show "tx_post (setTagsAndTracks env (cID row) (ptrSlice (imTags i)) (ptrSlice (imTracks i))) d1
      (\<lambda>_ d'. tx_post (ret True) d' (\<lambda>b d'. b \<and> upserted env i actor True d d'))"
    by (rule tx_post_mono [OF tags_of_row_post [OF wf1 row(2)]], rule tx_post_ret, elim conjE)
      (rule conjI [OF TrueI upserted_created [OF ok row(1,3)]])
qed

lemma import_update_post:
  assumes wf: "wf_db env d" and old: "old \<in> set (conferences d)" "acronym_year env old = import_key env i"
  shows "tx_post (import_update_in_tx env (cID old) i actor) d (\<lambda>b d'. \<not> b \<and> upserted env i actor False d d')"
  unfolding import_update_in_tx_def
proof (intro tx_post_andthen tx_post_on_err tx_post_exec)
  fix x row d1
  assume run: "UpdateConference env (update_params (import_params i actor) (cID old)) x d = Inr (row, d1)"
  have wf1: "wf_db env d1" using wf_UpdateConference run wf unfolding sql_step_def wf_step_def by blast
  have ok: "text_ok (imAcronym i)"
    using run acronym_texts [of i actor]
    by (simp add: UpdateConference_def with_texts_def update_texts split: if_splits)
  have row: "d1 = d\<lparr>conferences := update_where (\<lambda>r. cID r = cID old) (\<lambda>_. row) (conferences d)\<rparr>"
      "set_columns (import_params i actor) row = row" "cID row = cID old"
    using UpdateConference_effect [OF run] by blast+
  have plan: "tx_post (andthen (on_err (Wrapf ''rematerialize'') (rematerializeConferenceReminders env row)) (\<lambda>_. ret False)) v
      (\<lambda>b d'. \<not> b \<and> upserted env i actor False d d')"
    if "row_of_input env i actor row v \<and> others_same (cID row) d1 v \<and> conferences v = conferences d1" for v
    using that
    by (intro tx_post_bind_err [OF rematerialize_post] tx_post_ret, elim conjE exE)
      (rule conjI [OF not_False_eq_True [THEN iffD2, OF TrueI] upserted_updated [OF ok row(1,3) old]])
  show "tx_post (setTagsAndTracks env (cID row) (ptrSlice (imTags i)) (ptrSlice (imTracks i))) d1
      (\<lambda>_ v. tx_post (andthen (on_err (Wrapf ''rematerialize'') (rematerializeConferenceReminders env row))
        (\<lambda>_. ret False)) v (\<lambda>b d'. \<not> b \<and> upserted env i actor False d d'))"
    by (rule tx_post_mono [OF tags_of_row_post [OF wf1 row(2)] plan])
qed

lemma lookup_reads: "evolves (=) (exec Pool (GetConferenceByAcronymYear env a y))"
  by (intro same.out_exec same.step_of_reads conference_reads_only)

lemma lookup_row:
  assumes "exec Pool (GetConferenceByAcronymYear env (imAcronym i) (imYear i)) c = (Inr row, c1)"
  shows "row \<in> set (conferences (c_com c)) \<and> acronym_year env row = import_key env i"
  using assms
  by (auto elim!: exec_Pool_InrE simp: GetConferenceByAcronymYear_def with_texts_def one_row_Inr_iff import_key_def
      split: if_splits dest!: find_Some_iff_mem)

lemma UpsertFromImport_Inr:
  fixes c :: "'m conn_scheme"
  assumes n: "c_tx c = None" and wf: "wf_db env (c_com c)" and run: "UpsertFromImport env i actor c = (Inr b, c')"
  shows "c_tx c' = None \<and> upserted env i actor b (c_com c) (c_com c')
    \<and> b = (case fst (exec Pool (GetConferenceByAcronymYear env (imAcronym i) (imYear i)) c) of Inl _ \<Rightarrow> True | Inr _ \<Rightarrow> False)"
proof -
  obtain s c1 where look: "exec Pool (GetConferenceByAcronymYear env (imAcronym i) (imYear i)) c = (s, c1)" by fastforce
  have c1: "c_tx c1 = None" "c_com c1 = c_com c" using evolvesD [OF lookup_reads n look] by auto
  have tx: "service_tx (case s of Inl _ \<Rightarrow> import_create_in_tx env i actor
      | Inr row \<Rightarrow> import_update_in_tx env (cID row) i actor) c1 = (Inr b, c')"
    using run look by (simp add: UpsertFromImport_def andthen_def attempt_def)
  show ?thesis
  proof (cases s)
    case (Inl e)
    have "service_tx (import_create_in_tx env i actor) c1 = (Inr b, c')" using tx Inl by simp
    from out_postD [OF out_post_in_tx [OF import_create_post] c1(1) this] wf look Inl c1(2)
    show ?thesis by auto
  next
    case (Inr row)
    have "service_tx (import_update_in_tx env (cID row) i actor) c1 = (Inr b, c')" using tx Inr by simp
    from out_postD [OF out_post_in_tx [OF import_update_post] c1(1) this] wf lookup_row [OF look [unfolded Inr]]
      look Inr c1(2)
    show ?thesis by auto
  qed
qed

lemma lookup_again:
  assumes "import_key env i \<in> acronym_year env ` set (conferences (c_com c))"
    and "text_ok (imAcronym i)" and "c_fault c (c_stmts c) = None"
  shows "\<exists>row. fst (exec Pool (GetConferenceByAcronymYear env (imAcronym i) (imYear i)) c) = Inr row"
proof (cases "find (\<lambda>k. acronym_year env k = import_key env i) (conferences (c_com c))")
  case None
  with assms(1) show ?thesis by (auto simp: find_None_iff)
next
  case (Some row)
  with assms(2,3) show ?thesis
    by (simp add: GetConferenceByAcronymYear_def with_texts_def texts_ok_def one_row_def row_of_def run_eval import_key_def)
qed


text \<open>The effect of an upsert on the keys, on its own row and on all other rows.\<close>

definition conf_keys :: "env \<Rightarrow> db \<Rightarrow> (string \<times> int) set" where
  "conf_keys env d = acronym_year env ` set (conferences d)"

definition untouched :: "env \<Rightarrow> (string \<times> int) set \<Rightarrow> db \<Rightarrow> db \<Rightarrow> bool" where
  "untouched env ks d d' \<longleftrightarrow> (\<forall>row \<in> set (conferences d). acronym_year env row \<notin> ks \<longrightarrow>
     row \<in> set (conferences d') \<and> slugs_of d' (cID row) = slugs_of d (cID row)
     \<and> tracks_of d' (cID row) = tracks_of d (cID row))"

definition stored :: "env \<Rightarrow> ImportInput \<Rightarrow> uuid \<Rightarrow> db \<Rightarrow> bool" where
  "stored env i actor d \<longleftrightarrow> (\<exists>row \<in> set (conferences d). row_of_input env i actor row d)"

lemma untouched_refl: "untouched env ks d d"
  by (simp add: untouched_def)

lemma untouched_trans: "untouched env ks a b \<Longrightarrow> untouched env ls b d \<Longrightarrow> untouched env (ks \<union> ls) a d"
  by (simp add: untouched_def)

lemma row_of_input_key: "row_of_input env i actor row d \<Longrightarrow> acronym_year env row = import_key env i"
proof -
  assume "row_of_input env i actor row d"
  then have "acronym_year env row = acronym_year env (set_columns (import_params i actor) row)"
    by (simp add: row_of_input_def)
  then show ?thesis by (simp add: acronym_year_def set_columns_def import_params_def import_key_def)
qed

lemma stored_untouched:
  assumes "stored env i actor d" and "untouched env ks d d'" and "import_key env i \<notin> ks"
  shows "stored env i actor d'"
  using assms row_of_input_key unfolding stored_def untouched_def row_of_input_def by metis

lemma upserted_effect:
  assumes wf: "wf_db env d" and up: "upserted env i actor b d d'"
  shows "conf_keys env d' = insert (import_key env i) (conf_keys env d)"
    and "untouched env {import_key env i} d d'"
    and "length (conferences d') = length (conferences d) + (if b then 1 else 0)"
    and "stored env i actor d'" and "\<not> b \<Longrightarrow> map cID (conferences d') = map cID (conferences d)"
proof -
  obtain row where row: "row_of_input env i actor row d'" and same: "others_same (cID row) d d'"
    and eff: "if b then conferences d' = conferences d @ [row] \<and> cID row \<notin> set (conf_ids d)
        else (\<exists>old \<in> set (conferences d). cID old = cID row \<and> acronym_year env old = import_key env i)
          \<and> conferences d' = update_where (\<lambda>r. cID r = cID row) (\<lambda>_. row) (conferences d)"
    using up unfolding upserted_def by blast
  note key = row_of_input_key [OF row]
  have dist: "distinct (map cID (conferences d))"
    using wf_dbD(2) [OF wf] by (simp add: conferences_ok_def conf_ids_def)
  have "conf_keys env d' = insert (import_key env i) (conf_keys env d)
    \<and> untouched env {import_key env i} d d' \<and> row \<in> set (conferences d')"
  proof (cases b)
    case True
    then have d': "conferences d' = conferences d @ [row]" and "cID row \<notin> set (conf_ids d)" using eff by simp_all
    then have "cID x \<noteq> cID row" if "x \<in> set (conferences d)" for x
      using that by (metis conf_ids_def image_eqI set_map)
    with d' key same show ?thesis
      by (simp add: conf_keys_def untouched_def others_same_def)
  next
    case False
    then obtain old where old: "old \<in> set (conferences d)" "cID old = cID row" "acronym_year env old = import_key env i"
      and d': "conferences d' = update_where (\<lambda>r. cID r = cID row) (\<lambda>_. row) (conferences d)"
      using eff by auto
    have only: "x = old" if "x \<in> set (conferences d)" "cID x = cID row" for x
      using distinct_map_eqD [OF dist that(1) old(1)] that(2) old(2) by simp
    have "map (acronym_year env) (conferences d') = map (acronym_year env) (conferences d)"
      unfolding d' update_where_def map_map
      by (intro map_cong refl) (use only key old(3) in auto)
    then have "conf_keys env d' = conf_keys env d"
      unfolding conf_keys_def by (metis set_map)
    moreover have "import_key env i \<in> conf_keys env d" using old(1,3) unfolding conf_keys_def by (metis image_eqI)
    moreover have "row \<in> set (conferences d')" using old by (auto simp: d' in_update_where_iff)
    moreover have "untouched env {import_key env i} d d'"
      unfolding untouched_def
    proof (intro ballI impI)
      fix x assume x: "x \<in> set (conferences d)" "acronym_year env x \<notin> {import_key env i}"
      then have "cID x \<noteq> cID row" using only old(3) by auto
      with x(1) same show "x \<in> set (conferences d') \<and> slugs_of d' (cID x) = slugs_of d (cID x)
          \<and> tracks_of d' (cID x) = tracks_of d (cID x)"
        by (auto simp: d' in_update_where_iff others_same_def)
    qed
    ultimately show ?thesis by auto
  qed
  then show "conf_keys env d' = insert (import_key env i) (conf_keys env d)"
    "untouched env {import_key env i} d d'" "stored env i actor d'"
    using row by (auto simp: stored_def)
  show "length (conferences d') = length (conferences d) + (if b then 1 else 0)"
    using eff by (simp add: update_where_def split: if_splits)
  show "map cID (conferences d') = map cID (conferences d)" if "\<not> b"
    using eff that by (auto intro!: map_update_where_key)
qed

subsection \<open>The loop\<close>

definition entry_key :: "env \<Rightarrow> entry \<Rightarrow> string \<times> int" where
  "entry_key env e = (e_pg_lower env (yAcronym e), yYear e)"

lemma entry_key_input: "import_key env (importInputFromYAML e) = entry_key env e"
  by (simp add: import_key_def entry_key_def importInputFromYAML_def)

lemma input_acronym: "imAcronym (importInputFromYAML e) = yAcronym e"
  by (simp add: importInputFromYAML_def)

lemma import_loop_errs: "import_loop env actor strict k es r c = (r', c') \<Longrightarrow> \<exists>ms. nErrs r' = nErrs r @ ms"
proof (induction es arbitrary: k r c)
  case (Cons e es)
  obtain s c1 where one: "import_entry env actor e c = (s, c1)" by fastforce
  have rest: "\<exists>ms. nErrs r' = nErrs q @ ms" if "import_loop env actor strict (Suc k) es q c1 = (r', c')" for q
    by (rule Cons.IH [OF that])
  show ?case
  proof (cases s)
    case (Inl m)
    with Cons.prems one rest [of "r\<lparr>nErrs := nErrs r @ [entry_msg k e m], nSkipped := nSkipped r + 1\<rparr>"]
    show ?thesis by (cases strict) (auto simp: Let_def)
  next
    case (Inr b)
    with Cons.prems one rest [of "if b then r\<lparr>nCreated := nCreated r + 1\<rparr> else r\<lparr>nUpdated := nUpdated r + 1\<rparr>"]
    show ?thesis by (cases b) auto
  qed
qed simp

text \<open>
  \<open>imported env actor es n d d'\<close>: from \<open>d\<close> to \<open>d'\<close> every entry was stored, \<open>n\<close> of them as new rows.
\<close>

definition imported :: "env \<Rightarrow> uuid \<Rightarrow> entry list \<Rightarrow> nat \<Rightarrow> db \<Rightarrow> db \<Rightarrow> bool" where
  "imported env actor es n d d' \<longleftrightarrow>
     conf_keys env d' = conf_keys env d \<union> entry_key env ` set es
     \<and> length (conferences d') = length (conferences d) + n
     \<and> untouched env (entry_key env ` set es) d d'
     \<and> (\<forall>pre e post. es = pre @ e # post \<longrightarrow> entry_key env e \<notin> entry_key env ` set post \<longrightarrow>
          stored env (importInputFromYAML e) actor d')"

lemma imported_Nil: "imported env actor [] 0 d d"
  by (simp add: imported_def untouched_refl)

lemma imported_Cons:
  assumes wf: "wf_db env d" and up: "upserted env (importInputFromYAML e) actor b d d1"
    and rest: "imported env actor es n d1 d'"
  shows "imported env actor (e # es) (n + (if b then 1 else 0)) d d'"
  unfolding imported_def
proof (intro conjI allI impI)
  note eff = upserted_effect [OF wf up, unfolded entry_key_input]
  show "conf_keys env d' = conf_keys env d \<union> entry_key env ` set (e # es)"
    "length (conferences d') = length (conferences d) + (n + (if b then 1 else 0))"
    using rest eff(1,3) by (simp_all add: imported_def)
  show "untouched env (entry_key env ` set (e # es)) d d'"
    using untouched_trans [OF eff(2), of "entry_key env ` set es" d'] rest by (simp add: imported_def)
  fix pre x post
  assume split: "e # es = pre @ x # post" and last: "entry_key env x \<notin> entry_key env ` set post"
  show "stored env (importInputFromYAML x) actor d'"
  proof (cases pre)
    case Nil
    then have x: "x = e" "post = es" using split by simp_all
    show ?thesis
      by (rule stored_untouched [OF eff(4) [folded x(1)], of "entry_key env ` set es"])
        (use rest last x in \<open>simp_all add: imported_def entry_key_input\<close>)
  next
    case (Cons y ys)
    then have "es = ys @ x # post" using split by simp
    then show ?thesis using rest last by (simp add: imported_def)
  qed
qed

lemma import_loop_all:
  fixes c :: "'m conn_scheme"
  assumes "c_tx c = None" and "wf_db env (c_com c)" and "import_loop env actor strict k es r c = (r', c')"
    and "nErrs r' = nErrs r"
  shows "c_tx c' = None \<and> wf_db env (c_com c') \<and> nSkipped r' = nSkipped r \<and> nCreated r \<le> nCreated r'
    \<and> nCreated r' + nUpdated r' = nCreated r + nUpdated r + length es
    \<and> imported env actor es (nCreated r' - nCreated r) (c_com c) (c_com c')
    \<and> (\<forall>e \<in> set es. text_ok (yAcronym e))"
  using assms
proof (induction es arbitrary: k r c)
  case Nil
  then show ?case by (simp add: imported_Nil)
next
  case (Cons e es)
  obtain s c1 where one: "import_entry env actor e c = (s, c1)" by fastforce
  show ?case
  proof (cases s)
    case (Inl m)
    have "\<exists>ms. nErrs r' = (nErrs r @ [entry_msg k e m]) @ ms"
    proof (cases strict)
      case False
      then have "import_loop env actor strict (Suc k) es
          (r\<lparr>nErrs := nErrs r @ [entry_msg k e m], nSkipped := nSkipped r + 1\<rparr>) c1 = (r', c')"
        using Cons.prems(3) one Inl by (simp add: Let_def)
      from import_loop_errs [OF this] show ?thesis by simp
    qed (use Cons.prems(3) one Inl in \<open>auto simp: Let_def\<close>)
    then show ?thesis using Cons.prems(4) by simp
  next
    case (Inr b)
    let ?r = "if b then r\<lparr>nCreated := nCreated r + 1\<rparr> else r\<lparr>nUpdated := nUpdated r + 1\<rparr>"
    have run: "import_loop env actor strict (Suc k) es ?r c1 = (r', c')" using Cons.prems(3) one Inr by simp
    from one have ins: "UpsertFromImport env (importInputFromYAML e) actor c = (Inr b, c1)"
      using Inr by (cases rule: import_entry_cases) auto
    have up: "c_tx c1 = None" "upserted env (importInputFromYAML e) actor b (c_com c) (c_com c1)"
      using UpsertFromImport_Inr [OF Cons.prems(1,2) ins] by blast+
    have wf1: "wf_db env (c_com c1)"
      using evolvesD [OF wf_conf.keeps_UpsertFromImport Cons.prems(1) ins] Cons.prems(2) by (simp add: wf_step_def)
    have "nErrs ?r = nErrs r" by simp
    then have "nErrs r' = nErrs ?r" using Cons.prems(4) by simp
    from Cons.IH [OF up(1) wf1 run this]
    have IH: "c_tx c' = None" "wf_db env (c_com c')" "nSkipped r' = nSkipped ?r" "nCreated ?r \<le> nCreated r'"
      "nCreated r' + nUpdated r' = nCreated ?r + nUpdated ?r + length es"
      "imported env actor es (nCreated r' - nCreated ?r) (c_com c1) (c_com c')"
      "\<forall>e \<in> set es. text_ok (yAcronym e)" by blast+
    have n: "nCreated r' - nCreated ?r + (if b then 1 else 0) = nCreated r' - nCreated r"
      using IH(4) by (auto split: if_splits)
    have "text_ok (yAcronym e)" using up(2) by (simp add: upserted_def importInputFromYAML_def)
    moreover have "imported env actor (e # es) (nCreated r' - nCreated r) (c_com c) (c_com c')"
      unfolding n [symmetric] by (rule imported_Cons [OF Cons.prems(2) up(2) IH(6)])
    moreover have "nSkipped ?r = nSkipped r" "nCreated r \<le> nCreated ?r" "nCreated ?r + nUpdated ?r = nCreated r + nUpdated r + 1"
      by simp_all
    ultimately show ?thesis using IH(1-5,7) by simp
  qed
qed


text \<open>Every key is there and no statement fails: each entry updates a row, or is refused.\<close>

lemma import_loop_updates:
  fixes c :: "'m conn_scheme"
  assumes "c_tx c = None" and "wf_db env (c_com c)" and "c_fault c = (\<lambda>_. None)"
    and "\<forall>e \<in> set es. text_ok (yAcronym e) \<and> entry_key env e \<in> conf_keys env (c_com c)"
    and "import_loop env actor strict k es r c = (r', c')"
  shows "nCreated r' = nCreated r \<and> map cID (conferences (c_com c')) = map cID (conferences (c_com c))"
  using assms
proof (induction es arbitrary: k r c)
  case (Cons e es)
  obtain s c1 where one: "import_entry env actor e c = (s, c1)" by fastforce
  have c1: "c_tx c1 = None" "wf_db env (c_com c1)"
    using keeps_import_entry [OF wf_conf.keeps_UpsertFromImport wf.R_refl Cons.prems(1) one] Cons.prems(2)
    by (simp_all add: wf_step_def)
  have fault: "c_fault c1 = (\<lambda>_. None)"
    using frames_fault [OF frames_import_entry one] Cons.prems(3) by simp
  have ids: "map cID (conferences (c_com c1)) = map cID (conferences (c_com c))
      \<and> conf_keys env (c_com c) \<subseteq> conf_keys env (c_com c1) \<and> (\<forall>b. s = Inr b \<longrightarrow> \<not> b)"
  proof (cases s)
    case (Inl m)
    have "c_com c1 = c_com c"
      using import_entry_error_unchanged [OF atomic_UpsertFromImport Cons.prems(1)] one Inl by simp
    then show ?thesis using Inl by simp
  next
    case (Inr b)
    from one have ins: "UpsertFromImport env (importInputFromYAML e) actor c = (Inr b, c1)"
      using Inr by (cases rule: import_entry_cases) auto
    note up = UpsertFromImport_Inr [OF Cons.prems(1,2) ins]
    have "text_ok (imAcronym (importInputFromYAML e))"
      "import_key env (importInputFromYAML e) \<in> acronym_year env ` set (conferences (c_com c))"
      using Cons.prems(4) unfolding entry_key_input conf_keys_def [symmetric]
      by (simp_all add: input_acronym)
    then have "\<not> b" using lookup_again [of env "importInputFromYAML e" c] up Cons.prems(3) by auto
    moreover have "upserted env (importInputFromYAML e) actor b (c_com c) (c_com c1)" using up by blast
    note eff = upserted_effect [OF Cons.prems(2) this]
    ultimately show ?thesis using eff(1,5) Inr by auto
  qed
  then have keys: "\<forall>e \<in> set es. text_ok (yAcronym e) \<and> entry_key env e \<in> conf_keys env (c_com c1)"
    using Cons.prems(4) by auto
  note IH = Cons.IH [OF c1 fault keys]
  show ?case
  proof (cases s)
    case (Inl m)
    with Cons.prems(5) one ids
      IH [of "Suc k" "r\<lparr>nErrs := nErrs r @ [entry_msg k e m], nSkipped := nSkipped r + 1\<rparr>"]
    show ?thesis by (cases strict) (auto simp: Let_def)
  next
    case (Inr b)
    with ids have "\<not> b" by simp
    with Inr Cons.prems(5) one ids IH [of "Suc k" "r\<lparr>nUpdated := nUpdated r + 1\<rparr>"]
    show ?thesis by auto
  qed
qed simp

subsection \<open>Properties\<close>


lemma sample_import:
  "\<exists>c'. RunImport sample_env [sample_entry] 1 True sample_conn
     = (\<lparr>nCreated = 1, nUpdated = 0, nSkipped = 0, nErrs = []\<rparr>, c') \<and> c_fault c' = (\<lambda>_. None)"
proof -
  obtain c' where "UpsertFromImport sample_env (importInputFromYAML sample_entry) 1 sample_conn = (Inr True, c')"
      "c_fault c' = (\<lambda>_. None)"
    using sample_upsert by blast
  then show ?thesis by (auto simp: RunImport_def import_entry_def Validate_def sample_entry_def on_err_def)
qed




end
