(* ===== verification/Audit_Log.thy ===== *)
theory Audit_Log
  imports Web Repo_Users
begin

text \<open>
  The audit middleware, \<^verbatim>\<open>audit/middleware.go\<close> and \<^verbatim>\<open>audit/context.go\<close>, on a state that adds
  the counter of failed writes to the connection. A handler has no context to write to here: it
  returns what it marks with \<^verbatim>\<open>MarkEntity\<close> beside its reply, and \<open>For\<close>, which put the holder into
  the context, applies the mark to it.
\<close>

record web = conn +
  w_writeFailures :: nat

text \<open>The holder in the context of a request, if the middleware has put one there.\<close>

record entityHolder =
  ehId :: uuid
  ehSet :: bool

definition initContext :: "entityHolder option" where
  "initContext = Some \<lparr>ehId = 0, ehSet = False\<rparr>"

definition MarkEntity :: "uuid \<Rightarrow> entityHolder option \<Rightarrow> entityHolder option" where
  "MarkEntity i ctx = (case ctx of None \<Rightarrow> None | Some h \<Rightarrow> Some (h\<lparr>ehId := i, ehSet := True\<rparr>))"

definition entityFromContext :: "entityHolder option \<Rightarrow> uuid option" where
  "entityFromContext ctx = (case ctx of None \<Rightarrow> None | Some h \<Rightarrow> if ehSet h then Some (ehId h) else None)"

text \<open>The context after a handler that marked \<open>mark\<close>.\<close>

definition after_mark :: "uuid option \<Rightarrow> entityHolder option \<Rightarrow> entityHolder option" where
  "after_mark mark ctx = (case mark of None \<Rightarrow> ctx | Some i \<Rightarrow> MarkEntity i ctx)"

lemma entity_marked [simp]: "entityFromContext (after_mark mark initContext) = mark"
  by (cases mark) (simp_all add: after_mark_def initContext_def MarkEntity_def entityFromContext_def)

text \<open>Without the middleware a mark goes nowhere.\<close>

lemma entity_unmarked [simp]: "entityFromContext (after_mark mark None) = None"
  by (cases mark) (simp_all add: after_mark_def MarkEntity_def entityFromContext_def)

definition status200 :: "reply \<Rightarrow> int" where
  "status200 p = (if rpStatus p = 0 then 200 else rpStatus p)"

definition Inc_writeFailures :: "'m web_scheme \<Rightarrow> 'm web_scheme" where
  "Inc_writeFailures s = s\<lparr>w_writeFailures := w_writeFailures s + 1\<rparr>"

text \<open>
  The entry's actor: the error of \<^verbatim>\<open>uuid.Parse\<close> is ignored, so the column takes the UUID that
  comes with it, \<open>partial\<close>, and is NULL when that is zero.
\<close>

definition audit_actor :: "env \<Rightarrow> (string \<Rightarrow> uuid) \<Rightarrow> SessionClaims \<Rightarrow> uuid option" where
  "audit_actor env partial claims =
     (let actorUID = (case e_uuid_parse env (scSubject claims) of
            Some i \<Rightarrow> i | None \<Rightarrow> partial (scSubject claims)) in
      if actorUID \<noteq> 0 then Some actorUID else None)"

definition audit_params ::
  "env \<Rightarrow> (string \<Rightarrow> uuid) \<Rightarrow> string \<Rightarrow> string \<Rightarrow> SessionClaims \<Rightarrow> uuid \<Rightarrow> InsertAuditEntryParams" where
  "audit_params env partial entityType action claims entityID = \<lparr>
     iaActorUserID = audit_actor env partial claims, iaActorDisplayName = scName claims,
     iaActorOidcSubject = scOIDCSub claims, iaAction = action, iaEntityType = entityType,
     iaEntityID = entityID\<rparr>"

definition For ::
  "env \<Rightarrow> (string \<Rightarrow> uuid) \<Rightarrow> string \<Rightarrow> string \<Rightarrow> 'm web_scheme handler \<Rightarrow> 'm web_scheme handler" where
  "For env partial entityType action nxt r s =
     (case nxt r s of ((p, mark), s) \<Rightarrow>
        (let status = status200 p in
         if status < 200 \<or> 300 \<le> status then ((p, None), s)
         else
           (case entityFromContext (after_mark mark initContext) of
              None \<Rightarrow> ((p, None), s)
            | Some entityID \<Rightarrow>
                (case ClaimsFromContext r of
                   None \<Rightarrow> ((p, None), s)
                 | Some claims \<Rightarrow>
                     (case exec Pool (InsertAuditEntry
                          (audit_params env partial entityType action claims entityID)) s of
                        (Inl e, s) \<Rightarrow> ((p, None), Inc_writeFailures s)
                      | (Inr _, s) \<Rightarrow> ((p, None), s))))))"

lemma For_reply: "fst (fst (For env partial et ac nxt r s)) = fst (fst (nxt r s))"
  by (simp add: For_def Let_def split: prod.splits option.splits sum.splits)

end
