(* ===== verification/Auth.thy ===== *)
theory Auth
  imports Web Go_Json Repo_Users Calendar_Tokens Samples
begin

text \<open>
  The sign-in with OpenID Connect, \<^verbatim>\<open>auth/oidc.go\<close>: login, callback and logout.

  The OIDC and OAuth libraries and the identity provider behind them are arguments: the URL of
  the provider's login page, the exchange of a code for tokens, and the verification of an ID
  token. \<open>any\<close> is what a claim of type \<^verbatim>\<open>any\<close> holds, as far as the code looks at it.
\<close>

subsection \<open>Values\<close>

datatype any = AnyString string | AnyStrings "string list" | AnySlice "any list" | AnyOther

record id_token =
  itIssuer :: string
  itSubject :: string
  itClaims :: "string + (string \<Rightarrow> any option)"

text \<open>
  \<open>oh_AuthCodeURL\<close> takes the state and the PKCE challenge; \<open>oh_Exchange\<close> the code and the PKCE
  verifier, and yields \<^verbatim>\<open>token.Extra("id_token")\<close>; \<open>oh_Verify\<close> is the verifier for the client
  ID of the configuration.
\<close>

record OIDCHandler =
  oh_AuthCodeURL :: "string \<Rightarrow> string \<Rightarrow> string"
  oh_Exchange :: "string \<Rightarrow> string \<Rightarrow> string + any option"
  oh_Verify :: "string \<Rightarrow> string + id_token"
  oh_jwt :: jwt_lib
  oh_secret :: string
  oh_memberValue :: string
  oh_adminValue :: string

definition stateCookieName :: string where "stateCookieName = ''oidc_state''"
definition verifierCookieName :: string where "verifierCookieName = ''oidc_verifier''"
definition cookiePath :: string where "cookiePath = ''/''"

text \<open>
  The discovery of the provider at start-up: up to ten attempts, each with its own answer, and
  three seconds of sleep after each that fails but the last. The result is the provider, or the
  error of the last attempt, and the number of sleeps.
\<close>

fun discovery :: "(nat \<Rightarrow> string + 'p) \<Rightarrow> nat list \<Rightarrow> string \<Rightarrow> nat \<Rightarrow> (string + 'p) \<times> nat" where
  "discovery newProvider [] e sleeps = (Inl e, sleeps)"
| "discovery newProvider (k # ks) e sleeps =
     (case newProvider k of
        Inr p \<Rightarrow> (Inr p, sleeps)
      | Inl e \<Rightarrow> discovery newProvider ks e (if k < 10 then sleeps + 1 else sleeps))"

definition NewOIDCHandler :: "(nat \<Rightarrow> string + 'p) \<Rightarrow> (err + 'p) \<times> nat" where
  "NewOIDCHandler newProvider =
     (case discovery newProvider [1..<11] [] 0 of
        (Inl e, n) \<Rightarrow> (Inl (Wrapf ''oidc provider discovery'' (OtherErr e)), n)
      | (Inr p, n) \<Rightarrow> (Inr p, n))"

subsection \<open>Cookies and random values\<close>

definition setShorttermCookie :: "string \<Rightarrow> string \<Rightarrow> cookie" where
  "setShorttermCookie name v = \<lparr>ckName = name, ckValue = v, ckPath = cookiePath, ckHttpOnly = True,
     ckSecure = False, ckSameSiteLax = True, ckMaxAge = 300, ckExpires = None\<rparr>"

definition clearCookie :: "string \<Rightarrow> cookie" where
  "clearCookie name = \<lparr>ckName = name, ckValue = [], ckPath = cookiePath, ckHttpOnly = False,
     ckSecure = False, ckSameSiteLax = False, ckMaxAge = - 1, ckExpires = Some 0\<rparr>"

definition session_cookie :: "string \<Rightarrow> cookie" where
  "session_cookie jwt = \<lparr>ckName = cookieName, ckValue = jwt, ckPath = cookiePath, ckHttpOnly = True,
     ckSecure = False, ckSameSiteLax = True, ckMaxAge = tokenTTL div 10 ^ 9, ckExpires = None\<rparr>"

text \<open>\<^verbatim>\<open>rand.Read\<close> is an argument: the bytes it read, or its error.\<close>

definition randomBase64 :: "string + nat list \<Rightarrow> string + string" where
  "randomBase64 random = (case random of Inl e \<Rightarrow> Inl e | Inr b \<Rightarrow> Inr (b64_encode b))"

definition pkce :: "string + nat list \<Rightarrow> string + (string \<times> string)" where
  "pkce random =
     (case randomBase64 random of
        Inl e \<Rightarrow> Inl e
      | Inr v \<Rightarrow> Inr (v, b64_encode (Sum256 (bytes_of v))))"

subsection \<open>Groups\<close>

fun strings_of :: "any list \<Rightarrow> string list" where
  "strings_of [] = []"
| "strings_of (AnyString s # xs) = s # strings_of xs"
| "strings_of (_ # xs) = strings_of xs"

definition extractGroups :: "(string \<Rightarrow> any option) \<Rightarrow> string \<Rightarrow> string list" where
  "extractGroups claims claimName =
     (case claims claimName of
        None \<Rightarrow> []
      | Some (AnySlice xs) \<Rightarrow> strings_of xs
      | Some (AnyStrings xs) \<Rightarrow> xs
      | Some (AnyString v) \<Rightarrow> (case Unmarshal_strings v of Some parsed \<Rightarrow> parsed | None \<Rightarrow> [v])
      | Some AnyOther \<Rightarrow> [])"

definition string_claim :: "(string \<Rightarrow> any option) \<Rightarrow> string \<Rightarrow> string" where
  "string_claim claims k = (case claims k of Some (AnyString s) \<Rightarrow> s | _ \<Rightarrow> [])"

subsection \<open>The handlers\<close>

definition Login :: "OIDCHandler \<Rightarrow> string + nat list \<Rightarrow> string + nat list \<Rightarrow> request \<Rightarrow> reply" where
  "Login h random1 random2 r =
     (case randomBase64 random1 of
        Inl e \<Rightarrow> http_Error ''internal error'' 500
      | Inr state \<Rightarrow>
          (case pkce random2 of
             Inl e \<Rightarrow> http_Error ''internal error'' 500
           | Inr (verifier, challenge) \<Rightarrow>
               with_cookies [setShorttermCookie stateCookieName state,
                   setShorttermCookie verifierCookieName verifier]
                 (http_Redirect r (oh_AuthCodeURL h state challenge))))"

definition Logout :: "request \<Rightarrow> reply" where
  "Logout r = with_cookies [clearCookie cookieName] (http_Redirect r ''/'')"

text \<open>
  The callback in three parts: what it takes from the request, the identity it gets from the
  provider for it, and the session it makes for the identity.
\<close>

definition callback_cookies :: "request \<Rightarrow> reply + string" where
  "callback_cookies r =
     (case qCookie r stateCookieName of
        None \<Rightarrow> Inl (http_Error ''invalid state'' 400)
      | Some state \<Rightarrow>
          if state = [] \<or> state \<noteq> Query_Get r ''state'' then Inl (http_Error ''invalid state'' 400)
          else
            (case qCookie r verifierCookieName of
               None \<Rightarrow> Inl (http_Error ''missing PKCE verifier'' 400)
             | Some v \<Rightarrow> if v = [] then Inl (http_Error ''missing PKCE verifier'' 400) else Inr v))"

definition callback_identity ::
  "OIDCHandler \<Rightarrow> request \<Rightarrow> string \<Rightarrow> reply + (id_token \<times> (string \<Rightarrow> any option) \<times> Roles)" where
  "callback_identity h r verifier =
     (case oh_Exchange h (Query_Get r ''code'') verifier of
        Inl e \<Rightarrow> Inl (http_Error ''token exchange failed'' 502)
      | Inr (Some (AnyString rawIDToken)) \<Rightarrow>
          (case oh_Verify h rawIDToken of
             Inl e \<Rightarrow> Inl (http_Error ''id_token invalid'' 401)
           | Inr idToken \<Rightarrow>
               (case itClaims idToken of
                  Inl e \<Rightarrow> Inl (http_Error ''claim parse error'' 500)
                | Inr claims \<Rightarrow>
                    (let roles = DecodeRoles (extractGroups claims OIDCClaimName)
                           (oh_memberValue h) (oh_adminValue h) in
                     if \<not> rlMember roles then Inl (http_Error ''not a chair member'' 403)
                     else Inr (idToken, claims, roles))))
      | Inr _ \<Rightarrow> Inl (http_Error ''missing id_token'' 502))"

definition display_name :: "(string \<Rightarrow> any option) \<Rightarrow> string" where
  "display_name claims =
     (let name = string_claim claims ''name'' in
      if name = [] then string_claim claims ''preferred_username'' else name)"

definition new_session :: "env \<Rightarrow> id_token \<Rightarrow> (string \<Rightarrow> any option) \<Rightarrow> Roles \<Rightarrow> user \<Rightarrow> SessionClaims" where
  "new_session env idToken claims roles u = \<lparr>
     scIssuer = [], scSubject = e_uuid_str env (uID u), scAudience = [], scExpiresAt = None,
     scNotBefore = None, scIssuedAt = None, scID = [], scEmail = string_claim claims ''email'',
     scName = display_name claims, scOIDCSub = itSubject idToken, scRoles = ToStringSlice roles\<rparr>"

definition callback_session ::
  "env \<Rightarrow> OIDCHandler \<Rightarrow> instant \<Rightarrow> request \<Rightarrow> id_token \<times> (string \<Rightarrow> any option) \<times> Roles
   \<Rightarrow> 'm conn_scheme \<Rightarrow> reply \<times> 'm conn_scheme" where
  "callback_session env h now r idn c =
     (case idn of (idToken, claims, roles) \<Rightarrow>
      (case exec Pool (UpsertUser \<lparr>uuOidcIssuer = itIssuer idToken, uuOidcSubject = itSubject idToken,
               uuEmail = string_claim claims ''email'', uuDisplayName = display_name claims\<rparr>) c of
         (Inl e, c) \<Rightarrow> (http_Error ''user upsert failed'' 500, c)
       | (Inr u, c) \<Rightarrow>
           (case exec Pool (UpsertUserSettings (uID u)) c of
              (Inl e, c) \<Rightarrow> (http_Error ''user settings error'' 500, c)
            | (Inr _, c) \<Rightarrow>
                (case Issue (oh_jwt h) (oh_secret h) now (new_session env idToken claims roles u) of
                   Inl e \<Rightarrow> (http_Error ''session error'' 500, c)
                 | Inr sessionJWT \<Rightarrow>
                     (with_cookies [session_cookie sessionJWT] (http_Redirect r ''/''), c)))))"

definition Callback ::
  "env \<Rightarrow> OIDCHandler \<Rightarrow> instant \<Rightarrow> request \<Rightarrow> 'm conn_scheme \<Rightarrow> reply \<times> 'm conn_scheme" where
  "Callback env h now r c =
     (case callback_cookies r of
        Inl p \<Rightarrow> (p, c)
      | Inr verifier \<Rightarrow>
          (case (case callback_identity h r verifier of
                   Inl p \<Rightarrow> (p, c)
                 | Inr idn \<Rightarrow> callback_session env h now r idn c) of
             (p, c') \<Rightarrow>
               (with_cookies [clearCookie stateCookieName, clearCookie verifierCookieName] p, c')))"

subsection \<open>Who gets a session\<close>

lemma UpsertUser_result:
  assumes "UpsertUser p x d = Inr (u, d')"
  shows "u \<in> set (users d') \<and> uOidcIssuer u = uuOidcIssuer p \<and> uOidcSubject u = uuOidcSubject p
    \<and> uEmail u = uuEmail p \<and> uDisplayName u = uuDisplayName p"
proof (cases "find (\<lambda>u. (uOidcIssuer u, uOidcSubject u) = (uuOidcIssuer p, uuOidcSubject p)) (users d)")
  case None
  then show ?thesis
    using assms by (auto simp: UpsertUser_def with_texts_def Let_def split: if_splits)
next
  case (Some old)
  note mem = find_Some_iff_mem [OF Some]
  have "u = old\<lparr>uEmail := uuEmail p, uDisplayName := uuDisplayName p,
          uLastLoginAt := Some (x_now x), uUpdatedAt := x_now x\<rparr>"
    and "users d' = update_where (\<lambda>v. uID v = uID old) (\<lambda>_. u) (users d)"
    using assms Some by (auto simp: UpsertUser_def with_texts_def Let_def split: if_splits)
  with mem show ?thesis by (auto simp: in_update_where_iff)
qed

lemma UpsertUserSettings_result:
  assumes "UpsertUserSettings i x d = Inr (a, d')"
  shows "i \<in> usUserID ` set (user_settings d') \<and> users d' = users d"
  using assms by (auto simp: UpsertUserSettings_def split: if_splits)

lemma callback_cookies_InrE:
  assumes "callback_cookies r = Inr v"
  obtains st where "qCookie r stateCookieName = Some st" "st \<noteq> []" "qQuery r ''state'' = Some st"
    "qCookie r verifierCookieName = Some v" "v \<noteq> []"
proof -
  obtain st where st: "qCookie r stateCookieName = Some st"
    using assms by (cases "qCookie r stateCookieName") (simp_all add: callback_cookies_def)
  define q where "q = Query_Get r ''state''"
  have same: "\<not> (st = [] \<or> st \<noteq> q)"
  proof
    assume bad: "st = [] \<or> st \<noteq> q"
    have "callback_cookies r = Inl (http_Error ''invalid state'' 400)"
      unfolding callback_cookies_def st option.case q_def [symmetric] by (rule if_P [OF bad])
    with assms show False by simp
  qed
  have rest: "callback_cookies r = (case qCookie r verifierCookieName of
      None \<Rightarrow> Inl (http_Error ''missing PKCE verifier'' 400)
    | Some v \<Rightarrow> if v = [] then Inl (http_Error ''missing PKCE verifier'' 400) else Inr v)"
    unfolding callback_cookies_def st option.case q_def [symmetric] by (rule if_not_P [OF same])
  have "qCookie r verifierCookieName = Some v \<and> v \<noteq> []"
    using assms unfolding rest by (simp split: option.splits if_splits)
  moreover have "qQuery r ''state'' = Some st"
    using same by (cases "qQuery r ''state''") (simp_all add: q_def Query_Get_def)
  ultimately show ?thesis using that st same by blast
qed

lemma callback_identity_InrE:
  assumes "callback_identity h r v = Inr (idToken, claims, roles)"
  obtains raw where "oh_Exchange h (Query_Get r ''code'') v = Inr (Some (AnyString raw))"
    "oh_Verify h raw = Inr idToken" "itClaims idToken = Inr claims"
    "roles = DecodeRoles (extractGroups claims OIDCClaimName) (oh_memberValue h) (oh_adminValue h)"
    "rlMember roles"
  using assms
  by (auto simp: callback_identity_def Let_def split: option.splits if_splits sum.splits any.splits)

lemma callback_refusal_cookies:
  assumes "callback_cookies r = Inl p"
  shows "rpCookies p = [] \<and> rpStatus p \<noteq> 302"
proof -
  have "p \<in> {http_Error ''invalid state'' 400, http_Error ''missing PKCE verifier'' 400}"
    using assms unfolding callback_cookies_def by (simp split: option.splits if_splits)
  then show ?thesis by auto
qed

lemma callback_refusal_identity:
  assumes "callback_identity h r v = Inl p"
  shows "rpCookies p = [] \<and> rpStatus p \<noteq> 302"
proof -
  have "p \<in> (\<lambda>(m, code). http_Error m code) ` {(''token exchange failed'', 502), (''missing id_token'', 502),
      (''id_token invalid'', 401), (''claim parse error'', 500), (''not a chair member'', 403)}"
    using assms unfolding callback_identity_def Let_def
    by (simp split: option.splits if_splits sum.splits any.splits)
  then show ?thesis by auto
qed

lemmas callback_refusal_no_session = callback_refusal_cookies callback_refusal_identity

definition signed_in ::
  "env \<Rightarrow> OIDCHandler \<Rightarrow> instant \<Rightarrow> id_token \<Rightarrow> (string \<Rightarrow> any option) \<Rightarrow> Roles \<Rightarrow> db \<Rightarrow> string \<Rightarrow> bool" where
  "signed_in env h now idToken claims roles d jwt \<longleftrightarrow>
     (\<exists>u \<in> set (users d). uOidcIssuer u = itIssuer idToken \<and> uOidcSubject u = itSubject idToken
        \<and> uID u \<in> usUserID ` set (user_settings d)
        \<and> Issue (oh_jwt h) (oh_secret h) now (new_session env idToken claims roles u) = Inr jwt)"

lemma callback_session_cases:
  fixes c :: "'m conn_scheme"
  assumes "callback_session env h now r (idToken, claims, roles) c = (p, c')"
  shows "rpStatus p = 500 \<and> rpCookies p = []
    \<or> rpStatus p = 302 \<and> (\<exists>jwt. rpCookies p = [session_cookie jwt]
        \<and> signed_in env h now idToken claims roles (c_com c') jwt)"
proof -
  let ?p = "\<lparr>uuOidcIssuer = itIssuer idToken, uuOidcSubject = itSubject idToken,
               uuEmail = string_claim claims ''email'', uuDisplayName = display_name claims\<rparr>"
  obtain s1 c1 where 1: "exec Pool (UpsertUser ?p) c = (s1, c1)" by force
  show ?thesis
  proof (cases s1)
    case (Inl e)
    then show ?thesis using assms 1 by (auto simp: callback_session_def)
  next
    case (Inr u)
    obtain s2 c2 where 2: "exec Pool (UpsertUserSettings (uID u)) c1 = (s2, c2)" by force
    show ?thesis
    proof (cases s2)
      case (Inl e)
      then show ?thesis using assms 1 2 Inr by (auto simp: callback_session_def)
    next
      case two: (Inr a)
      have u: "u \<in> set (users (c_com c1)) \<and> uOidcIssuer u = itIssuer idToken
          \<and> uOidcSubject u = itSubject idToken"
        using 1 Inr by (auto elim!: exec_Pool_InrE dest!: UpsertUser_result)
      have "uID u \<in> usUserID ` set (user_settings (c_com c2)) \<and> users (c_com c2) = users (c_com c1)"
        using 2 two by (auto elim!: exec_Pool_InrE dest!: UpsertUserSettings_result)
      then show ?thesis using assms 1 2 Inr two u
        by (auto simp: callback_session_def signed_in_def split: sum.splits)
    qed
  qed
qed

lemma Callback_cookieE:
  fixes c :: "'m conn_scheme"
  assumes run: "Callback env h now r c = (p, c')" and ck: "k \<in> set (rpCookies p)" "ckName k = cookieName"
  obtains v idToken claims roles q where "callback_cookies r = Inr v"
    "callback_identity h r v = Inr (idToken, claims, roles)"
    "callback_session env h now r (idToken, claims, roles) c = (q, c')" "k \<in> set (rpCookies q)"
    "rpStatus p = rpStatus q"
proof -
  have short: "ckName (clearCookie stateCookieName) \<noteq> cookieName" "ckName (clearCookie verifierCookieName) \<noteq> cookieName"
    by (simp_all add: clearCookie_def stateCookieName_def verifierCookieName_def cookieName_def)
  obtain v where v: "callback_cookies r = Inr v"
    using run ck callback_refusal_no_session(1) [of r p] by (cases "callback_cookies r") (auto simp: Callback_def)
  obtain q where p: "p = with_cookies [clearCookie stateCookieName, clearCookie verifierCookieName] q"
      "(case callback_identity h r v of Inl p \<Rightarrow> (p, c) | Inr idn \<Rightarrow> callback_session env h now r idn c) = (q, c')"
    using run v by (auto simp: Callback_def split: prod.splits)
  have kq: "k \<in> set (rpCookies q)" using ck p(1) short by auto
  obtain idToken claims roles where idn: "callback_identity h r v = Inr (idToken, claims, roles)"
    using p(2) kq callback_refusal_no_session(2) [of h r v q] by (cases "callback_identity h r v") auto
  show ?thesis by (rule that [OF v idn _ kq]) (use p idn in simp_all)
qed

text \<open>
  C7: The callback sets a session cookie only for a request whose state cookie is not empty and
  equals the state of the query, with a PKCE verifier, whose code the provider exchanged for an
  ID token that verifies, and whose groups contain the member or the admin group. The session
  then belongs to a user that is stored under the issuer and subject of that ID token, has
  settings, and carries the roles of exactly these groups; the cookie is hidden from scripts,
  restricted to the same site and ends with the session. The reply is the redirect to the start page.
\<close>

theorem callback_issues_session:
  fixes c :: "'m conn_scheme"
  assumes run: "Callback env h now r c = (p, c')" and ck: "k \<in> set (rpCookies p)" "ckName k = cookieName"
  shows "\<exists>state verifier raw idToken claims.
     qCookie r stateCookieName = Some state \<and> state \<noteq> [] \<and> qQuery r ''state'' = Some state
     \<and> qCookie r verifierCookieName = Some verifier \<and> verifier \<noteq> []
     \<and> oh_Exchange h (Query_Get r ''code'') verifier = Inr (Some (AnyString raw))
     \<and> oh_Verify h raw = Inr idToken \<and> itClaims idToken = Inr claims
     \<and> set (extractGroups claims OIDCClaimName) \<inter> {oh_memberValue h, oh_adminValue h} \<noteq> {}
     \<and> signed_in env h now idToken claims
          (DecodeRoles (extractGroups claims OIDCClaimName) (oh_memberValue h) (oh_adminValue h))
          (c_com c') (ckValue k)
     \<and> ckHttpOnly k \<and> ckSameSiteLax k \<and> ckMaxAge k = 3600 \<and> rpStatus p = 302"
proof -
  obtain v idToken claims roles q where v: "callback_cookies r = Inr v"
    and idn: "callback_identity h r v = Inr (idToken, claims, roles)"
    and s: "callback_session env h now r (idToken, claims, roles) c = (q, c')"
    and kq: "k \<in> set (rpCookies q)" and p: "rpStatus p = rpStatus q"
    using Callback_cookieE [OF run ck] by blast
  from callback_session_cases [OF s] kq
  have q: "rpStatus q = 302" "k = session_cookie (ckValue k)"
      "signed_in env h now idToken claims roles (c_com c') (ckValue k)"
    by (auto simp: session_cookie_def)
  have k: "ckHttpOnly k \<and> ckSameSiteLax k \<and> ckMaxAge k = 3600"
    by (subst q(2), subst q(2), subst q(2)) (simp add: session_cookie_def tokenTTL_def)
  obtain st where st: "qCookie r stateCookieName = Some st" "st \<noteq> []" "qQuery r ''state'' = Some st"
    "qCookie r verifierCookieName = Some v" "v \<noteq> []"
    using callback_cookies_InrE [OF v] by blast
  obtain raw where raw: "oh_Exchange h (Query_Get r ''code'') v = Inr (Some (AnyString raw))"
    "oh_Verify h raw = Inr idToken" "itClaims idToken = Inr claims"
    "roles = DecodeRoles (extractGroups claims OIDCClaimName) (oh_memberValue h) (oh_adminValue h)"
    "rlMember roles"
    using callback_identity_InrE [OF idn] by blast
  have "set (extractGroups claims OIDCClaimName) \<inter> {oh_memberValue h, oh_adminValue h} \<noteq> {}"
    using raw(4,5) by (auto simp: DecodeRoles_eq)
  then show ?thesis using st raw q k p
    by (intro exI [of _ st] exI [of _ v] exI [of _ raw] exI [of _ idToken] exI [of _ claims]) simp
qed

text \<open>The flag that keeps a cookie to HTTPS is not set.\<close>

lemma session_cookie_without_secure:
  fixes c :: "'m conn_scheme"
  assumes run: "Callback env h now r c = (p, c')" and ck: "k \<in> set (rpCookies p)" "ckName k = cookieName"
  shows "\<not> ckSecure k"
proof -
  obtain v idToken claims roles q where "callback_cookies r = Inr v"
    and "callback_identity h r v = Inr (idToken, claims, roles)"
    and s: "callback_session env h now r (idToken, claims, roles) c = (q, c')"
    and kq: "k \<in> set (rpCookies q)" and "rpStatus p = rpStatus q"
    using Callback_cookieE [OF run ck] by blast
  obtain w where "k = session_cookie w" using callback_session_cases [OF s] kq by auto
  then show ?thesis by (simp add: session_cookie_def)
qed

text \<open>A provider that knows one code, and the user of the samples.\<close>

definition sample_oidc :: OIDCHandler where
  "sample_oidc = \<lparr>
     oh_AuthCodeURL = (\<lambda>state challenge. ''https://idp/auth?state='' @ state),
     oh_Exchange = (\<lambda>code v. if code = ''c'' \<and> v = ''v'' then Inr (Some (AnyString ''id'')) else Inl ''no''),
     oh_Verify = (\<lambda>raw. Inr \<lparr>itIssuer = ''i'', itSubject = ''s'',
       itClaims = Inr [''email'' \<mapsto> AnyString ''a@x'', ''name'' \<mapsto> AnyString ''A'',
         ''groups'' \<mapsto> AnySlice [AnyString ''chair'', AnyOther]]\<rparr>),
     oh_jwt = sample_jwt, oh_secret = ''key'', oh_memberValue = ''chair'', oh_adminValue = ''admin''\<rparr>"

definition sample_callback :: request where
  "sample_callback = \<lparr>qMethod = ''GET'', qCookie = [''oidc_state'' \<mapsto> ''t'', ''oidc_verifier'' \<mapsto> ''v''],
     qQuery = [''state'' \<mapsto> ''t'', ''code'' \<mapsto> ''c''], qURLParam = (\<lambda>_. []), qIfNoneMatch = [],
     qBody = [], qClaims = None\<rparr>"

lemma sample_callback_identity:
  "callback_cookies sample_callback = Inr ''v''"
  "\<exists>claims. callback_identity sample_oidc sample_callback ''v'' =
     Inr (\<lparr>itIssuer = ''i'', itSubject = ''s'', itClaims = Inr claims\<rparr>, claims, \<lparr>rlMember = True, rlAdmin = False\<rparr>)
     \<and> string_claim claims ''email'' = ''a@x'' \<and> display_name claims = ''A''"
  by (simp_all add: callback_cookies_def callback_identity_def sample_callback_def sample_oidc_def
      stateCookieName_def verifierCookieName_def Query_Get_def OIDCClaimName_def extractGroups_def
      DecodeRoles_eq string_claim_def display_name_def Let_def)

lemma sample_sign_in:
  assumes "string_claim claims ''email'' = ''a@x''" "display_name claims = ''A''"
  shows "\<exists>c'. callback_session sample_env sample_oidc 0 r
    (\<lparr>itIssuer = ''i'', itSubject = ''s'', itClaims = x\<rparr>, claims, \<lparr>rlMember = True, rlAdmin = False\<rparr>) sample_conn
    = (with_cookies [session_cookie ''token''] (http_Redirect r ''/''), c')"
proof -
  have "nat_str 1 = ''1''" by (simp add: nat_str.simps digit_char_def char_of_eq_iff)
  then have claims: "new_session sample_env \<lparr>itIssuer = ''i'', itSubject = ''s'', itClaims = x\<rparr> claims
      \<lparr>rlMember = True, rlAdmin = False\<rparr> (sample_user\<lparr>uEmail := ''a@x'', uDisplayName := ''A'',
        uLastLoginAt := t, uUpdatedAt := t'\<rparr>) = sample_claims" for t t'
    using assms by (simp add: new_session_def sample_claims_def sample_env_def sample_user_def ToStringSlice_def)
  have texts: "text_ok ''i''" "text_ok ''s''" "text_ok ''a@x''" "text_ok ''A''"
    by (rule text_ok_ascii; simp add: is_ascii_def)+
  show ?thesis
    using assms texts claims
    by (simp add: callback_session_def run_eval UpsertUser_def with_texts_def texts_ok_def
        UpsertUserSettings_def sample_defs sample_oidc_def Issue_def sample_jwt_def)
qed

theorem callback_issues_session_witness:
  "\<exists>p c'. Callback sample_env sample_oidc 0 sample_callback sample_conn = (p, c') \<and> rpStatus p = 302
    \<and> (\<exists>jwt. \<exists>idToken claims. signed_in sample_env sample_oidc 0 idToken claims
          \<lparr>rlMember = True, rlAdmin = False\<rparr> (c_com c') jwt
        \<and> itClaims idToken = Inr claims)"
proof -
  obtain claims c' where cl: "callback_identity sample_oidc sample_callback ''v'' =
     Inr (\<lparr>itIssuer = ''i'', itSubject = ''s'', itClaims = Inr claims\<rparr>, claims, \<lparr>rlMember = True, rlAdmin = False\<rparr>)"
    and s: "callback_session sample_env sample_oidc 0 sample_callback
      (\<lparr>itIssuer = ''i'', itSubject = ''s'', itClaims = Inr claims\<rparr>, claims, \<lparr>rlMember = True, rlAdmin = False\<rparr>)
      sample_conn = (with_cookies [session_cookie ''token''] (http_Redirect sample_callback ''/''), c')"
    using sample_callback_identity(2) sample_sign_in by blast
  obtain p where run: "Callback sample_env sample_oidc 0 sample_callback sample_conn = (p, c')"
      "session_cookie ''token'' \<in> set (rpCookies p)"
    using cl s by (simp add: Callback_def sample_callback_identity(1))
  have "ckName (session_cookie ''token'') = cookieName" by (simp add: session_cookie_def)
  from callback_issues_session [OF run this]
  obtain raw idToken claims' verifier where v: "qCookie sample_callback verifierCookieName = Some verifier"
      "oh_Exchange sample_oidc (Query_Get sample_callback ''code'') verifier = Inr (Some (AnyString raw))"
      "oh_Verify sample_oidc raw = Inr idToken" "itClaims idToken = Inr claims'"
      "signed_in sample_env sample_oidc 0 idToken claims'
        (DecodeRoles (extractGroups claims' OIDCClaimName) (oh_memberValue sample_oidc) (oh_adminValue sample_oidc))
        (c_com c') (ckValue (session_cookie ''token''))" "rpStatus p = 302"
    by blast
  from v(3,4) have "DecodeRoles (extractGroups claims' OIDCClaimName) (oh_memberValue sample_oidc)
      (oh_adminValue sample_oidc) = \<lparr>rlMember = True, rlAdmin = False\<rparr>"
    by (auto simp: sample_oidc_def DecodeRoles_eq extractGroups_def OIDCClaimName_def)
  with v run show ?thesis by (intro exI conjI) (rule run(1), simp_all)
qed

text \<open>
  C35: A login sets a state and a PKCE verifier, of 22 and 43 URL-safe characters, in cookies of
  five minutes, and sends the browser to the provider with this state and the challenge that
  belongs to the verifier. A callback that brings both cookies back with the same state in its
  query passes the check of the state, with this verifier.
\<close>

theorem login_prepares_callback:
  assumes bytes: "length b1 = 16" "length b2 = 32" "\<forall>b \<in> set b1. b < 256" "\<forall>b \<in> set b2. b < 256"
  shows "\<exists>state verifier.
     Login h (Inr b1) (Inr b2) r =
       with_cookies [setShorttermCookie stateCookieName state, setShorttermCookie verifierCookieName verifier]
         (http_Redirect r (oh_AuthCodeURL h state (b64_encode (Sum256 (bytes_of verifier)))))
     \<and> length state = 22 \<and> length verifier = 43 \<and> set state \<union> set verifier \<subseteq> set b64_alphabet
     \<and> (\<forall>r'. qCookie r' stateCookieName = Some state \<longrightarrow> qCookie r' verifierCookieName = Some verifier \<longrightarrow>
          qQuery r' ''state'' = Some state \<longrightarrow> callback_cookies r' = Inr verifier)"
proof -
  have lengths: "length (b64_encode b1) = 22" "length (b64_encode b2) = 43"
    using bytes(1,2) by (simp_all add: b64_lengths)
  then have "b64_encode b1 \<noteq> []" "b64_encode b2 \<noteq> []" by auto
  then have "callback_cookies r' = Inr (b64_encode b2)"
    if "qCookie r' stateCookieName = Some (b64_encode b1)" "qCookie r' verifierCookieName = Some (b64_encode b2)"
      "qQuery r' ''state'' = Some (b64_encode b1)" for r'
    using that by (simp add: callback_cookies_def Query_Get_def)
  then show ?thesis
    using lengths b64_encode_alphabet [OF bytes(3)] b64_encode_alphabet [OF bytes(4)]
    by (intro exI [of _ "b64_encode b1"] exI [of _ "b64_encode b2"])
      (simp add: Login_def pkce_def randomBase64_def)
qed

theorem login_prepares_callback_witness:
  "rpStatus (Login sample_oidc (Inr (replicate 16 0)) (Inr (replicate 32 0)) sample_callback) = 302
   \<and> length (rpCookies (Login sample_oidc (Inr (replicate 16 0)) (Inr (replicate 32 0)) sample_callback)) = 2"
  using login_prepares_callback [of "replicate 16 0" "replicate 32 0" sample_oidc sample_callback] by auto

end
