(* ===== verification/Router.thy ===== *)
theory Router
  imports Server Audit_Log Auth
begin

text \<open>
  From a request to a reply: the generated handlers of \<^verbatim>\<open>api/api.gen.go\<close>, which decode parameters
  and bodies and write responses, and the routes and middleware of \<^verbatim>\<open>NewRouter\<close> in
  \<^verbatim>\<open>http/server.go\<close>. Matching a path to a route is the work of the router library; a route is
  what it finds.
\<close>

subsection \<open>Configuration\<close>

text \<open>
  What the server is built from, with the libraries it calls: the decoders of bodies and
  parameters, the JSON encoder, the UUID that \<^verbatim>\<open>uuid.Parse\<close> leaves beside an error, the random
  bytes of the request and the handler of the metrics library.
\<close>

datatype bind_error = RequiredParameterError | BindError string

record server =
  sv_env :: env
  sv_jwt :: jwt_lib
  sv_tm :: "string option"
  sv_oidc :: "OIDCHandler option"
  sv_audited :: bool
  sv_now :: instant
  sv_publicBaseURL :: string
  sv_encode :: encoder
  sv_decode_conference :: "string \<Rightarrow> string + ConferenceInput"
  sv_decode_settings :: "string \<Rightarrow> string + UserSettingsInput"
  sv_decode_yaml :: "string \<Rightarrow> string + entry list"
  sv_path_uuid :: "request \<Rightarrow> string \<Rightarrow> string + uuid"
  sv_path_string :: "request \<Rightarrow> string \<Rightarrow> string + string"
  sv_header_string :: "string \<Rightarrow> string + string"
  sv_query_string :: "request \<Rightarrow> string \<Rightarrow> bind_error + string option"
  sv_query_uuid :: "request \<Rightarrow> string \<Rightarrow> bind_error + uuid option"
  sv_query_bool :: "request \<Rightarrow> string \<Rightarrow> bind_error + bool option"
  sv_query_int :: "request \<Rightarrow> string \<Rightarrow> bind_error + int option"
  sv_query_time :: "request \<Rightarrow> string \<Rightarrow> bind_error + instant option"
  sv_partial_uuid :: "string \<Rightarrow> uuid"
  sv_random_token :: "err + nat list"
  sv_random_state :: "string + nat list"
  sv_random_verifier :: "string + nat list"
  sv_metrics :: reply

subsection \<open>The strict handlers\<close>

text \<open>An error of the handler, or of the encoder, is a 500 with its text.\<close>

definition respond :: "server \<Rightarrow> (encoder \<Rightarrow> 'a \<Rightarrow> err + reply) \<Rightarrow> ('a, 's) answer \<Rightarrow> 's handler" where
  "respond sv visit ans r s =
     (case ans s of
        (Inl e, s') \<Rightarrow> ((http_Error (Error (sv_env sv) e) 500, None), s')
      | (Inr (response, mark), s') \<Rightarrow>
          (case visit (sv_encode sv) response of
             Inl e \<Rightarrow> ((http_Error (Error (sv_env sv) e) 500, mark), s')
           | Inr p \<Rightarrow> ((p, mark), s')))"

definition json_body :: "(string \<Rightarrow> string + 'b) \<Rightarrow> ('b \<Rightarrow> 's handler) \<Rightarrow> 's handler" where
  "json_body decode k r s =
     (case decode (qBody r) of
        Inl e \<Rightarrow> writes (http_Error (''can'' @ [CHR 0x27] @ ''t decode JSON body: '' @ e) 400) r s
      | Inr body \<Rightarrow> k body r s)"

definition strict_ListAuditLog :: "server \<Rightarrow> audit_query \<Rightarrow> 'm conn_scheme handler" where
  "strict_ListAuditLog sv q r = respond sv VisitListAuditLogResponse (Server_ListAuditLog q) r"

definition strict_ListConferences :: "server \<Rightarrow> list_query \<Rightarrow> 'm conn_scheme handler" where
  "strict_ListConferences sv q r =
     respond sv VisitListConferencesResponse (Server_ListConferences (sv_env sv) q) r"

definition strict_CreateConference :: "server \<Rightarrow> 'm conn_scheme handler" where
  "strict_CreateConference sv = json_body (sv_decode_conference sv) (\<lambda>body r.
     respond sv VisitCreateConferenceResponse (Server_CreateConference (sv_env sv) r body) r)"

definition strict_DeleteConference :: "server \<Rightarrow> uuid \<Rightarrow> 'm conn_scheme handler" where
  "strict_DeleteConference sv i r =
     respond sv VisitDeleteConferenceResponse (Server_DeleteConference i) r"

definition strict_GetConference :: "server \<Rightarrow> uuid \<Rightarrow> 'm conn_scheme handler" where
  "strict_GetConference sv i r =
     respond sv VisitGetConferenceResponse (Server_GetConference (sv_env sv) i) r"

definition strict_UpdateConference :: "server \<Rightarrow> uuid \<Rightarrow> 'm conn_scheme handler" where
  "strict_UpdateConference sv i = json_body (sv_decode_conference sv) (\<lambda>body r.
     respond sv VisitUpdateConferenceResponse (Server_UpdateConference (sv_env sv) r i body) r)"

definition strict_ArchiveConference :: "server \<Rightarrow> uuid \<Rightarrow> 'm conn_scheme handler" where
  "strict_ArchiveConference sv i r =
     respond sv VisitArchiveConferenceResponse (Server_ArchiveConference (sv_env sv) i) r"

definition strict_UnstarConference :: "server \<Rightarrow> uuid \<Rightarrow> 'm conn_scheme handler" where
  "strict_UnstarConference sv i r =
     respond sv VisitUnstarConferenceResponse (Server_UnstarConference (sv_env sv) r i) r"

definition strict_StarConference :: "server \<Rightarrow> uuid \<Rightarrow> 'm conn_scheme handler" where
  "strict_StarConference sv i r =
     respond sv VisitStarConferenceResponse (Server_StarConference (sv_env sv) r i) r"

definition strict_UnarchiveConference :: "server \<Rightarrow> uuid \<Rightarrow> 'm conn_scheme handler" where
  "strict_UnarchiveConference sv i r =
     respond sv VisitUnarchiveConferenceResponse (Server_UnarchiveConference (sv_env sv) i) r"

definition strict_ImportConferences :: "server \<Rightarrow> 'm conn_scheme handler" where
  "strict_ImportConferences sv r =
     respond sv VisitImportConferencesResponse (Server_ImportConferences (sv_env sv) (sv_decode_yaml sv) r) r"

definition strict_GetMe :: "server \<Rightarrow> 'm conn_scheme handler" where
  "strict_GetMe sv r = respond sv VisitGetMeResponse (Server_GetMe (sv_env sv) r) r"

definition strict_DeleteCalendarToken :: "server \<Rightarrow> 'm conn_scheme handler" where
  "strict_DeleteCalendarToken sv r =
     respond sv VisitDeleteCalendarTokenResponse (Server_DeleteCalendarToken (sv_env sv) r) r"

definition strict_ListMyCalendarTokens :: "server \<Rightarrow> 'm conn_scheme handler" where
  "strict_ListMyCalendarTokens sv r =
     respond sv VisitListMyCalendarTokensResponse (Server_ListMyCalendarTokens (sv_env sv) (sv_publicBaseURL sv) r) r"

definition strict_CreateCalendarToken :: "server \<Rightarrow> 'm conn_scheme handler" where
  "strict_CreateCalendarToken sv r =
     respond sv VisitCreateCalendarTokenResponse
       (Server_CreateCalendarToken (sv_env sv) (sv_publicBaseURL sv) (sv_random_token sv) r) r"

definition strict_GetMySettings :: "server \<Rightarrow> 'm conn_scheme handler" where
  "strict_GetMySettings sv r =
     respond sv VisitGetMySettingsResponse (Server_GetMySettings (sv_env sv) r) r"

definition strict_UpdateMySettings :: "server \<Rightarrow> 'm conn_scheme handler" where
  "strict_UpdateMySettings sv = json_body (sv_decode_settings sv) (\<lambda>body r.
     respond sv VisitUpdateMySettingsResponse (Server_UpdateMySettings (sv_env sv) r body) r)"

definition strict_ListMyStars :: "server \<Rightarrow> 'm conn_scheme handler" where
  "strict_ListMyStars sv r =
     respond sv VisitListMyStarsResponse (Server_ListMyStars (sv_env sv) r) r"

definition strict_ListTags :: "server \<Rightarrow> 'm conn_scheme handler" where
  "strict_ListTags sv r = respond sv VisitListTagsResponse (Server_ListTags (sv_env sv)) r"

definition strict_ListTracks :: "server \<Rightarrow> 'm conn_scheme handler" where
  "strict_ListTracks sv r = respond sv VisitListTracksResponse (Server_ListTracks (sv_env sv)) r"

definition strict_GetPublicCalendar :: "server \<Rightarrow> string option \<Rightarrow> 'm conn_scheme handler" where
  "strict_GetPublicCalendar sv e r =
     respond sv VisitGetPublicCalendarResponse (Server_GetPublicCalendar (sv_env sv) e) r"

definition strict_GetPersonalCalendar :: "server \<Rightarrow> string \<Rightarrow> string option \<Rightarrow> 'm conn_scheme handler" where
  "strict_GetPersonalCalendar sv token e r =
     respond sv VisitGetPersonalCalendarResponse (Server_GetPersonalCalendar (sv_env sv) token e) r"

definition strict_GetHealth :: "server \<Rightarrow> 'm conn_scheme handler" where
  "strict_GetHealth sv r = respond sv VisitGetHealthResponse Server_GetHealth r"

subsection \<open>Parameters\<close>

definition bind_query ::
  "(request \<Rightarrow> string \<Rightarrow> bind_error + 'a) \<Rightarrow> string \<Rightarrow> ('a \<Rightarrow> 's handler) \<Rightarrow> 's handler" where
  "bind_query get name k r s =
     (case get r name of
        Inl RequiredParameterError \<Rightarrow> writes (http_Error (RequiredParamError_msg name) 400) r s
      | Inl (BindError e) \<Rightarrow> writes (http_Error (InvalidParamFormatError_msg name e) 400) r s
      | Inr v \<Rightarrow> k v r s)"

definition bind_path ::
  "(request \<Rightarrow> string \<Rightarrow> string + 'a) \<Rightarrow> string \<Rightarrow> ('a \<Rightarrow> 's handler) \<Rightarrow> 's handler" where
  "bind_path get name k r s =
     (case get r name of
        Inl e \<Rightarrow> writes (http_Error (InvalidParamFormatError_msg name e) 400) r s
      | Inr v \<Rightarrow> k v r s)"

definition bind_IfNoneMatch ::
  "(string \<Rightarrow> string + string) \<Rightarrow> (string option \<Rightarrow> 's handler) \<Rightarrow> 's handler" where
  "bind_IfNoneMatch get k r s =
     (case qIfNoneMatch r of
        [] \<Rightarrow> k None r s
      | [v] \<Rightarrow>
          (case get v of
             Inl e \<Rightarrow> writes (http_Error (InvalidParamFormatError_msg ''If-None-Match'' e) 400) r s
           | Inr x \<Rightarrow> k (Some x) r s)
      | vs \<Rightarrow> writes (http_Error (TooManyValuesForParamError_msg ''If-None-Match'' (length vs)) 400) r s)"

definition siw_ListAuditLog :: "server \<Rightarrow> 'm conn_scheme handler" where
  "siw_ListAuditLog sv =
     bind_query (sv_query_string sv) ''entity_type'' (\<lambda>entityType.
     bind_query (sv_query_uuid sv) ''entity_id'' (\<lambda>entityId.
     bind_query (sv_query_string sv) ''actor'' (\<lambda>actor.
     bind_query (sv_query_int sv) ''limit'' (\<lambda>limit.
     bind_query (sv_query_time sv) ''before'' (\<lambda>before.
     strict_ListAuditLog sv \<lparr>aqEntityType = entityType, aqEntityId = entityId, aqActor = actor,
       aqLimit = limit, aqBefore = before\<rparr>)))))"

definition siw_ListConferences :: "server \<Rightarrow> 'm conn_scheme handler" where
  "siw_ListConferences sv =
     bind_query (sv_query_bool sv) ''archived'' (\<lambda>archived.
     bind_query (sv_query_string sv) ''tag'' (\<lambda>tag.
     bind_query (sv_query_string sv) ''track'' (\<lambda>track.
     bind_query (sv_query_string sv) ''q'' (\<lambda>q.
     strict_ListConferences sv \<lparr>lqArchived = archived, lqTag = tag, lqTrack = track, lqQ = q\<rparr>))))"

definition siw_CreateConference :: "server \<Rightarrow> 'm conn_scheme handler" where
  "siw_CreateConference sv =
     strict_CreateConference sv"

definition siw_DeleteConference :: "server \<Rightarrow> 'm conn_scheme handler" where
  "siw_DeleteConference sv =
     bind_path (sv_path_uuid sv) ''id'' (strict_DeleteConference sv)"

definition siw_GetConference :: "server \<Rightarrow> 'm conn_scheme handler" where
  "siw_GetConference sv =
     bind_path (sv_path_uuid sv) ''id'' (strict_GetConference sv)"

definition siw_UpdateConference :: "server \<Rightarrow> 'm conn_scheme handler" where
  "siw_UpdateConference sv =
     bind_path (sv_path_uuid sv) ''id'' (strict_UpdateConference sv)"

definition siw_ArchiveConference :: "server \<Rightarrow> 'm conn_scheme handler" where
  "siw_ArchiveConference sv =
     bind_path (sv_path_uuid sv) ''id'' (strict_ArchiveConference sv)"

definition siw_UnstarConference :: "server \<Rightarrow> 'm conn_scheme handler" where
  "siw_UnstarConference sv =
     bind_path (sv_path_uuid sv) ''id'' (strict_UnstarConference sv)"

definition siw_StarConference :: "server \<Rightarrow> 'm conn_scheme handler" where
  "siw_StarConference sv =
     bind_path (sv_path_uuid sv) ''id'' (strict_StarConference sv)"

definition siw_UnarchiveConference :: "server \<Rightarrow> 'm conn_scheme handler" where
  "siw_UnarchiveConference sv =
     bind_path (sv_path_uuid sv) ''id'' (strict_UnarchiveConference sv)"

definition siw_ImportConferences :: "server \<Rightarrow> 'm conn_scheme handler" where
  "siw_ImportConferences sv =
     strict_ImportConferences sv"

definition siw_DeleteCalendarToken :: "server \<Rightarrow> 'm conn_scheme handler" where
  "siw_DeleteCalendarToken sv =
     strict_DeleteCalendarToken sv"

definition siw_ListMyCalendarTokens :: "server \<Rightarrow> 'm conn_scheme handler" where
  "siw_ListMyCalendarTokens sv =
     strict_ListMyCalendarTokens sv"

definition siw_CreateCalendarToken :: "server \<Rightarrow> 'm conn_scheme handler" where
  "siw_CreateCalendarToken sv =
     strict_CreateCalendarToken sv"

definition siw_GetPublicCalendar :: "server \<Rightarrow> 'm conn_scheme handler" where
  "siw_GetPublicCalendar sv =
     bind_IfNoneMatch (sv_header_string sv) (strict_GetPublicCalendar sv)"

definition siw_GetPersonalCalendar :: "server \<Rightarrow> 'm conn_scheme handler" where
  "siw_GetPersonalCalendar sv =
     bind_path (sv_path_string sv) ''token'' (\<lambda>token.
     bind_IfNoneMatch (sv_header_string sv) (strict_GetPersonalCalendar sv token))"

subsection \<open>The router\<close>

datatype route =
    Healthz | Metrics | Conferences_list | Conference_get | Calendar_all | Calendar_user
  | Auth_login | Auth_callback | Auth_logout
  | Me | Tags_list | Tracks_list
  | Conference_create | Conference_update | Conference_archive | Conference_unarchive
  | Conference_star | Conference_unstar | My_stars | My_settings | My_settings_update
  | My_tokens | My_token_create | My_token_delete | Import_yaml
  | Conference_delete | Audit_list

definition auditMiddleware ::
  "server \<Rightarrow> string \<Rightarrow> string \<Rightarrow> 'm web_scheme handler \<Rightarrow> 'm web_scheme handler" where
  "auditMiddleware sv entityType action nxt =
     (if \<not> sv_audited sv then nxt
      else For (sv_env sv) (sv_partial_uuid sv) entityType action nxt)"

text \<open>The handlers of the sign-in mark nothing; without an OIDC handler the routes do not exist.\<close>

definition page_not_found :: reply where
  "page_not_found = http_Error ''404 page not found'' 404"

definition oidc_route ::
  "server \<Rightarrow> (OIDCHandler \<Rightarrow> request \<Rightarrow> 's \<Rightarrow> reply \<times> 's) \<Rightarrow> 's handler" where
  "oidc_route sv h r s =
     (case sv_oidc sv of
        None \<Rightarrow> writes page_not_found r s
      | Some o' \<Rightarrow> (case h o' r s of (p, s') \<Rightarrow> ((p, None), s')))"

text \<open>The groups of the router, as they are nested.\<close>

definition token_group :: "server \<Rightarrow> 's handler \<Rightarrow> 's handler" where
  "token_group sv nxt =
     (case sv_tm sv of None \<Rightarrow> nxt | Some secret \<Rightarrow> RequireToken (sv_jwt sv) secret (sv_now sv) nxt)"

definition member_group :: "server \<Rightarrow> 's handler \<Rightarrow> 's handler" where
  "member_group sv nxt = token_group sv (RequireMember nxt)"

definition admin_group :: "server \<Rightarrow> 's handler \<Rightarrow> 's handler" where
  "admin_group sv nxt = token_group sv (RequireAdmin nxt)"

fun NewRouter :: "server \<Rightarrow> route \<Rightarrow> 'm web_scheme handler" where
  "NewRouter sv Healthz = strict_GetHealth sv"
| "NewRouter sv Metrics = writes (sv_metrics sv)"
| "NewRouter sv Conferences_list = siw_ListConferences sv"
| "NewRouter sv Conference_get = siw_GetConference sv"
| "NewRouter sv Calendar_all = siw_GetPublicCalendar sv"
| "NewRouter sv Calendar_user = siw_GetPersonalCalendar sv"
| "NewRouter sv Auth_login = oidc_route sv (\<lambda>h r s.
     (Login h (sv_random_state sv) (sv_random_verifier sv) r, s))"
| "NewRouter sv Auth_callback = oidc_route sv (\<lambda>h r s. Callback (sv_env sv) h (sv_now sv) r s)"
| "NewRouter sv Auth_logout = oidc_route sv (\<lambda>h r s. (Logout r, s))"
| "NewRouter sv Me = token_group sv (strict_GetMe sv)"
| "NewRouter sv Tags_list = token_group sv (strict_ListTags sv)"
| "NewRouter sv Tracks_list = token_group sv (strict_ListTracks sv)"
| "NewRouter sv Conference_create =
     member_group sv (auditMiddleware sv ''conference'' ''create'' (siw_CreateConference sv))"
| "NewRouter sv Conference_update =
     member_group sv (auditMiddleware sv ''conference'' ''update'' (siw_UpdateConference sv))"
| "NewRouter sv Conference_archive =
     member_group sv (auditMiddleware sv ''conference'' ''archive'' (siw_ArchiveConference sv))"
| "NewRouter sv Conference_unarchive =
     member_group sv (auditMiddleware sv ''conference'' ''unarchive'' (siw_UnarchiveConference sv))"
| "NewRouter sv Conference_star = member_group sv (siw_StarConference sv)"
| "NewRouter sv Conference_unstar = member_group sv (siw_UnstarConference sv)"
| "NewRouter sv My_stars = member_group sv (strict_ListMyStars sv)"
| "NewRouter sv My_settings = member_group sv (strict_GetMySettings sv)"
| "NewRouter sv My_settings_update = member_group sv (strict_UpdateMySettings sv)"
| "NewRouter sv My_tokens = member_group sv (siw_ListMyCalendarTokens sv)"
| "NewRouter sv My_token_create = member_group sv (siw_CreateCalendarToken sv)"
| "NewRouter sv My_token_delete = member_group sv (siw_DeleteCalendarToken sv)"
| "NewRouter sv Import_yaml = member_group sv (siw_ImportConferences sv)"
| "NewRouter sv Conference_delete =
     admin_group sv (auditMiddleware sv ''conference'' ''delete'' (siw_DeleteConference sv))"
| "NewRouter sv Audit_list = admin_group sv (siw_ListAuditLog sv)"

end
