(* ===== verification/Http.thy ===== *)
theory Http
  imports Router
begin

text \<open>
  What every request keeps. A handler evolves the database along a relation when the services it
  calls do: the locale below lifts the interfaces of the services to the router, and its
  interpretations give the invariant of the schema, the history of the reminders and the audit
  log for every route at once.
\<close>

subsection \<open>Handlers along a relation\<close>

definition h_evolves :: "(db \<Rightarrow> db \<Rightarrow> bool) \<Rightarrow> 'm conn_scheme handler \<Rightarrow> bool" where
  "h_evolves R h \<longleftrightarrow> (\<forall>r s q s'. c_tx s = None \<longrightarrow> h r s = (q, s') \<longrightarrow>
     c_tx s' = None \<and> R (c_com s) (c_com s'))"

lemma h_evolvesD: "h_evolves R h \<Longrightarrow> c_tx s = None \<Longrightarrow> h r s = (q, s') \<Longrightarrow> c_tx s' = None \<and> R (c_com s) (c_com s')"
  unfolding h_evolves_def by blast

text \<open>
  A decoder of parameters either answers 400 at once or goes on with a handler of its family.
\<close>

definition dispatches :: "'s handler \<Rightarrow> ('b \<Rightarrow> 's handler) \<Rightarrow> bool" where
  "dispatches h k \<longleftrightarrow> (\<forall>r s. (\<exists>e. h r s = ((http_Error e 400, None), s)) \<or> (\<exists>b. h r s = k b r s))"

lemma dispatchesE:
  assumes "dispatches h k" and "h r s = (q, s')"
  obtains (refused) e where "q = (http_Error e 400, None)" "s' = s" | (passed) b where "k b r s = (q, s')"
  using assms unfolding dispatches_def by (metis prod.inject)

lemma dispatches_rules:
  "dispatches (json_body decode k) k" "dispatches (bind_path get name k) k"
  by (auto simp: dispatches_def json_body_def bind_path_def writes_def split: sum.splits)

lemma dispatches_query: "dispatches (bind_query get name k) k"
  by (auto simp: dispatches_def bind_query_def writes_def split: sum.splits bind_error.splits)

lemma dispatches_IfNoneMatch: "dispatches (bind_IfNoneMatch get k) k"
  by (auto simp: dispatches_def bind_IfNoneMatch_def writes_def split: sum.splits list.splits)

lemma evolves_answer:
  assumes "evolves R m"
  shows "evolves R (answer m good bad)"
proof (rule evolves_same_state [OF assms])
  fix c show "snd (answer m good bad c) = snd (m c)"
    by (simp add: answer_def split: prod.splits sum.splits option.splits)
qed

context evolution begin

lemma evolves_answers: "evolves R (answers a)"
  by (simp add: evolves_def answers_def R_refl)

lemma evolves_with_actor: "(\<And>i. evolves R (f i)) \<Longrightarrow> evolves R (with_actor env r no f)"
  by (simp add: with_actor_def evolves_answers split: sum.splits)

lemma h_writes: "h_evolves R (writes p)"
  by (simp add: h_evolves_def writes_def R_refl)

lemma h_respond:
  assumes "\<And>r. evolves R (ans r)"
  shows "h_evolves R (\<lambda>r. respond sv visit (ans r) r)"
  unfolding h_evolves_def
proof (intro allI impI)
  fix r s q s'
  assume s: "c_tx s = None" and run: "respond sv visit (ans r) r s = (q, s')"
  obtain a s1 where ans: "ans r s = (a, s1)" by force
  then have "s' = s1" using run by (auto simp: respond_def split: sum.splits)
  with evolvesD [OF assms s ans] show "c_tx s' = None \<and> R (c_com s) (c_com s')" by simp
qed

lemma h_strict:
  assumes "\<And>r. h r = respond sv (visit r) (ans r) r" and "\<And>r. evolves R (ans r)"
  shows "h_evolves R h"
  unfolding h_evolves_def
proof (intro allI impI)
  fix r s q s'
  assume "c_tx s = None" and "h r s = (q, s')"
  with h_evolvesD [OF h_respond [of "\<lambda>_. ans r" sv "visit r", OF assms(2)]] assms(1)
  show "c_tx s' = None \<and> R (c_com s) (c_com s')" by metis
qed

lemma h_dispatches:
  assumes "dispatches h k" and "\<And>b. h_evolves R (k b)"
  shows "h_evolves R h"
  unfolding h_evolves_def
proof (intro allI impI)
  fix r s q s'
  assume s: "c_tx s = None" and "h r s = (q, s')"
  from assms(1) this(2) show "c_tx s' = None \<and> R (c_com s) (c_com s')"
  proof (cases rule: dispatchesE)
    case (passed b)
    with h_evolvesD [OF assms(2) s] show ?thesis by blast
  qed (use s R_refl in simp)
qed

lemmas h_bind = h_dispatches [OF dispatches_rules(1)] h_dispatches [OF dispatches_rules(2)]
  h_dispatches [OF dispatches_query] h_dispatches [OF dispatches_IfNoneMatch]

lemma h_RequireToken: "h_evolves R nxt \<Longrightarrow> h_evolves R (RequireToken J secret now nxt)"
  by (auto simp: h_evolves_def RequireToken_session R_refl split: option.splits)

lemma h_RequireMember: "h_evolves R nxt \<Longrightarrow> h_evolves R (RequireMember nxt)"
  by (auto simp: h_evolves_def RequireMember_def writes_def R_refl split: option.splits if_splits)

lemma h_RequireAdmin: "h_evolves R nxt \<Longrightarrow> h_evolves R (RequireAdmin nxt)"
  by (auto simp: h_evolves_def RequireAdmin_def writes_def R_refl split: option.splits if_splits)

lemma h_token_group: "h_evolves R nxt \<Longrightarrow> h_evolves R (token_group sv nxt)"
  by (simp add: token_group_def h_RequireToken split: option.splits)

lemma h_groups:
  "h_evolves R nxt \<Longrightarrow> h_evolves R (member_group sv nxt)"
  "h_evolves R nxt \<Longrightarrow> h_evolves R (admin_group sv nxt)"
  by (simp_all add: member_group_def admin_group_def h_token_group h_RequireMember h_RequireAdmin)

lemma h_oidc_route:
  assumes "\<And>h r s p s'. c_tx s = None \<Longrightarrow> f h r s = (p, s') \<Longrightarrow> c_tx s' = None \<and> R (c_com s) (c_com s')"
  shows "h_evolves R (oidc_route sv f)"
  using assms
  by (auto simp: h_evolves_def oidc_route_def writes_def R_refl split: option.splits prod.splits)

lemmas h_rules = h_bind h_token_group h_groups

end

subsection \<open>Every route\<close>

lemmas strict_defs = strict_ListAuditLog_def strict_ListConferences_def strict_CreateConference_def
  strict_DeleteConference_def strict_GetConference_def strict_UpdateConference_def
  strict_ArchiveConference_def strict_UnstarConference_def strict_StarConference_def
  strict_UnarchiveConference_def strict_ImportConferences_def strict_GetMe_def
  strict_DeleteCalendarToken_def strict_ListMyCalendarTokens_def strict_CreateCalendarToken_def
  strict_GetMySettings_def strict_UpdateMySettings_def strict_ListMyStars_def strict_ListTags_def
  strict_ListTracks_def strict_GetPublicCalendar_def strict_GetPersonalCalendar_def strict_GetHealth_def

text \<open>
  The interface between the handlers and the repository: the steps of every service and of the
  sign-in are steps of one relation. Then so is every handler. Deleting a conference, which takes
  its stars and reminders with it, is an interface of its own, and the router adds the audit log.
\<close>

locale service_writes = conf: conference_writes R env + star: star_writes R + sett: settings_writes R
    + tok: token_writes R
  for R :: "db \<Rightarrow> db \<Rightarrow> bool" and env :: env +
  assumes step_user: "sql_step R (UpsertUser uu)"
    and step_user_settings: "sql_step R (UpsertUserSettings i)"
begin

lemma reads_keep: "evolves (=) m \<Longrightarrow> evolves R m"
  unfolding evolves_def using conf.R_refl by metis

lemma keeps_ListStarred: "evolves R (ListStarred env u)"
  unfolding ListStarred_def list_row_def by (intro conf.out_rules conf.out_exec conf.reads)

lemma keeps_users_reads: "evolves R (Get_settings u)" "evolves R (List_tokens url u)"
    "evolves R (on_err Pg (exec Pool (ListAuditLog p)))"
  unfolding Get_settings_def List_tokens_def
  by (intro conf.out_rules conf.out_exec conf.step_of_reads user_reads_only ListAuditLog_reads_only)+

lemmas services = conf.keeps_Create conf.keeps_Update conf.keeps_Archive conf.keeps_Unarchive
  star.keeps_Star star.keeps_Unstar sett.keeps_Update_settings tok.keeps_Create_token
  tok.keeps_Delete_token keeps_ListStarred keeps_users_reads
  reads_only_service [THEN reads_keep] feeds_read_only [THEN reads_keep]

lemmas answer_rules = evolves_answer conf.evolves_answers conf.evolves_with_actor services

lemma keeps_import: "evolves R (\<lambda>s. case RunImport env es actor strict s of (n, s') \<Rightarrow> answers (f n) s')"
  unfolding evolves_def
proof (intro allI impI)
  fix s r s'
  assume s: "c_tx s = None" and run: "(case RunImport env es actor strict s of (n, s') \<Rightarrow> answers (f n) s') = (r, s')"
  obtain n s1 where imp: "RunImport env es actor strict s = (n, s1)" by force
  then have "import_loop env actor strict 0 es \<lparr>nCreated = 0, nUpdated = 0, nSkipped = 0, nErrs = []\<rparr> s = (n, s1)"
    by (simp add: RunImport_def)
  from import_loop_keeps [OF conf.keeps_UpsertFromImport conf.R_refl conf.R_trans s this]
  show "c_tx s' = None \<and> R (c_com s) (c_com s')" using run imp by (simp add: answers_def)
qed

lemma keeps_personal: "evolves R (Server_GetPersonalCalendar env token e)"
  unfolding evolves_def
proof (intro allI impI)
  fix s r s'
  assume s: "c_tx s = None" and run: "Server_GetPersonalCalendar env token e s = (r, s')"
  obtain a s1 where look: "LookupToken token s = (a, s1)" by force
  have s1: "c_tx s1 = None" "R (c_com s) (c_com s1)" using evolvesD [OF tok.keeps_LookupToken s look] by auto
  have "c_tx s' = None \<and> R (c_com s1) (c_com s')"
  proof (cases a)
    case (Inl err)
    then show ?thesis
      using run look s1 by (simp add: Server_GetPersonalCalendar_def answers_def conf.R_refl)
  next
    case (Inr u)
    show ?thesis
      by (rule evolvesD [OF evolves_answer [OF feeds_read_only(2) [THEN reads_keep]] s1(1)])
        (use run look Inr in \<open>simp add: Server_GetPersonalCalendar_def\<close>)
  qed
  with s1(2) show "c_tx s' = None \<and> R (c_com s) (c_com s')" using conf.R_trans by blast
qed

lemma keeps_Callback:
  fixes s :: "'m conn_scheme"
  assumes "c_tx s = None" and "Callback env' h now r s = (p, s')"
  shows "c_tx s' = None \<and> R (c_com s) (c_com s')"
proof -
  have sess: "c_tx s' = None \<and> R (c_com s) (c_com s')"
    if s: "c_tx s = None" and run: "callback_session env' h now r (idt, cl, ro) s = (p, s')"
    for idt cl ro p and s s' :: "'m conn_scheme"
  proof -
    let ?p = "\<lparr>uuOidcIssuer = itIssuer idt, uuOidcSubject = itSubject idt,
               uuEmail = string_claim cl ''email'', uuDisplayName = display_name cl\<rparr>"
    obtain a1 s1 where 1: "exec Pool (UpsertUser ?p) s = (a1, s1)" by force
    have k1: "c_tx s1 = None \<and> R (c_com s) (c_com s1)" using evolvesD [OF conf.out_exec [OF step_user] s 1] .
    show ?thesis
    proof (cases a1)
      case (Inr u)
      obtain a2 s2 where 2: "exec Pool (UpsertUserSettings (uID u)) s1 = (a2, s2)" by force
      have "c_tx s2 = None \<and> R (c_com s1) (c_com s2)"
        by (rule evolvesD [OF conf.out_exec [OF step_user_settings] conjunct1 [OF k1] 2])
      moreover have "s' = s2" using run 1 2 Inr by (auto simp: callback_session_def split: sum.splits)
      ultimately show ?thesis using k1 conf.R_trans by blast
    qed (use run 1 k1 in \<open>simp add: callback_session_def\<close>)
  qed
  have "(\<exists>p idt cl ro. callback_session env' h now r (idt, cl, ro) s = (p, s')) \<or> s' = s"
    using assms(2) by (auto simp: Callback_def split: sum.splits prod.splits)
  with sess [OF assms(1)] assms(1) conf.R_refl show ?thesis by blast
qed

lemma keeps_handlers:
  "evolves R Server_GetHealth"
  "evolves R (Server_ListConferences env q)"
  "evolves R (Server_GetConference env i)"
  "evolves R (Server_CreateConference env r b)"
  "evolves R (Server_UpdateConference env r i b)"
  "evolves R (Server_ArchiveConference env i)"
  "evolves R (Server_UnarchiveConference env i)"
  "evolves R (Server_ListTags env)"
  "evolves R (Server_ListTracks env)"
  "evolves R (Server_StarConference env r i)"
  "evolves R (Server_UnstarConference env r i)"
  "evolves R (Server_ListMyStars env r)"
  "evolves R (Server_GetMySettings env r)"
  "evolves R (Server_UpdateMySettings env r st)"
  "evolves R (Server_GetPublicCalendar env e)"
  "evolves R (Server_ListMyCalendarTokens env url r)"
  "evolves R (Server_CreateCalendarToken env url rnd r)"
  "evolves R (Server_DeleteCalendarToken env r)"
  "evolves R (Server_ListAuditLog aq)"
  unfolding Server_GetHealth_def Server_ListConferences_def Server_GetConference_def
    Server_CreateConference_def Server_UpdateConference_def
    Server_ArchiveConference_def Server_UnarchiveConference_def Server_ListTags_def
    Server_ListTracks_def Server_StarConference_def Server_UnstarConference_def Server_ListMyStars_def
    Server_GetMySettings_def Server_UpdateMySettings_def Server_GetPublicCalendar_def
    Server_ListMyCalendarTokens_def Server_CreateCalendarToken_def Server_DeleteCalendarToken_def
    Server_ListAuditLog_def Let_def
  by (intro answer_rules)+

lemma keeps_GetMe: "evolves R (Server_GetMe env r)"
  by (simp add: Server_GetMe_def conf.evolves_answers split: option.splits)

lemma keeps_Import: "evolves R (Server_ImportConferences env decode r)"
  unfolding Server_ImportConferences_def
  by (intro conf.evolves_with_actor) (simp add: conf.evolves_answers keeps_import split: sum.splits)

lemmas handlers = keeps_handlers keeps_GetMe keeps_Import keeps_personal

text \<open>The strict handlers of a server for the environment of the locale.\<close>

lemma keeps_strict:
  assumes sv: "sv_env sv = env"
  shows
    "h_evolves R (strict_ListAuditLog sv aq)"
    "h_evolves R (strict_ListConferences sv q)"
    "h_evolves R (strict_GetConference sv i)"
    "h_evolves R (strict_ArchiveConference sv i)"
    "h_evolves R (strict_UnstarConference sv i)"
    "h_evolves R (strict_StarConference sv i)"
    "h_evolves R (strict_UnarchiveConference sv i)"
    "h_evolves R (strict_ImportConferences sv)"
    "h_evolves R (strict_GetMe sv)"
    "h_evolves R (strict_DeleteCalendarToken sv)"
    "h_evolves R (strict_ListMyCalendarTokens sv)"
    "h_evolves R (strict_CreateCalendarToken sv)"
    "h_evolves R (strict_GetMySettings sv)"
    "h_evolves R (strict_ListMyStars sv)"
    "h_evolves R (strict_ListTags sv)"
    "h_evolves R (strict_ListTracks sv)"
    "h_evolves R (strict_GetPublicCalendar sv e)"
    "h_evolves R (strict_GetPersonalCalendar sv token e)"
    "h_evolves R (strict_GetHealth sv)"
  by (rule conf.h_strict, rule strict_defs, (unfold sv)?, rule handlers)+

lemma keeps_strict_body:
  assumes sv: "sv_env sv = env"
  shows
    "h_evolves R (strict_CreateConference sv)"
    "h_evolves R (strict_UpdateConference sv i)"
    "h_evolves R (strict_UpdateMySettings sv)"
  unfolding strict_defs sv by (intro conf.h_bind(1), rule conf.h_strict, rule refl, rule handlers)+

lemmas strict = keeps_strict keeps_strict_body

lemma keeps_siw:
  assumes sv: "sv_env sv = env"
  shows
    "h_evolves R (siw_ListAuditLog sv)"
    "h_evolves R (siw_ListConferences sv)"
    "h_evolves R (siw_CreateConference sv)"
    "h_evolves R (siw_GetConference sv)"
    "h_evolves R (siw_UpdateConference sv)"
    "h_evolves R (siw_ArchiveConference sv)"
    "h_evolves R (siw_UnstarConference sv)"
    "h_evolves R (siw_StarConference sv)"
    "h_evolves R (siw_UnarchiveConference sv)"
    "h_evolves R (siw_ImportConferences sv)"
    "h_evolves R (siw_DeleteCalendarToken sv)"
    "h_evolves R (siw_ListMyCalendarTokens sv)"
    "h_evolves R (siw_CreateCalendarToken sv)"
    "h_evolves R (siw_GetPublicCalendar sv)"
    "h_evolves R (siw_GetPersonalCalendar sv)"
  unfolding siw_ListAuditLog_def siw_ListConferences_def siw_CreateConference_def
    siw_GetConference_def siw_UpdateConference_def siw_ArchiveConference_def
    siw_UnstarConference_def siw_StarConference_def siw_UnarchiveConference_def
    siw_ImportConferences_def siw_DeleteCalendarToken_def siw_ListMyCalendarTokens_def
    siw_CreateCalendarToken_def siw_GetPublicCalendar_def siw_GetPersonalCalendar_def
  by (intro conf.h_rules strict [OF sv])+

end

text \<open>Deleting a conference, the entries of the audit log, and the route that does both.\<close>

locale deletion = evolution R for R :: "db \<Rightarrow> db \<Rightarrow> bool" +
  assumes step_delete: "sql_step R (DeleteConference i)"
begin

lemma keeps_Delete: "evolves R (Delete_conference i)"
  unfolding Delete_conference_def
  by (intro out_andthen out_on_err out_exec step_delete) (simp add: out_ret out_fail)

lemma keeps_siw_Delete: "h_evolves R (siw_DeleteConference sv)"
  unfolding siw_DeleteConference_def
proof (rule h_bind(2))
  show "h_evolves R (strict_DeleteConference sv i)" for i
    by (rule h_strict, rule strict_defs) (simp add: Server_DeleteConference_def evolves_answer keeps_Delete)
qed

end

locale auditing = evolution R for R :: "db \<Rightarrow> db \<Rightarrow> bool" +
  assumes step_audit: "sql_step R (InsertAuditEntry ap)"
begin

lemma h_For: "h_evolves R nxt \<Longrightarrow> h_evolves R (For env' partial et ac nxt)"
  unfolding h_evolves_def [of _ "For env' partial et ac nxt"]
proof (intro allI impI)
  fix r :: request and s q s'
  assume nxt: "h_evolves R nxt" and s: "c_tx s = None" and run: "For env' partial et ac nxt r s = (q, s')"
  obtain p m s1 where 1: "nxt r s = ((p, m), s1)" by (metis surj_pair)
  have k1: "c_tx s1 = None \<and> R (c_com s) (c_com s1)" using h_evolvesD [OF nxt s 1] .
  have ins: "c_tx s2 = None \<and> R (c_com s1) (c_com s2)"
    if "exec Pool (InsertAuditEntry a) s1 = (b, s2)" for a b s2
    by (rule evolvesD [OF out_exec [OF step_audit] conjunct1 [OF k1] that])
  show "c_tx s' = None \<and> R (c_com s) (c_com s')"
    using run 1 k1 ins R_trans
    by (auto simp: For_def Let_def Inc_writeFailures_def split: if_splits option.splits prod.splits sum.splits)
qed

lemma h_audited: "h_evolves R nxt \<Longrightarrow> h_evolves R (auditMiddleware sv et ac nxt)"
  by (simp add: auditMiddleware_def h_For)

end

locale removal = deletion R + auditing R for R :: "db \<Rightarrow> db \<Rightarrow> bool"
begin

lemma keeps_delete_route: "h_evolves R (NewRouter sv Conference_delete :: 'm web_scheme handler)"
  by (simp add: h_rules h_audited keeps_siw_Delete)

end

text \<open>The router.\<close>

locale delete_writes = service_writes R env + deletion R for R :: "db \<Rightarrow> db \<Rightarrow> bool" and env :: env

locale audit_writes = service_writes R env + auditing R for R :: "db \<Rightarrow> db \<Rightarrow> bool" and env :: env
begin

lemma keeps_other_route:
  assumes sv: "sv_env sv = env" and rt: "rt \<noteq> Conference_delete"
  shows "h_evolves R (NewRouter sv rt :: 'm web_scheme handler)"
proof (cases rt)
  case Auth_callback
  then show ?thesis by (simp add: conf.h_oidc_route keeps_Callback)
next
  case Auth_login
  then show ?thesis by simp (rule conf.h_oidc_route, simp add: conf.R_refl)
next
  case Auth_logout
  then show ?thesis by simp (rule conf.h_oidc_route, simp add: conf.R_refl)
qed (use rt in \<open>simp_all add: conf.h_writes conf.h_rules h_audited keeps_siw [OF sv] keeps_strict [OF sv]
    keeps_strict_body [OF sv]\<close>)

end

locale server_writes = audit_writes R env + removal R for R :: "db \<Rightarrow> db \<Rightarrow> bool" and env :: env
begin

lemma keeps_route:
  assumes sv: "sv_env sv = env"
  shows "h_evolves R (NewRouter sv rt :: 'm web_scheme handler)"
proof (cases "rt = Conference_delete")
  case True
  show ?thesis unfolding True by (rule keeps_delete_route)
qed (rule keeps_other_route [OF sv])

end

subsection \<open>The relations\<close>

text \<open>Without \<open>For\<close> the audit log stays as it is, and with it nothing is taken from it.\<close>

definition keeps_log :: "db \<Rightarrow> db \<Rightarrow> bool" where
  "keeps_log d d' \<longleftrightarrow> audit_log d' = audit_log d"

definition extends_log :: "db \<Rightarrow> db \<Rightarrow> bool" where
  "extends_log d d' \<longleftrightarrow> (\<exists>es. audit_log d' = audit_log d @ es)"

lemma extends_log_if_keeps: "sql_step keeps_log q \<Longrightarrow> sql_step extends_log q"
  by (fastforce simp: sql_step_def keeps_log_def extends_log_def)

lemma keeps_log_conferences:
  "sql_step keeps_log (CreateConference env cp)" "sql_step keeps_log (UpdateConference env up)"
  "sql_step keeps_log (ArchiveConference i)" "sql_step keeps_log (UnarchiveConference i)"
  "sql_step keeps_log (UpsertTagBySlug s n)" "sql_step keeps_log (AddConferenceTag i t)"
  "sql_step keeps_log (AddConferenceTrack i k)" "sql_step keeps_log (DeleteAllConferenceTags i)"
  "sql_step keeps_log (DeleteAllConferenceTracks i)" "sql_step keeps_log (DeleteConference i)"
  "sql_step keeps_log (CreateStar u i)" "sql_step keeps_log (DeleteStar u i)"
  by (rule sql_stepI, auto simp: keeps_log_def CreateConference_def UpdateConference_def ArchiveConference_def
      UnarchiveConference_def UpsertTagBySlug_def AddConferenceTag_def AddConferenceTrack_def
      DeleteAllConferenceTags_def DeleteAllConferenceTracks_def DeleteConference_def CreateStar_def
      DeleteStar_def with_texts_def Let_def split: if_splits option.splits)+

lemma keeps_log_users:
  "sql_step keeps_log (UpsertUser uu)" "sql_step keeps_log (UpsertUserSettings i)"
  "sql_step keeps_log (UpdateUserSettings sp)" "sql_step keeps_log (CreateCalendarToken u t k)"
  "sql_step keeps_log (GetCalendarTokenByValue t)" "sql_step keeps_log (RevokeCalendarTokensByUser u k)"
  by (rule sql_stepI, auto simp: keeps_log_def UpsertUser_def UpsertUserSettings_def UpdateUserSettings_def
      CreateCalendarToken_def GetCalendarTokenByValue_def RevokeCalendarTokensByUser_def
      with_texts_def Let_def split: if_splits option.splits)+

lemma keeps_log_reminders:
  "sql_step keeps_log (InsertReminderRow p)" "sql_step keeps_log (CancelConferenceReminders i)"
  "sql_step keeps_log (CancelUserConferenceReminders u i)"
  "sql_step keeps_log (DeleteConferencePendingReminders i)"
  "sql_step keeps_log (DeleteUserConferencePendingReminders u i)"
  by (rule sql_stepI, auto simp: keeps_log_def InsertReminderRow_def CancelConferenceReminders_def
      CancelUserConferenceReminders_def DeleteConferencePendingReminders_def
      DeleteUserConferencePendingReminders_def Let_def split: if_splits option.splits)+

lemmas keeps_log_steps = keeps_log_conferences keeps_log_users keeps_log_reminders

lemma extends_log_audit: "sql_step extends_log (InsertAuditEntry p)"
  by (rule sql_stepI) (auto simp: extends_log_def InsertAuditEntry_def with_texts_def split: if_splits)

interpretation log: delete_writes keeps_log env for env
  by unfold_locales ((rule keeps_log_steps)+ | auto simp: keeps_log_def)+

interpretation append: server_writes extends_log env for env
  by unfold_locales ((rule keeps_log_steps [THEN extends_log_if_keeps] extends_log_audit)+
    | auto simp: extends_log_def)+

interpretation wf_server: server_writes "wf_step env" env for env
  by unfold_locales (rule keeps_intros)+

interpretation hist_server: audit_writes keeps_history env for env
  by unfold_locales (rule keeps_intros)+

end
