(* ===== verification/Http_Replies.thy ===== *)
theory Http_Replies
  imports Http
begin

text \<open>
  What holds of every reply. A contract relates the state before a request, the reply with what
  was marked for the audit log, and the state after it. The locale lifts a contract from the
  answers of the handlers to the routes, given that it allows every failure of the server and
  the refusal of a malformed parameter. The contract interpreted here is that a success of a
  handler marks its conference; the theory of the API's contract interprets another.
\<close>

subsection \<open>Contracts\<close>

type_synonym 's contract = "'s \<Rightarrow> reply \<Rightarrow> uuid option \<Rightarrow> 's \<Rightarrow> bool"

definition h_sat :: "'m conn_scheme contract \<Rightarrow> 'm conn_scheme handler \<Rightarrow> bool" where
  "h_sat Q h \<longleftrightarrow> (\<forall>r s p m s'. c_tx s = None \<longrightarrow> h r s = ((p, m), s') \<longrightarrow> Q s p m s')"

definition responds ::
  "'m conn_scheme contract \<Rightarrow> (encoder \<Rightarrow> 'a \<Rightarrow> err + reply) \<Rightarrow> ('a, 'm conn_scheme) answer \<Rightarrow> bool" where
  "responds Q visit ans \<longleftrightarrow> (\<forall>enc s res m s' p. c_tx s = None \<longrightarrow> ans s = (Inr (res, m), s') \<longrightarrow>
     visit enc res = Inr p \<longrightarrow> Q s p m s')"

lemma h_satD: "h_sat Q h \<Longrightarrow> c_tx s = None \<Longrightarrow> h r s = ((p, m), s') \<Longrightarrow> Q s p m s'"
  unfolding h_sat_def by blast

lemma responds_answers: "(\<And>enc s p. visit enc a = Inr p \<Longrightarrow> Q s p None s) \<Longrightarrow> responds Q visit (answers a)"
  by (simp add: responds_def answers_def)

lemma responds_answer:
  assumes "\<And>enc s x s' p. c_tx s = None \<Longrightarrow> m s = (Inr x, s') \<Longrightarrow> visit enc (fst (good x)) = Inr p \<Longrightarrow>
      Q s p (snd (good x)) s'"
    and "\<And>enc s e s' a p. c_tx s = None \<Longrightarrow> m s = (Inl e, s') \<Longrightarrow> bad e = Some a \<Longrightarrow> visit enc a = Inr p \<Longrightarrow>
      Q s p None s'"
  shows "responds Q visit (answer m good bad)"
  unfolding responds_def
proof (intro allI impI)
  fix enc s res k s' p
  assume s: "c_tx s = None" and run: "answer m good bad s = (Inr (res, k), s')" and v: "visit enc res = Inr p"
  obtain a s1 where m: "m s = (a, s1)" by force
  show "Q s p k s'"
  proof (cases a)
    case (Inl e)
    with run m have "bad e = Some res \<and> k = None \<and> s' = s1"
      by (auto simp: answer_def split: option.splits)
    then show ?thesis using assms(2) s m Inl v by blast
  next
    case (Inr x)
    with run m have "good x = (res, k) \<and> s' = s1" by (simp add: answer_def)
    then show ?thesis using assms(1) [OF s m [unfolded Inr], of enc p] v by simp
  qed
qed

lemma responds_with_actor:
  assumes "\<And>i. responds Q visit (f i)" and "\<And>enc e s p. visit enc (no_actor e) = Inr p \<Longrightarrow> Q s p None s"
  shows "responds Q visit (with_actor env r no_actor f)"
  using assms by (simp add: with_actor_def responds_answers split: sum.split)

locale reply_contract =
  fixes Q :: "'m conn_scheme contract"
  assumes server_error: "Q s (http_Error e 500) m s'"
    and refusal: "Q s (http_Error e 400) None s"
begin

lemma sat_strict:
  assumes "\<And>r. h r = respond sv (visit r) (ans r) r" and "\<And>r. responds Q (visit r) (ans r)"
  shows "h_sat Q h"
  unfolding h_sat_def
proof (intro allI impI)
  fix r s p m s'
  assume s: "c_tx s = None" and run: "h r s = ((p, m), s')"
  obtain a s1 where a: "ans r s = (a, s1)" by force
  show "Q s p m s'"
  proof (cases a)
    case (Inl e)
    then show ?thesis using run assms(1) a by (auto simp: respond_def intro: server_error)
  next
    case (Inr x)
    then obtain res k where x: "a = Inr (res, k)" by (cases x) simp
    then show ?thesis using run a s assms(2) [of r] unfolding assms(1)
      by (auto simp: respond_def responds_def intro: server_error split: sum.splits)
  qed
qed

lemma sat_dispatches:
  assumes "dispatches h k" and "\<And>b. h_sat Q (k b)"
  shows "h_sat Q h"
  unfolding h_sat_def
proof (intro allI impI)
  fix r s p m s'
  assume s: "c_tx s = None" and run: "h r s = ((p, m), s')"
  from assms(1) run show "Q s p m s'"
  proof (cases rule: dispatchesE)
    case (refused e)
    then show ?thesis using refusal by simp
  next
    case (passed b)
    then show ?thesis using h_satD [OF assms(2) s] by blast
  qed
qed

lemmas sat_bind = sat_dispatches [OF dispatches_rules(1)] sat_dispatches [OF dispatches_rules(2)]
  sat_dispatches [OF dispatches_query] sat_dispatches [OF dispatches_IfNoneMatch]

end

subsection \<open>Success is marked\<close>

definition marked_success :: "'m conn_scheme contract" where
  "marked_success s p m s' \<longleftrightarrow> rpStatus p \<noteq> 0 \<and>
     (success p \<longrightarrow> (\<exists>i. m = Some i \<and> (\<forall>conf. rpBody p = ConferenceBody conf \<longrightarrow> apId conf = i)))"

interpretation marks: reply_contract marked_success
  by unfold_locales (simp_all add: marked_success_def success_def)

lemma marks_Create: "responds marked_success VisitCreateConferenceResponse (Server_CreateConference env r body)"
  unfolding Server_CreateConference_def
  by (intro responds_with_actor responds_answer)
    (auto simp: marked_success_def success_def dest!: visit_json_Inr split: if_splits)

lemma marks_Update: "responds marked_success VisitUpdateConferenceResponse (Server_UpdateConference env r i body)"
  unfolding Server_UpdateConference_def
  by (intro responds_with_actor responds_answer)
    (auto simp: marked_success_def success_def dest!: visit_json_Inr split: if_splits)

lemma marks_others:
  "responds marked_success VisitDeleteConferenceResponse (Server_DeleteConference i)"
  "responds marked_success VisitArchiveConferenceResponse (Server_ArchiveConference env i)"
  "responds marked_success VisitUnarchiveConferenceResponse (Server_UnarchiveConference env i)"
  unfolding Server_DeleteConference_def Server_ArchiveConference_def Server_UnarchiveConference_def on_not_found_def
  by (intro responds_answer; auto simp: marked_success_def success_def dest!: visit_json_Inr split: if_splits)+

lemma marks_handlers:
  "h_sat marked_success (siw_CreateConference sv)" "h_sat marked_success (siw_UpdateConference sv)"
  "h_sat marked_success (siw_ArchiveConference sv)" "h_sat marked_success (siw_UnarchiveConference sv)"
  "h_sat marked_success (siw_DeleteConference sv)"
  unfolding siw_CreateConference_def siw_UpdateConference_def siw_ArchiveConference_def
    siw_UnarchiveConference_def siw_DeleteConference_def strict_CreateConference_def strict_UpdateConference_def
  by (intro marks.sat_bind, rule marks.sat_strict, rule strict_defs refl, rule marks_Create marks_Update marks_others)+

end
