(* ===== verification/Http_Facts.thy ===== *)
theory Http_Facts
  imports Http
begin

text \<open>
  The properties of the server as a whole: who may call what, and what a request leaves in the
  database.
\<close>

subsection \<open>Access\<close>

datatype access = Anyone | Signed_in | Member | Admin

text \<open>The levels are ordered: an administrator may do what a member may do, and so on.\<close>

fun access_level :: "access \<Rightarrow> nat" where
  "access_level Anyone = 0"
| "access_level Signed_in = 1"
| "access_level Member = 2"
| "access_level Admin = 3"

lemma access_level_inj: "access_level a = access_level b \<Longrightarrow> a = b"
  by (cases a; cases b) simp_all

instantiation access :: linorder
begin

definition less_eq_access :: "access \<Rightarrow> access \<Rightarrow> bool" where
  "a \<le> b \<longleftrightarrow> access_level a \<le> access_level b"

definition less_access :: "access \<Rightarrow> access \<Rightarrow> bool" where
  "a < b \<longleftrightarrow> access_level a < access_level b"

instance
  by standard (auto simp: less_eq_access_def less_access_def intro: access_level_inj)

end

fun needs :: "route \<Rightarrow> access" where
  "needs Healthz = Anyone"
| "needs Metrics = Anyone"
| "needs Conferences_list = Anyone"
| "needs Conference_get = Anyone"
| "needs Calendar_all = Anyone"
| "needs Calendar_user = Anyone"
| "needs Auth_login = Anyone"
| "needs Auth_callback = Anyone"
| "needs Auth_logout = Anyone"
| "needs Me = Signed_in"
| "needs Tags_list = Signed_in"
| "needs Tracks_list = Signed_in"
| "needs Conference_delete = Admin"
| "needs Audit_list = Admin"
| "needs _ = Member"

fun granted :: "access \<Rightarrow> SessionClaims option \<Rightarrow> bool" where
  "granted Anyone s = True"
| "granted Signed_in s = (s \<noteq> None)"
| "granted Member s = (\<exists>c. s = Some c \<and> ''member'' \<in> set (scRoles c))"
| "granted Admin s = (\<exists>c. s = Some c \<and> ''admin'' \<in> set (scRoles c))"

text \<open>The sessions that are issued respect the order, since administrators are members.\<close>

lemma granted_mono:
  assumes "''admin'' \<in> set (scRoles c) \<longrightarrow> ''member'' \<in> set (scRoles c)"
    and "granted a (Some c)" and "b \<le> a"
  shows "granted b (Some c)"
  using assms by (cases a; cases b) (auto simp: less_eq_access_def)

lemma token_group_refuses:
  assumes "sv_tm sv = Some secret" "session_of (sv_jwt sv) secret (sv_now sv) r = None"
  shows "\<exists>p. token_group sv nxt r s = ((p, None), s) \<and> rpCookies p = [] \<and> rpStatus p = 401"
  using assms by (simp add: token_group_def RequireToken_session)
    (simp add: writeUnauthorized_def writeProblem_def)

lemma token_group_passes:
  assumes "sv_tm sv = Some secret" "session_of (sv_jwt sv) secret (sv_now sv) r = Some c"
  shows "token_group sv nxt r s = nxt (r\<lparr>qClaims := Some c\<rparr>) s"
  using assms by (simp add: token_group_def RequireToken_session)

lemma member_refuses:
  assumes "ClaimsFromContext r = Some c" "''member'' \<notin> set (scRoles c)"
  shows "\<exists>p. RequireMember nxt r s = ((p, None), s) \<and> rpCookies p = [] \<and> rpStatus p = 403"
  using assms by (simp add: RequireMember_def roles_iff writes_def)
    (simp add: writeForbidden_def writeProblem_def)

lemma admin_refuses:
  assumes "ClaimsFromContext r = Some c" "''admin'' \<notin> set (scRoles c)"
  shows "\<exists>p. RequireAdmin nxt r s = ((p, None), s) \<and> rpCookies p = [] \<and> rpStatus p = 403"
  using assms by (simp add: RequireAdmin_def roles_iff writes_def)
    (simp add: writeForbidden_def writeProblem_def)

text \<open>The groups a route is in.\<close>

lemma router_groups:
  "needs rt = Signed_in \<Longrightarrow> \<exists>h. NewRouter sv rt r s = token_group sv h r s"
  "needs rt = Member \<Longrightarrow> \<exists>h. NewRouter sv rt r s = member_group sv h r s"
  "needs rt = Admin \<Longrightarrow> \<exists>h. NewRouter sv rt r s = admin_group sv h r s"
  by (cases rt; auto)+

lemma refuse:
  assumes tm: "sv_tm sv = Some secret"
    and refused: "\<not> granted (needs rt) (session_of (sv_jwt sv) secret (sv_now sv) r)"
  shows "\<exists>p. NewRouter sv rt r s = ((p, None), s) \<and> rpCookies p = []
    \<and> rpStatus p = (if session_of (sv_jwt sv) secret (sv_now sv) r = None then 401 else 403)"
proof (cases "session_of (sv_jwt sv) secret (sv_now sv) r")
  case None
  have "needs rt \<noteq> Anyone" using refused by auto
  then obtain h where "NewRouter sv rt r s = token_group sv h r s"
    using router_groups [of rt sv r s] unfolding member_group_def admin_group_def by (cases "needs rt") metis+
  then show ?thesis using token_group_refuses [OF tm None] None by simp
next
  case (Some c)
  let ?r = "r\<lparr>qClaims := Some c\<rparr>"
  have claims: "ClaimsFromContext ?r = Some c" by (simp add: ClaimsFromContext_def)
  show ?thesis
  proof (cases "needs rt")
    case Member
    then obtain h where "NewRouter sv rt r s = member_group sv h r s"
      using router_groups(2) [OF Member, of sv r s] by blast
    then show ?thesis
      using member_refuses [OF claims, of h s] refused Some Member
      by (simp add: member_group_def token_group_passes [OF tm Some])
  next
    case Admin
    then obtain h where "NewRouter sv rt r s = admin_group sv h r s"
      using router_groups(3) [OF Admin, of sv r s] by blast
    then show ?thesis
      using admin_refuses [OF claims, of h s] refused Some Admin
      by (simp add: admin_group_def token_group_passes [OF tm Some])
  qed (use refused Some in auto)
qed

text \<open>
  C3: A request that lacks the session or the role its route needs is refused: with 401 when the
  session cookie is missing, or holds no token that verifies now, and with 403 when the session
  lacks the role. A refusal sets no cookie, marks nothing for the audit log and leaves the whole
  state, the database and its counters included, as it was. Only listing and reading
  conferences, the two calendars, health, metrics and the sign-in are open to anyone.
\<close>

theorem access_control:
  assumes tm: "sv_tm sv = Some secret"
    and refused: "\<not> granted (needs rt) (session_of (sv_jwt sv) secret (sv_now sv) r)"
  shows "\<exists>p. NewRouter sv rt r s = ((p, None), s) \<and> rpCookies p = []
    \<and> rpStatus p = (if session_of (sv_jwt sv) secret (sv_now sv) r = None then 401 else 403)"
  by (rule refuse [OF assms])

text \<open>A server whose sessions are those of the sample library, and one request with a session.\<close>

definition sample_server :: server where
  "sample_server = \<lparr>
     sv_env = sample_env\<lparr>e_uuid_parse := (\<lambda>s. if s = ''1'' then Some 1 else None)\<rparr>,
     sv_jwt = sample_jwt, sv_tm = Some ''key'', sv_oidc = Some sample_oidc, sv_audited = True,
     sv_now = 0, sv_publicBaseURL = ''https://confero'', sv_encode = (\<lambda>_. None),
     sv_decode_conference = (\<lambda>_. Inr next_input), sv_decode_settings = (\<lambda>_. Inl ''no''),
     sv_decode_yaml = (\<lambda>_. Inr []), sv_path_uuid = (\<lambda>r k. Inr 2), sv_path_string = (\<lambda>r k. Inr (qURLParam r k)),
     sv_header_string = Inr, sv_query_string = (\<lambda>_ _. Inr None), sv_query_uuid = (\<lambda>_ _. Inr None),
     sv_query_bool = (\<lambda>_ _. Inr None), sv_query_int = (\<lambda>_ _. Inr None), sv_query_time = (\<lambda>_ _. Inr None),
     sv_partial_uuid = (\<lambda>_. 0), sv_random_token = Inr (replicate 32 0),
     sv_random_state = Inr (replicate 16 0), sv_random_verifier = Inr (replicate 32 0),
     sv_metrics = no_content 200\<rparr>"

definition sample_call :: request where
  "sample_call = \<lparr>qMethod = ''POST'', qCookie = [''session'' \<mapsto> ''token''], qQuery = (\<lambda>_. None),
     qURLParam = (\<lambda>_. []), qIfNoneMatch = [], qBody = [], qClaims = None\<rparr>"

definition sample_web :: web where
  "sample_web = conn.extend sample_conn \<lparr>w_writeFailures = 0\<rparr>"

lemma sample_session:
  "session_of (sv_jwt sample_server) ''key'' (sv_now sample_server) sample_call = Some (issued_claims 0 sample_claims)"
  by (simp add: session_of_def sample_server_def sample_call_def cookieName_def Verify_def sample_jwt_def
      Let_def accepts_at_def issued_claims_def tokenTTL_def NewNumericDate_def session_key_def SigningMethodHS256_def)

theorem access_control_witness:
  "\<exists>p. NewRouter sample_server Conference_delete sample_call sample_web = ((p, None), sample_web) \<and> rpStatus p = 403"
proof -
  have "sv_tm sample_server = Some ''key''" by (simp add: sample_server_def)
  moreover have "\<not> granted (needs Conference_delete)
      (session_of (sv_jwt sample_server) ''key'' (sv_now sample_server) sample_call)"
    unfolding sample_session by (simp add: issued_claims_def sample_claims_def)
  ultimately show ?thesis
    using access_control [of sample_server "''key''" Conference_delete sample_call sample_web]
    unfolding sample_session by auto
qed

subsection \<open>What every request keeps\<close>

text \<open>
  C2: Whatever is requested of the server, by whomever and with whatever outcome, failures of the
  database at any statement included: no transaction stays open, the database keeps every
  constraint of the schema, and the audit log keeps its entries, in order, and only grows.
\<close>

theorem requests_keep_schema_and_log:
  assumes "NewRouter sv rt r s = (q, s')" and "c_tx s = None" and "wf_db (sv_env sv) (c_com s)"
  shows "c_tx s' = None \<and> wf_db (sv_env sv) (c_com s')
    \<and> (\<exists>es. audit_log (c_com s') = audit_log (c_com s) @ es)"
  using h_evolvesD [OF wf_server.keeps_route [OF refl] assms(2,1)]
    h_evolvesD [OF append.keeps_route [OF refl] assms(2,1)] assms(3)
  by (auto simp: wf_step_def extends_log_def)

lemma sample_web_simps [simp]: "c_tx sample_web = None" "c_com sample_web = sample_db"
  by (simp_all add: sample_web_def sample_conn_def conn.defs)

lemma wf_db_uuid_parse: "wf_db (env\<lparr>e_uuid_parse := f\<rparr>) d = wf_db env d"
  by (simp add: wf_db_def conferences_ok_def acronym_year_def [abs_def])

theorem requests_keep_schema_and_log_witness:
  "\<exists>q s'. NewRouter sample_server Conference_create sample_call sample_web = (q, s')
    \<and> wf_db sample_env (c_com s')"
proof -
  obtain q s' where run: "NewRouter sample_server Conference_create sample_call sample_web = (q, s')"
    by (rule prod.exhaust)
  have "wf_db (sv_env sample_server) (c_com sample_web)"
    using sample_wf by (simp add: sample_server_def wf_db_uuid_parse)
  from requests_keep_schema_and_log [OF run _ this] run show ?thesis
    by (auto simp: sample_server_def wf_db_uuid_parse)
qed

end
