(* ===== verification/Http_Frames.thy ===== *)
theory Http_Frames
  imports Http_Facts
begin

text \<open>
  The handlers have the frame of the services they call: none of them touches the counter of
  failed audit writes, which belongs to the middleware \<open>For\<close> alone.
\<close>

definition h_frames :: "'m conn_scheme handler \<Rightarrow> bool" where
  "h_frames h \<longleftrightarrow> (\<forall>r. frames (h r))"

lemma frames_answer: "frames m \<Longrightarrow> frames (answer m good bad)"
  by (simp add: frames_def answer_def split: prod.splits sum.splits option.splits) (metis snd_conv)

lemma frames_answers: "frames (answers a)"
  by (simp add: frames_def answers_def)

lemma frames_with_actor: "(\<And>i. frames (f i)) \<Longrightarrow> frames (with_actor env r no f)"
  by (simp add: with_actor_def frames_answers split: sum.split)

subsection \<open>The services\<close>

lemma frames_services:
  "frames (Star env u i)" "frames (Unstar u i)" "frames (ListStarred env u)"
  "frames (Get_settings u)" "frames (Update_settings env u inp)"
  "frames (List_tokens url u)" "frames (Create_token url rnd u)" "frames (Delete_token u)" "frames (LookupToken tk)"
  "frames (BuildPublicFeed env)" "frames (BuildPersonalFeed env u)"
  unfolding Star_def star_in_tx_def Unstar_def unstar_in_tx_def ListStarred_def list_row_def materializeReminders_def
    Get_settings_def Update_settings_def settings_in_tx_def replan_starred_def Create_token_def token_in_tx_def
    List_tokens_def Delete_token_def LookupToken_def BuildPublicFeed_def BuildPersonalFeed_def Let_def
  by (intro frames_rules)+

lemmas frames_all = frames_answer frames_answers frames_with_actor frames_services frames_conferences
  frames_conference_reads frames_on_err frames_exec

subsection \<open>The handlers\<close>

lemma frames_handlers:
  "frames Server_GetHealth"
  "frames (Server_ListConferences env q)"
  "frames (Server_GetConference env i)"
  "frames (Server_CreateConference env r b)"
  "frames (Server_UpdateConference env r i b)"
  "frames (Server_DeleteConference i)"
  "frames (Server_ArchiveConference env i)"
  "frames (Server_UnarchiveConference env i)"
  "frames (Server_ListTags env)"
  "frames (Server_ListTracks env)"
  "frames (Server_StarConference env r i)"
  "frames (Server_UnstarConference env r i)"
  "frames (Server_ListMyStars env r)"
  "frames (Server_GetMySettings env r)"
  "frames (Server_UpdateMySettings env r st)"
  "frames (Server_GetPublicCalendar env e)"
  "frames (Server_ListMyCalendarTokens env url r)"
  "frames (Server_CreateCalendarToken env url rnd r)"
  "frames (Server_DeleteCalendarToken env r)"
  "frames (Server_ListAuditLog aq)"
  unfolding Server_GetHealth_def Server_ListConferences_def Server_GetConference_def
    Server_CreateConference_def Server_UpdateConference_def Server_DeleteConference_def
    Server_ArchiveConference_def Server_UnarchiveConference_def Server_ListTags_def
    Server_ListTracks_def Server_StarConference_def Server_UnstarConference_def Server_ListMyStars_def
    Server_GetMySettings_def Server_UpdateMySettings_def Server_GetPublicCalendar_def
    Server_ListMyCalendarTokens_def Server_CreateCalendarToken_def Server_DeleteCalendarToken_def
    Server_ListAuditLog_def Let_def
  by (intro frames_all)+

lemma frames_GetMe: "frames (Server_GetMe env r)"
  by (simp add: Server_GetMe_def frames_answers split: option.splits)

lemma frames_Import: "frames (Server_ImportConferences env decode r)"
proof -
  have run: "frames (\<lambda>s. case RunImport env es u True s of (n, s') \<Rightarrow> answers (f n) s')" for es u and f :: "counts \<Rightarrow> _"
    by (simp add: frames_def answers_def split_def frames_snd [OF frames_RunImport])
  show ?thesis
    unfolding Server_ImportConferences_def
    by (intro frames_with_actor) (simp add: frames_answers run split: sum.splits)
qed

lemma frames_personal: "frames (Server_GetPersonalCalendar env token e)"
  unfolding frames_def
proof
  fix s
  obtain a s1 where look: "LookupToken token s = (a, s1)" by force
  have 1: "outside s1 = outside s" by (rule framesD [OF frames_services(9) look])
  show "outside (snd (Server_GetPersonalCalendar env token e s)) = outside s"
    using look 1
    by (simp add: Server_GetPersonalCalendar_def answers_def frames_snd [OF frames_answer [OF frames_services(11)]]
        split: sum.split)
qed

lemma outside_Callback: "outside (snd (Callback env h now r s)) = outside s"
proof -
  have x: "outside s' = outside s1" if "exec q st s1 = (a, s')" for q and st :: "'b sql" and s1 s' a
    by (rule framesD [OF frames_exec that])
  have sess: "outside (snd (callback_session env h now r t s)) = outside s" for t and s :: "'a conn_scheme"
    by (auto simp: callback_session_def split: prod.splits sum.splits dest!: x)
  have "outside s1 = outside s" if "callback_session env h now r t s = (p, s1)" for t p s1
    using sess [of t s] that by simp
  then show ?thesis by (auto simp: Callback_def split: sum.splits prod.splits)
qed

subsection \<open>The router\<close>

lemma h_frames_respond: "(\<And>r. frames (ans r)) \<Longrightarrow> h_frames (\<lambda>r. respond sv (visit r) (ans r) r)"
  by (simp add: h_frames_def frames_def respond_def split: prod.splits sum.splits) (metis snd_conv)

lemma h_frames_strict:
  assumes "\<And>r. h r = respond sv (visit r) (ans r) r" and "\<And>r. frames (ans r)"
  shows "h_frames h"
  using h_frames_respond [OF assms(2)] assms(1) by (simp add: h_frames_def)

lemma h_frames_dispatches:
  assumes "dispatches h k" "\<And>b. h_frames (k b)"
  shows "h_frames h"
  unfolding h_frames_def frames_def
proof (intro allI)
  fix r c
  obtain q c' where "h r c = (q, c')" by (rule prod.exhaust)
  from assms(1) this show "outside (snd (h r c)) = outside c"
  proof (cases rule: dispatchesE)
    case (passed b)
    with assms(2) [of b] \<open>h r c = (q, c')\<close> show ?thesis
      unfolding h_frames_def frames_def by (metis snd_conv)
  qed (use \<open>h r c = (q, c')\<close> in simp)
qed

lemma h_frames_middleware:
  "h_frames nxt \<Longrightarrow> h_frames (RequireToken J secret now nxt)"
  "h_frames nxt \<Longrightarrow> h_frames (RequireMember nxt)"
  "h_frames nxt \<Longrightarrow> h_frames (RequireAdmin nxt)"
  "h_frames (writes p)"
  by (auto simp: h_frames_def frames_def RequireToken_session RequireMember_def RequireAdmin_def writes_def
      split: option.splits)

lemma h_frames_groups:
  "h_frames nxt \<Longrightarrow> h_frames (token_group sv nxt)"
  "h_frames nxt \<Longrightarrow> h_frames (member_group sv nxt)"
  "h_frames nxt \<Longrightarrow> h_frames (admin_group sv nxt)"
  by (simp_all add: token_group_def member_group_def admin_group_def h_frames_middleware split: option.splits)

lemma h_frames_oidc: "(\<And>h r s. outside (snd (f h r s)) = outside s) \<Longrightarrow> h_frames (oidc_route sv f)"
  by (auto simp: h_frames_def frames_def oidc_route_def writes_def split: option.splits prod.splits) (metis snd_conv)

lemmas h_frames_bind = h_frames_dispatches [OF dispatches_rules(1)] h_frames_dispatches [OF dispatches_rules(2)]
  h_frames_dispatches [OF dispatches_query] h_frames_dispatches [OF dispatches_IfNoneMatch]

lemmas all_frames = frames_handlers frames_GetMe frames_Import frames_personal

lemma h_frames_stricts:
  "h_frames (strict_ListAuditLog sv aq)" "h_frames (strict_ListConferences sv q)"
  "h_frames (strict_GetConference sv i)" "h_frames (strict_DeleteConference sv i)"
  "h_frames (strict_ArchiveConference sv i)" "h_frames (strict_UnstarConference sv i)"
  "h_frames (strict_StarConference sv i)" "h_frames (strict_UnarchiveConference sv i)"
  "h_frames (strict_ImportConferences sv)" "h_frames (strict_GetMe sv)"
  "h_frames (strict_DeleteCalendarToken sv)" "h_frames (strict_ListMyCalendarTokens sv)"
  "h_frames (strict_CreateCalendarToken sv)" "h_frames (strict_GetMySettings sv)"
  "h_frames (strict_ListMyStars sv)" "h_frames (strict_ListTags sv)" "h_frames (strict_ListTracks sv)"
  "h_frames (strict_GetPublicCalendar sv e)" "h_frames (strict_GetPersonalCalendar sv token e)"
  "h_frames (strict_GetHealth sv)"
  by (rule h_frames_strict, rule strict_defs, rule all_frames)+

lemma h_frames_stricts_body:
  "h_frames (strict_CreateConference sv)" "h_frames (strict_UpdateConference sv i)"
  "h_frames (strict_UpdateMySettings sv)"
  unfolding strict_defs by (intro h_frames_bind(1), rule h_frames_strict, rule refl, rule all_frames)+

lemma h_frames_siw:
  "h_frames (siw_ListAuditLog sv)" "h_frames (siw_ListConferences sv)" "h_frames (siw_CreateConference sv)"
  "h_frames (siw_GetConference sv)" "h_frames (siw_UpdateConference sv)" "h_frames (siw_ArchiveConference sv)"
  "h_frames (siw_UnstarConference sv)" "h_frames (siw_StarConference sv)" "h_frames (siw_UnarchiveConference sv)"
  "h_frames (siw_ImportConferences sv)" "h_frames (siw_DeleteCalendarToken sv)"
  "h_frames (siw_ListMyCalendarTokens sv)" "h_frames (siw_CreateCalendarToken sv)"
  "h_frames (siw_GetPublicCalendar sv)" "h_frames (siw_GetPersonalCalendar sv)" "h_frames (siw_DeleteConference sv)"
  unfolding siw_ListAuditLog_def siw_ListConferences_def siw_CreateConference_def siw_DeleteConference_def
    siw_GetConference_def siw_UpdateConference_def siw_ArchiveConference_def
    siw_UnstarConference_def siw_StarConference_def siw_UnarchiveConference_def
    siw_ImportConferences_def siw_DeleteCalendarToken_def siw_ListMyCalendarTokens_def
    siw_CreateCalendarToken_def siw_GetPublicCalendar_def siw_GetPersonalCalendar_def
  by (intro h_frames_bind h_frames_stricts h_frames_stricts_body)+

lemmas h_frames_all = h_frames_groups h_frames_middleware(4) h_frames_stricts h_frames_stricts_body h_frames_siw

end
