(* ===== verification/Audit_Facts.thy ===== *)
theory Audit_Facts
  imports Http_Replies Http_Frames
begin

text \<open>
  When the audit log grows. The services do not touch what the web state adds to the connection,
  so the counter of failed writes belongs to \<open>For\<close> alone; with the contract that a success is
  marked, every success of an audited route writes one entry or counts one failure.
\<close>

lemma writeFailures_more: "conn.more s' = conn.more s \<Longrightarrow> w_writeFailures s' = w_writeFailures s"
  for s s' :: "'m web_scheme"
  by (cases s, cases s') simp

subsection \<open>One entry for each success\<close>

fun audited_as :: "route \<Rightarrow> string option" where
  "audited_as Conference_create = Some ''create''"
| "audited_as Conference_update = Some ''update''"
| "audited_as Conference_archive = Some ''archive''"
| "audited_as Conference_unarchive = Some ''unarchive''"
| "audited_as Conference_delete = Some ''delete''"
| "audited_as _ = None"

lemma InsertAuditEntry_effect:
  assumes "InsertAuditEntry a x d = Inr (u, d')"
  shows "\<exists>e. audit_log d' = audit_log d @ [e] \<and> aAction e = iaAction a \<and> aEntityType e = iaEntityType a
    \<and> aEntityID e = iaEntityID a \<and> aActorUserID e = iaActorUserID a
    \<and> aActorDisplayName e = iaActorDisplayName a \<and> aActorOidcSubject e = iaActorOidcSubject a"
  using assms by (auto simp: InsertAuditEntry_def with_texts_def split: if_splits)

text \<open>What \<open>For\<close> does around a handler that satisfies the contract and keeps the log.\<close>

definition entry_of :: "server \<Rightarrow> string \<Rightarrow> SessionClaims \<Rightarrow> reply \<Rightarrow> audit_entry \<Rightarrow> bool" where
  "entry_of sv action c p e \<longleftrightarrow> aAction e = action \<and> aEntityType e = ''conference''
     \<and> aActorUserID e = audit_actor (sv_env sv) (sv_partial_uuid sv) c
     \<and> aActorDisplayName e = scName c \<and> aActorOidcSubject e = scOIDCSub c
     \<and> (\<forall>conf. rpBody p = ConferenceBody conf \<longrightarrow> aEntityID e = apId conf)"

lemma audit_write:
  assumes "exec Pool (InsertAuditEntry (audit_params (sv_env sv) (sv_partial_uuid sv) ''conference'' action c i)) s = (b, s')"
    and "\<And>conf. rpBody p = ConferenceBody conf \<Longrightarrow> apId conf = i"
  shows "case b of Inl _ \<Rightarrow> c_com s' = c_com s
    | Inr _ \<Rightarrow> (\<exists>e. audit_log (c_com s') = audit_log (c_com s) @ [e] \<and> entry_of sv action c p e)"
proof (cases b)
  case (Inl e)
  then show ?thesis using assms(1) by (auto simp: exec_def exec_pool_def Let_def split: option.splits sum.splits)
next
  case (Inr u)
  from exec_Pool_InrE [OF assms(1) [unfolded Inr]] obtain d where
    "InsertAuditEntry (audit_params (sv_env sv) (sv_partial_uuid sv) ''conference'' action c i) (ctx_of s) (c_com s) = Inr (u, d)"
    and s': "s' = s\<lparr>c_stmts := Suc (c_stmts s), c_com := d\<rparr>" by blast
  from InsertAuditEntry_effect [OF this(1)] s' assms(2) Inr show ?thesis
    by (auto simp: entry_of_def audit_params_def)
qed

lemma For_audits:
  fixes s :: "'m web_scheme"
  assumes sat: "h_sat marked_success h" and keeps: "h_evolves keeps_log h" and frame: "h_frames h"
    and s: "c_tx s = None" and claims: "qClaims r = Some c"
    and run: "For (sv_env sv) (sv_partial_uuid sv) ''conference'' action h r s = ((p, m), s')"
  shows "if success p
    then (\<exists>e. audit_log (c_com s') = audit_log (c_com s) @ [e] \<and> entry_of sv action c p e)
           \<and> w_writeFailures s' = w_writeFailures s
         \<or> audit_log (c_com s') = audit_log (c_com s) \<and> w_writeFailures s' = w_writeFailures s + 1
    else audit_log (c_com s') = audit_log (c_com s) \<and> w_writeFailures s' = w_writeFailures s"
proof -
  obtain p1 k s1 where 1: "h r s = ((p1, k), s1)" by (metis surj_pair)
  have p: "p1 = p" using arg_cong [OF run, of "\<lambda>x. fst (fst x)"] 1 by (simp add: For_reply)
  have log: "audit_log (c_com s1) = audit_log (c_com s)"
    using h_evolvesD [OF keeps s 1] by (simp add: keeps_log_def)
  have more: "conn.more s1 = conn.more s"
    by (rule frames_more [where m = "h r"]) (use frame 1 in \<open>simp_all add: h_frames_def\<close>)
  note fails = writeFailures_more [OF more]
  have mk: "marked_success s p k s1" using h_satD [OF sat s 1] p by simp
  then have st: "status200 p = rpStatus p" by (simp add: marked_success_def status200_def)
  show ?thesis
  proof (cases "success p")
    case False
    then have "s' = s1" using run 1 p st by (auto simp: For_def success_def Let_def)
    then show ?thesis using False log fails by simp
  next
    case True
    then obtain i where i: "k = Some i" "\<And>conf. rpBody p = ConferenceBody conf \<Longrightarrow> apId conf = i"
      using mk by (auto simp: marked_success_def)
    let ?a = "audit_params (sv_env sv) (sv_partial_uuid sv) ''conference'' action c i"
    obtain b s2 where ins: "exec Pool (InsertAuditEntry ?a) s1 = (b, s2)" by force
    have more2: "conn.more s2 = conn.more s1" by (rule frames_more [OF frames_exec ins])
    have run': "s' = (case b of Inl e \<Rightarrow> Inc_writeFailures s2 | Inr _ \<Rightarrow> s2)"
      using run 1 p st i(1) True ins claims
      by (auto simp: For_def success_def Let_def ClaimsFromContext_def split: sum.splits)
    show ?thesis
      using audit_write [OF ins i(2)] True run' log fails writeFailures_more [OF more2]
      by (cases b) (auto simp: Inc_writeFailures_def)
  qed
qed

text \<open>An audited route, with auditing on.\<close>

lemma audited_route:
  fixes s :: "'m web_scheme"
  assumes run: "NewRouter sv rt r s = ((p, m), s')" and s: "c_tx s = None"
    and tm: "sv_tm sv = Some secret" and on: "sv_audited sv" and rt: "audited_as rt = Some action"
  shows "if success p
    then \<exists>c. session_of (sv_jwt sv) secret (sv_now sv) r = Some c \<and>
         ((\<exists>e. audit_log (c_com s') = audit_log (c_com s) @ [e] \<and> entry_of sv action c p e)
            \<and> w_writeFailures s' = w_writeFailures s
          \<or> audit_log (c_com s') = audit_log (c_com s) \<and> w_writeFailures s' = w_writeFailures s + 1)
    else audit_log (c_com s') = audit_log (c_com s) \<and> w_writeFailures s' = w_writeFailures s"
proof (cases "granted (needs rt) (session_of (sv_jwt sv) secret (sv_now sv) r)")
  case False
  obtain p' where "NewRouter sv rt r s = ((p', None), s)" "rpStatus p' \<in> {401, 403}"
    using refuse [OF tm False, of s] by auto
  then show ?thesis using run by (auto simp: success_def)
next
  case True
  obtain c where c: "session_of (sv_jwt sv) secret (sv_now sv) r = Some c"
    using True rt by (cases rt) auto
  let ?r = "r\<lparr>qClaims := Some c\<rparr>"
  have claims: "qClaims ?r = Some c" by simp
  have "\<exists>h :: 'm web_scheme handler. h_sat marked_success h \<and> h_evolves keeps_log h \<and> h_frames h
      \<and> NewRouter sv rt r s = For (sv_env sv) (sv_partial_uuid sv) ''conference'' action h ?r s"
  proof -
    have inner: "RequireMember nxt ?r s = nxt ?r s" if "''member'' \<in> set (scRoles c)" for nxt :: "'m web_scheme handler"
      using that by (simp add: RequireMember_def ClaimsFromContext_def roles_iff)
    have adm: "RequireAdmin nxt ?r s = nxt ?r s" if "''admin'' \<in> set (scRoles c)" for nxt :: "'m web_scheme handler"
      using that by (simp add: RequireAdmin_def ClaimsFromContext_def roles_iff)
    have pass: "token_group sv nxt r s = nxt ?r s" for nxt :: "'m web_scheme handler"
      by (rule token_group_passes [OF tm c])
    note intro = exI conjI marks_handlers log.keeps_siw [OF refl] log.keeps_siw_Delete h_frames_siw
    from True rt c on show ?thesis
      by (cases rt; simp add: member_group_def admin_group_def pass inner adm auditMiddleware_def;
          blast intro: intro)
  qed
  then obtain h :: "'m web_scheme handler" where h: "h_sat marked_success h" "h_evolves keeps_log h" "h_frames h"
      "NewRouter sv rt r s = For (sv_env sv) (sv_partial_uuid sv) ''conference'' action h ?r s" by blast
  show ?thesis
    using For_audits [OF h(1-3) s claims run [unfolded h(4)]] c by (cases "success p") auto
qed

subsection \<open>Routes that are not audited\<close>

text \<open>A route that is not audited, and any route without the audit log, writes neither.\<close>

definition quiet :: "'m web_scheme handler \<Rightarrow> bool" where
  "quiet h \<longleftrightarrow> h_evolves keeps_log h \<and> h_frames h"

lemma quiet_siw:
  "quiet (siw_ListAuditLog sv)" "quiet (siw_ListConferences sv)" "quiet (siw_CreateConference sv)"
  "quiet (siw_GetConference sv)" "quiet (siw_UpdateConference sv)" "quiet (siw_ArchiveConference sv)"
  "quiet (siw_UnstarConference sv)" "quiet (siw_StarConference sv)" "quiet (siw_UnarchiveConference sv)"
  "quiet (siw_ImportConferences sv)" "quiet (siw_DeleteCalendarToken sv)"
  "quiet (siw_ListMyCalendarTokens sv)" "quiet (siw_CreateCalendarToken sv)"
  "quiet (siw_GetPublicCalendar sv)" "quiet (siw_GetPersonalCalendar sv)" "quiet (siw_DeleteConference sv)"
  by (simp_all only: quiet_def h_frames_siw log.keeps_siw [OF refl] log.keeps_siw_Delete simp_thms)

lemma quiet_strict:
  "quiet (strict_GetHealth sv)" "quiet (strict_GetMe sv)" "quiet (strict_ListTags sv)" "quiet (strict_ListTracks sv)"
  "quiet (strict_ListMyStars sv)" "quiet (strict_GetMySettings sv)" "quiet (strict_UpdateMySettings sv)"
  by (simp_all only: quiet_def h_frames_stricts h_frames_stricts_body log.strict [OF refl] simp_thms)

lemma quiet_groups:
  "quiet (writes p)" "quiet nxt \<Longrightarrow> quiet (token_group sv nxt)"
  "quiet nxt \<Longrightarrow> quiet (member_group sv nxt)" "quiet nxt \<Longrightarrow> quiet (admin_group sv nxt)"
  by (simp_all add: quiet_def h_frames_all log.conf.h_rules log.conf.h_writes)

lemma quiet_oidc:
  "quiet (NewRouter sv Auth_login)" "quiet (NewRouter sv Auth_logout)" "quiet (NewRouter sv Auth_callback)"
proof -
  note r = log.conf.R_refl
  show "quiet (NewRouter sv Auth_login)" "quiet (NewRouter sv Auth_logout)"
    by (auto simp: quiet_def r intro!: log.conf.h_oidc_route h_frames_oidc)
  show "quiet (NewRouter sv Auth_callback)"
    by (auto simp: quiet_def outside_Callback intro!: log.conf.h_oidc_route h_frames_oidc log.keeps_Callback)
qed

lemma quiet_route:
  assumes "(if sv_audited sv then audited_as rt else None) = None"
  shows "quiet (NewRouter sv rt)"
  using assms quiet_oidc [of sv]
  by (cases rt) (simp_all add: auditMiddleware_def quiet_siw quiet_strict quiet_groups split: if_splits)


lemma sample_starts: "audit_log sample_db = []" "w_writeFailures sample_web = 0"
  by (simp_all add: sample_web_def sample_db_def conn.defs)


end
