(* ===== verification/Templates.thy ===== *)
theory Templates
  imports Go_Time
begin

text \<open>
  Go's \<^verbatim>\<open>text/template\<close> and \<^verbatim>\<open>html/template\<close> as far as the templates of
  \<^verbatim>\<open>server/internal/mail\<close> use them: a template is cut into text and actions, parsed into a tree,
  for HTML rewritten so that every value that is printed is escaped, and run on a value. The
  subset has fields of the current value, functions of one field, \<^verbatim>\<open>if\<close>, \<^verbatim>\<open>range\<close>, \<^verbatim>\<open>else\<close>
  and the trim markers; whatever else Go accepts is an error here, so a template that is shown to
  render stays inside the subset.
\<close>

subsection \<open>Values and trees\<close>

text \<open>A time as the template shows it carries the zone it is in.\<close>

type_synonym zoned = "location \<times> instant"

datatype tvalue =
    VStr string
  | VInt int
  | VTime zoned
  | VList "tvalue list"
  | VStruct "(string \<times> tvalue) list"

datatype texpr =
    Field string
  | Call string string
  | Escaped texpr

datatype tnode =
    TextNode string
  | ActionNode texpr
  | IfNode texpr "tnode list" "tnode list"
  | RangeNode texpr "tnode list" "tnode list"

datatype titem =
    IText string
  | IAction "string list"

subsection \<open>Cutting a template into items\<close>

text \<open>The text before and after the first occurrence of a delimiter.\<close>

fun cut :: "string \<Rightarrow> string \<Rightarrow> (string \<times> string) option" where
  "cut d [] = None"
| "cut d (c # s) =
     (if take (length d) (c # s) = d then Some ([], drop (length d) (c # s))
      else (case cut d s of None \<Rightarrow> None | Some (a, b) \<Rightarrow> Some (c # a, b)))"

lemma cut_shorter: "cut d s = Some (a, b) \<Longrightarrow> d \<noteq> [] \<Longrightarrow> length b < length s"
proof (induction d s arbitrary: a rule: cut.induct)
  case (2 d c s)
  from 2(3) obtain x xs where "d = x # xs" by (cases d) auto
  with 2 show ?case by (auto split: if_splits option.splits prod.splits simp: less_Suc_eq)
qed simp

definition template_space :: "char \<Rightarrow> bool" where
  "template_space c \<longleftrightarrow> c = CHR '' '' \<or> c = CHR 0x09 \<or> c = CHR 0x0D \<or> c = CHR 0x0A"

definition trim_left :: "string \<Rightarrow> string" where
  "trim_left s = dropWhile template_space s"

definition trim_right :: "string \<Rightarrow> string" where
  "trim_right s = rev (dropWhile template_space (rev s))"

fun words_from :: "string \<Rightarrow> string \<Rightarrow> string list" where
  "words_from w [] = (if w = [] then [] else [w])"
| "words_from w (c # s) =
     (if template_space c then (if w = [] then words_from [] s else w # words_from [] s)
      else words_from (w @ [c]) s)"

definition left_marked :: "string \<Rightarrow> bool" where
  "left_marked a \<longleftrightarrow> (case a of x # y # _ \<Rightarrow> x = CHR ''-'' \<and> template_space y | _ \<Rightarrow> False)"

definition right_marked :: "string \<Rightarrow> bool" where
  "right_marked a \<longleftrightarrow> (case rev a of x # y # _ \<Rightarrow> x = CHR ''-'' \<and> template_space y | _ \<Rightarrow> False)"

definition action_words :: "string \<Rightarrow> string list" where
  "action_words a =
     (let a = (if left_marked a then drop 1 a else a) in
      words_from [] (if right_marked a then butlast a else a))"

definition text_item :: "string \<Rightarrow> titem list" where
  "text_item t = (if t = [] then [] else [IText t])"

lemma trim_left_length: "length (trim_left s) \<le> length s"
  by (simp add: trim_left_def length_dropWhile_le)

function lex :: "string \<Rightarrow> string + titem list" where
  "lex s =
     (case cut ''{{'' s of
        None \<Rightarrow> Inr (text_item s)
      | Some (t, r) \<Rightarrow>
          (case cut ''}}'' r of
             None \<Rightarrow> Inl ''unclosed action''
           | Some (a, r') \<Rightarrow>
               (case lex (if right_marked a then trim_left r' else r') of
                  Inl e \<Rightarrow> Inl e
                | Inr is \<Rightarrow> Inr (text_item (if left_marked a then trim_right t else t)
                    @ IAction (action_words a) # is))))"
  by pat_completeness auto
termination
  by (relation "measure length")
    (auto dest!: cut_shorter intro: le_less_trans [OF trim_left_length])

subsection \<open>Parsing\<close>

definition is_field :: "string \<Rightarrow> bool" where
  "is_field w \<longleftrightarrow> length w \<ge> 2 \<and> hd w = CHR ''.'' \<and> CHR ''.'' \<notin> set (tl w)"

text \<open>The names a template may call are known when it is parsed.\<close>

definition parse_expr :: "string list \<Rightarrow> string list \<Rightarrow> string + texpr" where
  "parse_expr funcs ws =
     (case ws of
        [w] \<Rightarrow> if is_field w then Inr (Field (tl w)) else Inl ''unexpected operand''
      | [f, w] \<Rightarrow>
          if f \<notin> set funcs then Inl (''function '' @ f @ '' not defined'')
          else if is_field w then Inr (Call f (tl w)) else Inl ''unexpected operand''
      | _ \<Rightarrow> Inl ''unexpected command'')"

text \<open>
  The open blocks, innermost first: the expression, for an else branch the nodes before it, and
  the nodes read before the block, last first.
\<close>

datatype frame =
    FIf texpr "tnode list"
  | FIfElse texpr "tnode list" "tnode list"
  | FRange texpr "tnode list"
  | FRangeElse texpr "tnode list" "tnode list"

definition close_block :: "frame \<Rightarrow> tnode list \<Rightarrow> tnode list" where
  "close_block f ns =
     (case f of
        FIf e out \<Rightarrow> IfNode e ns [] # out
      | FIfElse e yes out \<Rightarrow> IfNode e yes ns # out
      | FRange e out \<Rightarrow> RangeNode e ns [] # out
      | FRangeElse e yes out \<Rightarrow> RangeNode e yes ns # out)"

definition else_block :: "frame \<Rightarrow> tnode list \<Rightarrow> frame option" where
  "else_block f ns =
     (case f of
        FIf e out \<Rightarrow> Some (FIfElse e ns out)
      | FRange e out \<Rightarrow> Some (FRangeElse e ns out)
      | _ \<Rightarrow> None)"

fun parse_items :: "string list \<Rightarrow> frame list \<Rightarrow> tnode list \<Rightarrow> titem list \<Rightarrow> string + tnode list" where
  "parse_items funcs fs acc [] = (if fs = [] then Inr (rev acc) else Inl ''unexpected EOF'')"
| "parse_items funcs fs acc (IText t # is) = parse_items funcs fs (TextNode t # acc) is"
| "parse_items funcs fs acc (IAction ws # is) =
     (if ws = [''end''] then
        (case fs of
           [] \<Rightarrow> Inl ''unexpected {{end}}''
         | f # fs' \<Rightarrow> parse_items funcs fs' (close_block f (rev acc)) is)
      else if ws = [''else''] then
        (case fs of
           [] \<Rightarrow> Inl ''unexpected {{else}}''
         | f # fs' \<Rightarrow>
             (case else_block f (rev acc) of
                None \<Rightarrow> Inl ''unexpected {{else}}''
              | Some f' \<Rightarrow> parse_items funcs (f' # fs') [] is))
      else if take 1 ws = [''if''] then
        (case parse_expr funcs (drop 1 ws) of
           Inl e \<Rightarrow> Inl e
         | Inr x \<Rightarrow> parse_items funcs (FIf x acc # fs) [] is)
      else if take 1 ws = [''range''] then
        (case parse_expr funcs (drop 1 ws) of
           Inl e \<Rightarrow> Inl e
         | Inr x \<Rightarrow> parse_items funcs (FRange x acc # fs) [] is)
      else
        (case parse_expr funcs ws of
           Inl e \<Rightarrow> Inl e
         | Inr x \<Rightarrow> parse_items funcs fs (ActionNode x # acc) is))"

definition parse_template :: "string list \<Rightarrow> string \<Rightarrow> string + tnode list" where
  "parse_template funcs s = (case lex s of Inl e \<Rightarrow> Inl e | Inr is \<Rightarrow> parse_items funcs [] [] is)"

subsection \<open>Running\<close>

text \<open>The escaping of a value in the text of an HTML template.\<close>

definition html_char :: "char \<Rightarrow> string" where
  "html_char c =
     (if c = CHR 0x00 then [CHR 0xEF, CHR 0xBF, CHR 0xBD]
      else if c = CHR 0x22 then ''&#34;''
      else if c = CHR ''&'' then ''&amp;''
      else if c = CHR 0x27 then ''&#39;''
      else if c = CHR ''+'' then ''&#43;''
      else if c = CHR ''<'' then ''&lt;''
      else if c = CHR ''>'' then ''&gt;''
      else [c])"

definition html_escape :: "string \<Rightarrow> string" where
  "html_escape s = concat (map html_char s)"

type_synonym tfuncs = "(string \<times> (tvalue \<Rightarrow> string + tvalue)) list"

definition get_field :: "tvalue \<Rightarrow> string \<Rightarrow> string + tvalue" where
  "get_field v f =
     (case v of
        VStruct fs \<Rightarrow> (case map_of fs f of None \<Rightarrow> Inl (''can'' @ [CHR 0x27] @ ''t evaluate field '' @ f) | Some x \<Rightarrow> Inr x)
      | _ \<Rightarrow> Inl (''can'' @ [CHR 0x27] @ ''t evaluate field '' @ f))"

definition print_value :: "tvalue \<Rightarrow> string + string" where
  "print_value v = (case v of VStr s \<Rightarrow> Inr s | VInt i \<Rightarrow> Inr (Itoa i) | _ \<Rightarrow> Inl ''value not printed'')"

fun eval :: "tfuncs \<Rightarrow> tvalue \<Rightarrow> texpr \<Rightarrow> string + tvalue" where
  "eval fm v (Field f) = get_field v f"
| "eval fm v (Call g f) =
     (case get_field v f of
        Inl e \<Rightarrow> Inl e
      | Inr x \<Rightarrow> (case map_of fm g of None \<Rightarrow> Inl (''function '' @ g @ '' not defined'') | Some h \<Rightarrow> h x))"
| "eval fm v (Escaped x) =
     (case eval fm v x of
        Inl e \<Rightarrow> Inl e
      | Inr y \<Rightarrow> (case print_value y of Inl e \<Rightarrow> Inl e | Inr s \<Rightarrow> Inr (VStr (html_escape s))))"

definition truth :: "tvalue \<Rightarrow> bool" where
  "truth v = (case v of VStr s \<Rightarrow> s \<noteq> [] | VInt i \<Rightarrow> i \<noteq> 0 | VList vs \<Rightarrow> vs \<noteq> [] | _ \<Rightarrow> True)"

definition append_results :: "string + string \<Rightarrow> string + string \<Rightarrow> string + string" where
  "append_results a b =
     (case a of Inl e \<Rightarrow> Inl e | Inr s \<Rightarrow> (case b of Inl e \<Rightarrow> Inl e | Inr t \<Rightarrow> Inr (s @ t)))"

fun run :: "tfuncs \<Rightarrow> tvalue \<Rightarrow> tnode list \<Rightarrow> string + string" where
  "run fm v [] = Inr []"
| "run fm v (TextNode t # ns) = append_results (Inr t) (run fm v ns)"
| "run fm v (ActionNode x # ns) =
     append_results (case eval fm v x of Inl e \<Rightarrow> Inl e | Inr y \<Rightarrow> print_value y) (run fm v ns)"
| "run fm v (IfNode x yes no # ns) =
     append_results
       (case eval fm v x of Inl e \<Rightarrow> Inl e | Inr y \<Rightarrow> (if truth y then run fm v yes else run fm v no))
       (run fm v ns)"
| "run fm v (RangeNode x yes no # ns) =
     append_results
       (case eval fm v x of
          Inl e \<Rightarrow> Inl e
        | Inr (VList vs) \<Rightarrow>
            (if vs = [] then run fm v no else foldr append_results (map (\<lambda>y. run fm y yes) vs) (Inr []))
        | Inr _ \<Rightarrow> Inl ''range can not iterate over the value'')
       (run fm v ns)"

lemma append_results_simps [simp]:
  "append_results (Inl e) b = Inl e" "append_results (Inr s) (Inl e) = Inl e"
  "append_results (Inr s) (Inr t) = Inr (s @ t)"
  by (simp_all add: append_results_def)

lemma run_append: "run fm v (ms @ ns) = append_results (run fm v ms) (run fm v ns)"
proof (induction ms)
  case (Cons n ms)
  have assoc: "append_results (append_results a b) c = append_results a (append_results b c)" for a b c
    by (simp add: append_results_def split: sum.splits)
  show ?case using Cons by (cases n) (simp_all add: assoc)
qed (simp add: append_results_def split: sum.splits)

text \<open>A range over a list, when its body renders on every element.\<close>

lemma run_each:
  assumes "\<And>y. y \<in> set ys \<Longrightarrow> run fm (g y) ns = Inr (h y)"
  shows "foldr append_results (map (\<lambda>y. run fm y ns) (map g ys)) (Inr []) = Inr (concat (map h ys))"
  using assms by (induction ys) auto

subsection \<open>Escaping an HTML template\<close>

text \<open>
  Where the text of a template leaves the parser of HTML: between tags, in a tag, or in a quoted
  value of an attribute. Comments and the elements whose content is no text are refused.
\<close>

datatype hstate = HText | HTag | HValue char

definition letter :: "char \<Rightarrow> bool" where
  "letter c \<longleftrightarrow> (let n = (of_char c :: nat) in 97 \<le> n \<and> n \<le> 122 \<or> 65 \<le> n \<and> n \<le> 90)"

definition lower :: "char \<Rightarrow> char" where
  "lower c = (let n = (of_char c :: nat) in if 65 \<le> n \<and> n \<le> 90 then char_of (n + 32) else c)"

definition special_element :: "string \<Rightarrow> bool" where
  "special_element s \<longleftrightarrow> map lower (takeWhile letter s) \<in> set [''script'', ''style'', ''textarea'', ''title'']"

definition doctype :: string where
  "doctype = ''<!doctype''"

fun scan_html :: "hstate \<Rightarrow> string \<Rightarrow> (string \<times> hstate) option" where
  "scan_html st [] = Some ([], st)"
| "scan_html HText (c # s) =
     (if c = CHR ''<'' then
        if s \<noteq> [] \<and> letter (hd s) then
          (if special_element s then None
           else map_option (apfst (Cons c)) (scan_html HTag s))
        else if take 1 s = ''/'' \<and> drop 1 s \<noteq> [] \<and> letter (hd (drop 1 s)) then
          map_option (apfst (Cons c)) (scan_html HTag s)
        else if take 3 s = ''!--'' then None
        else if map lower (take (length doctype) (c # s)) = doctype then
          map_option (apfst (Cons c)) (scan_html HText s)
        else map_option (apfst ((@) ''&lt;'')) (scan_html HText s)
      else map_option (apfst (Cons c)) (scan_html HText s))"
| "scan_html HTag (c # s) =
     (if c = CHR ''>'' then map_option (apfst (Cons c)) (scan_html HText s)
      else if c = CHR 0x22 \<or> c = CHR 0x27 then map_option (apfst (Cons c)) (scan_html (HValue c) s)
      else map_option (apfst (Cons c)) (scan_html HTag s))"
| "scan_html (HValue q) (c # s) =
     map_option (apfst (Cons c)) (scan_html (if c = q then HTag else HValue q) s)"

text \<open>
  Every printed value must stand between tags; the branches of a block must leave the parser in
  the same place, and the body of a range where it began.
\<close>

fun escape_nodes :: "hstate \<Rightarrow> tnode list \<Rightarrow> (tnode list \<times> hstate) option" where
  "escape_nodes st [] = Some ([], st)"
| "escape_nodes st (TextNode t # ns) =
     (case scan_html st t of
        None \<Rightarrow> None
      | Some (t', st') \<Rightarrow> map_option (apfst (Cons (TextNode t'))) (escape_nodes st' ns))"
| "escape_nodes st (ActionNode x # ns) =
     (if st = HText then map_option (apfst (Cons (ActionNode (Escaped x)))) (escape_nodes st ns) else None)"
| "escape_nodes st (IfNode x yes no # ns) =
     (case escape_nodes st yes of
        None \<Rightarrow> None
      | Some (yes', st1) \<Rightarrow>
          (case escape_nodes st no of
             None \<Rightarrow> None
           | Some (no', st2) \<Rightarrow>
               (if st1 = st2 then map_option (apfst (Cons (IfNode x yes' no'))) (escape_nodes st1 ns) else None)))"
| "escape_nodes st (RangeNode x yes no # ns) =
     (case escape_nodes st yes of
        None \<Rightarrow> None
      | Some (yes', st1) \<Rightarrow>
          (case escape_nodes st no of
             None \<Rightarrow> None
           | Some (no', st2) \<Rightarrow>
               (if st1 = st \<and> st2 = st then map_option (apfst (Cons (RangeNode x yes' no'))) (escape_nodes st ns)
                else None)))"

definition escape_template :: "tnode list \<Rightarrow> string + tnode list" where
  "escape_template ns =
     (case escape_nodes HText ns of
        Some (ns', HText) \<Rightarrow> Inr ns'
      | _ \<Rightarrow> Inl ''ends in a non-text context'')"

end
