(* ===== verification/Mail.thy ===== *)
theory Mail
  imports Templates
begin

text \<open>
  Mail (\<^verbatim>\<open>server/internal/mail\<close>): the message, the interface of a mailer with its two
  implementations, the in-memory one and the SMTP one, and the four templates, given by the text
  their evaluation yields. The network is a parameter: how the server answers each command of the
  session. The locale \<open>mailer\<close> is the interface the scheduler relies on, at most one delivery per
  call and exactly one when the call succeeds. The lemmas show that both mailers keep it, that the
  HTML bodies hold no markup but the templates' own, and what the header of a message reads as.
\<close>

subsection \<open>Messages and mailers\<close>

record Message =
  mTo :: string
  mSubject :: string
  mBodyText :: string
  mBodyHTML :: string

type_synonym 's sender = "Message \<Rightarrow> 's \<Rightarrow> string option \<times> 's"

locale mailer =
  fixes send :: "Message \<Rightarrow> 's \<Rightarrow> string option \<times> 's" and delivered :: "'s \<Rightarrow> Message list"
  assumes send_ok: "send m s = (None, s') \<Longrightarrow> delivered s' = delivered s @ [m]"
    and send_error: "send m s = (Some e, s') \<Longrightarrow> delivered s' = delivered s \<or> delivered s' = delivered s @ [m]"
begin

lemma send_extends:
  "send m s = (r, s') \<Longrightarrow> \<exists>ks. delivered s' = delivered s @ ks \<and> (ks = [] \<or> ks = [m]) \<and> (r = None \<longrightarrow> ks = [m])"
  using send_ok [of m s s'] send_error [of m s _ s'] by (cases r) (auto intro: exI [of _ "[]"])

end

text \<open>A mailer that delivers nothing when it reports an error.\<close>

locale exact_mailer = mailer +
  assumes send_none: "send m s = (Some e, s') \<Longrightarrow> delivered s' = delivered s"
begin

lemma delivered_iff: "send m s = (r, s') \<Longrightarrow> delivered s' = delivered s @ [m] \<longleftrightarrow> r = None"
  using send_ok [of m s s'] send_none [of m s _ s'] by (cases r) auto

end

subsection \<open>The in-memory mailer\<close>

record FakeMailer =
  fm_sent :: "Message list"

definition Fake_Send :: "Message \<Rightarrow> FakeMailer \<Rightarrow> string option \<times> FakeMailer" where
  "Fake_Send m f = (None, f\<lparr>fm_sent := fm_sent f @ [m]\<rparr>)"

definition Fake_Sent :: "FakeMailer \<Rightarrow> Message list" where
  "Fake_Sent f = fm_sent f"

definition Fake_Reset :: "FakeMailer \<Rightarrow> FakeMailer" where
  "Fake_Reset f = f\<lparr>fm_sent := []\<rparr>"

interpretation fake: exact_mailer Fake_Send Fake_Sent
  by unfold_locales (auto simp: Fake_Send_def Fake_Sent_def)

subsection \<open>The SMTP mailer\<close>

record SMTPConfig =
  smAddr :: string
  smFrom :: string
  smUsername :: string
  smPassword :: string

datatype smtp_command =
    Dial string
  | NewClient string
  | StartTLS string
  | Auth string string string
  | MailFrom string
  | RcptTo string
  | Data
  | WriteBody string
  | CloseData
  | Quit

text \<open>
  The network and the libraries under the session: the answer to each command, whether the server
  offers STARTTLS, the boundary the MIME writer draws, and the host of an address.
\<close>

record 'n network =
  nw_do :: "smtp_command \<Rightarrow> 'n \<Rightarrow> string option \<times> 'n"
  nw_starttls :: "'n \<Rightarrow> bool"
  nw_boundary :: "'n \<Rightarrow> string"
  nw_host :: "string \<Rightarrow> string + string"
  nw_quote :: "string \<Rightarrow> string"
  nw_took :: "'n \<Rightarrow> bool"

text \<open>
  The session, and the messages the server has taken: it takes one when it answers the end of the
  data with success. When that answer is an error, or is lost, the server may have taken the message
  all the same; \<open>nw_took\<close> says whether it did.
\<close>

record 'n session =
  ss_net :: 'n
  ss_taken :: "Message list"

definition smtp_do ::
  "'n network \<Rightarrow> string \<Rightarrow> smtp_command \<Rightarrow> 'n session \<Rightarrow> ('n session \<Rightarrow> string option \<times> 'n session)
   \<Rightarrow> string option \<times> 'n session" where
  "smtp_do nw p cmd s k =
     (case nw_do nw cmd (ss_net s) of
        (Some e, n) \<Rightarrow> (Some (p @ e), s\<lparr>ss_net := n\<rparr>)
      | (None, n) \<Rightarrow> k (s\<lparr>ss_net := n\<rparr>))"

definition quoted :: "string \<Rightarrow> string" where
  "quoted s = CHR 0x22 # s @ [CHR 0x22]"

definition mime_part :: "string \<Rightarrow> string \<Rightarrow> string" where
  "mime_part kind body =
     ''Content-Transfer-Encoding: 8bit'' @ CRLF @ ''Content-Type: '' @ kind @ ''; charset=utf-8'' @ CRLF
     @ CRLF @ body"

definition mime_header :: "string \<Rightarrow> string \<Rightarrow> Message \<Rightarrow> string list" where
  "mime_header boundary from_addr msg =
     [''MIME-Version: 1.0'', ''From: '' @ from_addr, ''To: '' @ mTo msg, ''Subject: '' @ mSubject msg,
      ''Content-Type: multipart/alternative; boundary='' @ quoted boundary]"

definition buildMIME :: "string \<Rightarrow> string \<Rightarrow> Message \<Rightarrow> string" where
  "buildMIME boundary from_addr msg =
     concat (map (\<lambda>l. l @ CRLF) (mime_header boundary from_addr msg)) @ CRLF
     @ ''--'' @ boundary @ CRLF @ mime_part ''text/plain'' (mBodyText msg)
     @ CRLF @ ''--'' @ boundary @ CRLF @ mime_part ''text/html'' (mBodyHTML msg)
     @ CRLF @ ''--'' @ boundary @ ''--'' @ CRLF"

definition smtp_close ::
  "'n network \<Rightarrow> string \<Rightarrow> Message \<Rightarrow> 'n session \<Rightarrow> ('n session \<Rightarrow> string option \<times> 'n session)
   \<Rightarrow> string option \<times> 'n session" where
  "smtp_close nw p msg s k =
     (case nw_do nw CloseData (ss_net s) of
        (Some e, n) \<Rightarrow> (Some (p @ e), s\<lparr>ss_net := n,
          ss_taken := (if nw_took nw (ss_net s) then ss_taken s @ [msg] else ss_taken s)\<rparr>)
      | (None, n) \<Rightarrow> k (s\<lparr>ss_net := n, ss_taken := ss_taken s @ [msg]\<rparr>))"

text \<open>
  A write that fails still ends the data, and the server may take what it was sent. (Closing the
  connection, which every return does, has no answer.)
\<close>

definition smtp_write ::
  "'n network \<Rightarrow> string \<Rightarrow> Message \<Rightarrow> 'n session \<Rightarrow> ('n session \<Rightarrow> string option \<times> 'n session)
   \<Rightarrow> string option \<times> 'n session" where
  "smtp_write nw raw msg s k =
     (case nw_do nw (WriteBody raw) (ss_net s) of
        (None, n) \<Rightarrow> k (s\<lparr>ss_net := n\<rparr>)
      | (Some e, n) \<Rightarrow>
          (Some (''smtp: write body: '' @ e), snd (smtp_close nw [] msg (s\<lparr>ss_net := n\<rparr>) (Pair None))))"

definition smtp_transfer ::
  "'n network \<Rightarrow> SMTPConfig \<Rightarrow> Message \<Rightarrow> 'n session \<Rightarrow> string option \<times> 'n session" where
  "smtp_transfer nw cfg msg s =
     smtp_do nw ''smtp: MAIL FROM: '' (MailFrom (smFrom cfg)) s (\<lambda>s.
     smtp_do nw ''smtp: RCPT TO: '' (RcptTo (mTo msg)) s (\<lambda>s.
     (let raw = buildMIME (nw_boundary nw (ss_net s)) (smFrom cfg) msg in
      smtp_do nw ''smtp: DATA: '' Data s (\<lambda>s.
      smtp_write nw raw msg s (\<lambda>s.
      smtp_close nw ''smtp: close data: '' msg s (\<lambda>s.
      smtp_do nw [] Quit s (\<lambda>s. (None, s))))))))"

definition SMTP_Send ::
  "'n network \<Rightarrow> SMTPConfig \<Rightarrow> Message \<Rightarrow> 'n session \<Rightarrow> string option \<times> 'n session" where
  "SMTP_Send nw cfg msg s =
     (case nw_host nw (smAddr cfg) of
        Inl e \<Rightarrow> (Some (''smtp: bad addr '' @ nw_quote nw (smAddr cfg) @ '': '' @ e), s)
      | Inr host \<Rightarrow>
          smtp_do nw ''smtp: dial: '' (Dial (smAddr cfg)) s (\<lambda>s.
          smtp_do nw ''smtp: new client: '' (NewClient host) s (\<lambda>s.
          (let auth = (\<lambda>s. if smUsername cfg \<noteq> []
                 then smtp_do nw ''smtp: auth: '' (Auth (smUsername cfg) (smPassword cfg) host) s
                   (smtp_transfer nw cfg msg)
                 else smtp_transfer nw cfg msg s) in
           if nw_starttls nw (ss_net s) then smtp_do nw ''smtp: STARTTLS: '' (StartTLS host) s auth
           else auth s))))"

text \<open>Every step but the end of the data leaves the messages taken alone.\<close>

definition takes_one :: "Message \<Rightarrow> 'n session \<Rightarrow> string option \<times> 'n session \<Rightarrow> bool" where
  "takes_one m s p \<longleftrightarrow> (case p of (r, s') \<Rightarrow>
     (r = None \<longrightarrow> ss_taken s' = ss_taken s @ [m])
     \<and> (ss_taken s' = ss_taken s \<or> ss_taken s' = ss_taken s @ [m]))"

lemma takes_one_do:
  assumes "\<And>s'. ss_taken s' = ss_taken s \<Longrightarrow> takes_one m s' (k s')"
  shows "takes_one m s (smtp_do nw p cmd s k)"
proof (cases "nw_do nw cmd (ss_net s)")
  case (Pair r n)
  with assms [of "s\<lparr>ss_net := n\<rparr>"] show ?thesis
    by (cases r) (simp_all add: smtp_do_def takes_one_def)
qed

lemma takes_one_close: "takes_one m s (smtp_close nw p m s (\<lambda>s. smtp_do nw q Quit s (\<lambda>s. (None, s))))"
  by (simp add: smtp_close_def smtp_do_def takes_one_def split: prod.splits option.splits)

lemma takes_one_write:
  assumes "\<And>s'. ss_taken s' = ss_taken s \<Longrightarrow> takes_one m s' (k s')"
  shows "takes_one m s (smtp_write nw raw m s k)"
proof (cases "nw_do nw (WriteBody raw) (ss_net s)")
  case (Pair r n)
  with assms [of "s\<lparr>ss_net := n\<rparr>"] show ?thesis
    by (cases r) (simp_all add: smtp_write_def smtp_close_def takes_one_def split: prod.splits option.splits)
qed

lemma takes_one_transfer: "takes_one m s (smtp_transfer nw cfg m s)"
  unfolding smtp_transfer_def Let_def by (intro takes_one_do takes_one_write takes_one_close)

lemma takes_one_send: "takes_one m s (SMTP_Send nw cfg m s)"
proof (cases "nw_host nw (smAddr cfg)")
  case (Inl e)
  then show ?thesis by (simp add: SMTP_Send_def takes_one_def)
next
  case (Inr host)
  then show ?thesis
    by (auto simp: SMTP_Send_def Let_def intro!: takes_one_do takes_one_transfer)
qed

interpretation smtp: mailer "SMTP_Send nw cfg" ss_taken for nw cfg
proof unfold_locales
  fix m and s s' :: "'a session"
  assume run: "SMTP_Send nw cfg m s = (None, s')"
  then show "ss_taken s' = ss_taken s @ [m]"
    using takes_one_send [of m s nw cfg] by (simp add: takes_one_def)
next
  fix m and s s' :: "'a session" and e
  assume run: "SMTP_Send nw cfg m s = (Some e, s')"
  then show "ss_taken s' = ss_taken s \<or> ss_taken s' = ss_taken s @ [m]"
    using takes_one_send [of m s nw cfg] by (simp add: takes_one_def)
qed

subsection \<open>Templates\<close>

record ReminderData =
  rdUserName :: string
  rdConferenceName :: string
  rdConferenceAcronym :: string
  rdDeadlineKind :: string
  rdDeadlineDate :: zoned
  rdLeadTimeDays :: int

record DigestItem =
  diConferenceName :: string
  diConferenceAcronym :: string
  diDeadlineKind :: string
  diDeadlineDate :: zoned

record DigestData =
  ddtUserName :: string
  ddtWeekStart :: zoned
  ddtItems :: "DigestItem list"

definition formatDate :: "zoned \<Rightarrow> string" where
  "formatDate z = format_dmy (fst z) (snd z)"

definition reminder_txt :: "ReminderData \<Rightarrow> string" where
  "reminder_txt d =
     ''Hello '' @ rdUserName d @ '','' @ LF @ LF
     @ ''This is a reminder that the '' @ rdDeadlineKind d @ '' deadline for'' @ LF
     @ rdConferenceName d @ '' ('' @ rdConferenceAcronym d @ '') is in '' @ Itoa (rdLeadTimeDays d) @ '' day(s),'' @ LF
     @ ''on '' @ formatDate (rdDeadlineDate d) @ ''.'' @ LF @ LF
     @ ''Log in to Confero to review your starred conferences.'' @ LF @ LF
     @ ''- Confero'' @ LF"

definition html_head :: string where
  "html_head =
     ''<!DOCTYPE html>'' @ LF @ ''<html>'' @ LF
     @ ''<head><meta charset='' @ quoted ''utf-8'' @ ''></head>'' @ LF
     @ ''<body style='' @ quoted ''font-family:sans-serif;max-width:600px;margin:0 auto;padding:24px'' @ ''>'' @ LF"

definition html_foot :: string where
  "html_foot =
     ''<p style='' @ quoted ''color:#666;font-size:0.85em'' @ ''>- Confero</p>'' @ LF
     @ ''</body>'' @ LF @ ''</html>'' @ LF"

definition reminder_html :: "ReminderData \<Rightarrow> string" where
  "reminder_html d =
     html_head
     @ ''<p>Hello <strong>'' @ html_escape (rdUserName d) @ ''</strong>,</p>'' @ LF
     @ ''<p>'' @ LF
     @ ''  The <strong>'' @ html_escape (rdDeadlineKind d) @ ''</strong> deadline for'' @ LF
     @ ''  <strong>'' @ html_escape (rdConferenceName d) @ '' ('' @ html_escape (rdConferenceAcronym d)
     @ '')</strong>'' @ LF
     @ ''  is in <strong>'' @ html_escape (Itoa (rdLeadTimeDays d)) @ '' day(s)</strong>,'' @ LF
     @ ''  on <strong>'' @ html_escape (formatDate (rdDeadlineDate d)) @ ''</strong>.'' @ LF
     @ ''</p>'' @ LF
     @ ''<p>Log in to Confero to review your starred conferences.</p>'' @ LF
     @ html_foot"

definition digest_txt_item :: "DigestItem \<Rightarrow> string" where
  "digest_txt_item i =
     LF @ ''- '' @ diConferenceName i @ '' ('' @ diConferenceAcronym i @ ''): '' @ diDeadlineKind i
     @ '' deadline on '' @ formatDate (diDeadlineDate i)"

definition digest_txt :: "DigestData \<Rightarrow> string" where
  "digest_txt d =
     ''Hello '' @ ddtUserName d @ '','' @ LF @ LF
     @ ''Your Confero weekly digest for the week starting '' @ formatDate (ddtWeekStart d) @ '':'' @ LF
     @ (if ddtItems d \<noteq> [] then concat (map digest_txt_item (ddtItems d)) @ LF
        else LF @ ''No upcoming deadlines this week.'' @ LF)
     @ LF @ ''- Confero'' @ LF"

definition digest_html_item :: "DigestItem \<Rightarrow> string" where
  "digest_html_item i =
     LF @ ''  <li><strong>'' @ html_escape (diConferenceName i) @ '' ('' @ html_escape (diConferenceAcronym i)
     @ '')</strong> - '' @ html_escape (diDeadlineKind i) @ '' deadline on ''
     @ html_escape (formatDate (diDeadlineDate i)) @ ''</li>''"

definition digest_html :: "DigestData \<Rightarrow> string" where
  "digest_html d =
     html_head
     @ ''<p>Hello <strong>'' @ html_escape (ddtUserName d) @ ''</strong>,</p>'' @ LF
     @ ''<p>Your Confero weekly digest for the week starting <strong>''
     @ html_escape (formatDate (ddtWeekStart d)) @ ''</strong>:</p>'' @ LF
     @ (if ddtItems d \<noteq> [] then LF @ ''<ul>'' @ concat (map digest_html_item (ddtItems d)) @ LF @ ''</ul>'' @ LF
        else LF @ ''<p>No upcoming deadlines this week.</p>'' @ LF)
     @ LF @ html_foot"

subsection \<open>The templates and their rendering\<close>

text \<open>
  The sources of the templates, which are embedded in the program, and the renderers, which parse
  a source and run it on the data, in the engine of \<open>Templates\<close>. Of the two functions the program
  registers, \<^verbatim>\<open>title\<close> is used by no template and is left out.
\<close>

definition reminder_txt_tmpl :: string where
  "reminder_txt_tmpl =
     ''Hello {{.UserName}},'' @ LF
     @ LF
     @ ''This is a reminder that the {{.DeadlineKind}} deadline for'' @ LF
     @ ''{{.ConferenceName}} ({{.ConferenceAcronym}}) is in {{.LeadTimeDays}} day(s),'' @ LF
     @ ''on {{formatDate .DeadlineDate}}.'' @ LF
     @ LF
     @ ''Log in to Confero to review your starred conferences.'' @ LF
     @ LF
     @ ''- Confero'' @ LF"

definition reminder_html_tmpl :: string where
  "reminder_html_tmpl =
     ''<!DOCTYPE html>'' @ LF
     @ ''<html>'' @ LF
     @ ''<head><meta charset='' @ quoted ''utf-8'' @ ''></head>'' @ LF
     @ ''<body style='' @ quoted ''font-family:sans-serif;max-width:600px;margin:0 auto;padding:24px'' @ ''>'' @ LF
     @ ''<p>Hello <strong>{{.UserName}}</strong>,</p>'' @ LF
     @ ''<p>'' @ LF
     @ ''  The <strong>{{.DeadlineKind}}</strong> deadline for'' @ LF
     @ ''  <strong>{{.ConferenceName}} ({{.ConferenceAcronym}})</strong>'' @ LF
     @ ''  is in <strong>{{.LeadTimeDays}} day(s)</strong>,'' @ LF
     @ ''  on <strong>{{formatDate .DeadlineDate}}</strong>.'' @ LF
     @ ''</p>'' @ LF
     @ ''<p>Log in to Confero to review your starred conferences.</p>'' @ LF
     @ ''<p style='' @ quoted ''color:#666;font-size:0.85em'' @ ''>- Confero</p>'' @ LF
     @ ''</body>'' @ LF
     @ ''</html>'' @ LF"

definition digest_txt_tmpl :: string where
  "digest_txt_tmpl =
     ''Hello {{.UserName}},'' @ LF
     @ LF
     @ ''Your Confero weekly digest for the week starting {{formatDate .WeekStart}}:'' @ LF
     @ ''{{if .Items}}'' @ LF
     @ ''{{- range .Items}}'' @ LF
     @ ''- {{.ConferenceName}} ({{.ConferenceAcronym}}): {{.DeadlineKind}} deadline on {{formatDate .DeadlineDate}}'' @ LF
     @ ''{{- end}}'' @ LF
     @ ''{{else}}'' @ LF
     @ ''No upcoming deadlines this week.'' @ LF
     @ ''{{end}}'' @ LF
     @ ''- Confero'' @ LF"

definition digest_html_tmpl :: string where
  "digest_html_tmpl =
     ''<!DOCTYPE html>'' @ LF
     @ ''<html>'' @ LF
     @ ''<head><meta charset='' @ quoted ''utf-8'' @ ''></head>'' @ LF
     @ ''<body style='' @ quoted ''font-family:sans-serif;max-width:600px;margin:0 auto;padding:24px'' @ ''>'' @ LF
     @ ''<p>Hello <strong>{{.UserName}}</strong>,</p>'' @ LF
     @ ''<p>Your Confero weekly digest for the week starting <strong>{{formatDate .WeekStart}}</strong>:</p>'' @ LF
     @ ''{{if .Items}}'' @ LF
     @ ''<ul>'' @ LF
     @ ''{{- range .Items}}'' @ LF
     @ ''  <li><strong>{{.ConferenceName}} ({{.ConferenceAcronym}})</strong> - {{.DeadlineKind}} deadline on {{formatDate .DeadlineDate}}</li>'' @ LF
     @ ''{{- end}}'' @ LF
     @ ''</ul>'' @ LF
     @ ''{{else}}'' @ LF
     @ ''<p>No upcoming deadlines this week.</p>'' @ LF
     @ ''{{end}}'' @ LF
     @ ''<p style='' @ quoted ''color:#666;font-size:0.85em'' @ ''>- Confero</p>'' @ LF
     @ ''</body>'' @ LF
     @ ''</html>'' @ LF"

definition templateFS :: "(string \<times> string) list" where
  "templateFS =
     [(''templates/reminder.txt.tmpl'', reminder_txt_tmpl), (''templates/reminder.html.tmpl'', reminder_html_tmpl),
      (''templates/digest.txt.tmpl'', digest_txt_tmpl), (''templates/digest.html.tmpl'', digest_html_tmpl)]"

definition funcMap :: tfuncs where
  "funcMap =
     [(''formatDate'', \<lambda>v. case v of VTime t \<Rightarrow> Inr (VStr (formatDate t)) | _ \<Rightarrow> Inl ''wrong type of argument'')]"

definition renderText :: "string \<Rightarrow> tvalue \<Rightarrow> string + string" where
  "renderText name data =
     (case map_of templateFS name of
        None \<Rightarrow> Inl (''open '' @ name @ '': file does not exist'')
      | Some src \<Rightarrow>
          (case parse_template (map fst funcMap) src of
             Inl e \<Rightarrow> Inl e
           | Inr t \<Rightarrow> run funcMap data t))"

definition renderHTML :: "string \<Rightarrow> tvalue \<Rightarrow> string + string" where
  "renderHTML name data =
     (case map_of templateFS name of
        None \<Rightarrow> Inl (''open '' @ name @ '': file does not exist'')
      | Some src \<Rightarrow>
          (case parse_template (map fst funcMap) src of
             Inl e \<Rightarrow> Inl e
           | Inr t \<Rightarrow> (case escape_template t of Inl e \<Rightarrow> Inl e | Inr t' \<Rightarrow> run funcMap data t')))"

text \<open>What reflection shows a template of the data: the exported fields under their names.\<close>

definition reminder_value :: "ReminderData \<Rightarrow> tvalue" where
  "reminder_value d = VStruct
     [(''UserName'', VStr (rdUserName d)), (''ConferenceName'', VStr (rdConferenceName d)),
      (''ConferenceAcronym'', VStr (rdConferenceAcronym d)), (''DeadlineKind'', VStr (rdDeadlineKind d)),
      (''DeadlineDate'', VTime (rdDeadlineDate d)), (''LeadTimeDays'', VInt (rdLeadTimeDays d))]"

definition item_value :: "DigestItem \<Rightarrow> tvalue" where
  "item_value i = VStruct
     [(''ConferenceName'', VStr (diConferenceName i)), (''ConferenceAcronym'', VStr (diConferenceAcronym i)),
      (''DeadlineKind'', VStr (diDeadlineKind i)), (''DeadlineDate'', VTime (diDeadlineDate i))]"

definition digest_value :: "DigestData \<Rightarrow> tvalue" where
  "digest_value d = VStruct
     [(''UserName'', VStr (ddtUserName d)), (''WeekStart'', VTime (ddtWeekStart d)),
      (''Items'', VList (map item_value (ddtItems d)))]"

definition RenderReminder :: "ReminderData \<Rightarrow> string + string \<times> string" where
  "RenderReminder data =
     (case renderText ''templates/reminder.txt.tmpl'' (reminder_value data) of
        Inl e \<Rightarrow> Inl (''reminder text: '' @ e)
      | Inr txt \<Rightarrow>
          (case renderHTML ''templates/reminder.html.tmpl'' (reminder_value data) of
             Inl e \<Rightarrow> Inl (''reminder html: '' @ e)
           | Inr html \<Rightarrow> Inr (txt, html)))"

definition RenderDigest :: "DigestData \<Rightarrow> string + string \<times> string" where
  "RenderDigest data =
     (case renderText ''templates/digest.txt.tmpl'' (digest_value data) of
        Inl e \<Rightarrow> Inl (''digest text: '' @ e)
      | Inr txt \<Rightarrow>
          (case renderHTML ''templates/digest.html.tmpl'' (digest_value data) of
             Inl e \<Rightarrow> Inl (''digest html: '' @ e)
           | Inr html \<Rightarrow> Inr (txt, html)))"

text \<open>The sources parse, and every value of an HTML template stands between tags.\<close>

definition item_txt_nodes :: "tnode list" where
  "item_txt_nodes =
     [TextNode (LF @ ''- ''), ActionNode (Field ''ConferenceName''), TextNode '' ('',
      ActionNode (Field ''ConferenceAcronym''), TextNode ''): '', ActionNode (Field ''DeadlineKind''),
      TextNode '' deadline on '', ActionNode (Call ''formatDate'' ''DeadlineDate'')]"

definition item_html_nodes :: "tnode list" where
  "item_html_nodes =
     [TextNode (LF @ ''  <li><strong>''), ActionNode (Escaped (Field ''ConferenceName'')), TextNode '' ('',
      ActionNode (Escaped (Field ''ConferenceAcronym'')), TextNode '')</strong> - '',
      ActionNode (Escaped (Field ''DeadlineKind'')), TextNode '' deadline on '',
      ActionNode (Escaped (Call ''formatDate'' ''DeadlineDate'')), TextNode ''</li>'']"

lemma reminder_txt_parsed:
  "parse_template [''formatDate''] reminder_txt_tmpl = Inr
     [TextNode ''Hello '', ActionNode (Field ''UserName''),
      TextNode ('','' @ LF @ LF @ ''This is a reminder that the ''), ActionNode (Field ''DeadlineKind''),
      TextNode ('' deadline for'' @ LF), ActionNode (Field ''ConferenceName''), TextNode '' ('',
      ActionNode (Field ''ConferenceAcronym''), TextNode '') is in '', ActionNode (Field ''LeadTimeDays''),
      TextNode ('' day(s),'' @ LF @ ''on ''), ActionNode (Call ''formatDate'' ''DeadlineDate''),
      TextNode (''.'' @ LF @ LF @ ''Log in to Confero to review your starred conferences.'' @ LF @ LF @ ''- Confero'' @ LF)]"
  by code_simp

definition html_parsed :: "string \<Rightarrow> string + tnode list" where
  "html_parsed src = (case parse_template [''formatDate''] src of Inl e \<Rightarrow> Inl e | Inr t \<Rightarrow> escape_template t)"

lemma reminder_html_parsed:
  "html_parsed reminder_html_tmpl = Inr
     [TextNode (html_head @ ''<p>Hello <strong>''), ActionNode (Escaped (Field ''UserName'')),
      TextNode (''</strong>,</p>'' @ LF @ ''<p>'' @ LF @ ''  The <strong>''), ActionNode (Escaped (Field ''DeadlineKind'')),
      TextNode (''</strong> deadline for'' @ LF @ ''  <strong>''), ActionNode (Escaped (Field ''ConferenceName'')),
      TextNode '' ('', ActionNode (Escaped (Field ''ConferenceAcronym'')),
      TextNode ('')</strong>'' @ LF @ ''  is in <strong>''), ActionNode (Escaped (Field ''LeadTimeDays'')),
      TextNode ('' day(s)</strong>,'' @ LF @ ''  on <strong>''), ActionNode (Escaped (Call ''formatDate'' ''DeadlineDate'')),
      TextNode (''</strong>.'' @ LF @ ''</p>'' @ LF @ ''<p>Log in to Confero to review your starred conferences.</p>'' @ LF
        @ html_foot)]"
  by code_simp

lemma digest_txt_parsed:
  "parse_template [''formatDate''] digest_txt_tmpl = Inr
     [TextNode ''Hello '', ActionNode (Field ''UserName''),
      TextNode ('','' @ LF @ LF @ ''Your Confero weekly digest for the week starting ''),
      ActionNode (Call ''formatDate'' ''WeekStart''), TextNode ('':'' @ LF),
      IfNode (Field ''Items'') [RangeNode (Field ''Items'') item_txt_nodes [], TextNode LF]
        [TextNode (LF @ ''No upcoming deadlines this week.'' @ LF)],
      TextNode (LF @ ''- Confero'' @ LF)]"
  by code_simp

lemma digest_html_parsed:
  "html_parsed digest_html_tmpl = Inr
     [TextNode (html_head @ ''<p>Hello <strong>''), ActionNode (Escaped (Field ''UserName'')),
      TextNode (''</strong>,</p>'' @ LF @ ''<p>Your Confero weekly digest for the week starting <strong>''),
      ActionNode (Escaped (Call ''formatDate'' ''WeekStart'')), TextNode (''</strong>:</p>'' @ LF),
      IfNode (Field ''Items'') [TextNode (LF @ ''<ul>''), RangeNode (Field ''Items'') item_html_nodes [],
          TextNode (LF @ ''</ul>'' @ LF)]
        [TextNode (LF @ ''<p>No upcoming deadlines this week.</p>'' @ LF)],
      TextNode (LF @ html_foot)]"
  by code_simp

lemma funcMap_formatDate:
  "map_of funcMap ''formatDate'' = Some (\<lambda>v. case v of VTime t \<Rightarrow> Inr (VStr (formatDate t)) | _ \<Rightarrow> Inl ''wrong type of argument'')"
  by (simp add: funcMap_def)

lemmas run_simps = funcMap_formatDate get_field_def print_value_def truth_def

lemma renderText_run:
  "map_of templateFS n = Some src \<Longrightarrow> parse_template [''formatDate''] src = Inr t \<Longrightarrow> renderText n v = run funcMap v t"
  by (simp add: renderText_def funcMap_def)

lemma renderHTML_run:
  "map_of templateFS n = Some src \<Longrightarrow> html_parsed src = Inr t \<Longrightarrow> renderHTML n v = run funcMap v t"
  by (auto simp: renderHTML_def funcMap_def html_parsed_def split: sum.splits)

lemma item_txt_run: "run funcMap (item_value i) item_txt_nodes = Inr (digest_txt_item i)"
  by (simp add: item_txt_nodes_def item_value_def digest_txt_item_def run_simps)

lemma item_html_run: "run funcMap (item_value i) item_html_nodes = Inr (digest_html_item i)"
  by (simp add: item_html_nodes_def item_value_def digest_html_item_def run_simps)

lemma RenderReminder_eq: "RenderReminder d = Inr (reminder_txt d, reminder_html d)"
proof -
  have "renderText ''templates/reminder.txt.tmpl'' (reminder_value d) = Inr (reminder_txt d)"
    by (subst renderText_run [OF _ reminder_txt_parsed])
      (simp_all add: templateFS_def reminder_value_def reminder_txt_def run_simps)
  moreover have "renderHTML ''templates/reminder.html.tmpl'' (reminder_value d) = Inr (reminder_html d)"
    by (subst renderHTML_run [OF _ reminder_html_parsed])
      (simp_all add: templateFS_def reminder_value_def reminder_html_def run_simps)
  ultimately show ?thesis by (simp add: RenderReminder_def)
qed

lemma RenderDigest_eq: "RenderDigest d = Inr (digest_txt d, digest_html d)"
proof -
  have each: "foldr append_results (map (\<lambda>y. run funcMap y item_txt_nodes) (map item_value is)) (Inr [])
      = Inr (concat (map digest_txt_item is))"
    "foldr append_results (map (\<lambda>y. run funcMap y item_html_nodes) (map item_value is)) (Inr [])
      = Inr (concat (map digest_html_item is))" for "is"
    by (rule run_each, simp add: item_txt_run item_html_run)+
  have "renderText ''templates/digest.txt.tmpl'' (digest_value d) = Inr (digest_txt d)"
    by (subst renderText_run [OF _ digest_txt_parsed])
      (simp_all add: templateFS_def digest_value_def digest_txt_def run_simps each del: map_map)
  moreover have "renderHTML ''templates/digest.html.tmpl'' (digest_value d) = Inr (digest_html d)"
    by (subst renderHTML_run [OF _ digest_html_parsed])
      (simp_all add: templateFS_def digest_value_def digest_html_def run_simps each del: map_map)
  ultimately show ?thesis by (simp add: RenderDigest_def)
qed

text \<open>
  C37: Rendering a mail never fails: the embedded sources of the four templates parse, call only
  registered functions, use only fields their data has and print every value between the tags of
  HTML. What they yield, for every reminder and every digest, is the text and the HTML that
  reminder_txt, reminder_html, digest_txt and digest_html spell out, every value in
  the HTML escaped.
\<close>

theorem mails_render:
  "RenderReminder d = Inr (reminder_txt d, reminder_html d) \<and> RenderDigest g = Inr (digest_txt g, digest_html g)"
  by (simp add: RenderReminder_eq RenderDigest_eq)

text \<open>Two of the texts the repository keeps as golden files (\<^verbatim>\<open>mail/testdata\<close>).\<close>

lemma golden_reminder_txt:
  "reminder_txt \<lparr>rdUserName = ''Alice Tester'', rdConferenceName = ''International Conference on Education'',
       rdConferenceAcronym = ''ICEd'', rdDeadlineKind = ''submission'',
       rdDeadlineDate = (UTC, 1789462800000000000), rdLeadTimeDays = 7\<rparr>
   = ''Hello Alice Tester,'' @ LF @ LF @ ''This is a reminder that the submission deadline for'' @ LF
     @ ''International Conference on Education (ICEd) is in 7 day(s),'' @ LF @ ''on 15 Sep 2026.'' @ LF @ LF
     @ ''Log in to Confero to review your starred conferences.'' @ LF @ LF @ ''- Confero'' @ LF"
  by code_simp

lemma golden_digest_txt:
  "digest_txt \<lparr>ddtUserName = ''Bob Chair'', ddtWeekStart = (UTC, 1789376400000000000),
       ddtItems = [\<lparr>diConferenceName = ''Workshop on CS Education'', diConferenceAcronym = ''WCSE'',
         diDeadlineKind = ''abstract'', diDeadlineDate = (UTC, 1789894800000000000)\<rparr>]\<rparr>
   = ''Hello Bob Chair,'' @ LF @ LF
     @ ''Your Confero weekly digest for the week starting 14 Sep 2026:'' @ LF @ LF
     @ ''- Workshop on CS Education (WCSE): abstract deadline on 20 Sep 2026'' @ LF @ LF @ ''- Confero'' @ LF"
  by code_simp

subsection \<open>What a reader of the HTML sees\<close>

text \<open>
  The reader of an HTML body: the text between the tags, with its character references replaced, and
  the tags.
\<close>

datatype html_mode = Between | In_tag | In_ref string

definition reference :: "string \<Rightarrow> string" where
  "reference r =
     (if r = ''amp'' then ''&'' else if r = ''lt'' then ''<'' else if r = ''gt'' then ''>''
      else if r = ''#34'' then [CHR 0x22] else if r = ''#39'' then [CHR 0x27] else if r = ''#43'' then ''+''
      else ''&'' @ r @ '';'')"

fun html_text :: "html_mode \<Rightarrow> string \<Rightarrow> string" where
  "html_text m [] = []"
| "html_text Between (c # s) =
     (if c = CHR ''<'' then html_text In_tag s else if c = CHR ''&'' then html_text (In_ref []) s
      else c # html_text Between s)"
| "html_text In_tag (c # s) = (if c = CHR ''>'' then html_text Between s else html_text In_tag s)"
| "html_text (In_ref r) (c # s) =
     (if c = CHR '';'' then reference r @ html_text Between s else html_text (In_ref (r @ [c])) s)"

fun html_tags :: "string option \<Rightarrow> string \<Rightarrow> string list" where
  "html_tags t [] = []"
| "html_tags None (c # s) = (if c = CHR ''<'' then html_tags (Some []) s else html_tags None s)"
| "html_tags (Some t) (c # s) = (if c = CHR ''>'' then t # html_tags None s else html_tags (Some (t @ [c])) s)"

text \<open>A value as it is shown: the NUL character, which no text of the database has, is replaced.\<close>

definition as_shown :: "string \<Rightarrow> string" where
  "as_shown v = concat (map (\<lambda>c. if c = CHR 0x00 then [CHR 0xEF, CHR 0xBF, CHR 0xBD] else [c]) v)"

lemma html_text_char:
  "html_text Between (html_char c @ s) = (if c = CHR 0x00 then [CHR 0xEF, CHR 0xBF, CHR 0xBD] else [c]) @ html_text Between s"
  by (simp add: html_char_def reference_def)

lemma html_tags_char: "html_tags None (html_char c @ s) = html_tags None s"
  by (simp add: html_char_def)

lemma html_text_escape [simp]: "html_text Between (html_escape v @ s) = as_shown v @ html_text Between s"
  by (induction v) (simp_all add: html_escape_def as_shown_def html_text_char)

lemma html_tags_escape [simp]: "html_tags None (html_escape v @ s) = html_tags None s"
  by (induction v) (simp_all add: html_escape_def html_tags_char)

definition head_tags :: "string list" where
  "head_tags = [''!DOCTYPE html'', ''html'', ''head'', ''meta charset='' @ quoted ''utf-8'', ''/head'',
     ''body style='' @ quoted ''font-family:sans-serif;max-width:600px;margin:0 auto;padding:24px'']"

definition foot_tags :: "string list" where
  "foot_tags = [''p style='' @ quoted ''color:#666;font-size:0.85em'', ''/p'', ''/body'', ''/html'']"

lemma html_head_read:
  "html_text Between (html_head @ s) = LF @ LF @ LF @ LF @ html_text Between s"
  "html_tags None (html_head @ s) = head_tags @ html_tags None s"
  by (simp_all add: html_head_def head_tags_def quoted_def LF_def)

lemma html_foot_read:
  "html_text Between html_foot = ''- Confero'' @ LF @ LF @ LF" "html_tags None html_foot = foot_tags"
  by (simp_all add: html_foot_def foot_tags_def quoted_def LF_def)

definition item_shown :: "DigestItem \<Rightarrow> string" where
  "item_shown i = LF @ ''  '' @ as_shown (diConferenceName i) @ '' ('' @ as_shown (diConferenceAcronym i) @ '') - ''
     @ as_shown (diDeadlineKind i) @ '' deadline on '' @ as_shown (formatDate (diDeadlineDate i))"

lemma items_read:
  "html_text Between (concat (map digest_html_item is) @ s) = concat (map item_shown is) @ html_text Between s"
  "html_tags None (concat (map digest_html_item is) @ s)
     = concat (map (\<lambda>_. [''li'', ''strong'', ''/strong'', ''/li'']) is) @ html_tags None s"
  by (induction "is") (simp_all add: digest_html_item_def item_shown_def LF_def)

definition reminder_shown :: "ReminderData \<Rightarrow> string" where
  "reminder_shown d = LF @ LF @ LF @ LF @ ''Hello '' @ as_shown (rdUserName d) @ '','' @ LF @ LF
     @ ''  The '' @ as_shown (rdDeadlineKind d) @ '' deadline for'' @ LF
     @ ''  '' @ as_shown (rdConferenceName d) @ '' ('' @ as_shown (rdConferenceAcronym d) @ '')'' @ LF
     @ ''  is in '' @ as_shown (Itoa (rdLeadTimeDays d)) @ '' day(s),'' @ LF
     @ ''  on '' @ as_shown (formatDate (rdDeadlineDate d)) @ ''.'' @ LF @ LF
     @ ''Log in to Confero to review your starred conferences.'' @ LF @ ''- Confero'' @ LF @ LF @ LF"

definition digest_shown :: "DigestData \<Rightarrow> string" where
  "digest_shown g = LF @ LF @ LF @ LF @ ''Hello '' @ as_shown (ddtUserName g) @ '','' @ LF
     @ ''Your Confero weekly digest for the week starting '' @ as_shown (formatDate (ddtWeekStart g)) @ '':'' @ LF
     @ LF @ (if ddtItems g \<noteq> [] then concat (map item_shown (ddtItems g)) @ LF
             else ''No upcoming deadlines this week.'') @ LF @ LF @ ''- Confero'' @ LF @ LF @ LF"

definition reminder_tags :: "string list" where
  "reminder_tags = head_tags @ [''p'', ''strong'', ''/strong'', ''/p'', ''p'', ''strong'', ''/strong'', ''strong'',
     ''/strong'', ''strong'', ''/strong'', ''strong'', ''/strong'', ''/p'', ''p'', ''/p''] @ foot_tags"

definition digest_tags :: "nat \<Rightarrow> string list" where
  "digest_tags n = head_tags @ [''p'', ''strong'', ''/strong'', ''/p'', ''p'', ''strong'', ''/strong'', ''/p'']
     @ (if n = 0 then [''p'', ''/p'']
        else [''ul''] @ concat (replicate n [''li'', ''strong'', ''/strong'', ''/li'']) @ [''/ul'']) @ foot_tags"

lemma reminder_html_read:
  "html_text Between (reminder_html d) = reminder_shown d" "html_tags None (reminder_html d) = reminder_tags"
  by (simp_all add: reminder_html_def html_head_read reminder_shown_def reminder_tags_def LF_def html_foot_read)

lemma digest_html_read:
  "html_text Between (digest_html g) = digest_shown g" "html_tags None (digest_html g) = digest_tags (length (ddtItems g))"
  by (simp_all add: digest_html_def html_head_read digest_shown_def digest_tags_def LF_def html_foot_read items_read
      map_replicate_const)

text \<open>
  C38: Reading the HTML of a rendered mail gives back what went in: the text between its tags is the
  text of the template with every name, acronym, kind, number and date in its place, character for
  character, whatever characters the values have (a NUL, which the database cannot hold, shows as the
  replacement character); and its tags are those of the template and no others, with four for each
  item of a digest.
\<close>

theorem html_mail_reads_back:
  "(\<exists>txt html. RenderReminder d = Inr (txt, html)
     \<and> html_text Between html = reminder_shown d \<and> html_tags None html = reminder_tags)
   \<and> (\<exists>txt html. RenderDigest g = Inr (txt, html)
     \<and> html_text Between html = digest_shown g \<and> html_tags None html = digest_tags (length (ddtItems g)))"
  by (simp add: RenderReminder_eq RenderDigest_eq reminder_html_read digest_html_read)

text \<open>A name that tries to be markup.\<close>

lemma html_mail_example:
  "html_text Between (''<b>'' @ html_escape ''<i>&amp;</i>'' @ ''</b>'') = ''<i>&amp;</i>''
   \<and> html_tags None (''<b>'' @ html_escape ''<i>&amp;</i>'' @ ''</b>'') = [''b'', ''/b'']"
  by (simp add: as_shown_def)

subsection \<open>The header of a message\<close>

text \<open>The header a receiver reads: the lines up to the first empty one.\<close>

fun header_lines_from :: "string \<Rightarrow> string \<Rightarrow> string list" where
  "header_lines_from cur [] = (if cur = [] then [] else [cur])"
| "header_lines_from cur (a # s) =
     (if a = CHR 0x0D \<and> take 1 s = [CHR 0x0A]
      then (if cur = [] then [] else cur # header_lines_from [] (drop 1 s))
      else header_lines_from (cur @ [a]) s)"

definition header_lines :: "string \<Rightarrow> string list" where
  "header_lines = header_lines_from []"

definition no_CR :: "string \<Rightarrow> bool" where
  "no_CR s \<longleftrightarrow> CHR 0x0D \<notin> set s"

lemma no_CR_append [simp]: "no_CR (a @ b) \<longleftrightarrow> no_CR a \<and> no_CR b"
  by (auto simp: no_CR_def)

lemma header_line_read:
  "no_CR l \<Longrightarrow> header_lines_from cur (l @ CRLF @ s) = (if cur @ l = [] then [] else (cur @ l) # header_lines_from [] s)"
  by (induction l arbitrary: cur) (auto simp: CRLF_def no_CR_def)

lemma header_lines_read:
  "\<forall>l \<in> set ls. no_CR l \<and> l \<noteq> [] \<Longrightarrow> header_lines (concat (map (\<lambda>l. l @ CRLF) ls) @ CRLF @ s) = ls"
proof (induction ls)
  case Nil
  then show ?case by (simp add: header_lines_def CRLF_def)
next
  case (Cons l ls)
  have "header_lines ((l @ CRLF) @ concat (map (\<lambda>l. l @ CRLF) ls) @ CRLF @ s)
      = l # header_lines (concat (map (\<lambda>l. l @ CRLF) ls) @ CRLF @ s)"
    using Cons.prems header_line_read [of l "[]"] by (simp add: header_lines_def)
  with Cons show ?case by simp
qed

text \<open>
  When the sender, the recipient, the subject and the boundary hold no carriage return, the
  header a receiver reads from a message is the five lines the program means to write.
\<close>

theorem mime_header_reads_back:
  assumes "no_CR from_addr" and "no_CR (mTo msg)" and "no_CR (mSubject msg)" and "no_CR boundary"
  shows "header_lines (buildMIME boundary from_addr msg) = mime_header boundary from_addr msg"
proof -
  have "\<forall>l \<in> set (mime_header boundary from_addr msg). no_CR l \<and> l \<noteq> []"
    using assms by (auto simp: mime_header_def quoted_def no_CR_def)
  from header_lines_read [OF this] show ?thesis by (simp add: buildMIME_def)
qed

theorem mime_header_reads_back_witness:
  "header_lines (buildMIME ''b'' ''f@x'' \<lparr>mTo = ''t@x'', mSubject = ''s'', mBodyText = [], mBodyHTML = []\<rparr>) ! 3
   = ''Subject: s''"
  using mime_header_reads_back [of "''f@x''" "\<lparr>mTo = ''t@x'', mSubject = ''s'', mBodyText = [], mBodyHTML = []\<rparr>" "''b''"]
  by (simp add: no_CR_def mime_header_def)

end
