(* ===== verification/Scheduler.thy ===== *)
theory Scheduler
  imports Mail Repo_Conferences Repo_Dispatch
begin

text \<open>
  The scheduler (\<^verbatim>\<open>server/internal/scheduler\<close>): the state it adds to the connection,
  one definition per step of a tick, and the loop. The mailer is a parameter, \<open>send\<close>. Both clocks
  are read through a counter, so that two readings may differ: \<open>Now\<close> is the configured clock and
  \<open>time_Now\<close> the one of the system, which \<^verbatim>\<open>time.Since\<close> reads. The lemmas show that every step
  keeps the constraints of the schema.
\<close>

subsection \<open>State\<close>

record 'ms sched = conn +
  sch_mailer :: 'ms
  sch_clock :: "nat \<Rightarrow> instant"
  sch_real :: "nat \<Rightarrow> instant"
  sch_calls :: nat
  sch_emails :: "string \<times> string \<Rightarrow> nat"
  sch_pendingReminders :: int
  sch_pendingDigests :: int
  sch_lastSweep :: instant

record sched_config =
  cfLocal :: location
  cfGraceDays :: int
  cfMaxAttempts :: int

definition defaultMaxAttempts :: int where
  "defaultMaxAttempts = 3"

definition archiveInterval :: int where
  "archiveInterval = hour"

definition New_Scheduler :: "sched_config \<Rightarrow> sched_config" where
  "New_Scheduler cfg = (if cfMaxAttempts cfg = 0 then cfg\<lparr>cfMaxAttempts := defaultMaxAttempts\<rparr> else cfg)"

type_synonym ('ms, 'a) job = "'ms sched \<Rightarrow> (err + 'a) \<times> 'ms sched"

definition Now :: "('ms, instant) job" where
  "Now c = (Inr (sch_clock c (sch_calls c)), c\<lparr>sch_calls := Suc (sch_calls c)\<rparr>)"

definition time_Now :: "('ms, instant) job" where
  "time_Now c = (Inr (sch_real c (sch_calls c)), c\<lparr>sch_calls := Suc (sch_calls c)\<rparr>)"

definition mail_send :: "'ms sender \<Rightarrow> Message \<Rightarrow> ('ms, string option) job" where
  "mail_send send m c = (case send m (sch_mailer c) of (r, ms) \<Rightarrow> (Inr r, c\<lparr>sch_mailer := ms\<rparr>))"

definition count_email :: "string \<Rightarrow> string \<Rightarrow> ('ms, unit) job" where
  "count_email kind result c =
     (Inr (), c\<lparr>sch_emails := (sch_emails c)((kind, result) := sch_emails c (kind, result) + 1)\<rparr>)"

definition set_gauge_reminders :: "int \<Rightarrow> ('ms, unit) job" where
  "set_gauge_reminders n c = (Inr (), c\<lparr>sch_pendingReminders := n\<rparr>)"

definition set_gauge_digests :: "int \<Rightarrow> ('ms, unit) job" where
  "set_gauge_digests n c = (Inr (), c\<lparr>sch_pendingDigests := n\<rparr>)"

subsection \<open>Reminders\<close>

definition zoned_Time :: "location \<Rightarrow> instant option \<Rightarrow> zoned" where
  "zoned_Time loc ts = (case ts of Some t \<Rightarrow> (loc, t) | None \<Rightarrow> (UTC, zero_time))"

fun reminderDeadlineTime :: "location \<Rightarrow> SelectDueRemindersRow \<Rightarrow> zoned" where
  "reminderDeadlineTime loc row =
     (case drDeadlineKind row of
        Submission \<Rightarrow> zoned_Time loc (drPrimaryDeadline row)
      | Abstract \<Rightarrow> zoned_Time loc (drAbstractDeadline row)
      | Notification \<Rightarrow> zoned_Time loc (drNotificationDate row)
      | Camera_ready \<Rightarrow> zoned_Time loc (drCameraReadyDate row))"

definition reminderSubject :: "SelectDueRemindersRow \<Rightarrow> string" where
  "reminderSubject row =
     ''[Confero] Reminder: '' @ drConferenceAcronym row @ '' - '' @ kind_str (drDeadlineKind row) @ '' deadline''"

definition reminder_data :: "location \<Rightarrow> SelectDueRemindersRow \<Rightarrow> ReminderData" where
  "reminder_data loc row = \<lparr>
     rdUserName = drUserName row, rdConferenceName = drConferenceName row,
     rdConferenceAcronym = drConferenceAcronym row, rdDeadlineKind = kind_str (drDeadlineKind row),
     rdDeadlineDate = reminderDeadlineTime loc row, rdLeadTimeDays = drLeadTimeDays row\<rparr>"

definition reminder_message :: "location \<Rightarrow> SelectDueRemindersRow \<Rightarrow> string + Message" where
  "reminder_message loc row =
     (case RenderReminder (reminder_data loc row) of
        Inl e \<Rightarrow> Inl e
      | Inr (txt, html) \<Rightarrow> Inr \<lparr>mTo = drUserEmail row, mSubject = reminderSubject row,
          mBodyText = txt, mBodyHTML = html\<rparr>)"

definition reminder_unsent :: "sched_config \<Rightarrow> SelectDueRemindersRow \<Rightarrow> string \<Rightarrow> ('ms, unit) job" where
  "reminder_unsent cfg row e =
     (if drAttempts row + 1 \<ge> cfMaxAttempts cfg
      then andthen (attempt (exec Tx (MarkReminderFailed (Some e) (drID row)))) (\<lambda>_. count_email ''reminder'' ''failed'')
      else andthen (attempt (exec Tx (IncrementReminderAttempt (Some e) (drID row)))) (\<lambda>_. ret ()))"

definition reminder_sent :: "SelectDueRemindersRow \<Rightarrow> ('ms, unit) job" where
  "reminder_sent row =
     andthen (attempt (exec Tx (MarkReminderSent (drID row)))) (\<lambda>r.
     case r of Inl _ \<Rightarrow> ret () | Inr _ \<Rightarrow> count_email ''reminder'' ''sent'')"

definition dispatch_reminder ::
  "'ms sender \<Rightarrow> sched_config \<Rightarrow> SelectDueRemindersRow \<Rightarrow> ('ms, unit) job" where
  "dispatch_reminder send cfg row =
     (case reminder_message (cfLocal cfg) row of
        Inl _ \<Rightarrow> ret ()
      | Inr msg \<Rightarrow> andthen (mail_send send msg) (\<lambda>r.
          case r of Some e \<Rightarrow> reminder_unsent cfg row e | None \<Rightarrow> reminder_sent row))"

definition reminders_body :: "'ms sender \<Rightarrow> sched_config \<Rightarrow> ('ms, unit) job" where
  "reminders_body send cfg =
     andthen Now (\<lambda>now.
     andthen (on_err (Wrapf ''select due reminders'' \<circ> Pg) (exec Tx (SelectDueReminders now))) (\<lambda>due.
     for_each (dispatch_reminder send cfg) due))"

definition dispatchReminders :: "'ms sender \<Rightarrow> sched_config \<Rightarrow> ('ms, unit) job" where
  "dispatchReminders send cfg = in_tx (Wrapf ''begin tx'' \<circ> Pg) Pg (reminders_body send cfg)"

subsection \<open>Digests\<close>

definition candidates :: "conference \<Rightarrow> (string \<times> instant option) list" where
  "candidates c =
     [(''submission'', cPrimaryDeadline c), (''abstract'', cAbstractDeadline c),
      (''notification'', cNotificationDate c), (''camera_ready'', cCameraReadyDate c)]"

definition conference_items :: "location \<Rightarrow> instant \<Rightarrow> instant \<Rightarrow> conference \<Rightarrow> DigestItem list" where
  "conference_items loc now horizon c =
     (if cArchivedAt c \<noteq> None then []
      else [\<lparr>diConferenceName = cName c, diConferenceAcronym = cAcronym c, diDeadlineKind = k,
             diDeadlineDate = (loc, t)\<rparr>.
            (k, ts) \<leftarrow> candidates c, t \<leftarrow> opt_list ts, now < t \<and> \<not> horizon < t])"

definition buildDigestItems ::
  "env \<Rightarrow> sched_config \<Rightarrow> SelectDueDigestsRow \<Rightarrow> ('ms, DigestItem list) job" where
  "buildDigestItems env cfg row =
     andthen (on_err (Wrapf ''list starred'' \<circ> Pg) (exec Pool (ListUserStarredConferences env (ddUserID row)))) (\<lambda>confs.
     andthen Now (\<lambda>t.
     let horizon = AddDate (cfLocal cfg) t 0 0 (ddWeeklyDigestHorizonWeeks row * 7) in
     andthen Now (\<lambda>now.
     ret (concat (map (conference_items (cfLocal cfg) now horizon) confs)))))"

definition digest_message :: "SelectDueDigestsRow \<Rightarrow> DigestItem list \<Rightarrow> string + Message" where
  "digest_message row items =
     (let week = (UTC, ddWeekStarting row) in
      case RenderDigest \<lparr>ddtUserName = ddUserName row, ddtWeekStart = week, ddtItems = items\<rparr> of
        Inl e \<Rightarrow> Inl e
      | Inr (txt, html) \<Rightarrow> Inr \<lparr>mTo = ddUserEmail row,
          mSubject = ''[Confero] Weekly digest '' @ [CHR 0xE2, CHR 0x80, CHR 0x94] @ '' '' @ formatDate week,
          mBodyText = txt, mBodyHTML = html\<rparr>)"

definition digest_unsent :: "sched_config \<Rightarrow> SelectDueDigestsRow \<Rightarrow> string \<Rightarrow> ('ms, unit) job" where
  "digest_unsent cfg row e =
     (if ddAttempts row + 1 \<ge> cfMaxAttempts cfg
      then andthen (attempt (exec Tx (MarkDigestFailed (Some e) (ddID row)))) (\<lambda>_. count_email ''digest'' ''failed'')
      else andthen (attempt (exec Tx (IncrementDigestAttempt (Some e) (ddID row)))) (\<lambda>_. ret ()))"

definition digest_sent :: "SelectDueDigestsRow \<Rightarrow> ('ms, unit) job" where
  "digest_sent row =
     andthen (attempt (exec Tx (MarkDigestSent (ddID row)))) (\<lambda>r.
     case r of Inl _ \<Rightarrow> ret () | Inr _ \<Rightarrow> count_email ''digest'' ''sent'')"

definition dispatch_items ::
  "'ms sender \<Rightarrow> sched_config \<Rightarrow> SelectDueDigestsRow \<Rightarrow> DigestItem list \<Rightarrow> ('ms, unit) job" where
  "dispatch_items send cfg row items =
     (if items = [] then andthen (attempt (exec Tx (MarkDigestSkipped (ddID row)))) (\<lambda>_. ret ())
      else
        (case digest_message row items of
           Inl _ \<Rightarrow> ret ()
         | Inr msg \<Rightarrow> andthen (mail_send send msg) (\<lambda>r.
             case r of Some e \<Rightarrow> digest_unsent cfg row e | None \<Rightarrow> digest_sent row)))"

definition dispatch_digest ::
  "env \<Rightarrow> 'ms sender \<Rightarrow> sched_config \<Rightarrow> SelectDueDigestsRow \<Rightarrow> ('ms, unit) job" where
  "dispatch_digest env send cfg row =
     andthen (attempt (buildDigestItems env cfg row)) (\<lambda>r.
     case r of Inl _ \<Rightarrow> ret () | Inr items \<Rightarrow> dispatch_items send cfg row items)"

definition digests_body :: "env \<Rightarrow> 'ms sender \<Rightarrow> sched_config \<Rightarrow> ('ms, unit) job" where
  "digests_body env send cfg =
     andthen Now (\<lambda>now.
     andthen (on_err (Wrapf ''select due digests'' \<circ> Pg) (exec Tx (SelectDueDigests now))) (\<lambda>due.
     for_each (dispatch_digest env send cfg) due))"

definition dispatchDigests :: "env \<Rightarrow> 'ms sender \<Rightarrow> sched_config \<Rightarrow> ('ms, unit) job" where
  "dispatchDigests env send cfg = in_tx (Wrapf ''begin tx'' \<circ> Pg) Pg (digests_body env send cfg)"

definition mondayOfWeek :: "instant \<Rightarrow> instant" where
  "mondayOfWeek t =
     (let wd = Weekday UTC t; wd = (if wd = 0 then 7 else wd); offset = wd - 1 in
      case date_in UTC t of (y, m, d) \<Rightarrow> go_Date y m (d - offset) 0 0 UTC)"

definition scheduleDigests :: "env \<Rightarrow> ('ms, unit) job" where
  "scheduleDigests env =
     andthen Now (\<lambda>now.
     let week = mondayOfWeek now in
     andthen (on_err (Wrapf ''select digest due users'' \<circ> Pg) (exec Pool (SelectDigestDueUsers env now week))) (\<lambda>uids.
     for_each (\<lambda>u. andthen (attempt (exec Pool (InsertDigestRow u week now))) (\<lambda>_. ret ())) uids))"

subsection \<open>The archive sweep, the gauges and the tick\<close>

definition sweep_one :: "env \<Rightarrow> uuid \<Rightarrow> ('ms, unit) job" where
  "sweep_one env i =
     andthen (on_err (Wrapf (''cancel reminders for '' @ e_uuid_str env i) \<circ> Pg) (exec Tx (CancelConferenceReminders i))) (\<lambda>_.
     andthen (on_err (Wrapf (''archive conference '' @ e_uuid_str env i) \<circ> Pg) (exec Tx (ArchiveConference i))) (\<lambda>_.
     ret ()))"

definition sweep_body :: "env \<Rightarrow> sched_config \<Rightarrow> ('ms, unit) job" where
  "sweep_body env cfg =
     andthen (on_err (Wrapf ''select expired'' \<circ> Pg) (exec Tx (SelectExpiredConferences (int32_of (cfGraceDays cfg))))) (\<lambda>ids.
     for_each (sweep_one env) ids)"

definition sweepArchive :: "env \<Rightarrow> sched_config \<Rightarrow> ('ms, unit) job" where
  "sweepArchive env cfg = in_tx (Wrapf ''begin tx'' \<circ> Pg) Pg (sweep_body env cfg)"

definition updateGauges :: "('ms, unit) job" where
  "updateGauges =
     andthen (on_err Pg (exec Pool CountPendingReminders)) (\<lambda>rc.
     andthen (set_gauge_reminders rc) (\<lambda>_.
     andthen (on_err Pg (exec Pool CountPendingDigests)) (\<lambda>dc.
     set_gauge_digests dc)))"

definition last_sweep :: "('ms, instant) job" where
  "last_sweep c = (Inr (sch_lastSweep c), c)"

definition set_last_sweep :: "instant \<Rightarrow> ('ms, unit) job" where
  "set_last_sweep t c = (Inr (), c\<lparr>sch_lastSweep := t\<rparr>)"

definition sweep_if_due :: "env \<Rightarrow> sched_config \<Rightarrow> instant \<Rightarrow> ('ms, unit) job" where
  "sweep_if_due env cfg t =
     andthen last_sweep (\<lambda>l.
     if time_Sub t l \<ge> archiveInterval
     then andthen (on_err (Wrapf ''archive sweep'') (sweepArchive env cfg)) (\<lambda>_. andthen Now set_last_sweep)
     else ret ())"

definition tick :: "env \<Rightarrow> 'ms sender \<Rightarrow> sched_config \<Rightarrow> ('ms, unit) job" where
  "tick env send cfg =
     andthen (on_err (Wrapf ''dispatch reminders'') (dispatchReminders send cfg)) (\<lambda>_.
     andthen (attempt (scheduleDigests env)) (\<lambda>r.
     andthen (on_err (Wrapf ''dispatch digests'') (dispatchDigests env send cfg)) (\<lambda>_.
     andthen (attempt updateGauges) (\<lambda>g.
     andthen time_Now (sweep_if_due env cfg)))))"

text \<open>
  The loop: a tick at the start and one for every event of the ticker until the context is
  cancelled, \<open>n\<close> events later; an error of a tick is logged.
\<close>

primrec Run_Scheduler :: "env \<Rightarrow> 'ms sender \<Rightarrow> sched_config \<Rightarrow> nat \<Rightarrow> 'ms sched \<Rightarrow> 'ms sched" where
  "Run_Scheduler env send cfg 0 c = snd (tick env send cfg c)"
| "Run_Scheduler env send cfg (Suc n) c = snd (tick env send cfg (Run_Scheduler env send cfg n c))"

subsection \<open>What a job can do to the database\<close>

text \<open>Jobs that touch neither the database nor the transaction.\<close>

definition quiet :: "('ms, 'a) job \<Rightarrow> bool" where
  "quiet m \<longleftrightarrow> (\<forall>c. c_com (snd (m c)) = c_com c \<and> c_tx (snd (m c)) = c_tx c)"

lemma quietD: "quiet m \<Longrightarrow> m c = (r, c') \<Longrightarrow> c_com c' = c_com c \<and> c_tx c' = c_tx c"
  unfolding quiet_def by (metis snd_conv)

lemma quiet_jobs:
  "quiet Now" "quiet time_Now" "quiet (mail_send send m)" "quiet (count_email k l)"
  "quiet (set_gauge_reminders n)" "quiet (set_gauge_digests n)" "quiet last_sweep" "quiet (set_last_sweep t)"
  by (simp_all add: quiet_def Now_def time_Now_def mail_send_def count_email_def set_gauge_reminders_def
      set_gauge_digests_def last_sweep_def set_last_sweep_def split: prod.splits)

text \<open>
  The interface between the scheduler and the repository, for one relation along which databases
  evolve: each write the scheduler issues is a step of it. Then so is each job.
\<close>

locale sweep_writes = evolution R for R :: "db \<Rightarrow> db \<Rightarrow> bool" +
  assumes step_insert: "sql_step R (InsertDigestRow u w t)"
    and step_sweep: "sql_step R (CancelConferenceReminders i)" "sql_step R (ArchiveConference i)"
begin

lemma tx_quiet: "quiet m \<Longrightarrow> tx_evolves R m"
  unfolding tx_evolves_def by (intro allI impI) (drule quietD, assumption, simp add: R_refl)

lemma out_quiet: "quiet m \<Longrightarrow> evolves R m"
  unfolding evolves_def by (intro allI impI) (drule quietD, assumption, simp add: R_refl)

lemma out_if: "evolves R f \<Longrightarrow> evolves R g \<Longrightarrow> evolves R (if b then f else g)"
  by simp

lemmas reads = conference_reads_only [THEN step_of_reads] dispatch_reads_only [THEN step_of_reads]
  SelectDigestDueUsers_reads_only [THEN step_of_reads] SelectExpiredConferences_reads_only [THEN step_of_reads]

lemmas tx_steps = tx_rules tx_exec quiet_jobs [THEN tx_quiet] reads step_sweep

lemmas out_steps = out_rules out_exec quiet_jobs [THEN out_quiet] reads step_insert

lemma keeps_scheduleDigests: "evolves R (scheduleDigests env)"
  unfolding scheduleDigests_def Let_def by (intro out_steps)

lemma keeps_sweepArchive: "evolves R (sweepArchive env cfg)"
  unfolding sweepArchive_def sweep_body_def sweep_one_def by (intro out_in_tx tx_steps)

lemma keeps_updateGauges: "evolves R updateGauges"
  unfolding updateGauges_def by (intro out_steps)

lemma keeps_sweep_if_due: "evolves R (sweep_if_due env cfg t)"
  unfolding sweep_if_due_def by (intro out_steps out_if keeps_sweepArchive)

lemma keeps_tick_if:
  assumes "evolves R (dispatchReminders send cfg)" and "evolves R (dispatchDigests env send cfg)"
  shows "evolves R (tick env send cfg)"
  unfolding tick_def
  by (intro out_steps assms keeps_scheduleDigests keeps_updateGauges keeps_sweep_if_due)

lemma keeps_Run_if:
  assumes tick: "evolves R (tick env send cfg)"
  shows "c_tx c = None \<Longrightarrow> c_tx (Run_Scheduler env send cfg n c) = None
    \<and> R (c_com c) (c_com (Run_Scheduler env send cfg n c))"
proof (induction n)
  case 0
  show ?case using evolvesD [OF tick 0] by (cases "tick env send cfg c") simp
next
  case (Suc n)
  let ?c = "Run_Scheduler env send cfg n c"
  show ?case
    using Suc evolvesD [OF tick, of ?c] R_trans by (cases "tick env send cfg ?c") auto
qed

end

locale digest_writes = sweep_writes R for R :: "db \<Rightarrow> db \<Rightarrow> bool" +
  assumes step_digest: "sql_step R (MarkDigestSent i)" "sql_step R (MarkDigestFailed e i)"
      "sql_step R (IncrementDigestAttempt e i)" "sql_step R (MarkDigestSkipped i)"
begin

lemma tx_case_sum:
  "(\<And>e. tx_evolves R (f e)) \<Longrightarrow> (\<And>a. tx_evolves R (g a)) \<Longrightarrow> tx_evolves R (case r of Inl e \<Rightarrow> f e | Inr a \<Rightarrow> g a)"
  by (cases r) simp_all

lemma tx_case_option:
  "tx_evolves R f \<Longrightarrow> (\<And>a. tx_evolves R (g a)) \<Longrightarrow> tx_evolves R (case r of None \<Rightarrow> f | Some a \<Rightarrow> g a)"
  by (cases r) simp_all

lemma tx_if: "tx_evolves R f \<Longrightarrow> tx_evolves R g \<Longrightarrow> tx_evolves R (if b then f else g)"
  by simp

lemmas tx_jobs = tx_steps step_digest tx_case_sum tx_case_option tx_if

lemma keeps_buildDigestItems: "tx_evolves R (buildDigestItems env cfg row)"
  unfolding buildDigestItems_def Let_def by (intro tx_jobs tx_exec_pool conference_reads_only)

lemma keeps_dispatch_digest: "tx_evolves R (dispatch_digest env send cfg row)"
  unfolding dispatch_digest_def dispatch_items_def digest_unsent_def digest_sent_def
  by (intro tx_jobs keeps_buildDigestItems)

lemma keeps_dispatchDigests: "evolves R (dispatchDigests env send cfg)"
  unfolding dispatchDigests_def digests_body_def by (intro out_in_tx tx_jobs keeps_dispatch_digest)

end

locale scheduler_writes = digest_writes R for R :: "db \<Rightarrow> db \<Rightarrow> bool" +
  assumes step_reminder: "sql_step R (MarkReminderSent i)" "sql_step R (MarkReminderFailed e i)"
      "sql_step R (IncrementReminderAttempt e i)"
begin

lemma keeps_dispatch_reminder: "tx_evolves R (dispatch_reminder send cfg row)"
  unfolding dispatch_reminder_def reminder_unsent_def reminder_sent_def by (intro tx_jobs step_reminder)

lemma keeps_dispatchReminders: "evolves R (dispatchReminders send cfg)"
  unfolding dispatchReminders_def reminders_body_def by (intro out_in_tx tx_jobs keeps_dispatch_reminder)

lemma keeps_tick: "evolves R (tick env send cfg)"
  by (rule keeps_tick_if [OF keeps_dispatchReminders keeps_dispatchDigests])

end

interpretation wf_sched: scheduler_writes "wf_step env" for env
  by unfold_locales (rule keeps_intros)+

lemma hist_digests:
  "sql_step keeps_history (MarkDigestSent i)" "sql_step keeps_history (MarkDigestFailed e i)"
  "sql_step keeps_history (IncrementDigestAttempt e i)" "sql_step keeps_history (MarkDigestSkipped i)"
  by (rule hist_stepI, auto simp: MarkDigestSent_def MarkDigestFailed_def IncrementDigestAttempt_def
      MarkDigestSkipped_def set_digest_def with_texts_def split: if_splits)+

interpretation hist_sched: digest_writes keeps_history
  by unfold_locales (rule hist_digests keeps_intros)+

interpretation any_sched: scheduler_writes "\<lambda>_ _. True"
  by unfold_locales (simp_all add: sql_step_def)

end
