(* ===== verification/Startup.thy ===== *)
theory Startup
  imports Router Scheduler
begin

text \<open>
  The start of the server: \<^verbatim>\<open>config/config.go\<close>, \<^verbatim>\<open>database/pool.go\<close> and the function
  \<^verbatim>\<open>run\<close> of \<^verbatim>\<open>cmd/confero-server/main.go\<close>. The environment, the migration and pool
  libraries and the discovery of the identity provider are arguments. What \<open>run\<close> does is the list
  of its steps, and the exit code.
\<close>

subsection \<open>Numbers\<close>

text \<open>\<^verbatim>\<open>strconv.Atoi\<close>: an optional sign and decimal digits, in the range of 64 bits.\<close>

definition decimal :: "string \<Rightarrow> int option" where
  "decimal s =
     (if s \<noteq> [] \<and> list_all isDigit s then Some (foldl (\<lambda>n c. n * 10 + digit_value c) 0 s) else None)"

definition in_int64 :: "int \<Rightarrow> int option" where
  "in_int64 n = (if - (2 ^ 63) \<le> n \<and> n < 2 ^ 63 then Some n else None)"

fun Atoi :: "string \<Rightarrow> int option" where
  "Atoi [] = None"
| "Atoi (c # s) =
     (if c = CHR ''-'' then Option.bind (decimal s) (\<lambda>n. in_int64 (- n))
      else if c = CHR ''+'' then Option.bind (decimal s) in_int64
      else Option.bind (decimal (c # s)) in_int64)"

subsection \<open>Configuration\<close>

record Config =
  cgHTTPAddr :: string
  cgDatabaseURL :: string
  cgOIDCIssuerURL :: string
  cgOIDCClientID :: string
  cgOIDCClientSecret :: string
  cgOIDCRedirectURL :: string
  cgOIDCMemberValue :: string
  cgOIDCAdminValue :: string
  cgSessionSecret :: string
  cgSMTPAddr :: string
  cgSMTPUsername :: string
  cgSMTPPassword :: string
  cgSMTPFrom :: string
  cgPublicBaseURL :: string
  cgArchiveGraceDays :: int
  cgLogLevel :: string

definition or_default :: "string \<Rightarrow> string \<Rightarrow> string" where
  "or_default v d = (if v \<noteq> [] then v else d)"

definition grace_days :: "string \<Rightarrow> int" where
  "grace_days v =
     (if v \<noteq> [] then (case Atoi v of Some n \<Rightarrow> if 0 < n then n else 7 | None \<Rightarrow> 7) else 7)"

definition Load :: "(string \<Rightarrow> string) \<Rightarrow> Config" where
  "Load getenv = \<lparr>
     cgHTTPAddr = or_default (getenv ''CONFERO_HTTP_ADDR'') '':8080'',
     cgDatabaseURL = getenv ''CONFERO_DATABASE_URL'',
     cgOIDCIssuerURL = getenv ''CONFERO_OIDC_ISSUER_URL'',
     cgOIDCClientID = getenv ''CONFERO_OIDC_CLIENT_ID'',
     cgOIDCClientSecret = getenv ''CONFERO_OIDC_CLIENT_SECRET'',
     cgOIDCRedirectURL = getenv ''CONFERO_OIDC_REDIRECT_URL'',
     cgOIDCMemberValue = getenv ''CONFERO_OIDC_MEMBER_VALUE'',
     cgOIDCAdminValue = getenv ''CONFERO_OIDC_ADMIN_VALUE'',
     cgSessionSecret = getenv ''CONFERO_SESSION_SECRET'',
     cgSMTPAddr = getenv ''CONFERO_SMTP_ADDR'',
     cgSMTPUsername = getenv ''CONFERO_SMTP_USERNAME'',
     cgSMTPPassword = getenv ''CONFERO_SMTP_PASSWORD'',
     cgSMTPFrom = getenv ''CONFERO_SMTP_FROM'',
     cgPublicBaseURL = getenv ''CONFERO_PUBLIC_BASE_URL'',
     cgArchiveGraceDays = grace_days (getenv ''CONFERO_ARCHIVE_GRACE_DAYS''),
     cgLogLevel = or_default (getenv ''CONFERO_LOG_LEVEL'') ''info''\<rparr>"

definition required :: "Config \<Rightarrow> (string \<times> string) list" where
  "required c =
     [(cgDatabaseURL c, ''CONFERO_DATABASE_URL''), (cgOIDCIssuerURL c, ''CONFERO_OIDC_ISSUER_URL''),
      (cgOIDCClientID c, ''CONFERO_OIDC_CLIENT_ID''), (cgOIDCClientSecret c, ''CONFERO_OIDC_CLIENT_SECRET''),
      (cgOIDCRedirectURL c, ''CONFERO_OIDC_REDIRECT_URL''), (cgOIDCMemberValue c, ''CONFERO_OIDC_MEMBER_VALUE''),
      (cgOIDCAdminValue c, ''CONFERO_OIDC_ADMIN_VALUE''), (cgSessionSecret c, ''CONFERO_SESSION_SECRET'')]"

text \<open>The errors that are joined; none of them is no error.\<close>

definition Validate_config :: "Config \<Rightarrow> string list" where
  "Validate_config c =
     map (\<lambda>(v, name). ''required env var not set: '' @ name) (filter (\<lambda>(v, name). v = []) (required c))
     @ (if length (cgSessionSecret c) < 32 then [''CONFERO_SESSION_SECRET must be at least 32 bytes''] else [])"

subsection \<open>Steps of the start\<close>

datatype up_result = Up_done | ErrNoChange | Up_error string

datatype start_mailer = SMTPMailer SMTPConfig | Fake_mailer

record parts =
  ptAddr :: string
  ptSecret :: string
  ptPublicBaseURL :: string
  ptMailer :: start_mailer
  ptTick :: int
  ptSched :: sched_config

datatype start_step =
    Migrated string
  | Pool_opened string
  | Pool_closed
  | Slept nat
  | Served parts

record externals =
  exGetenv :: "string \<Rightarrow> string"
  exLocal :: location
  exSource :: "string option"
  exMigrate_new :: "string \<Rightarrow> string option"
  exMigrate_up :: up_result
  exPool_new :: "string \<Rightarrow> string option"
  exPing :: "string option"
  exProvider :: "nat \<Rightarrow> string + unit"
  exWait :: "string option"

text \<open>\<open>RunMigrations\<close> and \<open>NewPool\<close> give their steps and the error, if there is one.\<close>

definition RunMigrations :: "externals \<Rightarrow> string \<Rightarrow> start_step list \<times> err option" where
  "RunMigrations x dsn =
     (case exSource x of
        Some e \<Rightarrow> ([], Some (Wrapf ''iofs.New'' (OtherErr e)))
      | None \<Rightarrow>
          (case exMigrate_new x dsn of
             Some e \<Rightarrow> ([], Some (Wrapf ''migrate.New'' (OtherErr e)))
           | None \<Rightarrow>
               (case exMigrate_up x of
                  Up_error e \<Rightarrow> ([], Some (Wrapf ''migrate up'' (OtherErr e)))
                | _ \<Rightarrow> ([Migrated dsn], None))))"

definition NewPool :: "externals \<Rightarrow> string \<Rightarrow> start_step list \<times> err option" where
  "NewPool x dsn =
     (case exPool_new x dsn of
        Some e \<Rightarrow> ([], Some (Wrapf ''pgxpool.New'' (OtherErr e)))
      | None \<Rightarrow>
          (case exPing x of
             Some e \<Rightarrow> ([Pool_opened dsn, Pool_closed], Some (Wrapf ''pool ping'' (OtherErr e)))
           | None \<Rightarrow> ([Pool_opened dsn], None)))"

definition main_mailer :: "Config \<Rightarrow> start_mailer" where
  "main_mailer cfg =
     (if cgSMTPAddr cfg \<noteq> []
      then SMTPMailer \<lparr>smAddr = cgSMTPAddr cfg, smFrom = cgSMTPFrom cfg,
             smUsername = cgSMTPUsername cfg, smPassword = cgSMTPPassword cfg\<rparr>
      else Fake_mailer)"

definition main_parts :: "externals \<Rightarrow> Config \<Rightarrow> parts" where
  "main_parts x cfg = \<lparr>
     ptAddr = cgHTTPAddr cfg, ptSecret = cgSessionSecret cfg, ptPublicBaseURL = cgPublicBaseURL cfg,
     ptMailer = main_mailer cfg, ptTick = 60 * 10 ^ 9,
     ptSched = New_Scheduler \<lparr>cfLocal = exLocal x, cfGraceDays = cgArchiveGraceDays cfg, cfMaxAttempts = 0\<rparr>\<rparr>"

definition main_run :: "externals \<Rightarrow> start_step list \<times> int" where
  "main_run x =
     (let cfg = Load (exGetenv x) in
      if Validate_config cfg \<noteq> [] then ([], 1)
      else
        (case RunMigrations x (cgDatabaseURL cfg) of
           (st1, Some e) \<Rightarrow> (st1, 1)
         | (st1, None) \<Rightarrow>
             (case NewPool x (cgDatabaseURL cfg) of
                (st2, Some e) \<Rightarrow> (st1 @ st2, 1)
              | (st2, None) \<Rightarrow>
                  (case NewOIDCHandler (exProvider x) of
                     (Inl e, n) \<Rightarrow> (st1 @ st2 @ [Slept n, Pool_closed], 1)
                   | (Inr _, n) \<Rightarrow>
                       (st1 @ st2 @ [Slept n, Served (main_parts x cfg), Pool_closed],
                        case exWait x of Some e \<Rightarrow> 1 | None \<Rightarrow> 0)))))"

subsection \<open>Reading numbers back\<close>

lemma nat_str_not_Nil: "nat_str n \<noteq> []"
  by (simp add: nat_str.simps [of n])

lemma nat_str_isDigit: "list_all isDigit (nat_str n)"
proof (induction n rule: nat_str.induct)
  case (1 n)
  have "isDigit (digit_char d)" if "d < 10" for d
    using that of_char_digit [of d] by (simp add: isDigit_def)
  with 1 show ?case by (subst nat_str.simps) simp
qed

lemma nat_str_decimal: "foldl (\<lambda>n c. n * 10 + digit_value c) 0 (nat_str n) = int n"
proof (induction n rule: nat_str.induct)
  case (1 n)
  have digit: "digit_value (digit_char d) = int d" if "d < 10" for d
    using that of_char_digit [of d] by (simp add: digit_value_def)
  show ?case
  proof (cases "n < 10")
    case True
    then show ?thesis using digit by (simp add: nat_str.simps [of n])
  next
    case False
    have "int (n div 10) * 10 + int (n mod 10) = int n"
      by (metis div_mult_mod_eq of_nat_add of_nat_mult of_nat_numeral)
    with False 1 digit show ?thesis by (simp add: nat_str.simps [of n])
  qed
qed

lemma Atoi_Itoa:
  assumes "0 \<le> n" "n < 2 ^ 63"
  shows "Atoi (Itoa n) = Some n"
proof -
  obtain c s where cs: "nat_str (nat n) = c # s" using nat_str_not_Nil by (cases "nat_str (nat n)") auto
  have "isDigit c" using nat_str_isDigit [of "nat n"] cs by simp
  then have "c \<noteq> CHR ''-''" "c \<noteq> CHR ''+''" by (auto simp: isDigit_def)
  moreover have "decimal (c # s) = Some n"
    using nat_str_isDigit [of "nat n"] nat_str_decimal [of "nat n"] assms(1) unfolding cs
    by (simp add: decimal_def)
  ultimately show ?thesis using assms by (simp add: Itoa_def cs in_int64_def)
qed

subsection \<open>Properties\<close>

text \<open>
  C40: The configuration passes its validation exactly when the eight required variables are set
  and the session secret has 32 bytes. The grace period of the archive is always a positive
  number of days: the one that is set, if it is a positive number of 63 bits, and 7 otherwise.
\<close>

theorem config_correct:
  "(Validate_config (Load getenv) = [] \<longleftrightarrow>
      [] \<notin> getenv ` {''CONFERO_DATABASE_URL'', ''CONFERO_OIDC_ISSUER_URL'', ''CONFERO_OIDC_CLIENT_ID'',
        ''CONFERO_OIDC_CLIENT_SECRET'', ''CONFERO_OIDC_REDIRECT_URL'', ''CONFERO_OIDC_MEMBER_VALUE'',
        ''CONFERO_OIDC_ADMIN_VALUE''}
      \<and> length (getenv ''CONFERO_SESSION_SECRET'') \<ge> 32)
   \<and> 0 < cgArchiveGraceDays (Load getenv)
   \<and> (\<forall>n. getenv ''CONFERO_ARCHIVE_GRACE_DAYS'' = Itoa n \<and> 0 < n \<and> n < 2 ^ 63 \<longrightarrow>
        cgArchiveGraceDays (Load getenv) = n)"
proof (intro conjI allI impI)
  show "Validate_config (Load getenv) = [] \<longleftrightarrow>
      [] \<notin> getenv ` {''CONFERO_DATABASE_URL'', ''CONFERO_OIDC_ISSUER_URL'', ''CONFERO_OIDC_CLIENT_ID'',
        ''CONFERO_OIDC_CLIENT_SECRET'', ''CONFERO_OIDC_REDIRECT_URL'', ''CONFERO_OIDC_MEMBER_VALUE'',
        ''CONFERO_OIDC_ADMIN_VALUE''}
      \<and> length (getenv ''CONFERO_SESSION_SECRET'') \<ge> 32"
    by (auto simp: Validate_config_def required_def Load_def)
  show "0 < cgArchiveGraceDays (Load getenv)"
    by (simp add: Load_def grace_days_def split: option.split)
  fix n assume n: "getenv ''CONFERO_ARCHIVE_GRACE_DAYS'' = Itoa n \<and> 0 < n \<and> n < 2 ^ 63"
  then have "Itoa n \<noteq> []" using nat_str_not_Nil by (simp add: Itoa_def)
  with n show "cgArchiveGraceDays (Load getenv) = n"
    by (simp add: Load_def grace_days_def Atoi_Itoa)
qed

definition sample_getenv :: "string \<Rightarrow> string" where
  "sample_getenv k = (if k = ''CONFERO_ARCHIVE_GRACE_DAYS'' then ''14''
     else if k = ''CONFERO_SESSION_SECRET'' then replicate 32 (CHR ''s'') else ''x'')"

lemma Itoa_14: "Itoa 14 = ''14''"
  by (simp add: Itoa_def nat_str.simps digit_char_def char_of_eq_iff)

theorem config_correct_witness:
  "Validate_config (Load sample_getenv) = [] \<and> cgArchiveGraceDays (Load sample_getenv) = 14"
proof -
  have "sample_getenv ''CONFERO_ARCHIVE_GRACE_DAYS'' = Itoa 14 \<and> 0 < (14 :: int) \<and> (14 :: int) < 2 ^ 63"
    by (simp add: sample_getenv_def Itoa_14)
  moreover have "length (sample_getenv ''CONFERO_SESSION_SECRET'') \<ge> 32"
    by (simp add: sample_getenv_def)
  ultimately show ?thesis using config_correct [of sample_getenv] by (auto simp: sample_getenv_def)
qed

lemma discovery_finds:
  "(\<exists>p n'. discovery np ks e n = (Inr p, n')) \<longleftrightarrow> (\<exists>k \<in> set ks. \<exists>p. np k = Inr p)"
proof (induction ks arbitrary: e n)
  case (Cons k ks)
  show ?case by (cases "np k") (simp_all add: Cons)
qed simp

lemma discovery_sleeps:
  assumes "discovery np [k..<11] e n = (r, n')" and "k \<le> 10"
  shows "n' \<le> n + (10 - k)"
  using assms
proof (induction "10 - k" arbitrary: k e n)
  case 0
  then show ?case by (auto simp: upt_conv_Cons split: sum.splits)
next
  case (Suc m)
  then have k: "k < 10" by simp
  show ?case
  proof (cases "np k")
    case (Inl x)
    then have "discovery np [Suc k..<11] x (n + 1) = (r, n')"
      using Suc.prems k by (simp add: upt_conv_Cons)
    moreover have "m = 10 - Suc k" using Suc.hyps(2) by simp
    moreover have "Suc k \<le> 10" using k by simp
    ultimately have "n' \<le> n + 1 + (10 - Suc k)" using Suc.hyps(1) by blast
    then show ?thesis using k by simp
  next
    case (Inr p)
    then show ?thesis using Suc.prems k by (simp add: upt_conv_Cons)
  qed
qed

lemma discovery_ten:
  assumes "discovery provider [1..<11] [] 0 = (r, n)"
  shows "n \<le> 9" and "(\<exists>p. r = Inr p) \<longleftrightarrow> (\<exists>k \<in> {1..10}. provider k = Inr ())"
proof -
  show "n \<le> 9" using discovery_sleeps [OF assms] by simp
  have "(\<exists>p. r = Inr p) \<longleftrightarrow> (\<exists>k \<in> set [1..<11]. provider k = Inr ())"
    using discovery_finds [of provider "[1..<11]" "[]" 0] assms by auto
  moreover have "set [1..<11] = {1..10 :: nat}" by auto
  ultimately show "(\<exists>p. r = Inr p) \<longleftrightarrow> (\<exists>k \<in> {1..10}. provider k = Inr ())" by simp
qed

text \<open>
  C34: The server serves exactly when the configuration is valid, the migrations run or find
  nothing to do, the pool opens and answers, and one of ten attempts discovers the identity
  provider; it has migrated the database and opened the pool before, with the same address. If it
  does not serve it exits with 1. A pool that was opened is closed at the end, and the wait for
  the provider is at most nine sleeps.
\<close>

theorem startup_correct:
  assumes "main_run x = (steps, code)"
  shows "((\<exists>q. Served q \<in> set steps) \<longleftrightarrow>
        Validate_config (Load (exGetenv x)) = []
        \<and> snd (RunMigrations x (cgDatabaseURL (Load (exGetenv x)))) = None
        \<and> snd (NewPool x (cgDatabaseURL (Load (exGetenv x)))) = None
        \<and> (\<exists>k \<in> {1..10}. exProvider x k = Inr ()))
    \<and> ((\<exists>q. Served q \<in> set steps) \<longrightarrow> (\<exists>n \<le> 9. steps =
          [Migrated (exGetenv x ''CONFERO_DATABASE_URL''), Pool_opened (exGetenv x ''CONFERO_DATABASE_URL''),
           Slept n, Served (main_parts x (Load (exGetenv x))), Pool_closed]))
    \<and> ((\<forall>q. Served q \<notin> set steps) \<longrightarrow> code = 1)
    \<and> (Pool_opened (exGetenv x ''CONFERO_DATABASE_URL'') \<in> set steps \<longrightarrow> last steps = Pool_closed)"
proof -
  let ?cfg = "Load (exGetenv x)" and ?dsn = "exGetenv x ''CONFERO_DATABASE_URL''"
  have dsn: "cgDatabaseURL ?cfg = ?dsn" by (simp add: Load_def)
  obtain st1 e1 where m: "RunMigrations x ?dsn = (st1, e1)" by force
  obtain st2 e2 where p: "NewPool x ?dsn = (st2, e2)" by force
  obtain r n where o': "discovery (exProvider x) [1..<11] [] 0 = (r, n)" by force
  have st1: "st1 = (if e1 = None then [Migrated ?dsn] else [])"
    using m by (auto simp: RunMigrations_def split: option.splits up_result.splits)
  have st2: "st2 = [Pool_opened ?dsn] \<and> e2 = None \<or> e2 \<noteq> None \<and> st2 \<in> {[], [Pool_opened ?dsn, Pool_closed]}"
    using p by (auto simp: NewPool_def split: option.splits)
  note n = discovery_ten(1) [OF o'] and r = discovery_ten(2) [OF o']
  show ?thesis
  proof (cases "Validate_config ?cfg = [] \<and> e1 = None \<and> e2 = None")
    case False
    then have "\<exists>st. main_run x = (st, 1) \<and> (st = [] \<or> st = st1 \<or> st = st1 @ st2 \<and> e2 \<noteq> None)"
      using m p dsn by (auto simp: main_run_def Let_def split: option.splits)
    then show ?thesis using assms False st1 st2 m p dsn by auto
  next
    case True
    then have st: "st1 = [Migrated ?dsn]" "st2 = [Pool_opened ?dsn]" using st1 st2 by auto
    show ?thesis
    proof (cases r)
      case (Inl e)
      then have "main_run x = (st1 @ st2 @ [Slept n, Pool_closed], 1)"
        using True m p dsn o' by (simp add: main_run_def NewOIDCHandler_def)
      then show ?thesis using assms st r Inl by auto
    next
      case (Inr u)
      then have "main_run x = (st1 @ st2 @ [Slept n, Served (main_parts x ?cfg), Pool_closed],
          case exWait x of Some e \<Rightarrow> 1 | None \<Rightarrow> 0)"
        using True m p dsn o' by (simp add: main_run_def NewOIDCHandler_def)
      then show ?thesis using assms st r Inr True m p dsn n by auto
    qed
  qed
qed

text \<open>A start that finds the provider at the second attempt.\<close>

definition sample_externals :: externals where
  "sample_externals = \<lparr>exGetenv = sample_getenv, exLocal = UTC, exSource = None,
     exMigrate_new = (\<lambda>_. None), exMigrate_up = ErrNoChange, exPool_new = (\<lambda>_. None), exPing = None,
     exProvider = (\<lambda>k. if k < 2 then Inl ''refused'' else Inr ()), exWait = None\<rparr>"

theorem startup_correct_witness:
  "\<exists>steps code q. main_run sample_externals = (steps, code) \<and> Served q \<in> set steps
     \<and> hd steps = Migrated ''x''"
proof -
  obtain steps code where run: "main_run sample_externals = (steps, code)" by (rule prod.exhaust)
  have "Validate_config (Load sample_getenv) = []"
    by (simp add: Validate_config_def required_def Load_def sample_getenv_def)
  moreover have "\<exists>k \<in> {1..10}. exProvider sample_externals k = Inr ()"
    by (rule bexI [of _ 2]) (simp_all add: sample_externals_def)
  ultimately have "\<exists>q. Served q \<in> set steps"
    using startup_correct [OF run] by (simp add: sample_externals_def RunMigrations_def NewPool_def)
  with startup_correct [OF run] run show ?thesis
    by (auto simp: sample_externals_def sample_getenv_def)
qed

end
