(* ===== verification/Api_Contract.thy ===== *)
theory Api_Contract
  imports Http_Replies Http_Facts Conference_Facts
begin

text \<open>
  The contract of the API: the statuses that \<^verbatim>\<open>api/openapi.yaml\<close> lists for each operation, and
  that a reply which blames the client leaves the database as it was.
\<close>

subsection \<open>Services that blame the client\<close>

text \<open>An error that a handler answers itself leaves the database alone.\<close>

definition clean_errors :: "('m conn_scheme \<Rightarrow> (err + 'b) \<times> 'm conn_scheme) \<Rightarrow> (err \<Rightarrow> 'a option) \<Rightarrow> bool" where
  "clean_errors m bad \<longleftrightarrow> (\<forall>s e s'. c_tx s = None \<longrightarrow> m s = (Inl e, s') \<longrightarrow> bad e \<noteq> None \<longrightarrow> c_com s' = c_com s)"

lemma clean_atomic: "atomic m \<Longrightarrow> clean_errors m bad"
  unfolding atomic_def clean_errors_def by blast

lemma clean_never: "clean_errors m never"
  by (simp add: clean_errors_def never_def)

lemma andthen_InlE:
  assumes "andthen m f c = (Inl e, c')"
  obtains (first) "m c = (Inl e, c')" | (second) a c1 where "m c = (Inr a, c1)" "f a c1 = (Inl e, c')"
  using assms by (auto simp: andthen_def split: prod.splits sum.splits)

lemma atomicD: "atomic m \<Longrightarrow> c_tx s = None \<Longrightarrow> m s = (Inl e, s') \<Longrightarrow> c_com s' = c_com s"
  unfolding atomic_def by blast

lemma atomic_andthen_ret:
  assumes "atomic m"
  shows "atomic (andthen m (\<lambda>x. ret (f x)))"
  unfolding atomic_def
proof (intro allI impI)
  fix c e c'
  assume c: "c_tx c = None" and run: "andthen m (\<lambda>x. ret (f x)) c = (Inl e, c')"
  from run show "c_com c' = c_com c"
  proof (cases rule: andthen_InlE)
    case first
    with assms c show ?thesis by (rule atomicD)
  qed (simp add: ret_def)
qed

lemma clean_andthen:
  assumes "atomic m" and "\<And>a s e s'. f a s = (Inl e, s') \<Longrightarrow> bad e = None"
  shows "clean_errors (andthen m f) bad"
  unfolding clean_errors_def
proof (intro allI impI)
  fix s e s'
  assume s: "c_tx s = None" and run: "andthen m f s = (Inl e, s')" and bad: "bad e \<noteq> None"
  from run show "c_com s' = c_com s"
  proof (cases rule: andthen_InlE)
    case first
    with assms(1) s show ?thesis by (rule atomicD)
  next
    case second
    from assms(2) [OF this(2)] bad show ?thesis by simp
  qed
qed

lemma atomic_conference:
  "atomic (Create_conference env inp actor)" "atomic (Update_conference env i inp actor)"
  unfolding Create_conference_def Update_conference_def
  by (intro atomic_checked atomic_in_tx any_conf.body_create any_conf.body_update)+

lemma atomic_star: "atomic (Star env u i)" "atomic (Unstar u i)"
  unfolding Star_def Unstar_def
  by (intro atomic_andthen atomic_in_tx any_star.body_star any_star.body_unstar same.out_on_err same.out_exec
      same.step_of_reads conference_reads_only user_reads_only)+

lemma atomic_Update_settings: "atomic (Update_settings env u st)"
  unfolding Update_settings_def by (intro atomic_checked atomic_in_tx any_settings.body_settings)

lemma atomic_Delete_token: "atomic (Delete_token u)"
  unfolding Delete_token_def
  by (rule atomic_andthen) (auto intro!: same.out_on_err same.out_exec same.step_of_reads user_reads_only
      atomic_on_err atomic_exec atomic_fail)

lemma atomic_LookupToken: "atomic (LookupToken token)"
  unfolding LookupToken_def by (intro atomic_andthen_ret atomic_on_err atomic_exec)

lemmas atomic_services = atomic_conference atomic_star atomic_Update_settings atomic_Delete_token
  reads_only_service [THEN atomic_reads]

lemma DeleteConference_none:
  assumes "DeleteConference i x d = Inr (0, d')"
  shows "d' = d"
proof -
  have none: "filter (\<lambda>c. cID c = i) (conferences d) = []" using assms by (simp add: DeleteConference_def)
  then have "delete_where (\<lambda>c. cID c = i) (conferences d) = conferences d" "i \<notin> set (conf_ids d)"
    by (auto simp: filter_empty_conv delete_where_def conf_ids_def)
  then show ?thesis using assms by (simp add: DeleteConference_def)
qed

lemma clean_Delete: "clean_errors (Delete_conference i) bad"
  unfolding clean_errors_def
proof (intro allI impI)
  fix s e s'
  assume s: "c_tx s = None" and run: "Delete_conference i s = (Inl e, s')"
  from run [unfolded Delete_conference_def] show "c_com s' = c_com s"
  proof (cases rule: andthen_InlE)
    case first
    with s show ?thesis by (rule atomicD [OF atomic_on_err [OF atomic_exec]])
  next
    case (second n s1)
    then have n: "n = 0" and s': "s' = s1" by (simp_all add: fail_def ret_def split: if_splits)
    have "exec Pool (DeleteConference i) s = (Inr n, s1)"
      using second(1) by (simp add: on_err_def split: prod.splits sum.splits)
    then show ?thesis unfolding s' n by (auto elim!: exec_Pool_InrE dest!: DeleteConference_none)
  qed
qed

text \<open>After the commit of an archiving only the database can fail, which is not the client's fault.\<close>

lemma attach_error:
  assumes "attachTagsAndTracks env row s = (Inl e, s')"
  shows "on_not_found f e = None"
  using assms
  by (auto simp: attachTagsAndTracks_def andthen_def on_err_def ret_def on_not_found_def split: prod.splits sum.splits)

lemma clean_archive:
  "clean_errors (Archive_conference env i) (on_not_found f)"
  "clean_errors (Unarchive_conference env i) (on_not_found f)"
  unfolding Archive_conference_def Unarchive_conference_def
  by (rule clean_andthen, intro atomic_in_tx any_conf.body_archive atomic_on_err atomic_exec,
      erule attach_error)+

lemmas clean_rules = clean_never clean_Delete clean_archive atomic_services [THEN clean_atomic]


subsection \<open>The documented responses\<close>

datatype schema =
    No_content | Text | Problem | Current_user | A_conference | Conference_list | Tag_list | Track_list
  | Settings_of | A_token | Token_list | Audit_entries | Import_counts | Health_status | Text_calendar

fun schema_of :: "body \<Rightarrow> schema" where
  "schema_of NoBody = No_content"
| "schema_of (PlainBody _) = Text"
| "schema_of (ProblemBody _) = Problem"
| "schema_of (UserBody _) = Current_user"
| "schema_of (ConferenceBody _) = A_conference"
| "schema_of (ConferencesBody _) = Conference_list"
| "schema_of (TagsBody _) = Tag_list"
| "schema_of (TracksBody _) = Track_list"
| "schema_of (SettingsBody _) = Settings_of"
| "schema_of (TokenBody _) = A_token"
| "schema_of (TokensBody _) = Token_list"
| "schema_of (AuditBody _) = Audit_entries"
| "schema_of (ImportBody _) = Import_counts"
| "schema_of (HealthBody _) = Health_status"
| "schema_of (CalendarBody _) = Text_calendar"

definition problems :: "int set \<Rightarrow> (int \<times> schema) set" where
  "problems codes = (\<lambda>c. (c, Problem)) ` codes"

text \<open>What \<^verbatim>\<open>api/openapi.yaml\<close> lists; it has nothing on metrics and the sign-in.\<close>

fun documented :: "route \<Rightarrow> (int \<times> schema) set" where
  "documented Healthz = {(200, Health_status)}"
| "documented Me = insert (200, Current_user) (problems {401})"
| "documented Conferences_list = {(200, Conference_list)}"
| "documented Conference_create = insert (201, A_conference) (problems {400, 401, 403, 409})"
| "documented Conference_get = insert (200, A_conference) (problems {404})"
| "documented Conference_update = insert (200, A_conference) (problems {400, 401, 403, 404, 409})"
| "documented Conference_delete = insert (204, No_content) (problems {401, 403, 404})"
| "documented Conference_archive = insert (200, A_conference) (problems {401, 403, 404})"
| "documented Conference_unarchive = insert (200, A_conference) (problems {401, 403, 404})"
| "documented Conference_star = insert (204, No_content) (problems {401, 403, 404})"
| "documented Conference_unstar = insert (204, No_content) (problems {401, 403, 404})"
| "documented My_stars = insert (200, Conference_list) (problems {401})"
| "documented My_settings = insert (200, Settings_of) (problems {401})"
| "documented My_settings_update = insert (200, Settings_of) (problems {400, 401})"
| "documented Tags_list = insert (200, Tag_list) (problems {401})"
| "documented Tracks_list = insert (200, Track_list) (problems {401})"
| "documented Calendar_all = {(200, Text_calendar), (304, No_content)}"
| "documented Calendar_user = insert (200, Text_calendar) (insert (304, No_content) (problems {404}))"
| "documented My_tokens = insert (200, Token_list) (problems {401})"
| "documented My_token_create = insert (201, A_token) (problems {401})"
| "documented My_token_delete = insert (204, No_content) (problems {401, 404})"
| "documented Audit_list = insert (200, Audit_entries) (problems {401, 403})"
| "documented Import_yaml = insert (200, Import_counts) (problems {400, 401, 403})"
| "documented _ = {}"

text \<open>
  The contract: a documented response, or an undocumented text for a malformed parameter or a
  failure of the server; a problem names the status of its reply; and no change by a reply that
  blames the client.
\<close>

definition described_by :: "(int \<times> schema) set \<Rightarrow> reply \<Rightarrow> bool" where
  "described_by D p \<longleftrightarrow> (rpStatus p, schema_of (rpBody p)) \<in> D \<union> {(400, Text), (500, Text)}
     \<and> (\<forall>pd. rpBody p = ProblemBody pd \<longrightarrow> pdStatus pd = Some (rpStatus p))"

definition conforms :: "(int \<times> schema) set \<Rightarrow> 'm conn_scheme contract" where
  "conforms D s p m s' \<longleftrightarrow> described_by D p
     \<and> (400 \<le> rpStatus p \<longrightarrow> rpStatus p < 500 \<longrightarrow> c_com s' = c_com s)"

interpretation contract: reply_contract "conforms D" for D
  by unfold_locales (simp_all add: conforms_def described_by_def)

lemma conforms_clean:
  assumes m: "clean_errors m bad"
    and good: "\<And>enc x p. visit enc (fst (good x)) = Inr p \<Longrightarrow> described_by D p \<and> rpStatus p < 400"
    and bad: "\<And>enc e a p. bad e = Some a \<Longrightarrow> visit enc a = Inr p \<Longrightarrow> described_by D p"
  shows "responds (conforms D) visit (answer m good bad)"
proof (rule responds_answer)
  fix enc s x s' p
  assume "visit enc (fst (good x)) = Inr p"
  from good [OF this] show "conforms D s p (snd (good x)) s'" by (simp add: conforms_def)
next
  fix enc s e s' a p
  assume run: "c_tx s = None" "m s = (Inl e, s')" and a: "bad e = Some a" "visit enc a = Inr p"
  have "c_com s' = c_com s" using m run a(1) unfolding clean_errors_def by (metis option.distinct(1))
  with bad [OF a] show "conforms D s p None s'" by (simp add: conforms_def)
qed

lemma conforms_answers: "(\<And>enc p. visit enc a = Inr p \<Longrightarrow> described_by D p) \<Longrightarrow> responds (conforms D) visit (answers a)"
  by (rule responds_answers) (simp add: conforms_def)

lemma conforms_with_actor:
  assumes "\<And>i. responds (conforms D) visit (f i)"
    and "\<And>enc e p. visit enc (no_actor (unauthorized e)) = Inr p \<Longrightarrow> described_by D p"
  shows "responds (conforms D) visit (with_actor env r no_actor f)"
  using assms by (simp add: with_actor_def conforms_answers split: sum.split)

subsection \<open>Every handler\<close>

lemmas handler_defs = Server_GetHealth_def Server_ListConferences_def Server_GetConference_def
  Server_CreateConference_def Server_UpdateConference_def Server_DeleteConference_def
  Server_ArchiveConference_def Server_UnarchiveConference_def Server_ListTags_def
  Server_ListTracks_def Server_StarConference_def Server_UnstarConference_def Server_ListMyStars_def
  Server_GetMySettings_def Server_UpdateMySettings_def Server_GetPublicCalendar_def
  Server_ListMyCalendarTokens_def Server_CreateCalendarToken_def Server_DeleteCalendarToken_def
  Server_ListAuditLog_def Let_def

lemma described_json:
  "visit_json enc st ct b = Inr p \<Longrightarrow> described_by D p \<longleftrightarrow>
    ((st, schema_of b) \<in> D \<union> {(400, Text), (500, Text)} \<and> (\<forall>pd. b = ProblemBody pd \<longrightarrow> pdStatus pd = Some st))"
  by (auto simp: described_by_def dest!: visit_json_Inr)

lemma status_json: "visit_json enc st ct b = Inr p \<Longrightarrow> rpStatus p = st"
  by (auto dest!: visit_json_Inr)

lemma problem_status: "pdStatus (unauthorized e) = Some 401" "pdStatus (badRequest e) = Some 400"
    "pdStatus (conflict e) = Some 409" "pdStatus notFound = Some 404"
  by (simp_all add: unauthorized_def badRequest_def conflict_def notFound_def problem_def)

lemma if_Some: "(if b then Some x else r) = Some a \<longleftrightarrow> (b \<and> a = x \<or> \<not> b \<and> r = Some a)"
  by auto

lemma described_others:
  "described_by D (no_content st) \<longleftrightarrow> (st, No_content) \<in> D"
  "described_by D (visit_calendar x) \<longleftrightarrow> (200, Text_calendar) \<in> D"
  "rpStatus (visit_calendar x) = 200"
  by (simp_all add: described_by_def visit_calendar_def)

lemmas reply_simps = described_json described_others status_json problem_status problems_def if_Some
  never_def on_not_found_def

lemma conforms_handlers:
  "responds (conforms (documented Healthz)) VisitGetHealthResponse Server_GetHealth"
  "responds (conforms (documented Conferences_list)) VisitListConferencesResponse (Server_ListConferences env q)"
  "responds (conforms (documented Conference_get)) VisitGetConferenceResponse (Server_GetConference env i)"
  "responds (conforms (documented Calendar_all)) VisitGetPublicCalendarResponse (Server_GetPublicCalendar env e)"
  "responds (conforms (documented Tags_list)) VisitListTagsResponse (Server_ListTags env)"
  "responds (conforms (documented Tracks_list)) VisitListTracksResponse (Server_ListTracks env)"
  "responds (conforms (documented Audit_list)) VisitListAuditLogResponse (Server_ListAuditLog aq)"
  "responds (conforms (documented Conference_create)) VisitCreateConferenceResponse (Server_CreateConference env r b)"
  "responds (conforms (documented Conference_update)) VisitUpdateConferenceResponse (Server_UpdateConference env r i b)"
  "responds (conforms (documented Conference_delete)) VisitDeleteConferenceResponse (Server_DeleteConference i)"
  "responds (conforms (documented Conference_archive)) VisitArchiveConferenceResponse (Server_ArchiveConference env i)"
  "responds (conforms (documented Conference_unarchive)) VisitUnarchiveConferenceResponse (Server_UnarchiveConference env i)"
  "responds (conforms (documented Conference_star)) VisitStarConferenceResponse (Server_StarConference env r i)"
  "responds (conforms (documented Conference_unstar)) VisitUnstarConferenceResponse (Server_UnstarConference env r i)"
  "responds (conforms (documented My_stars)) VisitListMyStarsResponse (Server_ListMyStars env r)"
  "responds (conforms (documented My_settings)) VisitGetMySettingsResponse (Server_GetMySettings env r)"
  "responds (conforms (documented My_settings_update)) VisitUpdateMySettingsResponse (Server_UpdateMySettings env r st)"
  "responds (conforms (documented My_tokens)) VisitListMyCalendarTokensResponse (Server_ListMyCalendarTokens env url r)"
  "responds (conforms (documented My_token_create)) VisitCreateCalendarTokenResponse
     (Server_CreateCalendarToken env url rnd r)"
  "responds (conforms (documented My_token_delete)) VisitDeleteCalendarTokenResponse (Server_DeleteCalendarToken env r)"
  unfolding handler_defs
  by (intro conforms_with_actor conforms_clean conforms_answers clean_rules;
      (clarsimp simp: reply_simps split: if_splits)?; (elim disjE conjE; clarsimp simp: reply_simps)?)+

lemma conforms_GetMe: "responds (conforms (documented Me)) VisitGetMeResponse (Server_GetMe env r)"
  by (cases "ClaimsFromContext r") (auto simp: Server_GetMe_def reply_simps split: option.splits intro!: conforms_answers)

lemma conforms_Import:
  "responds (conforms (documented Import_yaml)) VisitImportConferencesResponse (Server_ImportConferences env decode r)"
  unfolding Server_ImportConferences_def
proof (rule conforms_with_actor)
  fix actor
  show "responds (conforms (documented Import_yaml)) VisitImportConferencesResponse
      (case Parse_yaml decode (qBody r) of
         Inl e \<Rightarrow> answers (ImportConferences400ApplicationProblemPlusJSONResponse (badRequest (Error env e)))
       | Inr entries \<Rightarrow> (\<lambda>s. case RunImport env entries actor True s of (n, s') \<Rightarrow>
           answers (ImportConferences200JSONResponse (import_result n)) s'))"
    by (cases "Parse_yaml decode (qBody r)")
      (auto simp: conforms_answers reply_simps responds_def answers_def conforms_def split: prod.splits)
qed (simp add: reply_simps)

lemma conforms_personal:
  "responds (conforms (documented Calendar_user)) VisitGetPersonalCalendarResponse
     (Server_GetPersonalCalendar env token e)"
  unfolding responds_def
proof (intro allI impI)
  fix enc s res m s' p
  assume s: "c_tx s = None" and run: "Server_GetPersonalCalendar env token e s = (Inr (res, m), s')"
    and v: "VisitGetPersonalCalendarResponse enc res = Inr p"
  obtain a s1 where look: "LookupToken token s = (a, s1)" by force
  show "conforms (documented Calendar_user) s p m s'"
  proof (cases a)
    case (Inl x)
    then have "c_com s1 = c_com s" using atomicD [OF atomic_LookupToken s] look by simp
    then show ?thesis
      using run v look Inl by (auto simp: Server_GetPersonalCalendar_def answers_def conforms_def reply_simps)
  next
    case (Inr u)
    then have "res \<in> {GetPersonalCalendar304Response} \<union> range GetPersonalCalendar200TextcalendarResponse"
      using run look
      by (auto simp: Server_GetPersonalCalendar_def answer_def never_def split: prod.splits sum.splits if_splits)
    then show ?thesis using v by (auto simp: conforms_def reply_simps)
  qed
qed

subsection \<open>Every route\<close>

lemmas conforms_rules = conforms_handlers conforms_GetMe conforms_Import conforms_personal

lemma conforms_strict:
  "h_sat (conforms (documented Audit_list)) (strict_ListAuditLog sv aq)"
  "h_sat (conforms (documented Conferences_list)) (strict_ListConferences sv q)"
  "h_sat (conforms (documented Conference_delete)) (strict_DeleteConference sv i)"
  "h_sat (conforms (documented Conference_get)) (strict_GetConference sv i)"
  "h_sat (conforms (documented Conference_archive)) (strict_ArchiveConference sv i)"
  "h_sat (conforms (documented Conference_unstar)) (strict_UnstarConference sv i)"
  "h_sat (conforms (documented Conference_star)) (strict_StarConference sv i)"
  "h_sat (conforms (documented Conference_unarchive)) (strict_UnarchiveConference sv i)"
  "h_sat (conforms (documented Import_yaml)) (strict_ImportConferences sv)"
  "h_sat (conforms (documented Me)) (strict_GetMe sv)"
  "h_sat (conforms (documented My_token_delete)) (strict_DeleteCalendarToken sv)"
  "h_sat (conforms (documented My_tokens)) (strict_ListMyCalendarTokens sv)"
  "h_sat (conforms (documented My_token_create)) (strict_CreateCalendarToken sv)"
  "h_sat (conforms (documented My_settings)) (strict_GetMySettings sv)"
  "h_sat (conforms (documented My_stars)) (strict_ListMyStars sv)"
  "h_sat (conforms (documented Tags_list)) (strict_ListTags sv)"
  "h_sat (conforms (documented Tracks_list)) (strict_ListTracks sv)"
  "h_sat (conforms (documented Calendar_all)) (strict_GetPublicCalendar sv e)"
  "h_sat (conforms (documented Calendar_user)) (strict_GetPersonalCalendar sv token e)"
  "h_sat (conforms (documented Healthz)) (strict_GetHealth sv)"
  by (rule contract.sat_strict, rule strict_defs, rule conforms_rules)+

lemma conforms_strict_body:
  "h_sat (conforms (documented Conference_create)) (strict_CreateConference sv)"
  "h_sat (conforms (documented Conference_update)) (strict_UpdateConference sv i)"
  "h_sat (conforms (documented My_settings_update)) (strict_UpdateMySettings sv)"
  unfolding strict_defs
  by (intro contract.sat_bind(1), rule contract.sat_strict, rule refl, rule conforms_rules)+

lemma conforms_siw:
  "h_sat (conforms (documented Audit_list)) (siw_ListAuditLog sv)"
  "h_sat (conforms (documented Conferences_list)) (siw_ListConferences sv)"
  "h_sat (conforms (documented Conference_create)) (siw_CreateConference sv)"
  "h_sat (conforms (documented Conference_delete)) (siw_DeleteConference sv)"
  "h_sat (conforms (documented Conference_get)) (siw_GetConference sv)"
  "h_sat (conforms (documented Conference_update)) (siw_UpdateConference sv)"
  "h_sat (conforms (documented Conference_archive)) (siw_ArchiveConference sv)"
  "h_sat (conforms (documented Conference_unstar)) (siw_UnstarConference sv)"
  "h_sat (conforms (documented Conference_star)) (siw_StarConference sv)"
  "h_sat (conforms (documented Conference_unarchive)) (siw_UnarchiveConference sv)"
  "h_sat (conforms (documented Import_yaml)) (siw_ImportConferences sv)"
  "h_sat (conforms (documented My_token_delete)) (siw_DeleteCalendarToken sv)"
  "h_sat (conforms (documented My_tokens)) (siw_ListMyCalendarTokens sv)"
  "h_sat (conforms (documented My_token_create)) (siw_CreateCalendarToken sv)"
  "h_sat (conforms (documented Calendar_all)) (siw_GetPublicCalendar sv)"
  "h_sat (conforms (documented Calendar_user)) (siw_GetPersonalCalendar sv)"
  unfolding siw_ListAuditLog_def siw_ListConferences_def siw_CreateConference_def siw_DeleteConference_def
    siw_GetConference_def siw_UpdateConference_def siw_ArchiveConference_def
    siw_UnstarConference_def siw_StarConference_def siw_UnarchiveConference_def
    siw_ImportConferences_def siw_DeleteCalendarToken_def siw_ListMyCalendarTokens_def
    siw_CreateCalendarToken_def siw_GetPublicCalendar_def siw_GetPersonalCalendar_def
  by (intro contract.sat_bind conforms_strict conforms_strict_body)+

lemma conforms_mono: "h_sat (conforms D) h \<Longrightarrow> D \<subseteq> E \<Longrightarrow> h_sat (conforms E) h"
  unfolding h_sat_def conforms_def described_by_def by blast

lemma conforms_For:
  assumes "h_sat (conforms D) nxt"
  shows "h_sat (conforms D) (For env partial et ac nxt)"
  unfolding h_sat_def
proof (intro allI impI)
  fix r s p m s'
  assume s: "c_tx s = None" and run: "For env partial et ac nxt r s = ((p, m), s')"
  obtain p1 k s1 where 1: "nxt r s = ((p1, k), s1)" by (metis surj_pair)
  have p: "p1 = p" using arg_cong [OF run, of "\<lambda>x. fst (fst x)"] 1 by (simp add: For_reply)
  have c: "conforms D s p k s1" using h_satD [OF assms s 1] p by simp
  have "s' = s1" if "400 \<le> rpStatus p"
    using run 1 p that by (auto simp: For_def status200_def Let_def)
  with c show "conforms D s p m s'" by (auto simp: conforms_def)
qed

lemma conforms_audited: "h_sat (conforms D) nxt \<Longrightarrow> h_sat (conforms D) (auditMiddleware sv et ac nxt)"
  by (simp add: auditMiddleware_def conforms_For)

lemma conforms_token_group:
  assumes "h_sat (conforms D) nxt" "(401, Problem) \<in> D"
  shows "h_sat (conforms D) (token_group sv nxt)"
  using assms
  by (auto simp: h_sat_def token_group_def RequireToken_session conforms_def described_by_def
      writeUnauthorized_def writeProblem_def problem_def split: option.splits)

lemma conforms_member_group:
  assumes "h_sat (conforms D) nxt" "(401, Problem) \<in> D" "(403, Problem) \<in> D"
  shows "h_sat (conforms D) (member_group sv nxt)" "h_sat (conforms D) (admin_group sv nxt)"
proof -
  have forbids: "h_sat (conforms D) (RequireMember nxt)" "h_sat (conforms D) (RequireAdmin nxt)"
    using assms(1,3)
    by (auto simp: h_sat_def RequireMember_def RequireAdmin_def writes_def conforms_def described_by_def
      writeForbidden_def writeProblem_def problem_def split: option.splits if_splits)
  then show "h_sat (conforms D) (member_group sv nxt)" "h_sat (conforms D) (admin_group sv nxt)"
    unfolding member_group_def admin_group_def using assms(2) conforms_token_group by blast+
qed

text \<open>The groups for members and admins add a 403, which the document lists for some of their routes.\<close>

definition responses :: "route \<Rightarrow> (int \<times> schema) set" where
  "responses rt = documented rt \<union> (if needs rt \<in> {Member, Admin} then {(403, Problem)} else {})"

lemma responses_401: "needs rt \<noteq> Anyone \<Longrightarrow> (401, Problem) \<in> responses rt"
  by (cases rt) (simp_all add: responses_def problems_def)

lemma conforms_groups:
  assumes "h_sat (conforms (documented rt)) h"
  shows "needs rt = Signed_in \<Longrightarrow> h_sat (conforms (responses rt)) (token_group sv h)"
    and "needs rt = Member \<Longrightarrow> h_sat (conforms (responses rt)) (member_group sv h)"
    and "needs rt = Admin \<Longrightarrow> h_sat (conforms (responses rt)) (admin_group sv h)"
  by (intro conforms_token_group conforms_member_group conforms_mono [OF assms] responses_401;
      auto simp: responses_def)+

lemma conforms_route:
  assumes "documented rt \<noteq> {}"
  shows "h_sat (conforms (responses rt)) (NewRouter sv rt :: 'm web_scheme handler)"
proof (cases "needs rt = Anyone")
  case True
  with assms show ?thesis
    by (cases rt; simp add: responses_def; use conforms_strict conforms_siw in simp)
next
  case False
  with assms show ?thesis
    by (cases rt; simp;
        intro conforms_groups conforms_audited conforms_strict conforms_strict_body conforms_siw; simp)
qed

lemma oidc_route_client_error:
  assumes "\<And>o' p s'. f o' r s = (p, s') \<Longrightarrow> rpStatus p < 500 \<Longrightarrow> 400 \<le> rpStatus p \<Longrightarrow> c_com s' = c_com s"
    and "oidc_route sv f r s = ((p, m), s')" and "400 \<le> rpStatus p" "rpStatus p < 500"
  shows "c_com s' = c_com s"
  using assms by (auto simp: oidc_route_def writes_def split: option.splits prod.splits)

lemma Callback_client_error:
  assumes run: "Callback env h now r s = (p, s')" and st: "rpStatus p < 500" "400 \<le> rpStatus p"
  shows "s' = s"
proof -
  have "s' = s" if sess: "callback_session env h now r (idt, cl, ro) s = (q, s')" and q: "rpStatus q = rpStatus p" for idt cl ro q
    using callback_session_cases [OF sess] st q by auto
  with run show ?thesis by (auto simp: Callback_def split: sum.splits prod.splits)
qed

text \<open>
  C8: Every reply to an operation of the API is one that its description lists for the operation,
  with the schema listed for its status, with three exceptions: a text with status 400 for a
  parameter or body that cannot be read, a text with status 500 for a failure of the server, and
  a 403 on the routes of members that list none. A problem document always names the status
  of the reply it is in.
\<close>

theorem replies_documented:
  fixes s :: "'m web_scheme"
  assumes "NewRouter sv rt r s = ((p, m), s')" and "c_tx s = None" and "documented rt \<noteq> {}"
  shows "((rpStatus p, schema_of (rpBody p)) \<in> documented rt
      \<or> rpStatus p \<in> {400, 500} \<and> schema_of (rpBody p) = Text
      \<or> needs rt \<in> {Member, Admin} \<and> rpStatus p = 403 \<and> schema_of (rpBody p) = Problem)
    \<and> (\<forall>pd. rpBody p = ProblemBody pd \<longrightarrow> pdStatus pd = Some (rpStatus p))"
  using h_satD [OF conforms_route [OF assms(3)] assms(2,1)]
  by (auto simp: conforms_def described_by_def responses_def split: if_splits)

theorem replies_documented_witness:
  "\<exists>p m s'. NewRouter sample_server Conference_archive sample_call sample_web = ((p, m), s')
    \<and> (rpStatus p, schema_of (rpBody p)) \<in>
        {(200, A_conference), (400, Text), (401, Problem), (403, Problem), (404, Problem), (500, Text)}"
proof -
  obtain q s' where run: "NewRouter sample_server Conference_archive sample_call sample_web = (q, s')"
    by (rule prod.exhaust)
  obtain p m where q: "q = (p, m)" by (rule prod.exhaust)
  from replies_documented [OF run [unfolded q]] run q show ?thesis
    by (simp add: problems_def) blast
qed

text \<open>
  C4: A reply that blames the client, with a status from 400 to 499, leaves the committed database
  as it was, on every route of the server and whatever happened on the way: a refused input, a
  conflict found by the database in the middle of a transaction, or a missing conference.
\<close>

theorem client_errors_change_nothing:
  fixes s :: "'m web_scheme"
  assumes run: "NewRouter sv rt r s = ((p, m), s')" and s: "c_tx s = None"
    and status: "400 \<le> rpStatus p" "rpStatus p < 500"
  shows "c_com s' = c_com s"
proof (cases "documented rt = {}")
  case False
  from h_satD [OF conforms_route [OF False] s run] status show ?thesis by (simp add: conforms_def)
next
  case True
  then consider "rt = Metrics" | "rt = Auth_login" | "rt = Auth_callback" | "rt = Auth_logout"
    by (cases rt) (simp_all add: problems_def)
  then show ?thesis
  proof cases
    case 1
    with run show ?thesis by (simp add: writes_def)
  next
    case 2
    show ?thesis
    proof (rule oidc_route_client_error [OF _ _ status])
      show "oidc_route sv (\<lambda>h r s. (Login h (sv_random_state sv) (sv_random_verifier sv) r, s)) r s = ((p, m), s')"
        using run 2 by simp
    qed simp
  next
    case 3
    show ?thesis
    proof (rule oidc_route_client_error [OF _ _ status])
      show "oidc_route sv (\<lambda>h r s. Callback (sv_env sv) h (sv_now sv) r s) r s = ((p, m), s')"
        using run 3 by simp
    qed (auto dest: Callback_client_error)
  next
    case 4
    show ?thesis
    proof (rule oidc_route_client_error [OF _ _ status])
      show "oidc_route sv (\<lambda>h r s. (Logout r, s)) r s = ((p, m), s')"
        using run 4 by simp
    qed simp
  qed
qed

text \<open>A year out of range is refused as such.\<close>

definition sample_refusing :: server where
  "sample_refusing = sample_server\<lparr>sv_decode_conference := (\<lambda>_. Inr (next_input\<lparr>inYear := 1999\<rparr>))\<rparr>"

theorem client_errors_change_nothing_witness:
  "\<exists>p m s'. NewRouter sample_refusing Conference_create sample_call sample_web = ((p, m), s')
    \<and> rpStatus p = 400 \<and> c_com s' = sample_db"
proof -
  let ?c = "issued_claims 0 sample_claims"
  have session: "session_of (sv_jwt sample_refusing) ''key'' (sv_now sample_refusing) sample_call = Some ?c"
    using sample_session by (simp add: sample_refusing_def)
  have tm: "sv_tm sample_refusing = Some ''key''" by (simp add: sample_refusing_def sample_server_def)
  have fields: "e_uuid_parse (sv_env sample_refusing) ''1'' = Some 1" "sv_encode sample_refusing = (\<lambda>_. None)"
      "sv_decode_conference sample_refusing = (\<lambda>_. Inr (next_input\<lparr>inYear := 1999\<rparr>))" "sv_audited sample_refusing"
    by (simp_all add: sample_refusing_def sample_server_def)
  have claims: "scSubject ?c = ''1''" "scRoles ?c = [''member'']"
    by (simp_all add: issued_claims_def sample_claims_def)
  have invalid: "\<exists>e. validateInput (next_input\<lparr>inYear := 1999\<rparr>) = Some e \<and> errors_Is e ErrValidation"
    by (simp add: validateInput_def next_input_def after_opt_def TrimSpace_empty_def runes_ascii
        is_ascii_def bytes_of_def IsSpace_def)
  obtain q s' where run: "NewRouter sample_refusing Conference_create sample_call sample_web = (q, s')"
    by (rule prod.exhaust)
  obtain p m where q: "q = (p, m)" by (rule prod.exhaust)
  have "rpStatus p = 400"
    using run invalid unfolding q
    by (auto simp: member_group_def token_group_passes [OF tm session] RequireMember_def ClaimsFromContext_def
      hasMemberRole_def auditMiddleware_def For_def siw_CreateConference_def strict_CreateConference_def
      json_body_def respond_def Server_CreateConference_def with_actor_def actorFromContext_def answer_def
      Create_conference_def checked_def fail_def fields claims visit_json_def status200_def Let_def)
  with client_errors_change_nothing [OF run [unfolded q]] run q show ?thesis by auto
qed

end
