(* ===== verification/Api_Enums.thy ===== *)
theory Api_Enums
  imports Api_Contract
begin

text \<open>
  The enumerations of the API, with the methods \<^verbatim>\<open>Valid\<close> of \<^verbatim>\<open>api/api.gen.go\<close>. The server never
  calls them; what it writes is a member all the same, since the schema of the database has the
  same values, and what it reads may be none.
\<close>

subsection \<open>The values\<close>

definition AuditEntryAction_Valid :: "string \<Rightarrow> bool" where
  "AuditEntryAction_Valid e =
     (if e = ''archive'' then True else if e = ''create'' then True else if e = ''delete'' then True
      else if e = ''unarchive'' then True else if e = ''update'' then True else False)"

definition CalendarTokenKind_Valid :: "string \<Rightarrow> bool" where
  "CalendarTokenKind_Valid e = (if e = ''personal_starred'' then True else False)"

definition ConferenceCoreRank_Valid :: "string \<Rightarrow> bool" where
  "ConferenceCoreRank_Valid e =
     (if e = ''A*'' then True else if e = ''A'' then True else if e = ''B'' then True
      else if e = ''C'' then True else if e = ''Unranked'' then True else False)"

definition ConferenceInputCoreRank_Valid :: "string \<Rightarrow> bool" where
  "ConferenceInputCoreRank_Valid e =
     (if e = ''A*'' then True else if e = ''A'' then True else if e = ''B'' then True
      else if e = ''C'' then True else if e = ''Unranked'' then True else False)"

definition CurrentUserRoles_Valid :: "string \<Rightarrow> bool" where
  "CurrentUserRoles_Valid e = (if e = ''admin'' then True else if e = ''member'' then True else False)"

definition HealthStatusStatus_Valid :: "string \<Rightarrow> bool" where
  "HealthStatusStatus_Valid e = (if e = ''ok'' then True else False)"

lemma Valid_iffs:
  "ConferenceCoreRank_Valid e \<longleftrightarrow> e \<in> set core_ranks"
  "ConferenceInputCoreRank_Valid e \<longleftrightarrow> e \<in> set core_ranks"
  "AuditEntryAction_Valid e \<longleftrightarrow> e \<in> set audit_actions"
  by (auto simp: ConferenceCoreRank_Valid_def ConferenceInputCoreRank_Valid_def AuditEntryAction_Valid_def
      core_ranks_def audit_actions_def)

lemma rank_checked: "conference_check c = None \<Longrightarrow> cCoreRank c = Some r \<Longrightarrow> r \<in> set core_ranks"
  by (simp add: conference_check_def split: if_splits)

subsection \<open>What is written\<close>

text \<open>
  C24: What the server makes of the rows of a database of the schema, and of the roles of a sign-in,
  holds only members of the enumerations of the API.
\<close>

theorem enum_values_valid:
  assumes "wf_db env d"
  shows "(\<forall>c \<in> set (conferences d). \<forall>ts ks r. apCoreRank (toAPIConference c ts ks) = Some r \<longrightarrow> ConferenceCoreRank_Valid r)
    \<and> (\<forall>a \<in> set (audit_log d). AuditEntryAction_Valid (aeAction (rowToAuditEntry a)))
    \<and> (\<forall>k url. CalendarTokenKind_Valid (ctKind (token_toAPI url k)))
    \<and> (\<forall>roles. list_all CurrentUserRoles_Valid (ToStringSlice roles))"
proof (intro conjI ballI allI impI)
  fix c ts ks r
  assume c: "c \<in> set (conferences d)" and r: "apCoreRank (toAPIConference c ts ks) = Some r"
  have "conference_check c = None" using wf_dbD(2) [OF assms] c by (simp add: conferences_ok_def)
  then show "ConferenceCoreRank_Valid r" using rank_checked r by (simp add: Valid_iffs toAPIConference_def)
next
  fix a assume "a \<in> set (audit_log d)"
  with wf_dbD(10) [OF assms] show "AuditEntryAction_Valid (aeAction (rowToAuditEntry a))"
    by (simp add: audit_ok_def Valid_iffs rowToAuditEntry_def)
qed (simp_all add: token_toAPI_def CalendarTokenKind_Valid_def ToStringSlice_def CurrentUserRoles_Valid_def)

theorem enum_values_valid_witness:
  "ConferenceCoreRank_Valid (the (apCoreRank (toAPIConference (sample_conference\<lparr>cCoreRank := Some ''A*''\<rparr>) [] [])))"
proof -
  let ?d = "sample_db\<lparr>conferences := [sample_conference\<lparr>cCoreRank := Some ''A*''\<rparr>]\<rparr>"
  have "wf_db sample_env ?d"
    by (simp add: wf_db_def table_oks id_lists sample_db_def sample_user_def sample_settings_def
        sample_conference_def conference_check_def settings_check_def le_opt_def opt_in_def star_key_def core_ranks_def)
  moreover have "apCoreRank (toAPIConference (sample_conference\<lparr>cCoreRank := Some ''A*''\<rparr>) [] []) = Some ''A*''"
    by (simp add: toAPIConference_def sample_conference_def)
  ultimately show ?thesis using enum_values_valid [of sample_env ?d] by fastforce
qed

subsection \<open>What is read\<close>

lemma CreateConference_bad_rank:
  assumes "pCoreRank p = Some r" "\<not> ConferenceInputCoreRank_Valid r"
  shows "\<exists>e. CreateConference env p x d = Inl e \<and> (\<forall>k. e \<noteq> UniqueViolation k)"
proof -
  have "cCoreRank (new_conference x p) = Some r" using assms(1) by (simp add: new_conference_def set_columns_def)
  then have "conference_check (new_conference x p) \<noteq> None" using rank_checked assms(2) by (auto simp: Valid_iffs)
  then obtain k where "conference_check (new_conference x p) = Some k" by blast
  then show ?thesis by (simp add: CreateConference_def with_texts_def Let_def)
qed

lemma unknown_rank_error:
  assumes "validateInput inp = None" "inCoreRank inp = Some rank" "\<not> ConferenceInputCoreRank_Valid rank"
    and "\<And>n. c_fault c n = None" and "\<And>e. contains (e_pg_msg env e) ''unique'' \<Longrightarrow> \<exists>k. e = UniqueViolation k"
  shows "\<exists>e c'. Create_conference env inp actor c = (Inl (Wrapf ''create conference'' (Pg e)), c') \<and> c_com c' = c_com c"
proof -
  let ?p = "create_params (input_params inp actor) actor"
  let ?c = "c\<lparr>c_stmts := Suc (c_stmts c), c_tx := Some (c_com c), c_aborted := False\<rparr>"
  have "pCoreRank ?p = Some rank" using assms(2) by (simp add: input_params_def create_params_def conference_params.defs)
  from CreateConference_bad_rank [OF this assms(3)] obtain e
    where e: "CreateConference env ?p (ctx_of ?c) (c_com c) = Inl e" "\<forall>k. e \<noteq> UniqueViolation k" by blast
  then have "create_err env e = Wrapf ''create conference'' (Pg e)"
    using assms(5) by (auto simp: create_err_def isUniqueViolation_def)
  then show ?thesis
    using assms(1,4) e(1) by (simp add: Create_conference_def checked_def create_in_tx_def run_eval)
qed

text \<open>
  A body with a rank that the description does not list is not refused as a bad request: when the
  rest of it is valid and the database works, the check of the column fails in the middle of the
  transaction, and the reply is a 500; nothing is stored. The messages of the database are assumed
  to say unique only of unique constraints.
\<close>

theorem unknown_rank_is_server_error:
  fixes s :: "'m conn_scheme"
  assumes "sv_decode_conference sv (qBody r) = Inr inp" and "actorFromContext (sv_env sv) r = Inr actor"
    and "validateInput inp = None" "inCoreRank inp = Some rank" "\<not> ConferenceInputCoreRank_Valid rank"
    and "\<And>n. c_fault s n = None"
    and "\<And>e. contains (e_pg_msg (sv_env sv) e) ''unique'' \<Longrightarrow> \<exists>k. e = UniqueViolation k"
  shows "\<exists>p s'. strict_CreateConference sv r s = ((p, None), s') \<and> rpStatus p = 500 \<and> c_com s' = c_com s"
proof -
  obtain e c' where "Create_conference (sv_env sv) inp actor s = (Inl (Wrapf ''create conference'' (Pg e)), c')"
      "c_com c' = c_com s"
    using unknown_rank_error [where actor = actor, OF assms(3-7)] by blast
  then show ?thesis
    using assms(1,2)
    by (simp add: strict_CreateConference_def json_body_def respond_def Server_CreateConference_def
        with_actor_def answer_def)
qed

theorem unknown_rank_is_server_error_witness:
  "\<exists>p s'. strict_CreateConference (sample_server\<lparr>sv_decode_conference := (\<lambda>_. Inr (next_input\<lparr>inCoreRank := Some ''A+''\<rparr>))\<rparr>)
     (sample_call\<lparr>qClaims := Some sample_claims\<rparr>) sample_web = ((p, None), s') \<and> rpStatus p = 500"
proof -
  let ?sv = "sample_server\<lparr>sv_decode_conference := (\<lambda>_. Inr (next_input\<lparr>inCoreRank := Some ''A+''\<rparr>))\<rparr>"
  let ?r = "sample_call\<lparr>qClaims := Some sample_claims\<rparr>"
  have "actorFromContext (sv_env ?sv) ?r = Inr 1"
    by (simp add: actorFromContext_def ClaimsFromContext_def sample_server_def sample_claims_def)
  moreover have "validateInput (next_input\<lparr>inCoreRank := Some ''A+''\<rparr>) = None"
    by (simp add: validateInput_def next_input_def after_opt_def TrimSpace_empty_def runes_ascii
        is_ascii_def bytes_of_def IsSpace_def)
  moreover have "\<exists>k. e = UniqueViolation k" if "contains (e_pg_msg (sv_env ?sv) e) ''unique''" for e
    using that by (cases e) (simp_all add: sample_server_def sample_env_def sample_msg_def)
  moreover have "c_fault sample_web n = None" for n by (simp add: sample_web_def sample_conn_def conn.defs)
  ultimately have "\<exists>p s'. strict_CreateConference ?sv ?r sample_web = ((p, None), s') \<and> rpStatus p = 500
      \<and> c_com s' = c_com sample_web"
    by (intro unknown_rank_is_server_error [where inp = "next_input\<lparr>inCoreRank := Some ''A+''\<rparr>" and actor = 1
        and rank = "''A+''"]) (simp_all add: ConferenceInputCoreRank_Valid_def)
  then show ?thesis by blast
qed

end
