(* ===== verification/Sign_In.thy ===== *)
theory Sign_In
  imports Http_Facts
begin

text \<open>
  From the callback of a sign-in to the requests of the session: the cookie that the callback
  sets opens the routes of members until it expires, in the name of the user who signed in.
\<close>

lemma text_ok_utf8: "text_ok s \<Longrightarrow> utf8_ok s"
  by (simp add: text_ok_def utf8_ok_def)

lemma ToStringSlice_texts: "list_all utf8_ok (ToStringSlice roles)"
  by (simp add: ToStringSlice_def utf8_ok_ascii is_ascii_def)

text \<open>The texts of a session are those of a row, or constants, so JSON carries them.\<close>

lemma callback_session_issues:
  fixes c :: "'m conn_scheme"
  assumes run: "callback_session env h now r (idToken, claims, roles) c = (p, c')"
    and ck: "k \<in> set (rpCookies p)" and uuid: "\<And>i. is_ascii (e_uuid_str env i)"
  shows "\<exists>u \<in> set (users (c_com c')).
     Issue (oh_jwt h) (oh_secret h) now (new_session env idToken claims roles u) = Inr (ckValue k)
     \<and> session_texts_ok (new_session env idToken claims roles u)
     \<and> uEmail u = string_claim claims ''email'' \<and> uDisplayName u = display_name claims"
proof -
  let ?p = "\<lparr>uuOidcIssuer = itIssuer idToken, uuOidcSubject = itSubject idToken,
               uuEmail = string_claim claims ''email'', uuDisplayName = display_name claims\<rparr>"
  obtain s1 c1 where 1: "exec Pool (UpsertUser ?p) c = (s1, c1)" by force
  show ?thesis
  proof (cases s1)
    case (Inl e)
    then show ?thesis using assms 1 by (auto simp: callback_session_def)
  next
    case (Inr u)
    obtain s2 c2 where 2: "exec Pool (UpsertUserSettings (uID u)) c1 = (s2, c2)" by force
    obtain d where d: "UpsertUser ?p (ctx_of c) (c_com c) = Inr (u, d)" "c_com c1 = d"
      using exec_Pool_InrE [OF 1 [unfolded Inr]] by (metis conn.select_convs(1) conn.surjective conn.update_convs(1))
    have u: "u \<in> set (users (c_com c1)) \<and> uEmail u = string_claim claims ''email''
          \<and> uDisplayName u = display_name claims"
      using UpsertUser_result [OF d(1)] d(2) by simp
    have "text_ok (itSubject idToken) \<and> text_ok (string_claim claims ''email'') \<and> text_ok (display_name claims)"
      using d(1) by (simp add: UpsertUser_def with_texts_def texts_ok_def split: if_splits)
    then have texts: "session_texts_ok (new_session env idToken claims roles u)"
      using uuid ToStringSlice_texts
      by (simp add: session_texts_ok_def new_session_def text_ok_utf8 utf8_ok_ascii)
    show ?thesis
    proof (cases s2)
      case (Inl e)
      then show ?thesis using assms 1 2 Inr by (auto simp: callback_session_def)
    next
      case two: (Inr a)
      have "users (c_com c2) = users (c_com c1)"
        using 2 two by (auto elim!: exec_Pool_InrE dest!: UpsertUserSettings_result)
      then show ?thesis using assms 1 2 Inr two u texts
        by (auto simp: callback_session_def session_cookie_def split: sum.splits)
    qed
  qed
qed

text \<open>What \<open>/me\<close> answers to a request with a session, and to one without.\<close>

lemma actor_of_subject:
  assumes "scSubject c = e_uuid_str env i" and "\<And>i. e_uuid_parse env (e_uuid_str env i) = Some i"
  shows "actorFromContext env (r\<lparr>qClaims := Some c\<rparr>) = Inr i"
  using assms by (simp add: actorFromContext_def ClaimsFromContext_def)

lemma me_answers:
  assumes "sv_tm sv = Some secret" and "session_of (sv_jwt sv) secret t r = Some c"
    and "scSubject c = e_uuid_str (sv_env sv) i" and "\<And>i. e_uuid_parse (sv_env sv) (e_uuid_str (sv_env sv) i) = Some i"
  shows "\<exists>q. NewRouter (sv\<lparr>sv_now := t\<rparr>) Me r s = ((q, None), s)
    \<and> (let cu = \<lparr>cuEmail = scEmail c, cuId = i, cuName = scName c, cuRoles = scRoles c\<rparr> in
        if sv_encode sv (UserBody cu) = None then rpStatus q = 200 \<and> rpBody q = UserBody cu else rpStatus q = 500)"
proof -
  have "NewRouter (sv\<lparr>sv_now := t\<rparr>) Me r s = strict_GetMe (sv\<lparr>sv_now := t\<rparr>) (r\<lparr>qClaims := Some c\<rparr>) s"
    using token_group_passes [of "sv\<lparr>sv_now := t\<rparr>" secret r c] assms(1,2) by simp
  then show ?thesis
    using assms(3,4)
    by (simp add: strict_GetMe_def respond_def Server_GetMe_def answers_def ClaimsFromContext_def visit_json_def
        Let_def http_Error_def split: option.split)
qed

lemma me_refuses:
  assumes "sv_tm sv = Some secret" and "session_of (sv_jwt sv) secret t r = None"
  shows "\<exists>q. NewRouter (sv\<lparr>sv_now := t\<rparr>) Me r s = ((q, None), s) \<and> rpStatus q = 401"
  using token_group_refuses [of "sv\<lparr>sv_now := t\<rparr>" secret r "strict_GetMe (sv\<lparr>sv_now := t\<rparr>)" s] assms by auto

definition profile_reply :: "server \<Rightarrow> user \<Rightarrow> reply \<Rightarrow> bool" where
  "profile_reply sv u q \<longleftrightarrow> (\<exists>cu. cuId cu = uID u \<and> cuEmail cu = uEmail u \<and> cuName cu = uDisplayName u
     \<and> ''member'' \<in> set (cuRoles cu)
     \<and> (if sv_encode sv (UserBody cu) = None then rpStatus q = 200 \<and> rpBody q = UserBody cu
        else rpStatus q = 500))"

text \<open>
  C6: The cookie that a callback sets is a session of the user who is stored for it: until an hour
  later, to the second, a request with this cookie passes every route for members, the handlers
  act for this user, and the profile is the identifier, the mail address and the name stored for
  the user, with the role of a member. The encoder of the reply may refuse it, as it does when the
  mail address is none, which a sign-in does not check: the profile is then answered with 500.
  From the end of the hour on the cookie is worth nothing, and the profile is refused with 401.
  No table but the one of users, and no restart, matters.
\<close>

theorem sign_in_opens_session:
  fixes s :: "'m web_scheme" and s2 :: "'n web_scheme"
  assumes run: "NewRouter sv Auth_callback r s = ((p, m), s')" and oidc: "sv_oidc sv = Some h"
    and tm: "sv_tm sv = Some (oh_secret h)" "sv_jwt sv = oh_jwt h" and lawful: "jwt_lawful (oh_jwt h)"
    and now: "0 \<le> sv_now sv" "sv_now sv + tokenTTL < 2 ^ 53 * 10 ^ 9"
    and uuid: "\<And>i. is_ascii (e_uuid_str (sv_env sv) i)"
      "\<And>i. e_uuid_parse (sv_env sv) (e_uuid_str (sv_env sv) i) = Some i"
    and ck: "k \<in> set (rpCookies p)" "ckName k = cookieName" "ckValue k \<noteq> []"
  shows "\<exists>u \<in> set (users (c_com s')). \<forall>t r'. qCookie r' cookieName = Some (ckValue k) \<longrightarrow>
     (\<exists>q. NewRouter (sv\<lparr>sv_now := t\<rparr>) Me r' s2 = ((q, None), s2) \<and>
       (if t < NewNumericDate (sv_now sv + tokenTTL)
        then profile_reply sv u q
          \<and> (\<exists>c. session_of (sv_jwt sv) (oh_secret h) t r' = Some c \<and> (\<forall>rt. needs rt \<le> Member \<longrightarrow> granted (needs rt) (Some c))
               \<and> actorFromContext (sv_env sv) (r'\<lparr>qClaims := Some c\<rparr>) = Inr (uID u))
        else rpStatus q = 401 \<and> session_of (sv_jwt sv) (oh_secret h) t r' = None))"
proof -
  have "Callback (sv_env sv) h (sv_now sv) r s = (p, s')"
    using run oidc by (simp add: oidc_route_def split: prod.splits)
  then obtain v idToken claims roles q where idn: "callback_identity h r v = Inr (idToken, claims, roles)"
    and sess: "callback_session (sv_env sv) h (sv_now sv) r (idToken, claims, roles) s = (q, s')"
    and kq: "k \<in> set (rpCookies q)"
    using Callback_cookieE ck(1,2) by metis
  obtain u where u: "u \<in> set (users (c_com s'))"
    and issue: "Issue (oh_jwt h) (oh_secret h) (sv_now sv) (new_session (sv_env sv) idToken claims roles u) = Inr (ckValue k)"
    and texts: "session_texts_ok (new_session (sv_env sv) idToken claims roles u)"
    and stored: "uEmail u = string_claim claims ''email''" "uDisplayName u = display_name claims"
    using callback_session_issues [OF sess kq uuid(1)] by blast
  let ?c = "issued_claims (sv_now sv) (new_session (sv_env sv) idToken claims roles u)"
  have "rlMember roles" using callback_identity_InrE [OF idn] by blast
  then have c: "scSubject ?c = e_uuid_str (sv_env sv) (uID u)" "''member'' \<in> set (scRoles ?c)"
    by (simp_all add: issued_claims_def new_session_def ToStringSlice_def)
  have open_routes: "granted (needs rt) (Some ?c)" if "needs rt \<le> Member" for rt
    using granted_mono [of ?c Member "needs rt"] c(2) that by simp
  have profile: "\<exists>q. NewRouter (sv\<lparr>sv_now := t\<rparr>) Me r' s2 = ((q, None), s2) \<and> profile_reply sv u q"
    if "session_of (sv_jwt sv) (oh_secret h) t r' = Some ?c" for t r'
    using me_answers [OF tm(1) that c(1) uuid(2), of s2] stored c(2)
    by (auto simp: profile_reply_def issued_claims_def new_session_def Let_def
        intro!: exI [of _ "\<lparr>cuEmail = _, cuId = _, cuName = _, cuRoles = _\<rparr>"])
  note token = issued_token [OF lawful texts now issue]
  show ?thesis
  proof (intro bexI [OF _ u] allI impI)
    fix t and r' :: request assume cookie: "qCookie r' cookieName = Some (ckValue k)"
    have ses: "session_of (sv_jwt sv) (oh_secret h) t r'
        = (if t < NewNumericDate (sv_now sv + tokenTTL) then Some ?c else None)"
      using token cookie ck(3) tm(2) by (auto simp: session_of_def split: sum.splits)
    show "\<exists>q. NewRouter (sv\<lparr>sv_now := t\<rparr>) Me r' s2 = ((q, None), s2) \<and>
       (if t < NewNumericDate (sv_now sv + tokenTTL)
        then profile_reply sv u q
          \<and> (\<exists>c. session_of (sv_jwt sv) (oh_secret h) t r' = Some c \<and> (\<forall>rt. needs rt \<le> Member \<longrightarrow> granted (needs rt) (Some c))
               \<and> actorFromContext (sv_env sv) (r'\<lparr>qClaims := Some c\<rparr>) = Inr (uID u))
        else rpStatus q = 401 \<and> session_of (sv_jwt sv) (oh_secret h) t r' = None)"
    proof (cases "t < NewNumericDate (sv_now sv + tokenTTL)")
      case True
      with ses have "session_of (sv_jwt sv) (oh_secret h) t r' = Some ?c" by simp
      with profile [OF this] actor_of_subject [OF c(1) uuid(2)] open_routes True
      show ?thesis by auto
    next
      case False
      with ses have "session_of (sv_jwt sv) (oh_secret h) t r' = None" by simp
      with me_refuses [OF tm(1) this, of s2] False show ?thesis by simp
    qed
  qed
qed

text \<open>The sample callback on a server that reads its own UUIDs back.\<close>

definition read_nat :: "string \<Rightarrow> nat" where
  "read_nat s = foldl (\<lambda>n c. n * 10 + (of_char c - 48)) 0 s"

definition sample_signing :: server where
  "sample_signing = sample_server\<lparr>sv_env := sample_env\<lparr>e_uuid_parse := (\<lambda>s. Some (of_nat (read_nat s)))\<rparr>\<rparr>"

lemma is_ascii_nat_str: "is_ascii (nat_str n)"
  using nat_str_digits [of n] by (auto simp: is_ascii_def digits_def dest!: subsetD)

lemma sample_signing_uuid:
  "is_ascii (e_uuid_str (sv_env sample_signing) i)"
  "e_uuid_parse (sv_env sample_signing) (e_uuid_str (sv_env sample_signing) i) = Some i"
  by (simp_all add: sample_signing_def sample_env_def is_ascii_nat_str read_nat_def nat_str_value)

lemma sample_sign_in_web:
  assumes "string_claim claims ''email'' = ''a@x''" "display_name claims = ''A''"
  shows "\<exists>c'. callback_session (sv_env sample_signing) sample_oidc 0 r
    (\<lparr>itIssuer = ''i'', itSubject = ''s'', itClaims = x\<rparr>, claims, \<lparr>rlMember = True, rlAdmin = False\<rparr>) sample_web
    = (with_cookies [session_cookie ''token''] (http_Redirect r ''/''), c')"
proof -
  have "nat_str 1 = ''1''" by (simp add: nat_str.simps digit_char_def char_of_eq_iff)
  then have claims: "new_session (sv_env sample_signing) \<lparr>itIssuer = ''i'', itSubject = ''s'', itClaims = x\<rparr> claims
      \<lparr>rlMember = True, rlAdmin = False\<rparr> (sample_user\<lparr>uEmail := ''a@x'', uDisplayName := ''A'',
        uLastLoginAt := t, uUpdatedAt := t'\<rparr>) = sample_claims" for t t'
    using assms
    by (simp add: new_session_def sample_claims_def sample_signing_def sample_env_def sample_user_def ToStringSlice_def)
  have texts: "text_ok ''i''" "text_ok ''s''" "text_ok ''a@x''" "text_ok ''A''"
    by (rule text_ok_ascii; simp add: is_ascii_def)+
  show ?thesis
    using assms texts claims
    by (simp add: callback_session_def run_eval UpsertUser_def with_texts_def texts_ok_def
        UpsertUserSettings_def sample_defs sample_oidc_def Issue_def sample_jwt_def sample_web_def conn.defs)
qed

theorem sign_in_opens_session_witness:
  "\<exists>p m s'. NewRouter sample_signing Auth_callback sample_callback sample_web = ((p, m), s')
    \<and> (\<exists>u \<in> set (users (c_com s')). \<exists>q. NewRouter (sample_signing\<lparr>sv_now := 3599 * 10 ^ 9\<rparr>) Me sample_call sample_web
          = ((q, None), sample_web) \<and> rpStatus q = 200 \<and> (\<exists>cu. rpBody q = UserBody cu \<and> cuEmail cu = uEmail u))"
proof -
  obtain claims where cl: "callback_identity sample_oidc sample_callback ''v'' =
     Inr (\<lparr>itIssuer = ''i'', itSubject = ''s'', itClaims = Inr claims\<rparr>, claims, \<lparr>rlMember = True, rlAdmin = False\<rparr>)"
    and texts: "string_claim claims ''email'' = ''a@x''" "display_name claims = ''A''"
    using sample_callback_identity(2) by blast
  obtain s' where s: "callback_session (sv_env sample_signing) sample_oidc 0 sample_callback
      (\<lparr>itIssuer = ''i'', itSubject = ''s'', itClaims = Inr claims\<rparr>, claims, \<lparr>rlMember = True, rlAdmin = False\<rparr>)
      sample_web = (with_cookies [session_cookie ''token''] (http_Redirect sample_callback ''/''), s')"
    using sample_sign_in_web [OF texts] by blast
  have fields: "sv_oidc sample_signing = Some sample_oidc" "sv_now sample_signing = 0"
      "sv_tm sample_signing = Some (oh_secret sample_oidc)" "sv_jwt sample_signing = oh_jwt sample_oidc"
      "oh_jwt sample_oidc = sample_jwt" "\<And>b. sv_encode sample_signing b = None"
    by (simp_all add: sample_signing_def sample_server_def sample_oidc_def)
  obtain p where run: "NewRouter sample_signing Auth_callback sample_callback sample_web = ((p, None), s')"
      "session_cookie ''token'' \<in> set (rpCookies p)"
    using cl s fields by (simp add: oidc_route_def Callback_def sample_callback_identity(1))
  have cookie: "ckName (session_cookie ''token'') = cookieName" "ckValue (session_cookie ''token'') = ''token''"
      "qCookie sample_call cookieName = Some ''token''"
    by (simp_all add: session_cookie_def sample_call_def cookieName_def)
  obtain u where u: "u \<in> set (users (c_com s'))"
    "\<forall>t r'. qCookie r' cookieName = Some (ckValue (session_cookie ''token'')) \<longrightarrow>
     (\<exists>q. NewRouter (sample_signing\<lparr>sv_now := t\<rparr>) Me r' sample_web = ((q, None), sample_web) \<and>
       (if t < NewNumericDate (sv_now sample_signing + tokenTTL)
        then profile_reply sample_signing u q
          \<and> (\<exists>c. session_of (sv_jwt sample_signing) (oh_secret sample_oidc) t r' = Some c
               \<and> (\<forall>rt. needs rt \<le> Member \<longrightarrow> granted (needs rt) (Some c))
               \<and> actorFromContext (sv_env sample_signing) (r'\<lparr>qClaims := Some c\<rparr>) = Inr (uID u))
        else rpStatus q = 401 \<and> session_of (sv_jwt sample_signing) (oh_secret sample_oidc) t r' = None))"
    using sign_in_opens_session [OF run(1) fields(1,3,4) _ _ _ sample_signing_uuid run(2) cookie(1), of sample_web]
      sample_jwt_lawful cookie(2) fields(2,5,6) by (auto simp: tokenTTL_def)
  have "3599 * 10 ^ 9 < NewNumericDate (0 + tokenTTL)" by (simp add: NewNumericDate_def tokenTTL_def)
  then have "\<exists>q. NewRouter (sample_signing\<lparr>sv_now := 3599 * 10 ^ 9\<rparr>) Me sample_call sample_web
      = ((q, None), sample_web) \<and> rpStatus q = 200 \<and> (\<exists>cu. rpBody q = UserBody cu \<and> cuEmail cu = uEmail u)"
    using u(2) [THEN spec, of "3599 * 10 ^ 9", THEN spec, of sample_call] cookie(2,3) fields(2)
    by (elim impE exE) (simp, auto simp: profile_reply_def fields(6) split: if_splits)
  with run(1) u(1) show ?thesis by blast
qed

end
