(* ===== verification/Marking.thy ===== *)
theory Marking
  imports Scheduler "HOL-Library.Sublist"
begin

text \<open>
  What the two dispatchers share: a loop over the rows that were selected, each of which may send
  a message and then marks its own row of a table. The locale \<open>marking\<close> is that interface, and
  \<open>loop_run\<close> says what such a loop does: every row of the table moves at most one step, and what
  was delivered belongs to the rows, in their order, at most one message for each.
\<close>

subsection \<open>Marking the rows of a list one after the other\<close>

text \<open>
  Every row has moved along \<open>S\<close>, and the rows whose keys are still to come have not moved.
\<close>

definition progress :: "('a \<Rightarrow> 'k) \<Rightarrow> ('a \<Rightarrow> 'a \<Rightarrow> bool) \<Rightarrow> 'k list \<Rightarrow> 'a list \<Rightarrow> 'a list \<Rightarrow> bool" where
  "progress key S is rs rs' \<longleftrightarrow>
     list_all2 (\<lambda>r r'. key r' = key r \<and> S r r' \<and> (key r \<in> set is \<longrightarrow> r' = r)) rs rs'"

lemma progress_start: "(\<And>r. S r r) \<Longrightarrow> progress key S is rs rs"
  by (simp add: progress_def list_all2_same)

lemma progress_skip: "progress key S (i # is) rs rs' \<Longrightarrow> progress key S is rs rs'"
  unfolding progress_def by (erule list_all2_mono) simp

lemma progress_mono: "progress key S is rs rs' \<Longrightarrow> (\<And>r r'. S r r' \<Longrightarrow> T r r') \<Longrightarrow> progress key T is rs rs'"
  unfolding progress_def by (erule list_all2_mono) simp

lemma progress_mark:
  assumes "progress key S (i # is) rs rs'" and "i \<notin> set is"
    and "\<And>r. r \<in> set rs \<Longrightarrow> key r = i \<Longrightarrow> S r (f r) \<and> key (f r) = key r"
  shows "progress key S is rs (update_where (\<lambda>r. key r = i) f rs')"
  using assms(1,3) unfolding progress_def update_where_def
proof (induction rs rs' rule: list_all2_induct)
  case (Cons r rs r' rs')
  then show ?case using assms(2) by (auto split: if_splits)
qed simp

lemma for_each_inv:
  assumes "\<And>x xs c r c'. I (x # xs) c \<Longrightarrow> f x c = (r, c') \<Longrightarrow> (\<exists>a. r = Inr a) \<and> I xs c'"
  shows "I xs c \<Longrightarrow> for_each f xs c = (r, c') \<Longrightarrow> r = Inr () \<and> I [] c'"
proof (induction xs arbitrary: c)
  case (Cons x xs)
  obtain s c1 where one: "f x c = (s, c1)" by fastforce
  from assms [OF Cons.prems(1) this] obtain a where s: "s = Inr a" and I: "I xs c1" by blast
  have "for_each f xs c1 = (r, c')" using Cons.prems(2) one s by (simp add: andthen_def)
  from Cons.IH [OF I this] show ?case .
qed simp

text \<open>At most one row of a join on a key.\<close>

lemma join_on_key:
  assumes "distinct (map key xs)"
  shows "concat (map (\<lambda>x. if key x = k then g x else []) xs)
    = (case find (\<lambda>x. key x = k) xs of None \<Rightarrow> [] | Some x \<Rightarrow> g x)"
  using assms
proof (induction xs)
  case (Cons x xs)
  have "concat (map (\<lambda>x. if key x = k then g x else []) xs) = []" if "key x = k"
    using Cons.prems that by (auto simp: concat_eq_Nil_conv image_iff)
  with Cons show ?case by (cases "key x = k") auto
qed simp

lemma distinct_join:
  assumes "distinct (map key xs)" and "\<And>x. x \<in> set xs \<Longrightarrow> h x = [] \<or> (\<exists>y. h x = [y] \<and> f y = key x)"
  shows "distinct (map f (concat (map h xs)))"
  using assms
proof (induction xs)
  case (Cons x xs)
  have "f y \<noteq> key x" if "y \<in> set (concat (map h xs))" for y
  proof -
    from that obtain z where z: "z \<in> set xs" "y \<in> set (h z)" by auto
    then have "f y = key z" using Cons.prems(2) [of z] by fastforce
    then show ?thesis using Cons.prems(1) z(1) by force
  qed
  moreover have "distinct (map f (concat (map h xs)))" using Cons by simp
  ultimately show ?case using Cons.prems(2) [of x] by (force simp: image_iff)
qed simp

lemma distinct_first_sorted:
  assumes "distinct (map f xs)"
  shows "distinct (map f (take n (sort_key k xs)))"
proof -
  have "distinct (map f (sort_key k xs))" using assms by (simp add: distinct_map)
  then show ?thesis by (simp add: take_map [symmetric] distinct_take)
qed

lemma attempt_exec:
  assumes "attempt (exec Tx q) c = (r, c')" and "c_tx c = Some v"
  shows "\<exists>s v'. r = Inr s \<and> c_com c' = c_com c \<and> sch_mailer c' = sch_mailer c \<and> c_tx c' = Some v'
    \<and> (v' = v \<or> (\<exists>a. q (ctx_of c) v = Inr (a, v')))"
  using assms
  by (auto simp: attempt_def exec_def exec_tx_def Let_def split: option.splits sum.splits if_splits)

text \<open>
  A transaction around a body that may send messages: what was sent is sent, and the database is
  the view the body left, or as it was when anything fails.
\<close>

lemma in_tx_delivers:
  assumes run: "in_tx b k body c = (r, c')" and empty: "Q [] (c_com c)"
    and body: "\<And>c1 r c2. c_tx c1 = Some (c_com c) \<Longrightarrow> c_com c1 = c_com c \<Longrightarrow> sch_mailer c1 = sch_mailer c \<Longrightarrow>
      sch_clock c1 = sch_clock c \<Longrightarrow> sch_calls c1 = sch_calls c \<Longrightarrow> body c1 = (r, c2) \<Longrightarrow>
      \<exists>ks v. c_com c2 = c_com c \<and> c_tx c2 = Some v \<and> delivered (sch_mailer c2) = delivered (sch_mailer c) @ ks \<and> Q ks v"
  shows "\<exists>ks v. delivered (sch_mailer c') = delivered (sch_mailer c) @ ks \<and> Q ks v
    \<and> c_com c' = (case r of Inl _ \<Rightarrow> c_com c | Inr _ \<Rightarrow> v)"
proof (cases "c_fault c (c_stmts c)")
  case (Some m)
  with run have "c_com c' = c_com c" "sch_mailer c' = sch_mailer c" "\<exists>e. r = Inl e"
    by (auto simp: in_tx_def begin_tx_def Let_def)
  then have "delivered (sch_mailer c') = delivered (sch_mailer c) @ []"
      "c_com c' = (case r of Inl _ \<Rightarrow> c_com c | Inr _ \<Rightarrow> c_com c)" by auto
  then show ?thesis
    by - (rule exI [of _ "[]"], rule exI [of _ "c_com c"], intro conjI, assumption, rule empty)
next
  case None
  let ?c1 = "c\<lparr>c_stmts := Suc (c_stmts c), c_tx := Some (c_com c), c_aborted := False\<rparr>"
  obtain s c2 where one: "body ?c1 = (s, c2)" by fastforce
  from body [OF _ _ _ _ _ this] obtain ks v where
    "c_com c2 = c_com c" "c_tx c2 = Some v" "delivered (sch_mailer c2) = delivered (sch_mailer c) @ ks" "Q ks v"
    by auto
  with run one None show ?thesis
    by (intro exI [of _ ks] exI [of _ v]) (auto simp: in_tx_def begin_tx_def commit_tx_def rollback_tx_def
        Let_def split: sum.splits option.splits if_splits)
qed

locale marking =
  fixes delivered :: "'s \<Rightarrow> Message list"
    and key :: "'r \<Rightarrow> uuid" and table :: "db \<Rightarrow> 'r list" and put :: "'r list \<Rightarrow> db \<Rightarrow> db"
    and rowkey :: "'w \<Rightarrow> uuid" and one :: "'w \<Rightarrow> ('s, unit) job" and ok :: "'s sched \<Rightarrow> bool"
    and says :: "'w \<Rightarrow> Message \<Rightarrow> bool" and selected :: "'w \<Rightarrow> 'r \<Rightarrow> bool"
    and S :: "('r \<Rightarrow> bool) \<Rightarrow> 'r \<Rightarrow> 'r \<Rightarrow> bool"
  assumes S_keep: "S P q q"
    and S_mono: "S P q q' \<Longrightarrow> (\<And>q. P q \<Longrightarrow> Q q) \<Longrightarrow> S Q q q'"
    and put_table: "put (table d) d = d" "table (put qs d) = qs" "put qs (put qs' d) = put qs d"
    and one_marks: "ok c \<Longrightarrow> c_tx c = Some v \<Longrightarrow> one w c = (r, c') \<Longrightarrow>
      \<exists>k f. r = Inr () \<and> ok c' \<and> c_com c' = c_com c
        \<and> delivered (sch_mailer c') = delivered (sch_mailer c) @ k
        \<and> (k = [] \<or> (\<exists>m. k = [m] \<and> says w m))
        \<and> (c_tx c' = Some v \<or> c_tx c' = Some (put (update_where (\<lambda>q. key q = rowkey w) f (table v)) v))
        \<and> (\<forall>q P. selected w q \<longrightarrow> ((\<exists>m \<in> set k. says w m) \<longrightarrow> P q) \<longrightarrow> S P q (f q) \<and> key (f q) = key q)"
begin

definition mailed :: "'w list \<Rightarrow> Message list \<Rightarrow> 'r \<Rightarrow> bool" where
  "mailed due ks q \<longleftrightarrow> (\<exists>w \<in> set due. rowkey w = key q \<and> (\<exists>m \<in> set ks. says w m))"

definition loop :: "'w list \<Rightarrow> 's sched \<Rightarrow> db \<Rightarrow> 'w list \<Rightarrow> 's sched \<Rightarrow> bool" where
  "loop due c0 v0 rest c \<longleftrightarrow>
     (\<exists>dn ws ks qs. due = dn @ rest \<and> ok c \<and> c_com c = c_com c0 \<and> c_tx c = Some (put qs v0)
        \<and> delivered (sch_mailer c) = delivered (sch_mailer c0) @ ks
        \<and> subseq ws dn \<and> list_all2 says ws ks
        \<and> progress key (S (mailed due ks)) (map rowkey rest) (table v0) qs)"

lemma loop_step:
  assumes sel: "distinct (map rowkey due)"
      "\<And>w q. w \<in> set due \<Longrightarrow> q \<in> set (table v0) \<Longrightarrow> key q = rowkey w \<Longrightarrow> selected w q"
    and loop: "loop due c0 v0 (w # rest) c" and run: "one w c = (r, c')"
  shows "(\<exists>a. r = Inr a) \<and> loop due c0 v0 rest c'"
proof -
  obtain dn ws ks qs where inv: "due = dn @ w # rest" "ok c" "c_com c = c_com c0" "c_tx c = Some (put qs v0)"
      "delivered (sch_mailer c) = delivered (sch_mailer c0) @ ks" "subseq ws dn" "list_all2 says ws ks"
      and prog: "progress key (S (mailed due ks)) (rowkey w # map rowkey rest) (table v0) qs"
    using loop unfolding loop_def by auto
  obtain k f where one: "r = Inr ()" "ok c'" "c_com c' = c_com c"
      "delivered (sch_mailer c') = delivered (sch_mailer c) @ k" "k = [] \<or> (\<exists>m. k = [m] \<and> says w m)"
      and tx: "c_tx c' = Some (put qs v0)
        \<or> c_tx c' = Some (put (update_where (\<lambda>q. key q = rowkey w) f (table (put qs v0))) (put qs v0))"
      and f: "\<And>q P. selected w q \<Longrightarrow> ((\<exists>m \<in> set k. says w m) \<longrightarrow> P q) \<Longrightarrow> S P q (f q) \<and> key (f q) = key q"
    using one_marks [OF inv(2,4) run] by blast
  let ?S = "S (mailed due (ks @ k))"
  have prog': "progress key ?S (rowkey w # map rowkey rest) (table v0) qs"
    by (rule progress_mono [OF prog], erule S_mono) (auto simp: mailed_def)
  have moved: "progress key ?S (map rowkey rest) (table v0) (update_where (\<lambda>q. key q = rowkey w) f qs)"
  proof (rule progress_mark [OF prog'])
    show "rowkey w \<notin> set (map rowkey rest)" using sel(1) inv(1) by auto
    fix q assume q: "q \<in> set (table v0)" "key q = rowkey w"
    have "selected w q" using sel(2) q inv(1) by simp
    moreover have "(\<exists>m \<in> set k. says w m) \<longrightarrow> mailed due (ks @ k) q"
      using q(2) inv(1) by (auto simp: mailed_def)
    ultimately show "?S q (f q) \<and> key (f q) = key q" by (rule f)
  qed
  obtain qs' where tx': "c_tx c' = Some (put qs' v0)" "progress key ?S (map rowkey rest) (table v0) qs'"
    using tx moved progress_skip [OF prog'] unfolding put_table by blast
  obtain ws' where ws': "subseq ws' (dn @ [w])" "list_all2 says ws' (ks @ k)"
    using inv(6,7) one(5)
    by (auto intro: list_all2_appendI subseq_rev_drop_many list_emb_append_mono exI [of _ "ws @ [w]"])
  have "due = (dn @ [w]) @ rest" "delivered (sch_mailer c') = delivered (sch_mailer c0) @ ks @ k"
    "c_com c' = c_com c0" using inv(1,3,5) one(3,4) by simp_all
  with tx' ws' one(1,2) show ?thesis
    unfolding loop_def by (intro conjI exI [of _ "()"] exI [of _ "dn @ [w]"] exI [of _ ws'] exI [of _ "ks @ k"] exI [of _ qs'])
qed

lemma loop_run:
  assumes sel: "distinct (map rowkey due)"
      "\<And>w q. w \<in> set due \<Longrightarrow> q \<in> set (table v) \<Longrightarrow> key q = rowkey w \<Longrightarrow> selected w q"
    and c: "ok c" "c_tx c = Some v" and run: "for_each one due c = (r, c')"
  shows "\<exists>ws ks qs. c_com c' = c_com c \<and> c_tx c' = Some (put qs v)
    \<and> delivered (sch_mailer c') = delivered (sch_mailer c) @ ks \<and> subseq ws due \<and> list_all2 says ws ks
    \<and> list_all2 (S (mailed due ks)) (table v) qs"
proof -
  have start: "loop due c v due c"
    unfolding loop_def
    by (intro exI [of _ "[]"] exI [of _ "table v"]) (simp add: c put_table progress_start S_keep)
  have step: "(\<exists>a. r = Inr a) \<and> loop due c v xs d'" if "loop due c v (x # xs) d" and "one x d = (r, d')" for x xs d r d'
    using loop_step [OF sel that] by blast
  have "r = Inr () \<and> loop due c v [] c'"
    by (rule for_each_inv [where I = "loop due c v", OF _ start run]) (rule step)
  then show ?thesis
    unfolding loop_def progress_def by (fastforce elim!: list_all2_mono)
qed

end

end
