(* ===== verification/Dispatch.thy ===== *)
theory Dispatch
  imports Marking Samples
begin

text \<open>
  What the dispatch of reminders does. A reminder moves along a small state machine,
  \<open>reminder_step\<close>; the lemmas show that a run moves every reminder at most one step, that one is
  recorded as sent only when its message was delivered in the run, that a run sends at most one
  message for each, and that a run that fails leaves every row as it was.
\<close>

subsection \<open>Reminders that are due\<close>

lemma due_reminders_rows:
  assumes "wf_db env d"
  shows "distinct (map drID (due_reminders now d))"
    and "row \<in> set (due_reminders now d) \<Longrightarrow> r \<in> set (reminders d) \<Longrightarrow> rID r = drID row \<Longrightarrow>
      rStatus r = Pending \<and> rScheduledFor r \<le> pg_ts now \<and> rAttempts r = drAttempts row"
proof -
  have u: "distinct (map uID (users d))" and c: "distinct (map cID (conferences d))"
    and r: "distinct (map rID (reminders d))"
    using wf_dbD [OF assms] by (auto simp: users_ok_def conferences_ok_def reminders_ok_def id_lists)
  let ?h = "\<lambda>r. if rStatus r = Pending \<and> rScheduledFor r \<le> pg_ts now then
      concat (map (\<lambda>u. if uID u = rUserID r then
        concat (map (\<lambda>c. if cID c = rConferenceID r then [due_row r u c] else []) (conferences d)) else []) (users d)) else []"
  have h: "?h r = [] \<or> (\<exists>y. ?h r = [y] \<and> drID y = rID r)" for r
    unfolding join_on_key [OF u] join_on_key [OF c] by (auto simp: due_row_def split: option.splits)
  have eq: "due_reminders now d = take dispatch_limit (sort_key drScheduledFor (concat (map ?h (reminders d))))"
    by (simp add: due_reminders_def)
  show "distinct (map drID (due_reminders now d))"
    unfolding eq by (rule distinct_first_sorted, rule distinct_join [OF r]) (rule h)
  assume "row \<in> set (due_reminders now d)" and mem: "r \<in> set (reminders d)" "rID r = drID row"
  then have "row \<in> set (concat (map ?h (reminders d)))"
    unfolding eq by (auto dest!: in_set_takeD)
  then obtain r' where r': "r' \<in> set (reminders d)" "row \<in> set (?h r')" by auto
  then have row: "drID row = rID r'" "rStatus r' = Pending" "rScheduledFor r' \<le> pg_ts now" "rAttempts r' = drAttempts row"
    by (auto simp: due_row_def split: if_splits)
  have "r = r'" using r mem r'(1) row(1) by (auto simp: distinct_map inj_on_def)
  with row show "rStatus r = Pending \<and> rScheduledFor r \<le> pg_ts now \<and> rAttempts r = drAttempts row" by simp
qed

subsection \<open>The state machine of a reminder\<close>

text \<open>
  One run of the dispatcher, given the limit of attempts, which rows are due and which had their
  message delivered.
\<close>

inductive reminder_step :: "int \<Rightarrow> (reminder \<Rightarrow> bool) \<Rightarrow> (reminder \<Rightarrow> bool) \<Rightarrow> reminder \<Rightarrow> reminder \<Rightarrow> bool"
  for attempts :: int and due and mailed where
  keep: "reminder_step attempts due mailed r r"
| sent: "rStatus r = Pending \<Longrightarrow> due r \<Longrightarrow> mailed r \<Longrightarrow>
    reminder_step attempts due mailed r (r\<lparr>rStatus := Sent, rSentAt := Some t, rUpdatedAt := t\<rparr>)"
| failed: "rStatus r = Pending \<Longrightarrow> due r \<Longrightarrow> attempts \<le> rAttempts r + 1 \<Longrightarrow>
    reminder_step attempts due mailed r (r\<lparr>rStatus := Failed, rLastError := Some e, rUpdatedAt := t\<rparr>)"
| again: "rStatus r = Pending \<Longrightarrow> due r \<Longrightarrow> rAttempts r + 1 < attempts \<Longrightarrow>
    reminder_step attempts due mailed r (r\<lparr>rAttempts := rAttempts r + 1, rLastError := Some e, rUpdatedAt := t\<rparr>)"

inductive_cases reminder_stepE: "reminder_step attempts due mailed r r'"

lemma reminder_step_mono:
  "reminder_step n due mailed r r' \<Longrightarrow> (\<And>r. mailed r \<Longrightarrow> mailed' r) \<Longrightarrow> reminder_step n due mailed' r r'"
  by (induction rule: reminder_step.induct) (auto intro: reminder_step.intros)

definition due_at :: "instant \<Rightarrow> reminder \<Rightarrow> bool" where
  "due_at now r \<longleftrightarrow> rScheduledFor r \<le> pg_ts now"

definition reminder_msg :: "location \<Rightarrow> SelectDueRemindersRow \<Rightarrow> Message" where
  "reminder_msg loc row = \<lparr>mTo = drUserEmail row, mSubject = reminderSubject row,
     mBodyText = reminder_txt (reminder_data loc row), mBodyHTML = reminder_html (reminder_data loc row)\<rparr>"

lemma reminder_message_Inr: "reminder_message loc row = Inr (reminder_msg loc row)"
  by (simp add: reminder_message_def RenderReminder_eq reminder_msg_def)

definition marked :: "'ms sched \<Rightarrow> db \<Rightarrow> uuid \<Rightarrow> (reminder \<Rightarrow> reminder) \<Rightarrow> 'ms sched \<Rightarrow> bool" where
  "marked c v i f c' \<longleftrightarrow> c_com c' = c_com c \<and> sch_mailer c' = sch_mailer c
     \<and> (c_tx c' = Some v \<or> c_tx c' = Some (set_reminder i f v))"

lemma reminder_sent_marks:
  assumes run: "reminder_sent row c = (r, c')" and v: "c_tx c = Some v"
  shows "r = Inr () \<and> marked c v (drID row) (\<lambda>r. r\<lparr>rStatus := Sent, rSentAt := Some (c_now c), rUpdatedAt := c_now c\<rparr>) c'"
proof -
  obtain s :: "err + (db_err + unit)" and c1 where one: "attempt (exec Tx (MarkReminderSent (drID row))) c = (s, c1)" by fastforce
  from attempt_exec [OF this v] run one show ?thesis
    by (auto simp: reminder_sent_def andthen_def marked_def MarkReminderSent_def ctx_of_def count_email_def
        split: sum.splits)
qed

lemma reminder_unsent_marks:
  assumes run: "reminder_unsent cfg row e c = (r, c')" and v: "c_tx c = Some v"
  shows "r = Inr () \<and> marked c v (drID row) (if drAttempts row + 1 \<ge> cfMaxAttempts cfg
    then (\<lambda>r. r\<lparr>rStatus := Failed, rLastError := Some e, rUpdatedAt := c_now c\<rparr>)
    else (\<lambda>r. r\<lparr>rAttempts := rAttempts r + 1, rLastError := Some e, rUpdatedAt := c_now c\<rparr>)) c'"
proof (cases "drAttempts row + 1 \<ge> cfMaxAttempts cfg")
  case True
  obtain s :: "err + (db_err + unit)" and c1 where one: "attempt (exec Tx (MarkReminderFailed (Some e) (drID row))) c = (s, c1)" by fastforce
  from attempt_exec [OF this v] run one True show ?thesis
    by (auto simp: reminder_unsent_def andthen_def marked_def MarkReminderFailed_def with_texts_def ctx_of_def
        count_email_def split: if_splits)
next
  case False
  obtain s :: "err + (db_err + unit)" and c1 where one: "attempt (exec Tx (IncrementReminderAttempt (Some e) (drID row))) c = (s, c1)" by fastforce
  from attempt_exec [OF this v] run one False show ?thesis
    by (auto simp: reminder_unsent_def andthen_def marked_def IncrementReminderAttempt_def with_texts_def ctx_of_def
        split: if_splits)
qed

subsection \<open>One run over the due reminders\<close>

definition sends_reminder :: "location \<Rightarrow> SelectDueRemindersRow \<Rightarrow> Message \<Rightarrow> bool" where
  "sends_reminder loc row m \<longleftrightarrow> m = reminder_msg loc row"

definition row_of_reminder :: "instant \<Rightarrow> SelectDueRemindersRow \<Rightarrow> reminder \<Rightarrow> bool" where
  "row_of_reminder now row q \<longleftrightarrow> rStatus q = Pending \<and> due_at now q \<and> rAttempts q = drAttempts row"

text \<open>How the two marks read as a step of the row, where \<open>P\<close> is what a sent row promises.\<close>

definition reminder_moves ::
  "sched_config \<Rightarrow> instant \<Rightarrow> SelectDueRemindersRow \<Rightarrow> bool \<Rightarrow> (reminder \<Rightarrow> reminder) \<Rightarrow> bool" where
  "reminder_moves cfg now row sent f \<longleftrightarrow> (\<forall>q P. row_of_reminder now row q \<longrightarrow> (sent \<longrightarrow> P q) \<longrightarrow>
     reminder_step (cfMaxAttempts cfg) (due_at now) P q (f q) \<and> rID (f q) = rID q)"

lemma reminder_sent_moves:
  "reminder_moves cfg now row True (\<lambda>q. q\<lparr>rStatus := Sent, rSentAt := Some t, rUpdatedAt := t\<rparr>)"
  by (auto simp: reminder_moves_def row_of_reminder_def intro!: reminder_step.sent)

lemma reminder_step_again:
  assumes "rStatus r = Pending" "due r" "rAttempts r + 1 < n" "a = rAttempts r + 1"
  shows "reminder_step n due mailed r (r\<lparr>rAttempts := a, rLastError := Some e, rUpdatedAt := t\<rparr>)"
  unfolding assms(4) using assms(1-3) by (rule reminder_step.again)

lemma reminder_unsent_moves:
  "reminder_moves cfg now row b (if drAttempts row + 1 \<ge> cfMaxAttempts cfg
    then (\<lambda>q. q\<lparr>rStatus := Failed, rLastError := Some e, rUpdatedAt := t\<rparr>)
    else (\<lambda>q. q\<lparr>rAttempts := rAttempts q + 1, rLastError := Some e, rUpdatedAt := t\<rparr>))"
  by (auto simp: reminder_moves_def row_of_reminder_def intro!: reminder_step.failed reminder_step_again)

lemma dispatch_reminder_moves:
  assumes send: "send (reminder_msg (cfLocal cfg) row) (sch_mailer c) = (res, ms)"
    and v: "c_tx c = Some v" and run: "dispatch_reminder send cfg row c = (r, c')"
  shows "\<exists>f. r = Inr () \<and> marked (c\<lparr>sch_mailer := ms\<rparr>) v (drID row) f c' \<and> reminder_moves cfg now row (res = None) f"
proof (cases res)
  case None
  then have "reminder_sent row (c\<lparr>sch_mailer := ms\<rparr>) = (r, c')"
    using run send by (simp add: dispatch_reminder_def reminder_message_Inr andthen_def mail_send_def)
  from reminder_sent_marks [OF this, of v] v reminder_sent_moves [of cfg now row] None show ?thesis by fastforce
next
  case (Some e)
  then have "reminder_unsent cfg row e (c\<lparr>sch_mailer := ms\<rparr>) = (r, c')"
    using run send by (simp add: dispatch_reminder_def reminder_message_Inr andthen_def mail_send_def)
  note m = reminder_unsent_marks [OF this, of v]
  have "c_tx (c\<lparr>sch_mailer := ms\<rparr>) = Some v" using v by simp
  note m = m [OF this]
  show ?thesis by (intro exI conjI) (rule m [THEN conjunct1] m [THEN conjunct2] reminder_unsent_moves)+
qed

lemma dispatch_reminder_marks:
  assumes "mailer send delivered"
    and v: "c_tx c = Some v" and run: "dispatch_reminder send cfg row c = (r, c')"
  shows "\<exists>k f. r = Inr () \<and> c_com c' = c_com c
    \<and> delivered (sch_mailer c') = delivered (sch_mailer c) @ k
    \<and> (k = [] \<or> (\<exists>m. k = [m] \<and> sends_reminder (cfLocal cfg) row m))
    \<and> (c_tx c' = Some v \<or> c_tx c' = Some (set_reminder (drID row) f v))
    \<and> (\<forall>q P. row_of_reminder now row q \<longrightarrow> ((\<exists>m \<in> set k. sends_reminder (cfLocal cfg) row m) \<longrightarrow> P q) \<longrightarrow>
        reminder_step (cfMaxAttempts cfg) (due_at now) P q (f q) \<and> rID (f q) = rID q)"
proof -
  let ?msg = "reminder_msg (cfLocal cfg) row"
  obtain res ms where send: "send ?msg (sch_mailer c) = (res, ms)" by fastforce
  obtain k where k: "delivered ms = delivered (sch_mailer c) @ k" "k = [] \<or> k = [?msg]" "res = None \<longrightarrow> k = [?msg]"
    using mailer.send_extends [OF assms(1) send] by blast
  obtain f where "r = Inr ()" and mark: "marked (c\<lparr>sch_mailer := ms\<rparr>) v (drID row) f c'"
    and f: "reminder_moves cfg now row (res = None) f"
    using dispatch_reminder_moves [where send = send, OF send v run] by blast
  have "reminder_step (cfMaxAttempts cfg) (due_at now) P q (f q) \<and> rID (f q) = rID q"
    if "row_of_reminder now row q" "(\<exists>m \<in> set k. sends_reminder (cfLocal cfg) row m) \<longrightarrow> P q" for q P
    using f that k(3) by (auto simp: reminder_moves_def sends_reminder_def)
  with k mark \<open>r = Inr ()\<close> show ?thesis
    by (intro exI [of _ k] exI [of _ f]) (auto simp: marked_def sends_reminder_def)
qed

sublocale mailer \<subseteq> rem: marking delivered rID reminders "\<lambda>rs d. d\<lparr>reminders := rs\<rparr>" drID
    "dispatch_reminder send cfg" "\<lambda>_. True" "sends_reminder (cfLocal cfg)" "row_of_reminder now"
    "reminder_step (cfMaxAttempts cfg) (due_at now)" for cfg now
proof unfold_locales
  fix P Q :: "reminder \<Rightarrow> bool" and q q'
  show "reminder_step (cfMaxAttempts cfg) (due_at now) P q q" by (rule reminder_step.keep)
  show "reminder_step (cfMaxAttempts cfg) (due_at now) Q q q'"
    if "reminder_step (cfMaxAttempts cfg) (due_at now) P q q'" and "\<And>q. P q \<Longrightarrow> Q q"
    using that by (rule reminder_step_mono)
next
  fix c c' :: "'s sched" and v w r
  assume "c_tx c = Some v" and "dispatch_reminder send cfg w c = (r, c')"
  from dispatch_reminder_marks [OF mailer_axioms this, of now]
  show "\<exists>k f. r = Inr () \<and> True \<and> c_com c' = c_com c \<and> delivered (sch_mailer c') = delivered (sch_mailer c) @ k
      \<and> (k = [] \<or> (\<exists>m. k = [m] \<and> sends_reminder (cfLocal cfg) w m))
      \<and> (c_tx c' = Some v \<or> c_tx c' = Some (v\<lparr>reminders := update_where (\<lambda>q. rID q = drID w) f (reminders v)\<rparr>))
      \<and> (\<forall>q P. row_of_reminder now w q \<longrightarrow> ((\<exists>m\<in>set k. sends_reminder (cfLocal cfg) w m) \<longrightarrow> P q) \<longrightarrow>
          reminder_step (cfMaxAttempts cfg) (due_at now) P q (f q) \<and> rID (f q) = rID q)"
    by (simp add: set_reminder_def)
qed simp_all

text \<open>What a run did, given the clock it read and what it delivered.\<close>

definition mailed_in :: "location \<Rightarrow> SelectDueRemindersRow list \<Rightarrow> Message list \<Rightarrow> reminder \<Rightarrow> bool" where
  "mailed_in loc due ks q \<longleftrightarrow> (\<exists>row \<in> set due. drID row = rID q \<and> reminder_msg loc row \<in> set ks)"

definition reminders_dispatched ::
  "sched_config \<Rightarrow> instant \<Rightarrow> Message list \<Rightarrow> db \<Rightarrow> db \<Rightarrow> bool" where
  "reminders_dispatched cfg now ks d d' \<longleftrightarrow> (\<exists>rs. d' = d\<lparr>reminders := rs\<rparr>
     \<and> list_all2 (reminder_step (cfMaxAttempts cfg) (due_at now) (mailed_in (cfLocal cfg) (due_reminders now d) ks))
         (reminders d) rs)"

definition reminder_mail :: "sched_config \<Rightarrow> instant \<Rightarrow> db \<Rightarrow> Message list" where
  "reminder_mail cfg now d = map (reminder_msg (cfLocal cfg)) (due_reminders now d)"

lemma sends_reminder_map: "list_all2 (sends_reminder loc) ws ks \<Longrightarrow> ks = map (reminder_msg loc) ws"
  by (induction ws ks rule: list_all2_induct) (simp_all add: sends_reminder_def)

context mailer begin

lemma reminders_body_run:
  fixes c :: "'s sched"
  assumes wf: "wf_db env v" and c: "c_tx c = Some v" and run: "reminders_body send cfg c = (r, c')"
  shows "\<exists>ks v'. c_com c' = c_com c \<and> c_tx c' = Some v'
    \<and> delivered (sch_mailer c') = delivered (sch_mailer c) @ ks
    \<and> subseq ks (reminder_mail cfg (sch_clock c (sch_calls c)) v)
    \<and> reminders_dispatched cfg (sch_clock c (sch_calls c)) ks v v'"
proof -
  define now where "now = sch_clock c (sch_calls c)"
  define due where "due = due_reminders now v"
  let ?c1 = "c\<lparr>sch_calls := Suc (sch_calls c)\<rparr>"
  obtain s c2 where sel: "exec Tx (SelectDueReminders now) ?c1 = (s, c2)" by fastforce
  have c2: "c_com c2 = c_com c" "c_tx c2 = Some v" "sch_mailer c2 = sch_mailer c" "s = Inr x \<longrightarrow> x = due" for x
    using sel c unfolding due_def
    by (auto simp: exec_def exec_tx_def Let_def SelectDueReminders_def rows_def split: option.splits if_splits)
  show ?thesis
  proof (cases s)
    case (Inl e)
    have same: "reminders_dispatched cfg now [] v v" unfolding reminders_dispatched_def
      by (intro exI [of _ "reminders v"]) (simp add: list_all2_same reminder_step.keep)
    have "c' = c2"
      using run sel Inl by (simp add: reminders_body_def andthen_def Now_def on_err_def now_def)
    then show ?thesis
      using c2 same unfolding now_def by (intro exI [of _ "[]"] exI [of _ v]) simp
  next
    case (Inr x)
    then have rows: "for_each (dispatch_reminder send cfg) due c2 = (r, c')"
      using run sel c2(4) by (simp add: reminders_body_def andthen_def Now_def on_err_def now_def)
    have due: "distinct (map drID due)"
      "\<And>w q. w \<in> set due \<Longrightarrow> q \<in> set (reminders v) \<Longrightarrow> rID q = drID w \<Longrightarrow> row_of_reminder now w q"
      using due_reminders_rows [OF wf, where now = now] unfolding due_def row_of_reminder_def due_at_def by blast+
    from rem.loop_run [OF due TrueI c2(2) rows] obtain ws ks qs where
      run': "c_com c' = c_com c2" "c_tx c' = Some (v\<lparr>reminders := qs\<rparr>)"
        "delivered (sch_mailer c') = delivered (sch_mailer c2) @ ks"
      and ws: "subseq ws due" "list_all2 (sends_reminder (cfLocal cfg)) ws ks"
      and qs: "list_all2 (reminder_step (cfMaxAttempts cfg) (due_at now) (rem.mailed cfg due ks)) (reminders v) qs"
      by blast
    have "rem.mailed cfg due ks = mailed_in (cfLocal cfg) due ks"
      by (auto simp: rem.mailed_def mailed_in_def sends_reminder_def)
    with qs have "reminders_dispatched cfg now ks v (v\<lparr>reminders := qs\<rparr>)"
      unfolding reminders_dispatched_def due_def by auto
    moreover have "subseq ks (reminder_mail cfg now v)"
      using subseq_map [OF ws(1)] sends_reminder_map [OF ws(2)] by (simp add: reminder_mail_def due_def)
    ultimately show ?thesis
      using run' c2(1,3) unfolding now_def by (intro exI [of _ ks] exI [of _ "v\<lparr>reminders := qs\<rparr>"]) simp
  qed
qed

lemma dispatchReminders_run:
  fixes c :: "'s sched"
  assumes wf: "wf_db env (c_com c)" and run: "dispatchReminders send cfg c = (r, c')"
  shows "\<exists>ks. delivered (sch_mailer c') = delivered (sch_mailer c) @ ks
    \<and> subseq ks (reminder_mail cfg (sch_clock c (sch_calls c)) (c_com c))
    \<and> (case r of Inl _ \<Rightarrow> c_com c' = c_com c
       | Inr _ \<Rightarrow> reminders_dispatched cfg (sch_clock c (sch_calls c)) ks (c_com c) (c_com c'))"
proof -
  let ?now = "sch_clock c (sch_calls c)"
  define Q where "Q ks v \<longleftrightarrow> subseq ks (reminder_mail cfg ?now (c_com c)) \<and> reminders_dispatched cfg ?now ks (c_com c) v"
    for ks v
  have "\<exists>ks v. delivered (sch_mailer c') = delivered (sch_mailer c) @ ks \<and> Q ks v
      \<and> c_com c' = (case r of Inl _ \<Rightarrow> c_com c | Inr _ \<Rightarrow> v)"
    using run unfolding dispatchReminders_def
  proof (rule in_tx_delivers)
    show "Q [] (c_com c)"
      unfolding Q_def reminders_dispatched_def
      by (auto intro!: exI [of _ "reminders (c_com c)"] simp: list_all2_same reminder_step.keep)
    fix c1 c2 :: "'s sched" and r
    assume c1: "c_tx c1 = Some (c_com c)" "c_com c1 = c_com c" "sch_mailer c1 = sch_mailer c"
      "sch_clock c1 = sch_clock c" "sch_calls c1 = sch_calls c" and "reminders_body send cfg c1 = (r, c2)"
    from reminders_body_run [OF wf c1(1) this(6)] c1(2-5)
    show "\<exists>ks v. c_com c2 = c_com c \<and> c_tx c2 = Some v
        \<and> delivered (sch_mailer c2) = delivered (sch_mailer c) @ ks \<and> Q ks v"
      unfolding Q_def by auto
  qed
  then show ?thesis unfolding Q_def by (cases r) auto
qed

end

end
