(* ===== verification/Dispatch_Runs.thy ===== *)
theory Dispatch_Runs
  imports Dispatch
begin

text \<open>
  Properties of a run of the reminder dispatcher: what any run can do to the log and to the world,
  what a run does when nothing fails, and what a commit that fails leaves behind.
\<close>

subsection \<open>A run in which nothing fails\<close>

definition sent_at :: "instant \<Rightarrow> reminder \<Rightarrow> reminder" where
  "sent_at t q = q\<lparr>rStatus := Sent, rSentAt := Some t, rUpdatedAt := t\<rparr>"

lemma sent_at_simps [simp]: "rID (sent_at t q) = rID q" "sent_at t (sent_at t q) = sent_at t q"
  by (simp_all add: sent_at_def)

lemma sent_at_abs: "sent_at t = (\<lambda>q. q\<lparr>rStatus := Sent, rSentAt := Some t, rUpdatedAt := t\<rparr>)"
  by (simp add: fun_eq_iff sent_at_def)

lemma fold_set_reminder:
  "reminders (fold (\<lambda>w. set_reminder (drID w) (sent_at t)) ws v)
     = map (\<lambda>q. if rID q \<in> set (map drID ws) then sent_at t q else q) (reminders v)"
  "fold (\<lambda>w. set_reminder (drID w) (sent_at t)) ws v
     = v\<lparr>reminders := reminders (fold (\<lambda>w. set_reminder (drID w) (sent_at t)) ws v)\<rparr>"
proof (induction ws arbitrary: v)
  case (Cons w ws)
  {
    case 1
    show ?case
      using Cons(1) [of "set_reminder (drID w) (sent_at t) v"] by (simp add: set_reminder_def update_where_def)
  next
    case 2
    show ?case using Cons(2) [of "set_reminder (drID w) (sent_at t) v"] by (simp add: set_reminder_def)
  }
qed simp_all

text \<open>The connection works and the transaction is open.\<close>

definition clean :: "db \<Rightarrow> 'ms sched \<Rightarrow> bool" where
  "clean v c \<longleftrightarrow> c_tx c = Some v \<and> \<not> c_aborted c \<and> c_fault c = (\<lambda>_. None)"

lemma clean_dispatch_reminder:
  assumes "clean v c"
  shows "\<exists>c'. dispatch_reminder Fake_Send cfg row c = (Inr (), c') \<and> clean (set_reminder (drID row) (sent_at (c_now c)) v) c'
    \<and> c_now c' = c_now c \<and> fm_sent (sch_mailer c') = fm_sent (sch_mailer c) @ [reminder_msg (cfLocal cfg) row]"
  using assms
  by (simp add: dispatch_reminder_def reminder_message_Inr mail_send_def Fake_Send_def reminder_sent_def
      MarkReminderSent_def count_email_def clean_def sent_at_abs run_eval)

lemma clean_loop:
  "clean v c \<Longrightarrow> \<exists>c'. for_each (dispatch_reminder Fake_Send cfg) ws c = (Inr (), c')
     \<and> clean (fold (\<lambda>w. set_reminder (drID w) (sent_at (c_now c))) ws v) c'
     \<and> fm_sent (sch_mailer c') = fm_sent (sch_mailer c) @ map (reminder_msg (cfLocal cfg)) ws"
proof (induction ws arbitrary: v c)
  case (Cons w ws)
  obtain c1 where c1: "dispatch_reminder Fake_Send cfg w c = (Inr (), c1)"
      "clean (set_reminder (drID w) (sent_at (c_now c)) v) c1" "c_now c1 = c_now c"
      "fm_sent (sch_mailer c1) = fm_sent (sch_mailer c) @ [reminder_msg (cfLocal cfg) w]"
    using clean_dispatch_reminder [OF Cons.prems] by blast
  from Cons.IH [OF c1(2)] c1 show ?case by (auto simp: andthen_def)
qed simp

lemma clean_body:
  assumes "clean v c"
  shows "\<exists>c'. reminders_body Fake_Send cfg c = (Inr (), c')
    \<and> clean (fold (\<lambda>w. set_reminder (drID w) (sent_at (c_now c))) (due_reminders (sch_clock c (sch_calls c)) v) v) c'
    \<and> fm_sent (sch_mailer c') = fm_sent (sch_mailer c) @ reminder_mail cfg (sch_clock c (sch_calls c)) v"
proof -
  let ?c = "c\<lparr>sch_calls := Suc (sch_calls c), c_stmts := Suc (c_stmts c), c_tx := Some v\<rparr>"
  have "clean v ?c" using assms by (simp add: clean_def)
  from clean_loop [OF this, of cfg "due_reminders (sch_clock c (sch_calls c)) v"] assms show ?thesis
    by (auto simp: reminders_body_def Now_def SelectDueReminders_def rows_def clean_def reminder_mail_def run_eval)
qed

lemma clean_dispatch:
  assumes "c_fault c = (\<lambda>_. None)" and "dispatchReminders Fake_Send cfg c = (r, c')"
    and "now = sch_clock c (sch_calls c)"
  shows "r = Inr () \<and> fm_sent (sch_mailer c') = fm_sent (sch_mailer c) @ reminder_mail cfg now (c_com c)
    \<and> c_com c' = (c_com c)\<lparr>reminders := map (\<lambda>q. if rID q \<in> set (map drID (due_reminders now (c_com c)))
         then sent_at (c_now c) q else q) (reminders (c_com c))\<rparr>"
proof -
  let ?c1 = "c\<lparr>c_stmts := Suc (c_stmts c), c_tx := Some (c_com c), c_aborted := False\<rparr>"
  let ?d' = "fold (\<lambda>w. set_reminder (drID w) (sent_at (c_now c))) (due_reminders now (c_com c)) (c_com c)"
  have "clean (c_com c) ?c1" using assms(1) by (simp add: clean_def)
  from clean_body [OF this, of cfg] obtain c2 where c2: "reminders_body Fake_Send cfg ?c1 = (Inr (), c2)"
      "clean ?d' c2" "fm_sent (sch_mailer c2) = fm_sent (sch_mailer c) @ reminder_mail cfg now (c_com c)"
    using assms(3) by auto
  then have "r = Inr ()" "c_com c' = ?d'" "sch_mailer c' = sch_mailer c2"
    using assms(1,2) by (auto simp: dispatchReminders_def in_tx_def begin_tx_def commit_tx_def Let_def clean_def)
  moreover have "?d' = (c_com c)\<lparr>reminders := map (\<lambda>q. if rID q \<in> set (map drID (due_reminders now (c_com c)))
         then sent_at (c_now c) q else q) (reminders (c_com c))\<rparr>"
    by (subst fold_set_reminder(2)) (simp only: fold_set_reminder(1))
  ultimately show ?thesis using c2(3) by simp
qed

text \<open>
  When neither the database nor the mailer fails, a run sends exactly the messages of the due
  reminders, in the order of their times, and records exactly those reminders as sent.
\<close>

theorem dispatch_reminders_clean:
  assumes "c_fault c = (\<lambda>_. None)" and "dispatchReminders Fake_Send cfg c = (r, c')"
    and "now = sch_clock c (sch_calls c)"
  shows "r = Inr () \<and> fm_sent (sch_mailer c') = fm_sent (sch_mailer c) @ reminder_mail cfg now (c_com c)
    \<and> c_com c' = (c_com c)\<lparr>reminders := map (\<lambda>q. if rID q \<in> set (map drID (due_reminders now (c_com c)))
         then sent_at (c_now c) q else q) (reminders (c_com c))\<rparr>"
  by (rule clean_dispatch [OF assms])

subsection \<open>A sample run\<close>

definition sample_reminder :: reminder where
  "sample_reminder = \<lparr>rID = 5, rUserID = 1, rConferenceID = 2, rDeadlineKind = Submission, rLeadTimeDays = 7,
     rScheduledFor = 1780000000000000000, rStatus = Pending, rSentAt = None, rAttempts = 0, rLastError = None,
     rCreatedAt = 0, rUpdatedAt = 0\<rparr>"

definition sample_config :: sched_config where
  "sample_config = \<lparr>cfLocal = UTC, cfGraceDays = 14, cfMaxAttempts = 3\<rparr>"

definition sample_sched :: "'ms \<Rightarrow> 'ms sched" where
  "sample_sched ms = \<lparr>c_com = sample_db\<lparr>reminders := [sample_reminder]\<rparr>, c_tx = None, c_aborted = False,
     c_now = 1790000000000000000, c_today = 1789948800000000000, c_gen = (\<lambda>n. of_nat (n + 10)),
     c_fault = (\<lambda>_. None), c_stmts = 0, sch_mailer = ms, sch_clock = (\<lambda>_. 1790000000000000000),
     sch_real = (\<lambda>_. 1790000000000000000), sch_calls = 0, sch_emails = (\<lambda>_. 0),
     sch_pendingReminders = 0, sch_pendingDigests = 0, sch_lastSweep = zero_time\<rparr>"

definition sample_due :: SelectDueRemindersRow where
  "sample_due = due_row sample_reminder sample_user sample_conference"

lemma sample_due_id: "drID sample_due = rID sample_reminder"
  by (simp add: sample_due_def due_row_def)

lemma sample_due_reminders:
  "due_reminders 1790000000000000000 (sample_db\<lparr>reminders := [sample_reminder]\<rparr>) = [sample_due]"
  by (simp add: due_reminders_def sample_due_def sample_defs sample_reminder_def pg_ts_def dispatch_limit_def)

lemma sample_sched_wf: "wf_db sample_env (c_com (sample_sched ms))"
proof -
  have "wf_db sample_env (sample_db\<lparr>reminders := [sample_reminder]\<rparr>)"
    by (rule wf_reminders [OF sample_wf])
      (simp add: reminders_ok_def id_lists sample_defs sample_reminder_def reminder_check_def)
  then show ?thesis by (simp add: sample_sched_def)
qed

theorem dispatch_reminders_clean_witness:
  "\<exists>r c'. dispatchReminders Fake_Send sample_config (sample_sched \<lparr>fm_sent = []\<rparr>) = (r, c')
     \<and> fm_sent (sch_mailer c') = [reminder_msg UTC sample_due]
     \<and> map rStatus (reminders (c_com c')) = [Sent]"
proof -
  obtain r c' where run: "dispatchReminders Fake_Send sample_config (sample_sched \<lparr>fm_sent = []\<rparr>) = (r, c')" by fastforce
  have "c_fault (sample_sched \<lparr>fm_sent = []\<rparr>) = (\<lambda>_. None)" by (simp add: sample_sched_def)
  from dispatch_reminders_clean [OF this run refl] run show ?thesis
    by (simp add: sample_sched_def sample_due_reminders sample_due_id reminder_mail_def sample_config_def)
      (simp add: sent_at_def)
qed

subsection \<open>Any run\<close>

text \<open>
  C14: Whatever fails, a run of the reminder dispatcher over SMTP hands the server at most one
  message for each due reminder, in their order. If it returns an error, the log is as it was. If
  it succeeds, each reminder has moved at most one step: a pending one that was due is now sent,
  and its message was taken by the server in this run, or failed with its attempts used up, or
  still pending with one more attempt; every other reminder and every other table is as it was.
\<close>

theorem dispatch_reminders_correct:
  assumes "wf_db env (c_com c)" and "dispatchReminders (SMTP_Send nw smtp) cfg c = (r, c')"
    and "now = sch_clock c (sch_calls c)"
  shows "\<exists>ks. ss_taken (sch_mailer c') = ss_taken (sch_mailer c) @ ks
    \<and> subseq ks (reminder_mail cfg now (c_com c))
    \<and> (case r of Inl _ \<Rightarrow> c_com c' = c_com c | Inr _ \<Rightarrow> reminders_dispatched cfg now ks (c_com c) (c_com c'))"
  using smtp.dispatchReminders_run [OF assms(1,2)] unfolding assms(3) .

definition sample_network :: "nat network" where
  "sample_network = \<lparr>nw_do = (\<lambda>cmd n. (None, n)), nw_starttls = (\<lambda>_. True), nw_boundary = (\<lambda>_. ''b''),
     nw_host = (\<lambda>a. Inr ''h''), nw_quote = id, nw_took = (\<lambda>_. True)\<rparr>"

definition sample_smtp :: SMTPConfig where
  "sample_smtp = \<lparr>smAddr = ''h:587'', smFrom = ''c@x'', smUsername = [], smPassword = []\<rparr>"

theorem dispatch_reminders_correct_witness:
  "\<exists>r c' ks. dispatchReminders (SMTP_Send sample_network sample_smtp) sample_config
       (sample_sched \<lparr>ss_net = 0, ss_taken = []\<rparr>) = (r, c')
     \<and> ss_taken (sch_mailer c') = ks \<and> subseq ks [reminder_msg UTC sample_due]"
proof -
  obtain r c' where run: "dispatchReminders (SMTP_Send sample_network sample_smtp) sample_config
      (sample_sched \<lparr>ss_net = 0, ss_taken = []\<rparr>) = (r, c')" by fastforce
  from dispatch_reminders_correct [OF sample_sched_wf run refl] run show ?thesis
    by (simp add: sample_sched_def sample_due_reminders reminder_mail_def sample_config_def)
qed

subsection \<open>A commit that fails\<close>

definition faulty :: "nat \<Rightarrow> 'ms sched \<Rightarrow> 'ms sched" where
  "faulty n c = c\<lparr>c_fault := (\<lambda>k. if k = n then Some ''connection reset'' else None)\<rparr>"

lemmas dispatch_eval = dispatchReminders_def reminders_body_def Now_def SelectDueReminders_def rows_def
  dispatch_reminder_def reminder_message_Inr mail_send_def Fake_Send_def reminder_sent_def MarkReminderSent_def
  count_email_def

text \<open>
  A reminder can be mailed twice: the commit of a run that mailed it fails, the row stays
  pending, and the next run mails the same message again.
\<close>

theorem failed_commit_mails_again:
  "\<exists>e c1 c2. dispatchReminders Fake_Send sample_config (faulty 3 (sample_sched \<lparr>fm_sent = []\<rparr>)) = (Inl e, c1)
     \<and> fm_sent (sch_mailer c1) = [reminder_msg UTC sample_due]
     \<and> reminders (c_com c1) = [sample_reminder]
     \<and> dispatchReminders Fake_Send sample_config c1 = (Inr (), c2)
     \<and> fm_sent (sch_mailer c2) = [reminder_msg UTC sample_due, reminder_msg UTC sample_due]"
  by (simp add: dispatch_eval run_eval faulty_def sample_sched_def sample_due_reminders sample_config_def)

end
