(* ===== verification/Digests.thy ===== *)
theory Digests
  imports Dispatch_Runs
begin

text \<open>
  What the dispatch of digests does: the items of a digest, the state machine \<open>digest_step\<close> of a
  row of the log, a run over the due digests, the week a digest is for, and the probe that plans
  the digests of an hour.
\<close>

subsection \<open>The items\<close>

text \<open>
  The items for a user, given the database and the two readings of the clock.
\<close>

definition digest_items ::
  "env \<Rightarrow> sched_config \<Rightarrow> db \<Rightarrow> instant \<Rightarrow> instant \<Rightarrow> SelectDueDigestsRow \<Rightarrow> DigestItem list" where
  "digest_items env cfg d t now row =
     concat (map (conference_items (cfLocal cfg) now (AddDate (cfLocal cfg) t 0 0 (ddWeeklyDigestHorizonWeeks row * 7)))
       (sort_key (deadline_key env)
         (filter (\<lambda>c. (ddUserID row, cID c) \<in> set (map star_key (stars d))) (conferences d))))"

lemma buildDigestItems_run:
  assumes "buildDigestItems env cfg row c = (r, c')"
  shows "c_com c' = c_com c \<and> c_tx c' = c_tx c \<and> sch_mailer c' = sch_mailer c \<and> sch_clock c' = sch_clock c
    \<and> (\<forall>its. r = Inr its \<longrightarrow> (\<exists>i j. its = digest_items env cfg (c_com c) (sch_clock c i) (sch_clock c j) row))"
  using assms
  by (auto simp: buildDigestItems_def ListUserStarredConferences_def rows_def Now_def digest_items_def run_eval
      split: option.splits)

subsection \<open>The state machine of a digest\<close>

inductive digest_step ::
  "int \<Rightarrow> (digest \<Rightarrow> bool) \<Rightarrow> (digest \<Rightarrow> bool) \<Rightarrow> (digest \<Rightarrow> bool) \<Rightarrow> digest \<Rightarrow> digest \<Rightarrow> bool"
  for attempts :: int and due and nothing_to_say and mailed where
  keep: "digest_step attempts due nothing_to_say mailed g g"
| sent: "dStatus g = Pending \<Longrightarrow> due g \<Longrightarrow> mailed g \<Longrightarrow>
    digest_step attempts due nothing_to_say mailed g (g\<lparr>dStatus := Sent, dSentAt := Some t, dUpdatedAt := t\<rparr>)"
| skipped: "dStatus g = Pending \<Longrightarrow> due g \<Longrightarrow> nothing_to_say g \<Longrightarrow>
    digest_step attempts due nothing_to_say mailed g (g\<lparr>dStatus := Skipped, dUpdatedAt := t\<rparr>)"
| failed: "dStatus g = Pending \<Longrightarrow> due g \<Longrightarrow> attempts \<le> dAttempts g + 1 \<Longrightarrow>
    digest_step attempts due nothing_to_say mailed g (g\<lparr>dStatus := Failed, dLastError := Some e, dUpdatedAt := t\<rparr>)"
| again: "dStatus g = Pending \<Longrightarrow> due g \<Longrightarrow> dAttempts g + 1 < attempts \<Longrightarrow>
    digest_step attempts due nothing_to_say mailed g
      (g\<lparr>dAttempts := dAttempts g + 1, dLastError := Some e, dUpdatedAt := t\<rparr>)"

lemma digest_step_mono:
  "digest_step n due e mailed g g' \<Longrightarrow> (\<And>g. mailed g \<Longrightarrow> mailed' g) \<Longrightarrow> digest_step n due e mailed' g g'"
  by (induction rule: digest_step.induct) (auto intro: digest_step.intros)

definition digest_due_at :: "instant \<Rightarrow> digest \<Rightarrow> bool" where
  "digest_due_at now g \<longleftrightarrow> dScheduledFor g \<le> pg_ts now"

definition digest_msg :: "SelectDueDigestsRow \<Rightarrow> DigestItem list \<Rightarrow> Message" where
  "digest_msg row its =
     (let week = (UTC, ddWeekStarting row);
          data = \<lparr>ddtUserName = ddUserName row, ddtWeekStart = week, ddtItems = its\<rparr> in
      \<lparr>mTo = ddUserEmail row,
       mSubject = ''[Confero] Weekly digest '' @ [CHR 0xE2, CHR 0x80, CHR 0x94] @ '' '' @ formatDate week,
       mBodyText = digest_txt data, mBodyHTML = digest_html data\<rparr>)"

lemma digest_message_Inr: "digest_message row its = Inr (digest_msg row its)"
  by (simp add: digest_message_def digest_msg_def RenderDigest_eq Let_def)

lemma due_digests_rows:
  assumes "wf_db env d"
  shows "distinct (map ddID (due_digests now d))"
    and "row \<in> set (due_digests now d) \<Longrightarrow> g \<in> set (digests d) \<Longrightarrow> dID g = ddID row \<Longrightarrow>
      dStatus g = Pending \<and> digest_due_at now g \<and> dAttempts g = ddAttempts row"
proof -
  have u: "distinct (map uID (users d))" and s: "distinct (map usUserID (user_settings d))"
    and g: "distinct (map dID (digests d))"
    using wf_dbD [OF assms] by (auto simp: users_ok_def settings_ok_def digests_ok_def id_lists)
  let ?h = "\<lambda>g. if dStatus g = Pending \<and> dScheduledFor g \<le> pg_ts now then
      concat (map (\<lambda>u. if uID u = dUserID g then
        concat (map (\<lambda>us. if usUserID us = dUserID g then [due_digest_row g u us] else []) (user_settings d)) else [])
        (users d)) else []"
  have h: "?h g = [] \<or> (\<exists>y. ?h g = [y] \<and> ddID y = dID g)" for g
    unfolding join_on_key [OF u] join_on_key [OF s] by (auto simp: due_digest_row_def split: option.splits)
  have eq: "due_digests now d = take dispatch_limit (sort_key ddScheduledFor (concat (map ?h (digests d))))"
    by (simp add: due_digests_def)
  show "distinct (map ddID (due_digests now d))"
    unfolding eq by (rule distinct_first_sorted, rule distinct_join [OF g]) (rule h)
  assume "row \<in> set (due_digests now d)" and mem: "g \<in> set (digests d)" "dID g = ddID row"
  then have "row \<in> set (concat (map ?h (digests d)))"
    unfolding eq by (auto dest!: in_set_takeD)
  then obtain g' where g': "g' \<in> set (digests d)" "row \<in> set (?h g')" by auto
  then have row: "ddID row = dID g'" "dStatus g' = Pending" "dScheduledFor g' \<le> pg_ts now" "dAttempts g' = ddAttempts row"
    by (auto simp: due_digest_row_def split: if_splits)
  have "g = g'" using g mem g'(1) row(1) by (auto simp: distinct_map inj_on_def)
  with row show "dStatus g = Pending \<and> digest_due_at now g \<and> dAttempts g = ddAttempts row"
    by (simp add: digest_due_at_def)
qed

subsection \<open>One run over the due digests\<close>

text \<open>
  The loop leaves the committed database and the clock alone, which the items are made from.
\<close>

definition loop_env :: "db \<Rightarrow> (nat \<Rightarrow> instant) \<Rightarrow> 'ms sched \<Rightarrow> bool" where
  "loop_env d clk c \<longleftrightarrow> c_com c = d \<and> sch_clock c = clk"

definition possible_items ::
  "env \<Rightarrow> sched_config \<Rightarrow> db \<Rightarrow> (nat \<Rightarrow> instant) \<Rightarrow> SelectDueDigestsRow \<Rightarrow> DigestItem list set" where
  "possible_items env cfg d clk row = {digest_items env cfg d (clk i) (clk j) row |i j. True}"

definition sends_digest ::
  "env \<Rightarrow> sched_config \<Rightarrow> db \<Rightarrow> (nat \<Rightarrow> instant) \<Rightarrow> SelectDueDigestsRow \<Rightarrow> Message \<Rightarrow> bool" where
  "sends_digest env cfg d clk row m \<longleftrightarrow>
     (\<exists>its \<in> possible_items env cfg d clk row. its \<noteq> [] \<and> m = digest_msg row its)"

definition no_items ::
  "env \<Rightarrow> sched_config \<Rightarrow> db \<Rightarrow> (nat \<Rightarrow> instant) \<Rightarrow> SelectDueDigestsRow list \<Rightarrow> digest \<Rightarrow> bool" where
  "no_items env cfg d clk due g \<longleftrightarrow> (\<exists>row \<in> set due. ddID row = dID g \<and> [] \<in> possible_items env cfg d clk row)"

definition row_of_digest ::
  "instant \<Rightarrow> SelectDueDigestsRow list \<Rightarrow> SelectDueDigestsRow \<Rightarrow> digest \<Rightarrow> bool" where
  "row_of_digest now due row g \<longleftrightarrow> row \<in> set due \<and> dID g = ddID row
     \<and> dStatus g = Pending \<and> digest_due_at now g \<and> dAttempts g = ddAttempts row"

definition digest_marked :: "'ms sched \<Rightarrow> db \<Rightarrow> uuid \<Rightarrow> (digest \<Rightarrow> digest) \<Rightarrow> 'ms sched \<Rightarrow> bool" where
  "digest_marked c v i f c' \<longleftrightarrow> c_com c' = c_com c \<and> sch_mailer c' = sch_mailer c \<and> sch_clock c' = sch_clock c
     \<and> (c_tx c' = Some v \<or> c_tx c' = Some (set_digest i f v))"

lemma attempt_exec_clock:
  "attempt (exec Tx q) c = (r, c') \<Longrightarrow> sch_clock c' = sch_clock c"
  by (auto simp: attempt_def exec_def exec_tx_def Let_def split: option.splits sum.splits if_splits)

lemma digest_sent_marks:
  assumes run: "digest_sent row c = (r, c')" and v: "c_tx c = Some v"
  shows "r = Inr () \<and> digest_marked c v (ddID row)
    (\<lambda>g. g\<lparr>dStatus := Sent, dSentAt := Some (c_now c), dUpdatedAt := c_now c\<rparr>) c'"
proof -
  obtain s :: "err + (db_err + unit)" and c1 where one: "attempt (exec Tx (MarkDigestSent (ddID row))) c = (s, c1)"
    by fastforce
  from attempt_exec [OF this v] attempt_exec_clock [OF this] run one show ?thesis
    by (auto simp: digest_sent_def andthen_def digest_marked_def MarkDigestSent_def ctx_of_def count_email_def
        split: sum.splits)
qed

lemma digest_skipped_marks:
  assumes run: "andthen (attempt (exec Tx (MarkDigestSkipped (ddID row)))) (\<lambda>_. ret ()) c = (r, c')" and v: "c_tx c = Some v"
  shows "r = Inr () \<and> digest_marked c v (ddID row) (\<lambda>g. g\<lparr>dStatus := Skipped, dUpdatedAt := c_now c\<rparr>) c'"
proof -
  obtain s :: "'a + (db_err + unit)" and c1 where one: "attempt (exec Tx (MarkDigestSkipped (ddID row))) c = (s, c1)"
    by fastforce
  from attempt_exec [OF this v] attempt_exec_clock [OF this] run one show ?thesis
    by (auto simp: andthen_def digest_marked_def MarkDigestSkipped_def ctx_of_def)
qed

lemma digest_unsent_marks:
  assumes run: "digest_unsent cfg row e c = (r, c')" and v: "c_tx c = Some v"
  shows "r = Inr () \<and> digest_marked c v (ddID row) (if ddAttempts row + 1 \<ge> cfMaxAttempts cfg
    then (\<lambda>g. g\<lparr>dStatus := Failed, dLastError := Some e, dUpdatedAt := c_now c\<rparr>)
    else (\<lambda>g. g\<lparr>dAttempts := dAttempts g + 1, dLastError := Some e, dUpdatedAt := c_now c\<rparr>)) c'"
proof (cases "ddAttempts row + 1 \<ge> cfMaxAttempts cfg")
  case True
  obtain s :: "err + (db_err + unit)" and c1 where
    one: "attempt (exec Tx (MarkDigestFailed (Some e) (ddID row))) c = (s, c1)" by fastforce
  from attempt_exec [OF this v] attempt_exec_clock [OF this] run one True show ?thesis
    by (auto simp: digest_unsent_def andthen_def digest_marked_def MarkDigestFailed_def with_texts_def ctx_of_def
        count_email_def split: if_splits)
next
  case False
  obtain s :: "err + (db_err + unit)" and c1 where
    one: "attempt (exec Tx (IncrementDigestAttempt (Some e) (ddID row))) c = (s, c1)" by fastforce
  from attempt_exec [OF this v] attempt_exec_clock [OF this] run one False show ?thesis
    by (auto simp: digest_unsent_def andthen_def digest_marked_def IncrementDigestAttempt_def with_texts_def ctx_of_def
        split: if_splits)
qed

text \<open>How the three marks read as a step of the row, where \<open>nothing\<close> says that there was nothing to send.\<close>

definition digest_moves ::
  "sched_config \<Rightarrow> instant \<Rightarrow> SelectDueDigestsRow list \<Rightarrow> (digest \<Rightarrow> bool) \<Rightarrow> SelectDueDigestsRow
    \<Rightarrow> bool \<Rightarrow> (digest \<Rightarrow> digest) \<Rightarrow> bool" where
  "digest_moves cfg now due nothing row sent f \<longleftrightarrow> (\<forall>q P. row_of_digest now due row q \<longrightarrow> (sent \<longrightarrow> P q) \<longrightarrow>
     digest_step (cfMaxAttempts cfg) (digest_due_at now) nothing P q (f q) \<and> dID (f q) = dID q)"

lemma digest_sent_moves:
  "digest_moves cfg now due nothing row True (\<lambda>g. g\<lparr>dStatus := Sent, dSentAt := Some t, dUpdatedAt := t\<rparr>)"
  by (auto simp: digest_moves_def row_of_digest_def intro!: digest_step.sent)

lemma digest_skipped_moves:
  assumes "\<And>q. row_of_digest now due row q \<Longrightarrow> nothing q"
  shows "digest_moves cfg now due nothing row b (\<lambda>g. g\<lparr>dStatus := Skipped, dUpdatedAt := t\<rparr>)"
  using assms by (auto simp: digest_moves_def row_of_digest_def intro!: digest_step.skipped)

lemma digest_step_again:
  assumes "dStatus g = Pending" "due g" "dAttempts g + 1 < n" "a = dAttempts g + 1"
  shows "digest_step n due nothing mailed g (g\<lparr>dAttempts := a, dLastError := Some e, dUpdatedAt := t\<rparr>)"
  unfolding assms(4) using assms(1-3) by (rule digest_step.again)

lemma digest_unsent_moves:
  "digest_moves cfg now due nothing row b (if ddAttempts row + 1 \<ge> cfMaxAttempts cfg
    then (\<lambda>g. g\<lparr>dStatus := Failed, dLastError := Some e, dUpdatedAt := t\<rparr>)
    else (\<lambda>g. g\<lparr>dAttempts := dAttempts g + 1, dLastError := Some e, dUpdatedAt := t\<rparr>))"
  by (auto simp: digest_moves_def row_of_digest_def intro!: digest_step.failed digest_step_again)

lemma dispatch_items_moves:
  assumes send: "its \<noteq> [] \<Longrightarrow> send (digest_msg row its) (sch_mailer c) = (res, ms)"
    and v: "c_tx c = Some v" and run: "dispatch_items send cfg row its c = (r, c')"
    and none: "\<And>q. its = [] \<Longrightarrow> row_of_digest now due row q \<Longrightarrow> nothing q"
  shows "\<exists>f. r = Inr () \<and> digest_marked (if its = [] then c else c\<lparr>sch_mailer := ms\<rparr>) v (ddID row) f c'
    \<and> digest_moves cfg now due nothing row (its \<noteq> [] \<and> res = None) f"
proof (cases "its = []")
  case True
  with run have "andthen (attempt (exec Tx (MarkDigestSkipped (ddID row)))) (\<lambda>_. ret ()) c = (r, c')"
    by (simp add: dispatch_items_def)
  from digest_skipped_marks [OF this v] have "r = Inr ()"
    "digest_marked c v (ddID row) (\<lambda>g. g\<lparr>dStatus := Skipped, dUpdatedAt := c_now c\<rparr>) c'" by auto
  moreover have "digest_moves cfg now due nothing row False (\<lambda>g. g\<lparr>dStatus := Skipped, dUpdatedAt := c_now c\<rparr>)"
    by (rule digest_skipped_moves) (use none [OF True] in blast)
  ultimately show ?thesis using True by auto
next
  case False
  note send = send [OF False]
  have v': "c_tx (c\<lparr>sch_mailer := ms\<rparr>) = Some v" using v by simp
  show ?thesis
  proof (cases res)
    case None
    then have "digest_sent row (c\<lparr>sch_mailer := ms\<rparr>) = (r, c')"
      using run send False by (simp add: dispatch_items_def digest_message_Inr andthen_def mail_send_def)
    from digest_sent_marks [OF this v'] digest_sent_moves False None show ?thesis by fastforce
  next
    case (Some e)
    then have "digest_unsent cfg row e (c\<lparr>sch_mailer := ms\<rparr>) = (r, c')"
      using run send False by (simp add: dispatch_items_def digest_message_Inr andthen_def mail_send_def)
    note m = digest_unsent_marks [OF this v']
    have "its \<noteq> [] \<and> res = None \<longleftrightarrow> False" "(if its = [] then c else c\<lparr>sch_mailer := ms\<rparr>) = c\<lparr>sch_mailer := ms\<rparr>"
      using False Some by simp_all
    then show ?thesis by (simp only:) (intro exI conjI, (rule m [THEN conjunct1] m [THEN conjunct2] digest_unsent_moves)+)
  qed
qed

lemma dispatch_items_marks:
  assumes "mailer send delivered" and env: "loop_env d clk c" and v: "c_tx c = Some v"
    and its: "its \<in> possible_items env cfg d clk row" and run: "dispatch_items send cfg row its c = (r, c')"
  shows "\<exists>k f. r = Inr () \<and> loop_env d clk c' \<and> c_com c' = c_com c
    \<and> delivered (sch_mailer c') = delivered (sch_mailer c) @ k
    \<and> (k = [] \<or> (\<exists>m. k = [m] \<and> sends_digest env cfg d clk row m))
    \<and> (c_tx c' = Some v \<or> c_tx c' = Some (set_digest (ddID row) f v))
    \<and> (\<forall>q P. row_of_digest now due row q \<longrightarrow> ((\<exists>m \<in> set k. sends_digest env cfg d clk row m) \<longrightarrow> P q) \<longrightarrow>
        digest_step (cfMaxAttempts cfg) (digest_due_at now) (no_items env cfg d clk due) P q (f q) \<and> dID (f q) = dID q)"
proof -
  let ?msg = "digest_msg row its"
  obtain res ms where send: "send ?msg (sch_mailer c) = (res, ms)" by fastforce
  obtain k where k: "delivered ms = delivered (sch_mailer c) @ k" "k = [] \<or> k = [?msg]" "res = None \<longrightarrow> k = [?msg]"
    using mailer.send_extends [OF assms(1) send] by blast
  have none: "no_items env cfg d clk due q" if "its = []" "row_of_digest now due row q" for q
    using its that by (auto simp: no_items_def row_of_digest_def)
  have "\<exists>f. r = Inr () \<and> digest_marked (if its = [] then c else c\<lparr>sch_mailer := ms\<rparr>) v (ddID row) f c'
    \<and> digest_moves cfg now due (no_items env cfg d clk due) row (its \<noteq> [] \<and> res = None) f"
    by (rule dispatch_items_moves [where send = send, OF send v run]) (use none in blast)
  then obtain f where "r = Inr ()" and mark: "digest_marked (if its = [] then c else c\<lparr>sch_mailer := ms\<rparr>) v (ddID row) f c'"
    and f: "digest_moves cfg now due (no_items env cfg d clk due) row (its \<noteq> [] \<and> res = None) f"
    by blast
  define k' where "k' = (if its = [] then [] else k)"
  have sends: "sends_digest env cfg d clk row ?msg" if "its \<noteq> []"
    using its that by (auto simp: sends_digest_def)
  have "digest_step (cfMaxAttempts cfg) (digest_due_at now) (no_items env cfg d clk due) P q (f q) \<and> dID (f q) = dID q"
    if "row_of_digest now due row q" "(\<exists>m \<in> set k'. sends_digest env cfg d clk row m) \<longrightarrow> P q" for q P
    using f that k(3) sends by (auto simp: digest_moves_def k'_def)
  moreover have "loop_env d clk c' \<and> c_com c' = c_com c \<and> delivered (sch_mailer c') = delivered (sch_mailer c) @ k'
    \<and> (c_tx c' = Some v \<or> c_tx c' = Some (set_digest (ddID row) f v))"
    using mark env k(1) by (auto simp: digest_marked_def loop_env_def k'_def split: if_splits)
  moreover have "k' = [] \<or> (\<exists>m. k' = [m] \<and> sends_digest env cfg d clk row m)"
    using k(2) sends by (auto simp: k'_def)
  ultimately show ?thesis using \<open>r = Inr ()\<close> by (intro exI [of _ k'] exI [of _ f]) blast
qed

lemma dispatch_digest_marks:
  assumes "mailer send delivered" and env: "loop_env d clk c" and v: "c_tx c = Some v"
    and run: "dispatch_digest env send cfg row c = (r, c')"
  shows "\<exists>k f. r = Inr () \<and> loop_env d clk c' \<and> c_com c' = c_com c
    \<and> delivered (sch_mailer c') = delivered (sch_mailer c) @ k
    \<and> (k = [] \<or> (\<exists>m. k = [m] \<and> sends_digest env cfg d clk row m))
    \<and> (c_tx c' = Some v \<or> c_tx c' = Some (set_digest (ddID row) f v))
    \<and> (\<forall>q P. row_of_digest now due row q \<longrightarrow> ((\<exists>m \<in> set k. sends_digest env cfg d clk row m) \<longrightarrow> P q) \<longrightarrow>
        digest_step (cfMaxAttempts cfg) (digest_due_at now) (no_items env cfg d clk due) P q (f q) \<and> dID (f q) = dID q)"
proof -
  obtain s c1 where build: "buildDigestItems env cfg row c = (s, c1)" by fastforce
  have c1: "c_com c1 = c_com c" "c_tx c1 = Some v" "sch_mailer c1 = sch_mailer c" "loop_env d clk c1"
    using buildDigestItems_run [OF build] v env by (auto simp: loop_env_def)
  show ?thesis
  proof (cases s)
    case (Inl e)
    then have "r = Inr ()" "c' = c1" using run build by (auto simp: dispatch_digest_def attempt_def andthen_def)
    with c1 show ?thesis by (intro exI [of _ "[]"] exI [of _ id]) (auto intro: digest_step.keep)
  next
    case (Inr its)
    have "its \<in> possible_items env cfg d clk row"
      using buildDigestItems_run [OF build] Inr env by (auto simp: possible_items_def loop_env_def)
    moreover have "dispatch_items send cfg row its c1 = (r, c')"
      using run build Inr by (simp add: dispatch_digest_def attempt_def andthen_def)
    ultimately show ?thesis
      using dispatch_items_marks [OF assms(1) c1(4,2), of its env cfg row r c' now due] c1(1,3) by simp
  qed
qed

sublocale mailer \<subseteq> dig: marking delivered dID digests "\<lambda>gs d. d\<lparr>digests := gs\<rparr>" ddID
    "dispatch_digest env send cfg" "loop_env d clk" "sends_digest env cfg d clk" "row_of_digest now due"
    "digest_step (cfMaxAttempts cfg) (digest_due_at now) (no_items env cfg d clk due)" for env cfg d clk now due
proof unfold_locales
  fix P Q :: "digest \<Rightarrow> bool" and q q'
  show "digest_step (cfMaxAttempts cfg) (digest_due_at now) (no_items env cfg d clk due) P q q" by (rule digest_step.keep)
  show "digest_step (cfMaxAttempts cfg) (digest_due_at now) (no_items env cfg d clk due) Q q q'"
    if "digest_step (cfMaxAttempts cfg) (digest_due_at now) (no_items env cfg d clk due) P q q'" and "\<And>q. P q \<Longrightarrow> Q q"
    using that by (rule digest_step_mono)
next
  fix c c' :: "'s sched" and v w r
  assume "loop_env d clk c" and "c_tx c = Some v" and "dispatch_digest env send cfg w c = (r, c')"
  from dispatch_digest_marks [OF mailer_axioms this, of now due]
  show "\<exists>k f. r = Inr () \<and> loop_env d clk c' \<and> c_com c' = c_com c
      \<and> delivered (sch_mailer c') = delivered (sch_mailer c) @ k
      \<and> (k = [] \<or> (\<exists>m. k = [m] \<and> sends_digest env cfg d clk w m))
      \<and> (c_tx c' = Some v \<or> c_tx c' = Some (v\<lparr>digests := update_where (\<lambda>q. dID q = ddID w) f (digests v)\<rparr>))
      \<and> (\<forall>q P. row_of_digest now due w q \<longrightarrow> ((\<exists>m\<in>set k. sends_digest env cfg d clk w m) \<longrightarrow> P q) \<longrightarrow>
          digest_step (cfMaxAttempts cfg) (digest_due_at now) (no_items env cfg d clk due) P q (f q) \<and> dID (f q) = dID q)"
    by (simp add: set_digest_def)
qed simp_all

text \<open>What a run did: the clock read for the selection is the first reading of the run.\<close>

definition digest_mailed ::
  "env \<Rightarrow> sched_config \<Rightarrow> db \<Rightarrow> (nat \<Rightarrow> instant) \<Rightarrow> SelectDueDigestsRow list \<Rightarrow> Message list \<Rightarrow> digest \<Rightarrow> bool" where
  "digest_mailed env cfg d clk due ks g \<longleftrightarrow>
     (\<exists>row \<in> set due. ddID row = dID g \<and> (\<exists>m \<in> set ks. sends_digest env cfg d clk row m))"

definition digests_dispatched ::
  "env \<Rightarrow> sched_config \<Rightarrow> (nat \<Rightarrow> instant) \<Rightarrow> instant \<Rightarrow> Message list \<Rightarrow> db \<Rightarrow> db \<Rightarrow> bool" where
  "digests_dispatched env cfg clk now ks d d' \<longleftrightarrow> (\<exists>gs. d' = d\<lparr>digests := gs\<rparr>
     \<and> list_all2 (digest_step (cfMaxAttempts cfg) (digest_due_at now) (no_items env cfg d clk (due_digests now d))
         (digest_mailed env cfg d clk (due_digests now d) ks)) (digests d) gs)"

definition digest_mail ::
  "env \<Rightarrow> sched_config \<Rightarrow> (nat \<Rightarrow> instant) \<Rightarrow> instant \<Rightarrow> Message list \<Rightarrow> db \<Rightarrow> bool" where
  "digest_mail env cfg clk now ks d \<longleftrightarrow>
     (\<exists>rs. subseq rs (due_digests now d) \<and> list_all2 (sends_digest env cfg d clk) rs ks)"

lemma digests_nothing: "digests_dispatched env cfg clk now [] d d" "digest_mail env cfg clk now [] d"
  by (auto simp: digests_dispatched_def digest_mail_def list_all2_same digest_step.keep
      intro: exI [of _ "digests d"] exI [of _ "[]"])

context mailer begin

lemma digests_body_run:
  fixes c :: "'s sched"
  assumes wf: "wf_db env v" and c: "c_tx c = Some v" "c_com c = v" and run: "digests_body env send cfg c = (r, c')"
  shows "\<exists>ks v'. c_com c' = c_com c \<and> c_tx c' = Some v'
    \<and> delivered (sch_mailer c') = delivered (sch_mailer c) @ ks
    \<and> digest_mail env cfg (sch_clock c) (sch_clock c (sch_calls c)) ks v
    \<and> digests_dispatched env cfg (sch_clock c) (sch_clock c (sch_calls c)) ks v v'"
proof -
  define now where "now = sch_clock c (sch_calls c)"
  define clk where "clk = sch_clock c"
  define due where "due = due_digests now v"
  let ?c1 = "c\<lparr>sch_calls := Suc (sch_calls c)\<rparr>"
  obtain s c2 where sel: "exec Tx (SelectDueDigests now) ?c1 = (s, c2)" by fastforce
  have c2: "c_com c2 = c_com c" "c_tx c2 = Some v" "sch_mailer c2 = sch_mailer c" "loop_env v clk c2"
      "s = Inr x \<longrightarrow> x = due" for x
    using sel c unfolding due_def
    by (auto simp: exec_def exec_tx_def Let_def SelectDueDigests_def rows_def loop_env_def clk_def
        split: option.splits if_splits)
  show ?thesis
  proof (cases s)
    case (Inl e)
    have "c' = c2"
      using run sel Inl by (simp add: digests_body_def andthen_def Now_def on_err_def now_def)
    then show ?thesis
      using c2 digests_nothing by (intro exI [of _ "[]"] exI [of _ v]) simp
  next
    case (Inr x)
    then have rows: "for_each (dispatch_digest env send cfg) due c2 = (r, c')"
      using run sel c2(5) by (simp add: digests_body_def andthen_def Now_def on_err_def now_def)
    have due: "distinct (map ddID due)"
      "\<And>w q. w \<in> set due \<Longrightarrow> q \<in> set (digests v) \<Longrightarrow> dID q = ddID w \<Longrightarrow> row_of_digest now due w q"
      using due_digests_rows [OF wf, where now = now] unfolding due_def row_of_digest_def by blast+
    from dig.loop_run [OF due c2(4,2) rows] obtain ws ks qs where
      run': "c_com c' = c_com c2" "c_tx c' = Some (v\<lparr>digests := qs\<rparr>)"
        "delivered (sch_mailer c') = delivered (sch_mailer c2) @ ks"
      and ws: "subseq ws due" "list_all2 (sends_digest env cfg v clk) ws ks"
      and qs: "list_all2 (digest_step (cfMaxAttempts cfg) (digest_due_at now) (no_items env cfg v clk due)
        (dig.mailed env cfg v clk due ks)) (digests v) qs"
      by blast
    have "dig.mailed env cfg v clk due ks = digest_mailed env cfg v clk due ks"
      by (auto simp: dig.mailed_def digest_mailed_def)
    with qs have "digests_dispatched env cfg clk now ks v (v\<lparr>digests := qs\<rparr>)"
      unfolding digests_dispatched_def due_def by auto
    moreover have "digest_mail env cfg clk now ks v"
      using ws unfolding digest_mail_def due_def by blast
    ultimately show ?thesis
      using run' c2(1,3) unfolding now_def clk_def by (intro exI [of _ ks] exI [of _ "v\<lparr>digests := qs\<rparr>"]) simp
  qed
qed

lemma dispatchDigests_run:
  fixes c :: "'s sched"
  assumes wf: "wf_db env (c_com c)" and run: "dispatchDigests env send cfg c = (r, c')"
  shows "\<exists>ks. delivered (sch_mailer c') = delivered (sch_mailer c) @ ks
    \<and> digest_mail env cfg (sch_clock c) (sch_clock c (sch_calls c)) ks (c_com c)
    \<and> (case r of Inl _ \<Rightarrow> c_com c' = c_com c
       | Inr _ \<Rightarrow> digests_dispatched env cfg (sch_clock c) (sch_clock c (sch_calls c)) ks (c_com c) (c_com c'))"
proof -
  let ?now = "sch_clock c (sch_calls c)"
  define Q where "Q ks v \<longleftrightarrow> digest_mail env cfg (sch_clock c) ?now ks (c_com c)
    \<and> digests_dispatched env cfg (sch_clock c) ?now ks (c_com c) v" for ks v
  have "\<exists>ks v. delivered (sch_mailer c') = delivered (sch_mailer c) @ ks \<and> Q ks v
      \<and> c_com c' = (case r of Inl _ \<Rightarrow> c_com c | Inr _ \<Rightarrow> v)"
    using run unfolding dispatchDigests_def
  proof (rule in_tx_delivers)
    show "Q [] (c_com c)" unfolding Q_def using digests_nothing by blast
    fix c1 c2 :: "'s sched" and r
    assume c1: "c_tx c1 = Some (c_com c)" "c_com c1 = c_com c" "sch_mailer c1 = sch_mailer c"
      "sch_clock c1 = sch_clock c" "sch_calls c1 = sch_calls c" and "digests_body env send cfg c1 = (r, c2)"
    from digests_body_run [OF wf c1(1,2) this(6)] c1(2-5)
    show "\<exists>ks v. c_com c2 = c_com c \<and> c_tx c2 = Some v
        \<and> delivered (sch_mailer c2) = delivered (sch_mailer c) @ ks \<and> Q ks v"
      unfolding Q_def by auto
  qed
  then show ?thesis unfolding Q_def by (cases r) auto
qed

end

end
