(* ===== verification/Scheduler_Facts.thy ===== *)
theory Scheduler_Facts
  imports Digests "HOL-Library.Multiset"
begin

text \<open>
  Properties of the digests, of the archive sweep and of the scheduler as a whole: what the loop
  keeps whatever fails, however many ticks it runs.
\<close>

subsection \<open>Digests\<close>

text \<open>The deadlines of a conference that a digest may list, with their names in the mail.\<close>

definition deadline_of :: "conference \<Rightarrow> string \<Rightarrow> instant \<Rightarrow> bool" where
  "deadline_of k kind u \<longleftrightarrow> kind = ''submission'' \<and> cPrimaryDeadline k = Some u
     \<or> kind = ''abstract'' \<and> cAbstractDeadline k = Some u
     \<or> kind = ''notification'' \<and> cNotificationDate k = Some u
     \<or> kind = ''camera_ready'' \<and> cCameraReadyDate k = Some u"

text \<open>The items of one conference: each deadline after now and up to the horizon once, and no other.\<close>

definition items_of :: "location \<Rightarrow> instant \<Rightarrow> instant \<Rightarrow> conference \<Rightarrow> DigestItem list \<Rightarrow> bool" where
  "items_of loc now horizon k its \<longleftrightarrow> distinct (map diDeadlineKind its)
     \<and> set its = {\<lparr>diConferenceName = cName k, diConferenceAcronym = cAcronym k, diDeadlineKind = kind,
                   diDeadlineDate = (loc, u)\<rparr> | kind u. deadline_of k kind u \<and> now < u \<and> u \<le> horizon}"

lemma conference_items_of: "cArchivedAt k = None \<Longrightarrow> items_of loc now horizon k (conference_items loc now horizon k)"
  unfolding items_of_def
  by (rule conjI, simp add: conference_items_def candidates_def opt_list_def split: option.splits)
    (auto simp: conference_items_def candidates_def opt_list_def deadline_of_def split: option.splits)

lemma distinct_singleton: "set xs = {a} \<Longrightarrow> distinct xs \<Longrightarrow> xs = [a]"
  by (cases xs; cases "tl xs") auto

lemma concat_filter_nonempty: "(\<And>x. \<not> P x \<Longrightarrow> f x = []) \<Longrightarrow> concat (map f xs) = concat (map f (filter P xs))"
  by (induction xs) auto

text \<open>
  C32: Building the items of a digest, when the statement that lists the user's stars does not fail,
  goes through the conferences that the user has starred and that are not archived, each once, by
  their submission deadlines and names, and lists for each exactly the deadlines of the four kinds
  that lie strictly after now and not after the horizon of the user's weeks, each once, with the
  name and the acronym of the conference. The database is not changed. The horizon and now are two
  readings of the clock, one after the other.
\<close>

theorem digest_items_correct:
  assumes "buildDigestItems env cfg row c = (Inr out, c')"
    and "t = sch_clock c (sch_calls c)" and "now = sch_clock c (Suc (sch_calls c))"
    and "horizon = AddDate (cfLocal cfg) t 0 0 (ddWeeklyDigestHorizonWeeks row * 7)"
  shows "c_com c' = c_com c \<and> (\<exists>ks its. out = concat (map its ks)
    \<and> mset ks = mset (filter (\<lambda>k. (ddUserID row, cID k) \<in> set (map star_key (stars (c_com c))) \<and> cArchivedAt k = None)
        (conferences (c_com c)))
    \<and> sorted (map (deadline_key env) ks)
    \<and> (\<forall>k \<in> set ks. items_of (cfLocal cfg) now horizon k (its k)))"
proof -
  let ?all = "sort_key (deadline_key env)
    (filter (\<lambda>k. (ddUserID row, cID k) \<in> set (map star_key (stars (c_com c)))) (conferences (c_com c)))"
  let ?its = "conference_items (cfLocal cfg) now horizon"
  let ?ks = "filter (\<lambda>k. cArchivedAt k = None) ?all"
  have run: "c_com c' = c_com c" "out = concat (map ?its ?all)"
    using assms(1) unfolding assms(2-4)
    by (auto simp: buildDigestItems_def ListUserStarredConferences_def rows_def Now_def run_eval split: option.splits)
  have "?its k = []" if "cArchivedAt k \<noteq> None" for k using that by (simp add: conference_items_def)
  then have "out = concat (map ?its ?ks)" unfolding run(2) by (intro concat_filter_nonempty) auto
  moreover have "mset ?ks = mset (filter (\<lambda>k. (ddUserID row, cID k) \<in> set (map star_key (stars (c_com c)))
      \<and> cArchivedAt k = None) (conferences (c_com c)))"
    by (simp add: filter_filter_mset conj_commute)
  moreover have "sorted (map (deadline_key env) ?ks)" by (rule sorted_filter) simp
  moreover have "\<forall>k \<in> set ?ks. items_of (cfLocal cfg) now horizon k (?its k)"
    using conference_items_of by simp
  ultimately show ?thesis using run(1) by (intro conjI exI [of _ ?ks] exI [of _ ?its]) simp_all
qed

definition starred_sched :: "nat sched" where
  "starred_sched = (sample_sched 0)\<lparr>c_com := sample_db\<lparr>stars := [\<lparr>sUserID = 1, sConferenceID = 2, sCreatedAt = 0\<rparr>]\<rparr>\<rparr>"

definition half_year_digest :: SelectDueDigestsRow where
  "half_year_digest = \<lparr>ddID = 6, ddUserID = 1, ddWeekStarting = 1789344000000000000, ddScheduledFor = 1780000000000000000,
     ddAttempts = 0, ddUserEmail = ''a@x'', ddUserName = ''A'', ddWeeklyDigestHorizonWeeks = 26\<rparr>"

theorem digest_items_correct_witness:
  "\<exists>out c'. buildDigestItems sample_env sample_config half_year_digest starred_sched = (Inr out, c')
     \<and> out = [\<lparr>diConferenceName = ''X'', diConferenceAcronym = ''X'', diDeadlineKind = ''submission'',
         diDeadlineDate = (UTC, 1800000000000000000)\<rparr>]"
proof -
  have "\<exists>out c'. buildDigestItems sample_env sample_config half_year_digest starred_sched = (Inr out, c')"
    by (simp add: buildDigestItems_def ListUserStarredConferences_def rows_def Now_def run_eval
        starred_sched_def sample_sched_def)
  then obtain out c' where run: "buildDigestItems sample_env sample_config half_year_digest starred_sched = (Inr out, c')"
    by blast
  have now: "sch_clock starred_sched n = 1790000000000000000" for n
    by (simp add: starred_sched_def sample_sched_def)
  have horizon: "1800000000000000000 \<le> AddDate UTC 1790000000000000000 0 0 182" by code_simp
  have conf: "filter (\<lambda>k. (ddUserID half_year_digest, cID k) \<in> set (map star_key (stars (c_com starred_sched)))
      \<and> cArchivedAt k = None) (conferences (c_com starred_sched)) = [sample_conference]"
    by (simp add: starred_sched_def sample_db_def half_year_digest_def star_key_def)
      (simp add: sample_conference_def)
  from digest_items_correct [OF run refl refl refl] obtain ks its where
    out: "out = concat (map its ks)" and ks: "mset ks = mset [sample_conference]"
    and its: "\<forall>k \<in> set ks. items_of (cfLocal sample_config) 1790000000000000000
       (AddDate (cfLocal sample_config) 1790000000000000000 0 0 (ddWeeklyDigestHorizonWeeks half_year_digest * 7)) k (its k)"
    unfolding conf now by blast
  from ks have "ks = [sample_conference]" by (cases ks) auto
  with its have one: "distinct (map diDeadlineKind (its sample_conference))"
    "set (its sample_conference) = {\<lparr>diConferenceName = ''X'', diConferenceAcronym = ''X'', diDeadlineKind = ''submission'',
         diDeadlineDate = (UTC, 1800000000000000000)\<rparr>}"
    using horizon
    by (auto simp: items_of_def deadline_of_def sample_config_def half_year_digest_def sample_conference_def)
  from one(1) have "distinct (its sample_conference)" by (simp add: distinct_map)
  with one(2) have "its sample_conference = [\<lparr>diConferenceName = ''X'', diConferenceAcronym = ''X'', diDeadlineKind = ''submission'',
         diDeadlineDate = (UTC, 1800000000000000000)\<rparr>]"
    by (rule distinct_singleton)
  with out \<open>ks = _\<close> run show ?thesis by simp
qed

text \<open>
  C17: Whatever fails, a run of the digest dispatcher over SMTP hands the server at most one message
  for each due digest, in their order, each with items the user is due. If it returns an error, the
  log is as it was. If it succeeds, each digest has moved at most one step: a pending one that was
  due is now sent, and its message was taken in this run, or skipped because there was nothing to
  say, or failed with its attempts used up, or still pending with one more attempt; every other
  digest and every other table is as it was.
\<close>

theorem dispatch_digests_correct:
  assumes "wf_db env (c_com c)" and "dispatchDigests env (SMTP_Send nw smtp) cfg c = (r, c')"
    and "clk = sch_clock c" and "now = clk (sch_calls c)"
  shows "\<exists>ks. ss_taken (sch_mailer c') = ss_taken (sch_mailer c) @ ks \<and> digest_mail env cfg clk now ks (c_com c)
    \<and> (case r of Inl _ \<Rightarrow> c_com c' = c_com c | Inr _ \<Rightarrow> digests_dispatched env cfg clk now ks (c_com c) (c_com c'))"
  using smtp.dispatchDigests_run [OF assms(1,2)] unfolding assms(4,3) .

definition sample_digest :: digest where
  "sample_digest = \<lparr>dID = 6, dUserID = 1, dWeekStarting = 1789344000000000000, dScheduledFor = 1780000000000000000,
     dStatus = Pending, dSentAt = None, dAttempts = 0, dLastError = None, dCreatedAt = 0, dUpdatedAt = 0\<rparr>"

definition digest_sched :: "'ms \<Rightarrow> 'ms sched" where
  "digest_sched ms = (sample_sched ms)\<lparr>c_com := sample_db\<lparr>digests := [sample_digest]\<rparr>\<rparr>"

lemma digest_sched_wf: "wf_db sample_env (c_com (digest_sched ms))"
proof -
  have "wf_db sample_env (sample_db\<lparr>digests := [sample_digest]\<rparr>)"
    by (rule wf_digests [OF sample_wf]) (simp add: digests_ok_def id_lists sample_defs sample_digest_def)
  then show ?thesis by (simp add: digest_sched_def)
qed

theorem dispatch_digests_correct_witness:
  "\<exists>r c' ks. dispatchDigests sample_env (SMTP_Send sample_network sample_smtp) sample_config
       (digest_sched \<lparr>ss_net = 0, ss_taken = []\<rparr>) = (r, c')
     \<and> ss_taken (sch_mailer c') = ks
     \<and> digest_mail sample_env sample_config (\<lambda>_. 1790000000000000000) 1790000000000000000 ks
         (sample_db\<lparr>digests := [sample_digest]\<rparr>)"
proof -
  obtain r c' where run: "dispatchDigests sample_env (SMTP_Send sample_network sample_smtp) sample_config
      (digest_sched \<lparr>ss_net = 0, ss_taken = []\<rparr>) = (r, c')" by fastforce
  from dispatch_digests_correct [OF digest_sched_wf run refl refl] run show ?thesis
    by (auto simp: digest_sched_def sample_sched_def)
qed

subsection \<open>The week of a digest\<close>

lemma days_since_monday:
  fixes n :: int
  shows "(if (n + 4) mod 7 = 0 then 7 else (n + 4) mod 7) - 1 = (n + 3) mod 7"
    and "(n - (n + 3) mod 7 + 4) mod 7 = 1"
proof -
  have "n mod 7 = 0 \<or> n mod 7 = 1 \<or> n mod 7 = 2 \<or> n mod 7 = 3 \<or> n mod 7 = 4 \<or> n mod 7 = 5 \<or> n mod 7 = 6"
    by presburger
  then show "(if (n + 4) mod 7 = 0 then 7 else (n + 4) mod 7) - 1 = (n + 3) mod 7"
    using mod_add_left_eq [of n 7 4, symmetric] mod_add_left_eq [of n 7 3, symmetric] by auto
  have "n - (n + 3) mod 7 + 4 = 1 + (n + 3) div 7 * 7" by (simp add: minus_mod_eq_div_mult [symmetric])
  then show "(n - (n + 3) mod 7 + 4) mod 7 = 1" by (simp only: mod_mult_self1) simp
qed

lemma mondayOfWeek_days:
  "mondayOfWeek t = (unix t div day_secs - (unix t div day_secs + 3) mod 7) * day_secs * second"
proof -
  obtain y m d where ymd: "date_in UTC t = (y, m, d)" by (cases "date_in UTC t")
  then have v: "1 \<le> m" "m \<le> 12" and n: "civil_to_days y m d = unix t div day_secs"
    using civil_to_days_to_civil [of "unix t div day_secs" y m d] by (auto simp: date_in_def valid_date_def)
  let ?n = "unix t div day_secs"
  have "civil_to_days y m (d - k) = ?n - k" for k using n by (simp add: civil_to_days_def)
  then show ?thesis
    using days_since_monday(1) [of ?n] by (simp add: mondayOfWeek_def Let_def Weekday_def ymd go_Date_valid_month [OF v])
qed

text \<open>
  The week of an instant starts on a Monday at midnight UTC, at most the instant and less than
  seven days before it.
\<close>

theorem monday_of_week_correct:
  "Weekday UTC (mondayOfWeek t) = 1 \<and> clock_in UTC (mondayOfWeek t) = 0 \<and> nsec_of (mondayOfWeek t) = 0
    \<and> mondayOfWeek t \<le> t \<and> t < mondayOfWeek t + 7 * day_secs * second"
proof -
  let ?n = "unix t div day_secs"
  let ?k = "(?n + 3) mod 7"
  have k: "0 \<le> ?k" "?k < 7" by simp_all
  have u: "unix (mondayOfWeek t) = (?n - ?k) * day_secs" unfolding mondayOfWeek_days by (rule unix_secs)
  note days_since_monday(2)
  then have "Weekday UTC (mondayOfWeek t) = 1" by (simp add: Weekday_def u day_secs_def)
  moreover have "clock_in UTC (mondayOfWeek t) = 0" by (simp add: clock_in_def u day_secs_def)
  moreover have "nsec_of (mondayOfWeek t) = 0" by (simp add: nsec_of_def mondayOfWeek_days)
  moreover have "t = (?n * day_secs + unix t mod day_secs) * second + t mod second"
    by (simp add: unix_def)
  moreover have "0 \<le> unix t mod day_secs" "unix t mod day_secs < day_secs" "0 \<le> t mod second" "t mod second < second"
    by (simp_all add: day_secs_def second_def)
  ultimately show ?thesis
    using k unfolding mondayOfWeek_days day_secs_def second_def by (simp add: algebra_simps) linarith
qed

subsection \<open>Planning the digests of an hour\<close>

definition plans_digests :: "env \<Rightarrow> instant \<Rightarrow> db \<Rightarrow> digest \<Rightarrow> bool" where
  "plans_digests env now d g \<longleftrightarrow> dStatus g = Pending \<and> dAttempts g = 0 \<and> dWeekStarting g = mondayOfWeek now
     \<and> dScheduledFor g = pg_ts now
     \<and> (\<exists>us loc. us \<in> set (user_settings d) \<and> usUserID us = dUserID g \<and> usWeeklyDigestEnabled us
          \<and> e_pg_tz env (usTimezone us) = Some loc \<and> wants_digest_now loc (pg_ts now) us)"

text \<open>The database after some of the planned rows have been added.\<close>

definition plans_more :: "(digest \<Rightarrow> bool) \<Rightarrow> db \<Rightarrow> db \<Rightarrow> bool" where
  "plans_more P d d' \<longleftrightarrow> (\<exists>gs. d' = d\<lparr>digests := digests d @ gs\<rparr> \<and> (\<forall>g \<in> set gs. P g))"

interpretation plans: evolution "plans_more P" for P
proof unfold_locales
  fix d show "plans_more P d d" unfolding plans_more_def by (rule exI [of _ "[]"]) simp
next
  fix a b c
  assume "plans_more P a b" and "plans_more P b c"
  then obtain gs hs where "b = a\<lparr>digests := digests a @ gs\<rparr>" "\<forall>g \<in> set gs. P g"
      "c = b\<lparr>digests := digests b @ hs\<rparr>" "\<forall>g \<in> set hs. P g" unfolding plans_more_def by blast
  then show "plans_more P a c" unfolding plans_more_def by (intro exI [of _ "gs @ hs"]) auto
qed

lemma InsertDigestRow_plans:
  assumes "\<And>g. dUserID g = u \<Longrightarrow> dStatus g = Pending \<Longrightarrow> dAttempts g = 0 \<Longrightarrow> dWeekStarting g = w \<Longrightarrow>
    dScheduledFor g = pg_ts t \<Longrightarrow> P g"
  shows "sql_step (plans_more P) (InsertDigestRow u w t)"
proof (rule sql_stepI)
  fix x d a d'
  assume run: "InsertDigestRow u w t x d = Inr (a, d')"
  show "plans_more P d d'"
    using run assms unfolding InsertDigestRow_def plans_more_def
    by (auto split: if_splits intro: exI [of _ "[]"])
qed

lemma for_each_plans:
  assumes "\<And>u. u \<in> set us \<Longrightarrow> evolves R (f u)" and "evolution R"
  shows "evolves R (for_each f us)"
  using assms(1)
proof (induction us)
  case Nil
  then show ?case using evolution.out_ret [OF assms(2)] by simp
next
  case (Cons u us)
  then show ?case using evolution.out_andthen [OF assms(2), of "f u" "\<lambda>_. for_each f us"] by simp
qed

text \<open>The loop over the users reaches all of them when no statement fails.\<close>

definition plan_each :: "instant \<Rightarrow> instant \<Rightarrow> uuid list \<Rightarrow> ('ms, unit) job" where
  "plan_each week now us = for_each (\<lambda>u. andthen (attempt (exec Pool (InsertDigestRow u week now))) (\<lambda>_. ret ())) us"

lemma loop_stmts: "plan_each week now us c = (r, c') \<Longrightarrow> c_stmts c' = c_stmts c + length us"
proof (induction us arbitrary: c)
  case (Cons u us)
  obtain s c1 where one: "exec Pool (InsertDigestRow u week now) c = (s, c1)" by fastforce
  then have "c_stmts c1 = Suc (c_stmts c)"
    by (auto simp: exec_def exec_pool_def Let_def split: option.splits sum.splits)
  moreover have "plan_each week now us c1 = (r, c')"
    using Cons.prems one by (simp add: plan_each_def andthen_def attempt_def ret_def)
  ultimately show ?case using Cons.IH by simp
qed (simp add: plan_each_def)

lemma plan_each_all:
  fixes c :: "'ms sched"
  assumes "c_fault c = (\<lambda>_. None)" and "set us \<subseteq> set (user_ids (c_com c))"
    and "inj_on (c_gen c) {c_stmts c ..< c_stmts c + length us}"
    and "c_gen c ` {c_stmts c ..< c_stmts c + length us} \<inter> dID ` set (digests (c_com c)) = {}"
  shows "\<exists>c'. plan_each week now us c = (Inr (), c') \<and> c_stmts c' = c_stmts c + length us
    \<and> digest_key ` set (digests (c_com c)) \<union> (\<lambda>u. (u, week)) ` set us \<subseteq> digest_key ` set (digests (c_com c'))"
  using assms
proof (induction us arbitrary: c)
  case Nil
  then show ?case by (simp add: plan_each_def)
next
  case (Cons u us)
  let ?n = "c_stmts c"
  obtain s c1 where one: "exec Pool (InsertDigestRow u week now) c = (s, c1)" by fastforce
  have "?n \<in> {?n ..< ?n + length (u # us)}" by simp
  then have new: "c_gen c ?n \<notin> dID ` set (digests (c_com c))" using Cons.prems(4) by blast
  have c1: "c_fault c1 = (\<lambda>_. None)" "c_gen c1 = c_gen c" "c_stmts c1 = Suc ?n"
      "user_ids (c_com c1) = user_ids (c_com c)"
      "dID ` set (digests (c_com c1)) \<subseteq> insert (c_gen c ?n) (dID ` set (digests (c_com c)))"
      "insert (u, week) (digest_key ` set (digests (c_com c))) \<subseteq> digest_key ` set (digests (c_com c1))"
    using one new Cons.prems(1,2)
    by (auto simp: InsertDigestRow_def run_eval digest_key_def user_ids_def split: if_splits)
  have "c_gen c k \<noteq> c_gen c ?n" if "k \<in> {Suc ?n ..< Suc ?n + length us}" for k
    using inj_onD [OF Cons.prems(3), of k ?n] that by auto
  moreover have "c_gen c k \<notin> dID ` set (digests (c_com c))" if "k \<in> {Suc ?n ..< Suc ?n + length us}" for k
    using Cons.prems(4) that by (auto simp: disjoint_iff)
  ultimately have fresh: "c_gen c1 ` {c_stmts c1 ..< c_stmts c1 + length us} \<inter> dID ` set (digests (c_com c1)) = {}"
    unfolding c1(2,3) using c1(5) by blast
  have inj: "inj_on (c_gen c1) {c_stmts c1 ..< c_stmts c1 + length us}"
    unfolding c1(2,3) by (rule inj_on_subset [OF Cons.prems(3)]) auto
  from Cons.IH [OF c1(1) _ inj fresh] Cons.prems(2) c1(4) obtain c' where
    "plan_each week now us c1 = (Inr (), c')" "c_stmts c' = c_stmts c1 + length us"
    "digest_key ` set (digests (c_com c1)) \<union> (\<lambda>u. (u, week)) ` set us \<subseteq> digest_key ` set (digests (c_com c'))"
    by auto
  moreover from this(3) have "digest_key ` set (digests (c_com c)) \<union> (\<lambda>u. (u, week)) ` set (u # us)
      \<subseteq> digest_key ` set (digests (c_com c'))"
    using c1(6) by simp blast
  moreover have "plan_each week now (u # us) c = plan_each week now us c1"
    using one by (simp add: plan_each_def andthen_def attempt_def ret_def)
  ultimately show ?case using c1(3) by auto
qed

lemma scheduleDigests_eq:
  "scheduleDigests env c =
     (let now = sch_clock c (sch_calls c); week = mondayOfWeek now in
      case exec Pool (SelectDigestDueUsers env now week) (c\<lparr>sch_calls := Suc (sch_calls c)\<rparr>) of
        (Inl e, c') \<Rightarrow> (Inl (Wrapf ''select digest due users'' (Pg e)), c')
      | (Inr us, c') \<Rightarrow> plan_each week now us c')"
  by (simp add: scheduleDigests_def plan_each_def Now_def andthen_def on_err_def Let_def split: prod.split sum.split)

definition due_for_digest :: "env \<Rightarrow> instant \<Rightarrow> db \<Rightarrow> uuid \<Rightarrow> bool" where
  "due_for_digest env now d u \<longleftrightarrow> (\<exists>us loc. us \<in> set (user_settings d) \<and> usUserID us = u \<and> usWeeklyDigestEnabled us
     \<and> e_pg_tz env (usTimezone us) = Some loc \<and> wants_digest_now loc (pg_ts now) us)"

lemma SelectDigestDueUsers_rows:
  assumes "SelectDigestDueUsers env now week x d = Inr (us, d')" and "settings_ok d"
  shows "u \<in> set us \<longleftrightarrow> due_for_digest env now d u \<and> (u, week) \<notin> digest_key ` set (digests d)"
proof -
  have "u \<in> set us \<longleftrightarrow> (\<exists>w \<in> set (users d). \<exists>us \<in> set (user_settings d). u = uID w \<and> usUserID us = uID w
      \<and> usWeeklyDigestEnabled us \<and> (\<exists>loc. e_pg_tz env (usTimezone us) = Some loc \<and> wants_digest_now loc (pg_ts now) us)
      \<and> (u, week) \<notin> digest_key ` set (digests d))"
    using assms(1) by (fastforce simp: SelectDigestDueUsers_def split: option.splits if_splits)
  moreover have "\<exists>w \<in> set (users d). uID w = usUserID us" if "us \<in> set (user_settings d)" for us
    using assms(2) that by (force simp: settings_ok_def user_ids_def)
  ultimately show ?thesis unfolding due_for_digest_def by metis
qed

lemma schedule_digests_complete:
  fixes c :: "'ms sched"
  assumes wf: "wf_db env (c_com c)" and run: "scheduleDigests env c = (r, c')"
    and now: "now = sch_clock c (sch_calls c)" and fault: "\<And>n. c_fault c n = None"
    and inj: "inj_on (c_gen c) {c_stmts c ..< c_stmts c'}"
    and fresh: "c_gen c ` {c_stmts c ..< c_stmts c'} \<inter> dID ` set (digests (c_com c)) = {}"
  shows "case r of Inl e \<Rightarrow> \<exists>us \<in> set (user_settings (c_com c)). usWeeklyDigestEnabled us \<and> e_pg_tz env (usTimezone us) = None
    | Inr _ \<Rightarrow> \<forall>u. due_for_digest env now (c_com c) u \<longrightarrow>
        (u, mondayOfWeek now) \<in> digest_key ` set (digests (c_com c'))"
proof -
  let ?w = "mondayOfWeek now" and ?c1 = "c\<lparr>sch_calls := Suc (sch_calls c)\<rparr>"
  obtain s c2 where sel: "exec Pool (SelectDigestDueUsers env now ?w) ?c1 = (s, c2)" by fastforce
  show ?thesis
  proof (cases s)
    case (Inl e)
    then have "r = Inl (Wrapf ''select digest due users'' (Pg e))"
      using run sel by (simp add: scheduleDigests_eq now [symmetric] Let_def)
    moreover have "find (\<lambda>us. usWeeklyDigestEnabled us \<and> e_pg_tz env (usTimezone us) = None) (user_settings (c_com c)) \<noteq> None"
      using sel Inl fault by (auto simp: exec_def exec_pool_def Let_def SelectDigestDueUsers_def split: option.splits)
    ultimately show ?thesis by (auto simp: find_None_iff)
  next
    case (Inr us)
    have c2: "c_fault c2 = (\<lambda>_. None)" "c_gen c2 = c_gen c" "c_stmts c2 = Suc (c_stmts c)" "c_com c2 = c_com c"
      using sel Inr fault by (auto simp: exec_def exec_pool_def Let_def SelectDigestDueUsers_def fun_eq_iff split: option.splits)
    obtain d where "SelectDigestDueUsers env now ?w (ctx_of ?c1) (c_com ?c1) = Inr (us, d)"
      using exec_Pool_InrE [OF sel [unfolded Inr]] by blast
    from SelectDigestDueUsers_rows [OF this] wf_dbD(6) [OF wf]
    have "u \<in> set us \<longleftrightarrow> due_for_digest env now (c_com c) u \<and> (u, ?w) \<notin> digest_key ` set (digests (c_com c))" for u
      by simp
    moreover have "u \<in> set (user_ids (c_com c))" if "due_for_digest env now (c_com c) u" for u
      using that wf_dbD(6) [OF wf] by (auto simp: due_for_digest_def settings_ok_def)
    ultimately have us: "set us \<subseteq> set (user_ids (c_com c))"
      "due_for_digest env now (c_com c) u \<Longrightarrow> u \<in> set us \<or> (u, ?w) \<in> digest_key ` set (digests (c_com c))" for u
      by blast+
    have loop: "plan_each ?w now us c2 = (r, c')"
      using run sel Inr by (simp add: scheduleDigests_eq now [symmetric] Let_def)
    have n: "c_stmts c' = c_stmts c2 + length us"
      using loop_stmts [OF loop] .
    have sub: "{c_stmts c2 ..< c_stmts c2 + length us} \<subseteq> {c_stmts c ..< c_stmts c'}" unfolding n c2(3) by auto
    have "inj_on (c_gen c2) {c_stmts c2 ..< c_stmts c2 + length us}"
      unfolding c2(2) by (rule inj_on_subset [OF inj sub])
    moreover have "c_gen c2 ` {c_stmts c2 ..< c_stmts c2 + length us} \<inter> dID ` set (digests (c_com c2)) = {}"
      unfolding c2(2,4) using fresh sub by blast
    ultimately obtain c3 where "plan_each ?w now us c2 = (Inr (), c3)"
      "digest_key ` set (digests (c_com c2)) \<union> (\<lambda>u. (u, ?w)) ` set us \<subseteq> digest_key ` set (digests (c_com c3))"
      using plan_each_all [OF c2(1), of us ?w now] us(1) c2(4) by auto
    moreover from this(1) loop have "r = Inr ()" "c3 = c'" by simp_all
    ultimately have "(u, ?w) \<in> digest_key ` set (digests (c_com c'))" if "due_for_digest env now (c_com c) u" for u
      using us(2) [OF that] unfolding c2(4) by blast
    with \<open>r = Inr ()\<close> show ?thesis by simp
  qed
qed

text \<open>
  C18: Planning the digests adds pending rows and changes nothing else: each for the week of the
  clock it read, whose Monday is that of the UTC week (ADR 0009), scheduled now, and for a user with
  the digest enabled whose week day and hour in their own zone it is. The log has one row for each
  user and week afterwards, so no user gets two. If no statement fails and the identifiers that the
  database generates for the statements of the run are distinct and new, then every such user has a
  digest for the week afterwards, unless the zone of a user with the digest enabled is not known to
  the database: then the run reports an error.
\<close>

theorem schedule_digests_correct:
  assumes "c_tx c = None" and "wf_db env (c_com c)" and "scheduleDigests env c = (r, c')"
    and "now = sch_clock c (sch_calls c)"
  shows "plans_more (plans_digests env now (c_com c)) (c_com c) (c_com c')
    \<and> distinct (map digest_key (digests (c_com c')))
    \<and> ((\<forall>n. c_fault c n = None) \<and> inj_on (c_gen c) {c_stmts c ..< c_stmts c'}
         \<and> c_gen c ` {c_stmts c ..< c_stmts c'} \<inter> dID ` set (digests (c_com c)) = {} \<longrightarrow>
       (case r of Inl e \<Rightarrow> \<exists>us \<in> set (user_settings (c_com c)). usWeeklyDigestEnabled us \<and> e_pg_tz env (usTimezone us) = None
        | Inr _ \<Rightarrow> \<forall>u. due_for_digest env now (c_com c) u \<longrightarrow>
            (u, mondayOfWeek now) \<in> digest_key ` set (digests (c_com c'))))"
proof -
  let ?P = "plans_digests env now (c_com c)" and ?w = "mondayOfWeek now"
  let ?c1 = "c\<lparr>sch_calls := Suc (sch_calls c)\<rparr>"
  obtain s c2 where sel: "exec Pool (SelectDigestDueUsers env now ?w) ?c1 = (s, c2)" by fastforce
  have c2: "c_com c2 = c_com c" "c_tx c2 = None"
    using sel assms(1) by (auto simp: exec_def exec_pool_def Let_def SelectDigestDueUsers_def split: option.splits)
  have "plans_more ?P (c_com c) (c_com c')"
  proof (cases s)
    case (Inl e)
    then have "c' = c2"
      using assms(3) sel by (simp add: scheduleDigests_def Now_def andthen_def on_err_def Let_def assms(4))
    then show ?thesis using c2 plans.R_refl by simp
  next
    case (Inr us)
    have "plans_digests env now (c_com c) g" if "dUserID g \<in> set us" "dStatus g = Pending" "dAttempts g = 0"
      "dWeekStarting g = ?w" "dScheduledFor g = pg_ts now" for g
      using sel Inr that
      by (auto simp: plans_digests_def exec_def exec_pool_def Let_def SelectDigestDueUsers_def split: option.splits if_splits)
    then have step: "sql_step (plans_more ?P) (InsertDigestRow u ?w now)" if "u \<in> set us" for u
      using that by (intro InsertDigestRow_plans) auto
    have ev: "evolves (plans_more ?P) (for_each (\<lambda>u. andthen (attempt (exec Pool (InsertDigestRow u ?w now))) (\<lambda>_. ret ())) us
        :: 'a sched \<Rightarrow> (err + unit) \<times> 'a sched)"
      by (rule for_each_plans) (auto intro!: plans.out_rules plans.out_exec step plans.evolution_axioms)
    have loop: "for_each (\<lambda>u. andthen (attempt (exec Pool (InsertDigestRow u ?w now))) (\<lambda>_. ret ())) us c2 = (r, c')"
      using assms(3) sel Inr by (simp add: scheduleDigests_def Now_def andthen_def on_err_def Let_def assms(4))
    show ?thesis using evolvesD [OF ev c2(2) loop] c2(1) by simp
  qed
  moreover have "wf_db env (c_com c')"
    using evolvesD [OF wf_sched.keeps_scheduleDigests assms(1,3)] assms(2) by (simp add: wf_step_def)
  ultimately show ?thesis
    using wf_dbD(9) schedule_digests_complete [OF assms(2-4)] by (auto simp: digests_ok_def)
qed

theorem schedule_digests_correct_witness:
  "\<exists>r c'. scheduleDigests sample_env (sample_sched (0::nat)) = (r, c') \<and> distinct (map digest_key (digests (c_com c')))"
proof -
  obtain r c' where run: "scheduleDigests sample_env (sample_sched (0::nat)) = (r, c')" by fastforce
  have "c_tx (sample_sched (0::nat)) = None" by (simp add: sample_sched_def)
  from schedule_digests_correct [OF this sample_sched_wf run refl] run show ?thesis by blast
qed

subsection \<open>The archive sweep\<close>

definition archived_at :: "instant \<Rightarrow> conference \<Rightarrow> conference" where
  "archived_at t c = c\<lparr>cArchivedAt := (case cArchivedAt c of Some u \<Rightarrow> Some u | None \<Rightarrow> Some t), cUpdatedAt := t\<rparr>"

definition sweep_db :: "instant \<Rightarrow> uuid \<Rightarrow> db \<Rightarrow> db" where
  "sweep_db t i d = d\<lparr>conferences := update_where (\<lambda>c. cID c = i) (archived_at t) (conferences d),
     reminders := update_where (\<lambda>r. rStatus r = Pending \<and> rConferenceID r = i) (cancelled t) (reminders d)\<rparr>"

lemma archived_at_simps [simp]: "cID (archived_at t c) = cID c" "archived_at t (archived_at t c) = archived_at t c"
  by (simp_all add: archived_at_def split: option.splits)

lemma cancelled_simps [simp]: "rConferenceID (cancelled t r) = rConferenceID r" "rStatus (cancelled t r) = Cancelled"
  by (simp_all add: cancelled_def)

lemma sweep_db_ids [simp]: "conf_ids (sweep_db t i d) = conf_ids d"
  by (simp add: sweep_db_def conf_ids_def map_update_where_key)

lemma update_one_of:
  assumes "distinct (map key xs)" and "find (\<lambda>x. key x = i) xs = Some a"
  shows "update_where (\<lambda>x. key x = i) (\<lambda>_. f a) xs = update_where (\<lambda>x. key x = i) f xs"
  using assms
proof (induction xs)
  case (Cons x xs)
  show ?case
  proof (cases "key x = i")
    case True
    then have "\<forall>y \<in> set xs. key y \<noteq> i" using Cons.prems(1) by (auto simp: image_iff)
    with True Cons.prems(2) show ?thesis by (auto simp: update_where_def)
  qed (use Cons in auto)
qed simp

lemma sweep_one_run:
  assumes "sweep_one env i c = (Inr r, c')" and "c_tx c = Some v" and "distinct (conf_ids v)"
  shows "c_tx c' = Some (sweep_db (c_now c) i v) \<and> c_com c' = c_com c \<and> c_now c' = c_now c"
  using assms(1,2) update_one_of [OF assms(3) [unfolded conf_ids_def], of i _ "archived_at (c_now c)"]
  by (auto simp: sweep_one_def CancelConferenceReminders_def ArchiveConference_def sweep_db_def archived_at_def run_eval
      split: option.splits if_splits)

lemma sweep_loop_run:
  "for_each (sweep_one env) is c = (Inr r, c') \<Longrightarrow> c_tx c = Some v \<Longrightarrow> distinct (conf_ids v) \<Longrightarrow>
    c_tx c' = Some (fold (sweep_db (c_now c)) is v) \<and> c_com c' = c_com c"
proof (induction "is" arbitrary: c v)
  case (Cons i "is")
  from Cons.prems(1) obtain a c1 where "sweep_one env i c = (Inr a, c1)" and rest: "for_each (sweep_one env) is c1 = (Inr r, c')"
    by (auto elim: andthen_InrE)
  from sweep_one_run [OF this(1) Cons.prems(2,3)]
  have c1: "c_tx c1 = Some (sweep_db (c_now c) i v)" "c_com c1 = c_com c" "c_now c1 = c_now c" by auto
  from Cons.IH [OF rest c1(1)] c1 Cons.prems(3) show ?case by simp
qed simp

lemma fold_sweep:
  "conferences (fold (sweep_db t) is d) = map (\<lambda>c. if cID c \<in> set is then archived_at t c else c) (conferences d)"
  "reminders (fold (sweep_db t) is d)
     = map (\<lambda>r. if rStatus r = Pending \<and> rConferenceID r \<in> set is then cancelled t r else r) (reminders d)"
  "fold (sweep_db t) is d = d\<lparr>conferences := conferences (fold (sweep_db t) is d),
     reminders := reminders (fold (sweep_db t) is d)\<rparr>"
proof (induction "is" arbitrary: d)
  case (Cons i "is")
  {
    case 1
    show ?case by (simp add: Cons(1)) (simp add: sweep_db_def update_where_def)
  next
    case 2
    show ?case by (simp add: Cons(2)) (auto simp: sweep_db_def update_where_def)
  next
    case 3
    show ?case using Cons(3) [of "sweep_db t i d"] by (simp add: sweep_db_def)
  }
qed simp_all

text \<open>
  C19: A sweep that succeeds archives exactly the conferences that were not archived and whose last
  day is more than the grace period before today, stamps them with the time, and cancels their
  pending reminders; everything else is as it was. A sweep that fails changes nothing.
\<close>

theorem sweep_archive_correct:
  assumes "wf_db env (c_com c)" and "c_tx c = None" and "sweepArchive env cfg c = (r, c')"
    and "over = expired (c_today c) (int32_of (cfGraceDays cfg))"
    and "gone = map cID (filter over (conferences (c_com c)))"
  shows "case r of Inl _ \<Rightarrow> c_com c' = c_com c
    | Inr _ \<Rightarrow> c_com c' = (c_com c)\<lparr>
        conferences := map (\<lambda>k. if over k then k\<lparr>cArchivedAt := Some (c_now c), cUpdatedAt := c_now c\<rparr> else k)
          (conferences (c_com c)),
        reminders := map (\<lambda>q. if rStatus q = Pending \<and> rConferenceID q \<in> set gone then cancelled (c_now c) q else q)
          (reminders (c_com c))\<rparr>"
proof (cases r)
  case (Inl e)
  have "tx_evolves (\<lambda>_ _. True) (sweep_body env cfg :: 'a sched \<Rightarrow> _)"
    unfolding sweep_body_def sweep_one_def by (intro any_sched.tx_steps)
  from in_tx_error_unchanged [OF this assms(2)] assms(3) Inl show ?thesis by (simp add: sweepArchive_def)
next
  case (Inr u)
  let ?d = "c_com c"
  have ids: "distinct (conf_ids ?d)" using wf_dbD(2) [OF assms(1)] by (simp add: conferences_ok_def)
  let ?c1 = "c\<lparr>c_stmts := Suc (c_stmts c), c_tx := Some ?d, c_aborted := False\<rparr>"
  from assms(3) Inr obtain c2 v where body: "sweep_body env cfg ?c1 = (Inr u, c2)" "c_tx c2 = Some v" "c_com c' = v"
    unfolding sweepArchive_def by (auto elim: in_tx_InrE)
  from body(1) obtain sel c3 where sel: "exec Tx (SelectExpiredConferences (int32_of (cfGraceDays cfg))) ?c1 = (Inr sel, c3)"
      and loop: "for_each (sweep_one env) sel c3 = (Inr u, c2)"
    unfolding sweep_body_def by (auto elim!: andthen_InrE on_err_InrE)
  from sel have "sel = gone" "c_tx c3 = Some ?d" "c_com c3 = ?d" "c_now c3 = c_now c"
    unfolding assms(4,5) by (auto elim!: exec_Tx_InrE simp: SelectExpiredConferences_def ctx_of_def)
  with sweep_loop_run [OF loop, of ?d] ids body(2,3) have v: "c_com c' = fold (sweep_db (c_now c)) gone ?d" by simp
  have mem: "cID k \<in> set gone \<longleftrightarrow> over k" if "k \<in> set (conferences ?d)" for k
    using that ids unfolding assms(5) by (auto simp: conf_ids_def distinct_map inj_on_def)
  have "archived_at (c_now c) k = k\<lparr>cArchivedAt := Some (c_now c), cUpdatedAt := c_now c\<rparr>" if "over k" for k
    using that unfolding assms(4) by (simp add: archived_at_def expired_def)
  with mem have "conferences (fold (sweep_db (c_now c)) gone ?d)
      = map (\<lambda>k. if over k then k\<lparr>cArchivedAt := Some (c_now c), cUpdatedAt := c_now c\<rparr> else k) (conferences ?d)"
    unfolding fold_sweep(1) by (intro map_cong) auto
  then show ?thesis
    using Inr v fold_sweep(3) [of "c_now c" gone ?d] fold_sweep(2) [of "c_now c" gone ?d] by simp
qed

definition sweep_sched :: "'ms \<Rightarrow> 'ms sched" where
  "sweep_sched ms = (sample_sched ms)\<lparr>c_com := sample_db\<lparr>conferences :=
     [sample_conference\<lparr>cEventEndDate := Some 1780000000000000000\<rparr>]\<rparr>\<rparr>"

lemma sweep_sched_wf: "wf_db sample_env (c_com (sweep_sched ms))"
  by (simp add: sweep_sched_def wf_db_def table_oks id_lists sample_db_def sample_user_def sample_settings_def
      sample_conference_def conference_check_def settings_check_def le_opt_def opt_in_def star_key_def)

theorem sweep_archive_correct_witness:
  "\<exists>r c'. sweepArchive sample_env sample_config (sweep_sched (0::nat)) = (r, c')
     \<and> (r = Inr () \<longrightarrow> map cArchivedAt (conferences (c_com c')) = [Some 1790000000000000000])"
proof -
  obtain r c' where run: "sweepArchive sample_env sample_config (sweep_sched (0::nat)) = (r, c')" by fastforce
  have "c_tx (sweep_sched (0::nat)) = None" by (simp add: sweep_sched_def sample_sched_def)
  from sweep_archive_correct [OF sweep_sched_wf this run refl refl] run show ?thesis
    by (cases r) (auto simp: sweep_sched_def sample_sched_def sample_config_def sample_defs expired_def
        int32_of_def day_secs_def second_def)
qed

subsection \<open>The loop\<close>

definition digest_history :: "db \<Rightarrow> digest set" where
  "digest_history d = {g \<in> set (digests d). dStatus g \<noteq> Pending}"

definition attempts_ok :: "int \<Rightarrow> db \<Rightarrow> bool" where
  "attempts_ok m d \<longleftrightarrow> (\<forall>q \<in> set (reminders d). rAttempts q < max 1 m) \<and> (\<forall>g \<in> set (digests d). dAttempts g < max 1 m)"

text \<open>
  One stretch of the scheduler from a database that satisfies the schema: it still does, rows that
  are no longer pending are as they were, and no row exceeds the attempts.
\<close>

definition sched_safe :: "env \<Rightarrow> int \<Rightarrow> db \<Rightarrow> db \<Rightarrow> bool" where
  "sched_safe env m d d' \<longleftrightarrow> (wf_db env d \<longrightarrow> wf_db env d' \<and> keeps_history d d'
     \<and> digest_history d \<subseteq> digest_history d' \<and> (attempts_ok m d \<longrightarrow> attempts_ok m d'))"

lemma sched_safe_stepI:
  assumes "sql_step (wf_step env) q"
    and "\<And>x d a d'. q x d = Inr (a, d') \<Longrightarrow> keeps_history d d' \<and> digest_history d \<subseteq> digest_history d'
      \<and> (attempts_ok m d \<longrightarrow> attempts_ok m d')"
  shows "sql_step (sched_safe env m) q"
  using assms unfolding sql_step_def sched_safe_def wf_step_def by blast

interpretation safe: sweep_writes "sched_safe env m" for env m
proof unfold_locales
  fix a b c d :: db
  show "sched_safe env m d d" by (simp add: sched_safe_def hist.R_refl)
  show "sched_safe env m a b \<Longrightarrow> sched_safe env m b c \<Longrightarrow> sched_safe env m a c"
    unfolding sched_safe_def using hist.R_trans by blast
next
  fix u w t
  show "sql_step (sched_safe env m) (InsertDigestRow u w t)"
    by (rule sched_safe_stepI [OF wf_InsertDigestRow])
      (auto simp: InsertDigestRow_def keeps_history_def history_def digest_history_def attempts_ok_def split: if_splits)
next
  fix i
  show "sql_step (sched_safe env m) (CancelConferenceReminders i)"
    by (rule sched_safe_stepI [OF wf_reminder_writes(1)])
      (auto simp: CancelConferenceReminders_def keeps_history_def history_def digest_history_def attempts_ok_def
        in_update_where_iff cancelled_def)
  show "sql_step (sched_safe env m) (ArchiveConference i)"
    by (rule sched_safe_stepI [OF wf_ArchiveConference])
      (auto simp: ArchiveConference_def Let_def keeps_history_def history_def digest_history_def attempts_ok_def
        split: option.splits)
qed

lemma reminder_step_safe:
  assumes "reminder_step m due mailed q q'"
  shows "(rStatus q \<noteq> Pending \<longrightarrow> q' = q) \<and> (rAttempts q < max 1 m \<longrightarrow> rAttempts q' < max 1 m)"
  using assms by (cases rule: reminder_step.cases) auto

lemma digest_step_safe:
  assumes "digest_step m due e mailed g g'"
  shows "(dStatus g \<noteq> Pending \<longrightarrow> g' = g) \<and> (dAttempts g < max 1 m \<longrightarrow> dAttempts g' < max 1 m)"
  using assms by (cases rule: digest_step.cases) auto

lemma list_all2_left: "list_all2 P xs ys \<Longrightarrow> x \<in> set xs \<Longrightarrow> \<exists>y \<in> set ys. P x y"
  by (induction xs ys rule: list_all2_induct) auto

lemma list_all2_right: "list_all2 P xs ys \<Longrightarrow> y \<in> set ys \<Longrightarrow> \<exists>x \<in> set xs. P x y"
  by (induction xs ys rule: list_all2_induct) auto

lemma reminders_dispatched_safe:
  assumes "reminders_dispatched cfg now ks d d'"
  shows "keeps_history d d' \<and> digest_history d \<subseteq> digest_history d'
    \<and> (attempts_ok (cfMaxAttempts cfg) d \<longrightarrow> attempts_ok (cfMaxAttempts cfg) d')"
proof -
  obtain rs where d': "d' = d\<lparr>reminders := rs\<rparr>" and all: "list_all2 (reminder_step (cfMaxAttempts cfg) (due_at now)
      (mailed_in (cfLocal cfg) (due_reminders now d) ks)) (reminders d) rs"
    using assms unfolding reminders_dispatched_def by blast
  have "keeps_history d d'"
    using list_all2_left [OF all] reminder_step_safe unfolding keeps_history_def history_def d' by fastforce
  moreover have "attempts_ok (cfMaxAttempts cfg) d \<longrightarrow> attempts_ok (cfMaxAttempts cfg) d'"
    using list_all2_right [OF all] reminder_step_safe unfolding attempts_ok_def d' by fastforce
  ultimately show ?thesis by (simp add: digest_history_def d')
qed

lemma digests_dispatched_safe:
  assumes "digests_dispatched env cfg clk now ks d d'"
  shows "keeps_history d d' \<and> digest_history d \<subseteq> digest_history d'
    \<and> (attempts_ok (cfMaxAttempts cfg) d \<longrightarrow> attempts_ok (cfMaxAttempts cfg) d')"
proof -
  obtain gs where d': "d' = d\<lparr>digests := gs\<rparr>" and all: "list_all2 (digest_step (cfMaxAttempts cfg) (digest_due_at now)
      (no_items env cfg d clk (due_digests now d)) (digest_mailed env cfg d clk (due_digests now d) ks)) (digests d) gs"
    using assms unfolding digests_dispatched_def by blast
  have "digest_history d \<subseteq> digest_history d'"
    using list_all2_left [OF all] digest_step_safe unfolding digest_history_def d' by fastforce
  moreover have "attempts_ok (cfMaxAttempts cfg) d \<longrightarrow> attempts_ok (cfMaxAttempts cfg) d'"
    using list_all2_right [OF all] digest_step_safe unfolding attempts_ok_def d' by fastforce
  ultimately show ?thesis by (simp add: keeps_history_same d')
qed

context mailer begin

lemma safe_dispatchReminders:
  "evolves (sched_safe env (cfMaxAttempts cfg)) (dispatchReminders send cfg :: 's sched \<Rightarrow> _)"
  unfolding evolves_def
proof (intro allI impI)
  fix c r and c' :: "'s sched"
  assume n: "c_tx c = None" and run: "dispatchReminders send cfg c = (r, c')"
  from evolvesD [OF wf_sched.keeps_dispatchReminders n run]
  have wf: "c_tx c' = None" "wf_db env (c_com c) \<longrightarrow> wf_db env (c_com c')" by (auto simp: wf_step_def)
  have "sched_safe env (cfMaxAttempts cfg) (c_com c) (c_com c')"
  proof (cases "wf_db env (c_com c)")
    case True
    from dispatchReminders_run [OF this run] wf(2) show ?thesis
      unfolding sched_safe_def by (cases r) (auto dest: reminders_dispatched_safe simp: hist.R_refl)
  qed (simp add: sched_safe_def)
  with wf(1) show "c_tx c' = None \<and> sched_safe env (cfMaxAttempts cfg) (c_com c) (c_com c')" ..
qed

lemma safe_dispatchDigests:
  "evolves (sched_safe env (cfMaxAttempts cfg)) (dispatchDigests env send cfg :: 's sched \<Rightarrow> _)"
  unfolding evolves_def
proof (intro allI impI)
  fix c r and c' :: "'s sched"
  assume n: "c_tx c = None" and run: "dispatchDigests env send cfg c = (r, c')"
  from evolvesD [OF wf_sched.keeps_dispatchDigests n run]
  have wf: "c_tx c' = None" "wf_db env (c_com c) \<longrightarrow> wf_db env (c_com c')" by (auto simp: wf_step_def)
  have "sched_safe env (cfMaxAttempts cfg) (c_com c) (c_com c')"
  proof (cases "wf_db env (c_com c)")
    case True
    from dispatchDigests_run [OF this run] wf(2) show ?thesis
      unfolding sched_safe_def by (cases r) (auto dest: digests_dispatched_safe simp: hist.R_refl)
  qed (simp add: sched_safe_def)
  with wf(1) show "c_tx c' = None \<and> sched_safe env (cfMaxAttempts cfg) (c_com c) (c_com c')" ..
qed

lemmas safe_tick = safe.keeps_tick_if [OF safe_dispatchReminders safe_dispatchDigests]

end

text \<open>
  However many ticks the scheduler runs, and whatever fails in them, the constraints of the
  schema are kept, a reminder or digest that was sent, failed, cancelled or skipped is never
  touched again, and no row ever counts as many attempts as the limit allows.
\<close>

theorem scheduler_safe:
  assumes "c_tx c = None" and "wf_db env (c_com c)" and "c' = Run_Scheduler env (SMTP_Send nw smtp) cfg n c"
  shows "c_tx c' = None \<and> wf_db env (c_com c') \<and> keeps_history (c_com c) (c_com c')
    \<and> digest_history (c_com c) \<subseteq> digest_history (c_com c')
    \<and> (attempts_ok (cfMaxAttempts cfg) (c_com c) \<longrightarrow> attempts_ok (cfMaxAttempts cfg) (c_com c'))"
  using safe.keeps_Run_if [OF smtp.safe_tick assms(1), where env = env and cfg = cfg and n = n] assms(2)
  unfolding sched_safe_def assms(3) by (intro conjI; simp)

theorem scheduler_safe_witness:
  "\<exists>c'. c' = Run_Scheduler sample_env (SMTP_Send sample_network sample_smtp) sample_config 2
       (sample_sched \<lparr>ss_net = 0, ss_taken = []\<rparr>) \<and> attempts_ok 3 (c_com c')"
proof -
  let ?c = "sample_sched \<lparr>ss_net = 0, ss_taken = []\<rparr> :: nat session sched"
  have "c_tx ?c = None" "attempts_ok 3 (c_com ?c)"
    by (simp_all add: sample_sched_def attempts_ok_def sample_reminder_def sample_db_def)
  with scheduler_safe [OF this(1) sample_sched_wf refl, of sample_network sample_smtp sample_config 2]
  show ?thesis by (simp add: sample_config_def)
qed

end
