(* ===== verification/System.thy ===== *)
theory System
  imports Http_Facts Scheduler_Facts
begin

text \<open>
  The server and the scheduler on one database. A step of the system is a request, of anybody to
  any route and with whatever connection, or a tick of the scheduler with one of its two mailers;
  a run is a sequence of steps. Steps do not overlap: a request or tick that is under way ends
  before the next one starts, each at its own time and with failures of its own.
\<close>

subsection \<open>Runs\<close>

datatype event = Request route | Tick

inductive system_step :: "env \<Rightarrow> sched_config \<Rightarrow> db \<Rightarrow> event \<Rightarrow> db \<Rightarrow> bool" for env :: env and cfg :: sched_config where
  Request: "NewRouter sv rt r s = (q, s') \<Longrightarrow> sv_env sv = env \<Longrightarrow> c_tx (s :: web) = None \<Longrightarrow>
    system_step env cfg (c_com s) (Request rt) (c_com s')"
| SMTP_tick: "tick env (SMTP_Send nw smtp) cfg c = (x, c') \<Longrightarrow> c_tx (c :: nat session sched) = None \<Longrightarrow>
    system_step env cfg (c_com c) Tick (c_com c')"
| Fake_tick: "tick env Fake_Send cfg c = (x, c') \<Longrightarrow> c_tx (c :: FakeMailer sched) = None \<Longrightarrow>
    system_step env cfg (c_com c) Tick (c_com c')"

inductive_cases request_stepE: "system_step env cfg d (Request rt) d'"
inductive_cases tick_stepE: "system_step env cfg d Tick d'"

inductive system_run :: "env \<Rightarrow> sched_config \<Rightarrow> db \<Rightarrow> event list \<Rightarrow> db \<Rightarrow> bool" for env :: env and cfg :: sched_config where
  Start: "system_run env cfg d [] d"
| Next: "system_run env cfg d es d1 \<Longrightarrow> system_step env cfg d1 e d2 \<Longrightarrow> system_run env cfg d (es @ [e]) d2"

subsection \<open>What no request touches\<close>

text \<open>Requests leave the digests alone, and the reminders they plan have no attempts yet.\<close>

definition calm :: "int \<Rightarrow> db \<Rightarrow> db \<Rightarrow> bool" where
  "calm m d d' \<longleftrightarrow> digests d' = digests d
     \<and> ((\<forall>q \<in> set (reminders d). rAttempts q < max 1 m) \<longrightarrow> (\<forall>q \<in> set (reminders d'). rAttempts q < max 1 m))"

lemma calm_other: "digests d' = digests d \<Longrightarrow> reminders d' = reminders d \<Longrightarrow> calm m d d'"
  by (simp add: calm_def)

lemma calm_conferences:
  "sql_step (calm m) (CreateConference env cp)" "sql_step (calm m) (UpdateConference env up)"
  "sql_step (calm m) (ArchiveConference i)" "sql_step (calm m) (UnarchiveConference i)"
  "sql_step (calm m) (UpsertTagBySlug s n)" "sql_step (calm m) (AddConferenceTag i t)"
  "sql_step (calm m) (AddConferenceTrack i k)" "sql_step (calm m) (DeleteAllConferenceTags i)"
  "sql_step (calm m) (DeleteAllConferenceTracks i)"
  "sql_step (calm m) (CreateStar u i)" "sql_step (calm m) (DeleteStar u i)"
  by (rule sql_stepI, rule calm_other; auto simp: CreateConference_def UpdateConference_def ArchiveConference_def
      UnarchiveConference_def UpsertTagBySlug_def AddConferenceTag_def AddConferenceTrack_def
      DeleteAllConferenceTags_def DeleteAllConferenceTracks_def CreateStar_def
      DeleteStar_def with_texts_def Let_def split: if_splits option.splits)+

lemma calm_users:
  "sql_step (calm m) (UpsertUser uu)" "sql_step (calm m) (UpsertUserSettings i)"
  "sql_step (calm m) (UpdateUserSettings sp)" "sql_step (calm m) (CreateCalendarToken u t k)"
  "sql_step (calm m) (GetCalendarTokenByValue t)" "sql_step (calm m) (RevokeCalendarTokensByUser u k)"
  "sql_step (calm m) (InsertAuditEntry ap)"
  by (rule sql_stepI, rule calm_other; auto simp: UpsertUser_def UpsertUserSettings_def UpdateUserSettings_def
      CreateCalendarToken_def GetCalendarTokenByValue_def RevokeCalendarTokensByUser_def InsertAuditEntry_def
      with_texts_def Let_def split: if_splits option.splits)+

lemma calm_reminders:
  "sql_step (calm m) (InsertReminderRow p)" "sql_step (calm m) (CancelConferenceReminders i)"
  "sql_step (calm m) (CancelUserConferenceReminders u i)"
  "sql_step (calm m) (DeleteConferencePendingReminders i)"
  "sql_step (calm m) (DeleteUserConferencePendingReminders u i)" "sql_step (calm m) (DeleteConference i)"
  by (rule sql_stepI, auto simp: calm_def InsertReminderRow_def CancelConferenceReminders_def
      CancelUserConferenceReminders_def DeleteConferencePendingReminders_def DeleteConference_def
      DeleteUserConferencePendingReminders_def Let_def in_update_where_iff cancelled_def delete_where_def
      split: if_splits option.splits)+

lemma calm_refl: "calm m d d"
  by (simp add: calm_def)

lemma calm_trans: "calm m a b \<Longrightarrow> calm m b c \<Longrightarrow> calm m a c"
  unfolding calm_def by (elim conjE) (intro conjI impI; (blast | simp))

interpretation calm: server_writes "calm m" env for m env
  by unfold_locales (rule calm_refl calm_conferences calm_users calm_reminders | erule (1) calm_trans)+

text \<open>The scheduler does not touch the audit log.\<close>

lemma keeps_log_dispatch:
  "sql_step keeps_log (MarkReminderSent i)" "sql_step keeps_log (MarkReminderFailed e i)"
  "sql_step keeps_log (IncrementReminderAttempt e i)" "sql_step keeps_log (MarkDigestSent i)"
  "sql_step keeps_log (MarkDigestFailed e i)" "sql_step keeps_log (IncrementDigestAttempt e i)"
  "sql_step keeps_log (MarkDigestSkipped i)" "sql_step keeps_log (InsertDigestRow u w t)"
  by (rule sql_stepI, auto simp: keeps_log_def InsertDigestRow_def with_texts_def set_reminder_def set_digest_def
    MarkReminderSent_def MarkReminderFailed_def IncrementReminderAttempt_def MarkDigestSent_def
    MarkDigestFailed_def IncrementDigestAttempt_def MarkDigestSkipped_def split: if_splits)+

interpretation log_sched: scheduler_writes keeps_log
  by unfold_locales (rule log.conf.R_refl, erule (1) log.conf.R_trans, (rule keeps_log_dispatch keeps_log_steps)+)

subsection \<open>What every step keeps\<close>

lemma request_step:
  assumes "system_step env cfg d (Request rt) d'"
  shows "wf_step env d d' \<and> extends_log d d' \<and> calm m d d' \<and> (rt \<noteq> Conference_delete \<longrightarrow> keeps_history d d')"
proof -
  obtain sv r q s' and s :: web where run: "NewRouter sv rt r s = (q, s')" and sv: "sv_env sv = env"
    and s: "c_tx s = None" and d: "d = c_com s" "d' = c_com s'"
    using assms by (elim request_stepE) blast
  show ?thesis
    unfolding d
    using h_evolvesD [OF wf_server.keeps_route [OF sv] s run] h_evolvesD [OF append.keeps_route [OF sv] s run]
      h_evolvesD [OF calm.keeps_route [OF sv] s run] h_evolvesD [OF hist_server.keeps_other_route [OF sv] s run]
    by blast
qed

lemma tick_step:
  assumes "system_step env cfg d Tick d'"
  shows "sched_safe env (cfMaxAttempts cfg) d d' \<and> keeps_log d d'"
  using assms
proof (rule tick_stepE)
  fix nw smtp x c' and c :: "nat session sched"
  assume d: "d = c_com c" "d' = c_com c'" and run: "tick env (SMTP_Send nw smtp) cfg c = (x, c')" and c: "c_tx c = None"
  then show ?thesis
    using evolvesD [OF smtp.safe_tick c run] evolvesD [OF log_sched.keeps_tick c run] by simp
next
  fix x c' and c :: "FakeMailer sched"
  assume d: "d = c_com c" "d' = c_com c'" and run: "tick env Fake_Send cfg c = (x, c')" and c: "c_tx c = None"
  then show ?thesis
    using evolvesD [OF fake.safe_tick c run] evolvesD [OF log_sched.keeps_tick c run] by simp
qed

text \<open>The invariant of a run: from a database of the schema, whatever happens.\<close>

definition run_safe :: "env \<Rightarrow> int \<Rightarrow> bool \<Rightarrow> db \<Rightarrow> db \<Rightarrow> bool" where
  "run_safe env m deletes d d' \<longleftrightarrow> wf_db env d' \<and> extends_log d d' \<and> (attempts_ok m d \<longrightarrow> attempts_ok m d')
     \<and> digest_history d \<subseteq> digest_history d' \<and> (\<not> deletes \<longrightarrow> keeps_history d d')"

lemma run_safe_trans:
  assumes "run_safe env m a d d1" "run_safe env m b d1 d2"
  shows "run_safe env m (a \<or> b) d d2"
  using assms append.conf.R_trans hist.R_trans unfolding run_safe_def by blast

lemma step_safe:
  assumes "system_step env cfg d e d'" and "wf_db env d"
  shows "run_safe env (cfMaxAttempts cfg) (e = Request Conference_delete) d d'"
proof (cases e)
  case (Request rt)
  from request_step [OF assms(1) [unfolded Request]] assms(2) Request show ?thesis
    unfolding run_safe_def wf_step_def calm_def attempts_ok_def digest_history_def by auto
next
  case Tick
  from tick_step [OF assms(1) [unfolded Tick]] assms(2) show ?thesis
    by (auto simp: run_safe_def sched_safe_def keeps_log_def extends_log_def)
qed

lemma run_safe:
  assumes "system_run env cfg d es d'" and "wf_db env d"
  shows "run_safe env (cfMaxAttempts cfg) (Request Conference_delete \<in> set es) d d'"
  using assms
proof (induction rule: system_run.induct)
  case (Start d)
  then show ?case by (simp add: run_safe_def append.conf.R_refl hist.R_refl)
next
  case (Next d es d1 e d2)
  then have "run_safe env (cfMaxAttempts cfg) (Request Conference_delete \<in> set es) d d1" by simp
  moreover from this have "wf_db env d1" by (simp add: run_safe_def)
  then have "run_safe env (cfMaxAttempts cfg) (e = Request Conference_delete) d1 d2"
    using step_safe Next.hyps(2) by blast
  ultimately have "run_safe env (cfMaxAttempts cfg)
      (Request Conference_delete \<in> set es \<or> e = Request Conference_delete) d d2"
    by (rule run_safe_trans)
  moreover have "Request Conference_delete \<in> set (es @ [e]) \<longleftrightarrow>
      Request Conference_delete \<in> set es \<or> e = Request Conference_delete" by auto
  ultimately show ?case by simp
qed

text \<open>
  C1: In every run of requests and scheduler ticks from a database of the schema, in any order and
  with any failures of the database, the network and the mail server: the constraints of the
  schema hold at the end, the audit log has only grown, no reminder or digest counts more attempts
  than the limit allows, no digest that was dispatched has changed, and, unless a conference
  was deleted, no reminder that was sent, failed or cancelled has changed or gone.
\<close>

theorem system_safe:
  assumes "system_run env cfg d es d'" and "wf_db env d" and "attempts_ok (cfMaxAttempts cfg) d"
  shows "wf_db env d' \<and> (\<exists>l. audit_log d' = audit_log d @ l) \<and> attempts_ok (cfMaxAttempts cfg) d'
    \<and> {g \<in> set (digests d). dStatus g \<noteq> Pending} \<subseteq> set (digests d')
    \<and> (Request Conference_delete \<notin> set es \<longrightarrow> {q \<in> set (reminders d). rStatus q \<noteq> Pending} \<subseteq> set (reminders d'))"
  using run_safe [OF assms(1,2)] assms(3)
  unfolding run_safe_def extends_log_def digest_history_def keeps_history_def history_def by blast

text \<open>A day of a small deployment: a conference is created, and the scheduler ticks.\<close>

theorem system_safe_witness:
  "\<exists>d'. system_run sample_env sample_config sample_db [Request Conference_create, Tick] d' \<and> wf_db sample_env d'"
proof -
  let ?sv = "sample_server\<lparr>sv_env := sample_env\<rparr>"
  obtain q s' where 1: "NewRouter ?sv Conference_create sample_call sample_web = (q, s')"
    by (rule prod.exhaust)
  have "system_step sample_env sample_config (c_com sample_web) (Request Conference_create) (c_com s')"
    by (rule system_step.Request [OF 1]) simp_all
  then have run1: "system_run sample_env sample_config sample_db [Request Conference_create] (c_com s')"
    using system_run.Next [OF system_run.Start, of sample_env sample_config sample_db] by simp
  let ?c = "(sample_sched \<lparr>fm_sent = []\<rparr>)\<lparr>c_com := c_com s'\<rparr> :: FakeMailer sched"
  obtain x c' where 2: "tick sample_env Fake_Send sample_config ?c = (x, c')" by (rule prod.exhaust)
  have "system_step sample_env sample_config (c_com ?c) Tick (c_com c')"
    by (rule system_step.Fake_tick [OF 2]) (simp add: sample_sched_def)
  then have run: "system_run sample_env sample_config sample_db [Request Conference_create, Tick] (c_com c')"
    using system_run.Next [OF run1] by simp
  have "attempts_ok (cfMaxAttempts sample_config) sample_db" by (simp add: attempts_ok_def sample_db_def)
  from system_safe [OF run sample_wf this] run show ?thesis by blast
qed

end
