(* ===== verification/Backlog.thy ===== *)
theory Backlog
  imports Dispatch_Runs Scheduler "HOL-Library.Multiset"
begin

text \<open>
  The dispatcher gets through its backlog: a run takes the first fifty of the reminders that are
  due, in the order of their times, so that reminders which fall due later never push back those
  that wait already.
\<close>

subsection \<open>The first of a sorted list\<close>

lemma sorted_split:
  fixes k :: "'a \<Rightarrow> 'b :: linorder"
  assumes "sorted (map k ys)"
  shows "ys = filter (\<lambda>y. k y \<le> t) ys @ filter (\<lambda>y. \<not> k y \<le> t) ys"
  using assms
proof (induction ys)
  case (Cons y ys)
  show ?case
  proof (cases "k y \<le> t")
    case False
    with Cons.prems have "\<forall>z \<in> set ys. \<not> k z \<le> t" by auto
    then have "filter (\<lambda>y. k y \<le> t) ys = []" "filter (\<lambda>y. \<not> k y \<le> t) ys = ys" by (auto simp: filter_empty_conv)
    with False show ?thesis by simp
  qed (use Cons in auto)
qed simp

lemma filter_take_sorted:
  fixes k :: "'a \<Rightarrow> 'b :: linorder"
  assumes "sorted (map k ys)"
  shows "filter (\<lambda>y. k y \<le> t) (take n ys) = take n (filter (\<lambda>y. k y \<le> t) ys)"
proof -
  let ?a = "filter (\<lambda>y. k y \<le> t) ys" and ?b = "filter (\<lambda>y. \<not> k y \<le> t) ys"
  have "take n ys = take n ?a @ take (n - length ?a) ?b"
    using sorted_split [OF assms, of t] by (metis take_append)
  moreover have "filter (\<lambda>y. k y \<le> t) (take n ?a) = take n ?a"
    by (rule filter_True) (auto dest: in_set_takeD)
  moreover have "filter (\<lambda>y. k y \<le> t) (take (n - length ?a) ?b) = []"
    by (auto simp: filter_empty_conv dest: in_set_takeD)
  ultimately show ?thesis by simp
qed

subsection \<open>The backlog\<close>

definition backlog :: "instant \<Rightarrow> db \<Rightarrow> reminder list" where
  "backlog t d = filter (\<lambda>q. rStatus q = Pending \<and> rScheduledFor q \<le> t) (reminders d)"

definition joined :: "instant \<Rightarrow> db \<Rightarrow> SelectDueRemindersRow list" where
  "joined now d = concat (map (\<lambda>r. if rStatus r = Pending \<and> rScheduledFor r \<le> now then
      concat (map (\<lambda>u. if uID u = rUserID r then
        concat (map (\<lambda>c. if cID c = rConferenceID r then [due_row r u c] else []) (conferences d)) else []) (users d)) else [])
    (reminders d))"

lemma due_reminders_joined: "due_reminders now d = take dispatch_limit (sort_key drScheduledFor (joined (pg_ts now) d))"
  by (simp add: due_reminders_def joined_def)

lemma joined_backlog:
  assumes wf: "wf_db env d" and t: "t \<le> now"
  shows "map drID (filter (\<lambda>w. drScheduledFor w \<le> t) (joined now d)) = map rID (backlog t d)"
proof -
  have u: "distinct (map uID (users d))" and c: "distinct (map cID (conferences d))"
    and r: "\<forall>r \<in> set (reminders d). rUserID r \<in> uID ` set (users d) \<and> rConferenceID r \<in> cID ` set (conferences d)"
    using wf_dbD [OF wf] by (auto simp: users_ok_def conferences_ok_def reminders_ok_def id_lists)
  let ?h = "\<lambda>r. if rStatus r = Pending \<and> rScheduledFor r \<le> now then
      concat (map (\<lambda>u. if uID u = rUserID r then
        concat (map (\<lambda>c. if cID c = rConferenceID r then [due_row r u c] else []) (conferences d)) else []) (users d)) else []"
  have h: "\<exists>y. ?h q = (if rStatus q = Pending \<and> rScheduledFor q \<le> now then [y] else [])
      \<and> drID y = rID q \<and> drScheduledFor y = rScheduledFor q" if "q \<in> set (reminders d)" for q
  proof -
    have "find (\<lambda>u. uID u = rUserID q) (users d) \<noteq> None" "find (\<lambda>c. cID c = rConferenceID q) (conferences d) \<noteq> None"
      using r [rule_format, OF that] by (auto simp: find_None_iff image_iff)
    then obtain u0 c0 where "find (\<lambda>u. uID u = rUserID q) (users d) = Some u0"
        "find (\<lambda>c. cID c = rConferenceID q) (conferences d) = Some c0" by blast
    then show ?thesis unfolding join_on_key [OF u] join_on_key [OF c]
      by (intro exI [of _ "due_row q u0 c0"]) (simp add: due_row_def)
  qed
  have "map drID (filter (\<lambda>w. drScheduledFor w \<le> t) (concat (map ?h rs)))
      = map rID (filter (\<lambda>q. rStatus q = Pending \<and> rScheduledFor q \<le> t) rs)" if "set rs \<subseteq> set (reminders d)" for rs
    using that
  proof (induction rs)
    case (Cons q rs)
    obtain y where y: "?h q = (if rStatus q = Pending \<and> rScheduledFor q \<le> now then [y] else [])"
        "drID y = rID q" "drScheduledFor y = rScheduledFor q"
      using h [of q] Cons.prems by auto
    have "map drID (filter (\<lambda>w. drScheduledFor w \<le> t) (?h q)) = (if rStatus q = Pending \<and> rScheduledFor q \<le> t then [rID q] else [])"
      unfolding y(1) using y(2,3) t by auto
    with Cons show ?case by (simp del: if_split)
  qed simp
  then show ?thesis by (simp add: joined_def backlog_def)
qed

subsection \<open>One run\<close>

text \<open>A run on a connection that does not fail, at a time when what was due at \<open>t\<close> is due.\<close>

definition clean_run :: "sched_config \<Rightarrow> instant \<Rightarrow> db \<Rightarrow> db \<Rightarrow> bool" where
  "clean_run cfg t d d' \<longleftrightarrow> (\<exists>(c :: FakeMailer sched) r c'. c_com c = d \<and> c_tx c = None \<and> c_fault c = (\<lambda>_. None)
     \<and> t \<le> pg_ts (sch_clock c (sch_calls c)) \<and> dispatchReminders Fake_Send cfg c = (r, c') \<and> c_com c' = d')"

text \<open>Taking the first \<open>n\<close> of a list out of a rearrangement of it.\<close>

lemma length_without_front:
  assumes I: "distinct I" and J: "mset J = mset I" and S: "set (take n J) \<subseteq> S"
  shows "length (filter (\<lambda>i. i \<notin> S) I) \<le> length I - n"
proof -
  note J = mset_eq_setD [OF J] iffD2 [OF mset_eq_imp_distinct_iff [OF J] I] mset_eq_length [OF J]
  have sub: "set (take n J) \<subseteq> set I" using J(1) set_take_subset by metis
  have "length (filter (\<lambda>i. i \<notin> S) I) = card (set (filter (\<lambda>i. i \<notin> S) I))"
    using I distinct_card distinct_filter by metis
  also have "\<dots> \<le> card (set I - set (take n J))"
    using S by (intro card_mono) auto
  also have "\<dots> = length I - length (take n J)"
    using sub distinct_card [OF I] distinct_card [OF distinct_take [OF J(2)], of n]
    by (simp add: card_Diff_subset del: length_take)
  also have "\<dots> = length I - n" using J(3) by simp
  finally show ?thesis .
qed

lemma sent_at_leaves_backlog:
  "map rID (filter (\<lambda>q. rStatus q = Pending \<and> rScheduledFor q \<le> t) (map (\<lambda>q. if rID q \<in> S then sent_at w q else q) qs))
   = filter (\<lambda>i. i \<notin> S) (map rID (filter (\<lambda>q. rStatus q = Pending \<and> rScheduledFor q \<le> t) qs))"
  by (induction qs) (simp_all add: sent_at_def)

lemma clean_run_step:
  assumes "clean_run cfg t d d'" and wf: "wf_db env d"
  shows "wf_db env d'" and "length (backlog t d') \<le> length (backlog t d) - dispatch_limit"
    and "\<exists>S w. reminders d' = map (\<lambda>q. if rID q \<in> S then sent_at w q else q) (reminders d)"
proof -
  obtain c r c' where c: "c_com c = d" "c_tx c = None" "c_fault c = (\<lambda>_. None)"
    and now: "t \<le> pg_ts (sch_clock c (sch_calls c))"
    and run: "dispatchReminders Fake_Send cfg (c :: FakeMailer sched) = (r, c')" and d': "c_com c' = d'"
    using assms(1) unfolding clean_run_def by blast
  let ?now = "sch_clock c (sch_calls c)"
  let ?S = "set (map drID (due_reminders ?now d))"
  have rs: "reminders d' = map (\<lambda>q. if rID q \<in> ?S then sent_at (c_now c) q else q) (reminders d)"
    using clean_dispatch [OF c(3) run refl] c(1) d' by simp
  then show "\<exists>S w. reminders d' = map (\<lambda>q. if rID q \<in> S then sent_at w q else q) (reminders d)" by blast
  show "wf_db env d'"
    using evolvesD [OF wf_sched.keeps_dispatchReminders c(2) run] wf c(1) d' by (auto simp: wf_step_def)
  let ?I = "map rID (backlog t d)"
  let ?ws = "sort_key drScheduledFor (joined (pg_ts ?now) d)"
  let ?J = "map drID (filter (\<lambda>w. drScheduledFor w \<le> t) ?ws)"
  have I: "distinct ?I"
    using wf_dbD(8) [OF wf] by (auto simp: reminders_ok_def backlog_def distinct_map inj_on_def)
  have perm: "mset ?J = mset ?I"
    unfolding joined_backlog [OF wf now, symmetric] by simp
  have "set (take dispatch_limit ?J) \<subseteq> ?S"
    unfolding due_reminders_joined take_map filter_take_sorted [OF sorted_sort_key, symmetric]
    by (rule image_mono [of "set (filter P xs)" "set xs" for P xs, folded set_map]) simp
  note fewer = length_without_front [OF I perm this]
  have ids: "map rID (backlog t d') = filter (\<lambda>i. i \<notin> ?S) ?I"
    unfolding backlog_def rs by (rule sent_at_leaves_backlog)
  from fewer [folded ids] show "length (backlog t d') \<le> length (backlog t d) - dispatch_limit" by simp
qed

subsection \<open>Every run\<close>

lemma clean_runs:
  assumes "(clean_run cfg t ^^ n) d d'" and "wf_db env d"
  shows "wf_db env d' \<and> length (backlog t d') \<le> length (backlog t d) - n * dispatch_limit
    \<and> (\<forall>q \<in> set (reminders d). \<exists>q' \<in> set (reminders d'). rID q' = rID q \<and> rScheduledFor q' = rScheduledFor q
         \<and> rStatus q' \<in> {rStatus q, Sent})"
  using assms
proof (induction n arbitrary: d')
  case 0
  then show ?case by auto
next
  case (Suc n)
  then obtain d1 where 1: "(clean_run cfg t ^^ n) d d1" "clean_run cfg t d1 d'" by auto
  note IH = Suc.IH [OF 1(1) Suc.prems(2)]
  then have wf1: "wf_db env d1" by blast
  note step = clean_run_step [OF 1(2) wf1]
  obtain S w where rs: "reminders d' = map (\<lambda>q. if rID q \<in> S then sent_at w q else q) (reminders d1)"
    using step(3) by blast
  have "\<exists>q' \<in> set (reminders d'). rID q' = rID q \<and> rScheduledFor q' = rScheduledFor q \<and> rStatus q' \<in> {rStatus q, Sent}"
    if q: "q \<in> set (reminders d)" for q
  proof -
    obtain q1 where q1: "q1 \<in> set (reminders d1)" "rID q1 = rID q" "rScheduledFor q1 = rScheduledFor q"
        "rStatus q1 \<in> {rStatus q, Sent}"
      using bspec [OF conjunct2 [OF conjunct2 [OF IH]] q] by blast
    show ?thesis
    proof (cases "rID q1 \<in> S")
      case True
      then have "sent_at w q1 \<in> set (reminders d')" using q1(1) rs by force
      then show ?thesis by (rule bexI [rotated]) (use q1 in \<open>simp add: sent_at_def\<close>)
    next
      case False
      then have "q1 \<in> set (reminders d')" using q1(1) rs by force
      then show ?thesis by (rule bexI [rotated]) (use q1 in simp)
    qed
  qed
  moreover have "length (backlog t d') \<le> length (backlog t d) - Suc n * dispatch_limit"
    using step(2) conjunct1 [OF conjunct2 [OF IH]] by simp
  ultimately show ?case using step(1) by blast
qed

text \<open>
  C16: A reminder that is due does not wait for ever. Whatever else falls due meanwhile, of the
  reminders due at a time no more than those in excess of fifty for each run are still pending
  after as many runs without a failure; once the runs are enough, every one of them is recorded
  as sent.
\<close>

theorem due_reminders_get_sent:
  assumes "(clean_run cfg t ^^ n) d d'" and "wf_db env d"
    and "length (filter (\<lambda>q. rStatus q = Pending \<and> rScheduledFor q \<le> t) (reminders d)) \<le> 50 * n"
    and "q \<in> set (reminders d)" "rStatus q = Pending" "rScheduledFor q \<le> t"
  shows "\<exists>q' \<in> set (reminders d'). rID q' = rID q \<and> rStatus q' = Sent"
proof -
  note runs = clean_runs [OF assms(1,2)]
  then have "length (backlog t d') = 0"
    using assms(3) by (simp add: backlog_def dispatch_limit_def)
  then have none: "\<not> (rStatus q' = Pending \<and> rScheduledFor q' \<le> t)" if "q' \<in> set (reminders d')" for q'
    using that by (auto simp: backlog_def filter_empty_conv)
  obtain q' where "q' \<in> set (reminders d')" "rID q' = rID q" "rScheduledFor q' = rScheduledFor q"
      "rStatus q' \<in> {rStatus q, Sent}" using runs assms(4) by blast
  with none [OF this(1)] assms(5,6) show ?thesis by auto
qed

theorem due_reminders_get_sent_witness:
  "\<exists>d'. clean_run sample_config 1780000000000000000 (c_com (sample_sched \<lparr>fm_sent = []\<rparr>)) d'
    \<and> (\<exists>q' \<in> set (reminders d'). rID q' = 5 \<and> rStatus q' = Sent)"
proof -
  let ?c = "sample_sched \<lparr>fm_sent = []\<rparr>" and ?t = "1780000000000000000"
  obtain r c' where "dispatchReminders Fake_Send sample_config ?c = (r, c')" by (rule prod.exhaust)
  then have run: "clean_run sample_config ?t (c_com ?c) (c_com c')"
    unfolding clean_run_def
    by (intro exI [of _ ?c] exI [of _ r] exI [of _ c']) (simp add: sample_sched_def pg_ts_def)
  have rs: "reminders (c_com ?c) = [sample_reminder]" by (simp add: sample_sched_def)
  have "(clean_run sample_config ?t ^^ 1) (c_com ?c) (c_com c')" using run by (simp add: eq_OO)
  from due_reminders_get_sent [OF this sample_sched_wf, of sample_reminder] run rs show ?thesis
    by (auto simp: sample_reminder_def)
qed

end
