(* ===== verification/Generated_Router.thy ===== *)
theory Generated_Router
  imports Audit_Facts
begin

text \<open>
  The router that \<^verbatim>\<open>api/api.gen.go\<close> generates from the description of the API: the interface of the
  handlers, the stub that implements it, the wrappers that decode the parameters of each operation,
  the errors they report, and the table of routes. The program does not serve this router: \<^verbatim>\<open>NewRouter\<close>
  in \<^verbatim>\<open>http/server.go\<close> writes its own table, with middleware. The property at the end compares the
  two: every generated route is served, by the handler the generator means, behind the guard and
  the audit of the route, and nothing else is but the metrics and the sign-in.

  A route of the router library is a method, a pattern and a handler; which of them a path matches
  is the library's work. The list of scopes that a wrapper puts into the context is read by nobody
  and left out.
\<close>

subsection \<open>Handlers and their errors\<close>

record 's ServerInterface =
  if_ListAuditLog :: "audit_query \<Rightarrow> 's handler"
  if_ListConferences :: "list_query \<Rightarrow> 's handler"
  if_CreateConference :: "'s handler"
  if_DeleteConference :: "uuid \<Rightarrow> 's handler"
  if_GetConference :: "uuid \<Rightarrow> 's handler"
  if_UpdateConference :: "uuid \<Rightarrow> 's handler"
  if_ArchiveConference :: "uuid \<Rightarrow> 's handler"
  if_UnstarConference :: "uuid \<Rightarrow> 's handler"
  if_StarConference :: "uuid \<Rightarrow> 's handler"
  if_UnarchiveConference :: "uuid \<Rightarrow> 's handler"
  if_ImportConferences :: "'s handler"
  if_GetMe :: "'s handler"
  if_DeleteCalendarToken :: "'s handler"
  if_ListMyCalendarTokens :: "'s handler"
  if_CreateCalendarToken :: "'s handler"
  if_GetMySettings :: "'s handler"
  if_UpdateMySettings :: "'s handler"
  if_ListMyStars :: "'s handler"
  if_ListTags :: "'s handler"
  if_ListTracks :: "'s handler"
  if_GetPublicCalendar :: "string option \<Rightarrow> 's handler"
  if_GetPersonalCalendar :: "string \<Rightarrow> string option \<Rightarrow> 's handler"
  if_GetHealth :: "'s handler"

text \<open>The stub, which the program does not use either.\<close>

definition not_implemented :: "'s handler" where
  "not_implemented = writes (no_content 501)"

definition Unimplemented :: "'s ServerInterface" where
  "Unimplemented = \<lparr>
     if_ListAuditLog = (\<lambda>_. not_implemented),
     if_ListConferences = (\<lambda>_. not_implemented),
     if_CreateConference = not_implemented,
     if_DeleteConference = (\<lambda>_. not_implemented),
     if_GetConference = (\<lambda>_. not_implemented),
     if_UpdateConference = (\<lambda>_. not_implemented),
     if_ArchiveConference = (\<lambda>_. not_implemented),
     if_UnstarConference = (\<lambda>_. not_implemented),
     if_StarConference = (\<lambda>_. not_implemented),
     if_UnarchiveConference = (\<lambda>_. not_implemented),
     if_ImportConferences = not_implemented,
     if_GetMe = not_implemented,
     if_DeleteCalendarToken = not_implemented,
     if_ListMyCalendarTokens = not_implemented,
     if_CreateCalendarToken = not_implemented,
     if_GetMySettings = not_implemented,
     if_UpdateMySettings = not_implemented,
     if_ListMyStars = not_implemented,
     if_ListTags = not_implemented,
     if_ListTracks = not_implemented,
     if_GetPublicCalendar = (\<lambda>_. not_implemented),
     if_GetPersonalCalendar = (\<lambda>_ _. not_implemented),
     if_GetHealth = not_implemented\<rparr>"

text \<open>Why a parameter is refused; an underlying error is its text.\<close>

datatype param_error =
    UnescapedCookieParamError string string
  | UnmarshalingParamError string string
  | RequiredParamError string
  | RequiredHeaderError string string
  | InvalidParamFormatError string string
  | TooManyValuesForParamError string nat

fun param_Error :: "param_error \<Rightarrow> string" where
  "param_Error (UnescapedCookieParamError name e) =
     ''error unescaping cookie parameter '' @ [CHR 0x27] @ name @ [CHR 0x27]"
| "param_Error (UnmarshalingParamError name e) = ''Error unmarshaling parameter '' @ name @ '' as JSON: '' @ e"
| "param_Error (RequiredParamError name) = ''Query argument '' @ name @ '' is required, but not found''"
| "param_Error (RequiredHeaderError name e) = ''Header parameter '' @ name @ '' is required, but not found''"
| "param_Error (InvalidParamFormatError name e) = ''Invalid format for parameter '' @ name @ '': '' @ e"
| "param_Error (TooManyValuesForParamError name n) = ''Expected one value for '' @ name @ '', got '' @ Itoa (int n)"

fun param_Unwrap :: "param_error \<Rightarrow> string option" where
  "param_Unwrap (UnescapedCookieParamError name e) = Some e"
| "param_Unwrap (UnmarshalingParamError name e) = Some e"
| "param_Unwrap (RequiredParamError name) = None"
| "param_Unwrap (RequiredHeaderError name e) = Some e"
| "param_Unwrap (InvalidParamFormatError name e) = Some e"
| "param_Unwrap (TooManyValuesForParamError name n) = None"

subsection \<open>The wrappers\<close>

type_synonym 's middleware = "'s handler \<Rightarrow> 's handler"

record 's ServerInterfaceWrapper =
  wrHandler :: "'s ServerInterface"
  wrHandlerMiddlewares :: "'s middleware list"
  wrErrorHandlerFunc :: "param_error \<Rightarrow> 's handler"

text \<open>The last middleware of the list becomes the outermost.\<close>

definition through_middlewares :: "'s ServerInterfaceWrapper \<Rightarrow> 's handler \<Rightarrow> 's handler" where
  "through_middlewares siw h = foldl (\<lambda>handler middleware. middleware handler) h (wrHandlerMiddlewares siw)"

definition query_param ::
  "'s ServerInterfaceWrapper \<Rightarrow> (request \<Rightarrow> string \<Rightarrow> bind_error + 'a) \<Rightarrow> string
   \<Rightarrow> ('a \<Rightarrow> 's handler) \<Rightarrow> 's handler" where
  "query_param siw get name k r s =
     (case get r name of
        Inl RequiredParameterError \<Rightarrow> wrErrorHandlerFunc siw (RequiredParamError name) r s
      | Inl (BindError e) \<Rightarrow> wrErrorHandlerFunc siw (InvalidParamFormatError name e) r s
      | Inr v \<Rightarrow> k v r s)"

definition path_param ::
  "'s ServerInterfaceWrapper \<Rightarrow> (request \<Rightarrow> string \<Rightarrow> string + 'a) \<Rightarrow> string
   \<Rightarrow> ('a \<Rightarrow> 's handler) \<Rightarrow> 's handler" where
  "path_param siw get name k r s =
     (case get r name of
        Inl e \<Rightarrow> wrErrorHandlerFunc siw (InvalidParamFormatError name e) r s
      | Inr v \<Rightarrow> k v r s)"

definition IfNoneMatch_param ::
  "'s ServerInterfaceWrapper \<Rightarrow> (string \<Rightarrow> string + string) \<Rightarrow> (string option \<Rightarrow> 's handler) \<Rightarrow> 's handler" where
  "IfNoneMatch_param siw get k r s =
     (case qIfNoneMatch r of
        [] \<Rightarrow> k None r s
      | [v] \<Rightarrow>
          (case get v of
             Inl e \<Rightarrow> wrErrorHandlerFunc siw (InvalidParamFormatError ''If-None-Match'' e) r s
           | Inr x \<Rightarrow> k (Some x) r s)
      | vs \<Rightarrow> wrErrorHandlerFunc siw (TooManyValuesForParamError ''If-None-Match'' (length vs)) r s)"

definition Wrapper_ListAuditLog :: "server \<Rightarrow> 's ServerInterfaceWrapper \<Rightarrow> 's handler" where
  "Wrapper_ListAuditLog sv siw =
     query_param siw (sv_query_string sv) ''entity_type'' (\<lambda>entityType.
     query_param siw (sv_query_uuid sv) ''entity_id'' (\<lambda>entityId.
     query_param siw (sv_query_string sv) ''actor'' (\<lambda>actor.
     query_param siw (sv_query_int sv) ''limit'' (\<lambda>limit.
     query_param siw (sv_query_time sv) ''before'' (\<lambda>before.
     through_middlewares siw (if_ListAuditLog (wrHandler siw)
     \<lparr>aqEntityType = entityType, aqEntityId = entityId, aqActor = actor, aqLimit = limit, aqBefore = before\<rparr>))))))"

definition Wrapper_ListConferences :: "server \<Rightarrow> 's ServerInterfaceWrapper \<Rightarrow> 's handler" where
  "Wrapper_ListConferences sv siw =
     query_param siw (sv_query_bool sv) ''archived'' (\<lambda>archived.
     query_param siw (sv_query_string sv) ''tag'' (\<lambda>tag.
     query_param siw (sv_query_string sv) ''track'' (\<lambda>track.
     query_param siw (sv_query_string sv) ''q'' (\<lambda>q.
     through_middlewares siw (if_ListConferences (wrHandler siw)
     \<lparr>lqArchived = archived, lqTag = tag, lqTrack = track, lqQ = q\<rparr>)))))"

definition Wrapper_CreateConference :: "server \<Rightarrow> 's ServerInterfaceWrapper \<Rightarrow> 's handler" where
  "Wrapper_CreateConference sv siw =
     through_middlewares siw (if_CreateConference (wrHandler siw))"

definition Wrapper_DeleteConference :: "server \<Rightarrow> 's ServerInterfaceWrapper \<Rightarrow> 's handler" where
  "Wrapper_DeleteConference sv siw =
     path_param siw (sv_path_uuid sv) ''id'' (\<lambda>i. through_middlewares siw (if_DeleteConference (wrHandler siw) i))"

definition Wrapper_GetConference :: "server \<Rightarrow> 's ServerInterfaceWrapper \<Rightarrow> 's handler" where
  "Wrapper_GetConference sv siw =
     path_param siw (sv_path_uuid sv) ''id'' (\<lambda>i. through_middlewares siw (if_GetConference (wrHandler siw) i))"

definition Wrapper_UpdateConference :: "server \<Rightarrow> 's ServerInterfaceWrapper \<Rightarrow> 's handler" where
  "Wrapper_UpdateConference sv siw =
     path_param siw (sv_path_uuid sv) ''id'' (\<lambda>i. through_middlewares siw (if_UpdateConference (wrHandler siw) i))"

definition Wrapper_ArchiveConference :: "server \<Rightarrow> 's ServerInterfaceWrapper \<Rightarrow> 's handler" where
  "Wrapper_ArchiveConference sv siw =
     path_param siw (sv_path_uuid sv) ''id'' (\<lambda>i. through_middlewares siw (if_ArchiveConference (wrHandler siw) i))"

definition Wrapper_UnstarConference :: "server \<Rightarrow> 's ServerInterfaceWrapper \<Rightarrow> 's handler" where
  "Wrapper_UnstarConference sv siw =
     path_param siw (sv_path_uuid sv) ''id'' (\<lambda>i. through_middlewares siw (if_UnstarConference (wrHandler siw) i))"

definition Wrapper_StarConference :: "server \<Rightarrow> 's ServerInterfaceWrapper \<Rightarrow> 's handler" where
  "Wrapper_StarConference sv siw =
     path_param siw (sv_path_uuid sv) ''id'' (\<lambda>i. through_middlewares siw (if_StarConference (wrHandler siw) i))"

definition Wrapper_UnarchiveConference :: "server \<Rightarrow> 's ServerInterfaceWrapper \<Rightarrow> 's handler" where
  "Wrapper_UnarchiveConference sv siw =
     path_param siw (sv_path_uuid sv) ''id'' (\<lambda>i. through_middlewares siw (if_UnarchiveConference (wrHandler siw) i))"

definition Wrapper_ImportConferences :: "server \<Rightarrow> 's ServerInterfaceWrapper \<Rightarrow> 's handler" where
  "Wrapper_ImportConferences sv siw =
     through_middlewares siw (if_ImportConferences (wrHandler siw))"

definition Wrapper_GetMe :: "server \<Rightarrow> 's ServerInterfaceWrapper \<Rightarrow> 's handler" where
  "Wrapper_GetMe sv siw =
     through_middlewares siw (if_GetMe (wrHandler siw))"

definition Wrapper_DeleteCalendarToken :: "server \<Rightarrow> 's ServerInterfaceWrapper \<Rightarrow> 's handler" where
  "Wrapper_DeleteCalendarToken sv siw =
     through_middlewares siw (if_DeleteCalendarToken (wrHandler siw))"

definition Wrapper_ListMyCalendarTokens :: "server \<Rightarrow> 's ServerInterfaceWrapper \<Rightarrow> 's handler" where
  "Wrapper_ListMyCalendarTokens sv siw =
     through_middlewares siw (if_ListMyCalendarTokens (wrHandler siw))"

definition Wrapper_CreateCalendarToken :: "server \<Rightarrow> 's ServerInterfaceWrapper \<Rightarrow> 's handler" where
  "Wrapper_CreateCalendarToken sv siw =
     through_middlewares siw (if_CreateCalendarToken (wrHandler siw))"

definition Wrapper_GetMySettings :: "server \<Rightarrow> 's ServerInterfaceWrapper \<Rightarrow> 's handler" where
  "Wrapper_GetMySettings sv siw =
     through_middlewares siw (if_GetMySettings (wrHandler siw))"

definition Wrapper_UpdateMySettings :: "server \<Rightarrow> 's ServerInterfaceWrapper \<Rightarrow> 's handler" where
  "Wrapper_UpdateMySettings sv siw =
     through_middlewares siw (if_UpdateMySettings (wrHandler siw))"

definition Wrapper_ListMyStars :: "server \<Rightarrow> 's ServerInterfaceWrapper \<Rightarrow> 's handler" where
  "Wrapper_ListMyStars sv siw =
     through_middlewares siw (if_ListMyStars (wrHandler siw))"

definition Wrapper_ListTags :: "server \<Rightarrow> 's ServerInterfaceWrapper \<Rightarrow> 's handler" where
  "Wrapper_ListTags sv siw =
     through_middlewares siw (if_ListTags (wrHandler siw))"

definition Wrapper_ListTracks :: "server \<Rightarrow> 's ServerInterfaceWrapper \<Rightarrow> 's handler" where
  "Wrapper_ListTracks sv siw =
     through_middlewares siw (if_ListTracks (wrHandler siw))"

definition Wrapper_GetPublicCalendar :: "server \<Rightarrow> 's ServerInterfaceWrapper \<Rightarrow> 's handler" where
  "Wrapper_GetPublicCalendar sv siw =
     IfNoneMatch_param siw (sv_header_string sv) (\<lambda>e. through_middlewares siw (if_GetPublicCalendar (wrHandler siw) e))"

definition Wrapper_GetPersonalCalendar :: "server \<Rightarrow> 's ServerInterfaceWrapper \<Rightarrow> 's handler" where
  "Wrapper_GetPersonalCalendar sv siw =
     path_param siw (sv_path_string sv) ''token'' (\<lambda>token.
     IfNoneMatch_param siw (sv_header_string sv) (\<lambda>e. through_middlewares siw (if_GetPersonalCalendar (wrHandler siw) token e)))"

definition Wrapper_GetHealth :: "server \<Rightarrow> 's ServerInterfaceWrapper \<Rightarrow> 's handler" where
  "Wrapper_GetHealth sv siw =
     through_middlewares siw (if_GetHealth (wrHandler siw))"

lemmas wrapper_defs = Wrapper_ListAuditLog_def Wrapper_ListConferences_def Wrapper_CreateConference_def Wrapper_DeleteConference_def Wrapper_GetConference_def Wrapper_UpdateConference_def Wrapper_ArchiveConference_def Wrapper_UnstarConference_def Wrapper_StarConference_def Wrapper_UnarchiveConference_def Wrapper_ImportConferences_def Wrapper_GetMe_def Wrapper_DeleteCalendarToken_def Wrapper_ListMyCalendarTokens_def Wrapper_CreateCalendarToken_def Wrapper_GetMySettings_def Wrapper_UpdateMySettings_def Wrapper_ListMyStars_def Wrapper_ListTags_def Wrapper_ListTracks_def Wrapper_GetPublicCalendar_def Wrapper_GetPersonalCalendar_def Wrapper_GetHealth_def

lemmas param_defs = query_param_def path_param_def IfNoneMatch_param_def

subsection \<open>The table of routes\<close>

datatype http_method = GET | POST | PUT | DELETE

type_synonym 's mux = "((http_method \<times> string) \<times> 's handler) list"

record 's ChiServerOptions =
  opBaseURL :: string
  opBaseRouter :: "'s mux option"
  opMiddlewares :: "'s middleware list"
  opErrorHandlerFunc :: "(param_error \<Rightarrow> 's handler) option"

definition default_ErrorHandlerFunc :: "param_error \<Rightarrow> 's handler" where
  "default_ErrorHandlerFunc e = writes (http_Error (param_Error e) 400)"

definition HandlerWithOptions :: "server \<Rightarrow> 's ServerInterface \<Rightarrow> 's ChiServerOptions \<Rightarrow> 's mux" where
  "HandlerWithOptions sv si options =
     (let base = (case opBaseRouter options of None \<Rightarrow> [] | Some r \<Rightarrow> r);
          onError = (case opErrorHandlerFunc options of None \<Rightarrow> default_ErrorHandlerFunc | Some f \<Rightarrow> f);
          siw = \<lparr>wrHandler = si, wrHandlerMiddlewares = opMiddlewares options, wrErrorHandlerFunc = onError\<rparr>;
          url = (\<lambda>path. opBaseURL options @ path)
      in base @
       [((GET, url ''/api/v1/audit-log''), Wrapper_ListAuditLog sv siw),
        ((GET, url ''/api/v1/conferences''), Wrapper_ListConferences sv siw),
        ((POST, url ''/api/v1/conferences''), Wrapper_CreateConference sv siw),
        ((DELETE, url ''/api/v1/conferences/{id}''), Wrapper_DeleteConference sv siw),
        ((GET, url ''/api/v1/conferences/{id}''), Wrapper_GetConference sv siw),
        ((PUT, url ''/api/v1/conferences/{id}''), Wrapper_UpdateConference sv siw),
        ((POST, url ''/api/v1/conferences/{id}/archive''), Wrapper_ArchiveConference sv siw),
        ((DELETE, url ''/api/v1/conferences/{id}/stars''), Wrapper_UnstarConference sv siw),
        ((POST, url ''/api/v1/conferences/{id}/stars''), Wrapper_StarConference sv siw),
        ((POST, url ''/api/v1/conferences/{id}/unarchive''), Wrapper_UnarchiveConference sv siw),
        ((POST, url ''/api/v1/import''), Wrapper_ImportConferences sv siw),
        ((GET, url ''/api/v1/me''), Wrapper_GetMe sv siw),
        ((DELETE, url ''/api/v1/me/calendar-tokens''), Wrapper_DeleteCalendarToken sv siw),
        ((GET, url ''/api/v1/me/calendar-tokens''), Wrapper_ListMyCalendarTokens sv siw),
        ((POST, url ''/api/v1/me/calendar-tokens''), Wrapper_CreateCalendarToken sv siw),
        ((GET, url ''/api/v1/me/settings''), Wrapper_GetMySettings sv siw),
        ((PUT, url ''/api/v1/me/settings''), Wrapper_UpdateMySettings sv siw),
        ((GET, url ''/api/v1/me/stars''), Wrapper_ListMyStars sv siw),
        ((GET, url ''/api/v1/tags''), Wrapper_ListTags sv siw),
        ((GET, url ''/api/v1/tracks''), Wrapper_ListTracks sv siw),
        ((GET, url ''/calendar/all.ics''), Wrapper_GetPublicCalendar sv siw),
        ((GET, url ''/calendar/u/{token}.ics''), Wrapper_GetPersonalCalendar sv siw),
        ((GET, url ''/healthz''), Wrapper_GetHealth sv siw)])"

definition no_options :: "'s ChiServerOptions" where
  "no_options = \<lparr>opBaseURL = [], opBaseRouter = None, opMiddlewares = [], opErrorHandlerFunc = None\<rparr>"

definition Handler :: "server \<Rightarrow> 's ServerInterface \<Rightarrow> 's mux" where
  "Handler sv si = HandlerWithOptions sv si no_options"

definition HandlerFromMux :: "server \<Rightarrow> 's ServerInterface \<Rightarrow> 's mux \<Rightarrow> 's mux" where
  "HandlerFromMux sv si r = HandlerWithOptions sv si (no_options\<lparr>opBaseRouter := Some r\<rparr>)"

definition HandlerFromMuxWithBaseURL :: "server \<Rightarrow> 's ServerInterface \<Rightarrow> 's mux \<Rightarrow> string \<Rightarrow> 's mux" where
  "HandlerFromMuxWithBaseURL sv si r baseURL =
     HandlerWithOptions sv si (no_options\<lparr>opBaseURL := baseURL, opBaseRouter := Some r\<rparr>)"

text \<open>Without options there is no middleware.\<close>

definition plain :: "'s ServerInterface \<Rightarrow> 's ServerInterfaceWrapper" where
  "plain si = \<lparr>wrHandler = si, wrHandlerMiddlewares = [], wrErrorHandlerFunc = default_ErrorHandlerFunc\<rparr>"

lemma Handler_table:
  "Handler sv si =
     [((GET, ''/api/v1/audit-log''), Wrapper_ListAuditLog sv (plain si)),
      ((GET, ''/api/v1/conferences''), Wrapper_ListConferences sv (plain si)),
      ((POST, ''/api/v1/conferences''), Wrapper_CreateConference sv (plain si)),
      ((DELETE, ''/api/v1/conferences/{id}''), Wrapper_DeleteConference sv (plain si)),
      ((GET, ''/api/v1/conferences/{id}''), Wrapper_GetConference sv (plain si)),
      ((PUT, ''/api/v1/conferences/{id}''), Wrapper_UpdateConference sv (plain si)),
      ((POST, ''/api/v1/conferences/{id}/archive''), Wrapper_ArchiveConference sv (plain si)),
      ((DELETE, ''/api/v1/conferences/{id}/stars''), Wrapper_UnstarConference sv (plain si)),
      ((POST, ''/api/v1/conferences/{id}/stars''), Wrapper_StarConference sv (plain si)),
      ((POST, ''/api/v1/conferences/{id}/unarchive''), Wrapper_UnarchiveConference sv (plain si)),
      ((POST, ''/api/v1/import''), Wrapper_ImportConferences sv (plain si)),
      ((GET, ''/api/v1/me''), Wrapper_GetMe sv (plain si)),
      ((DELETE, ''/api/v1/me/calendar-tokens''), Wrapper_DeleteCalendarToken sv (plain si)),
      ((GET, ''/api/v1/me/calendar-tokens''), Wrapper_ListMyCalendarTokens sv (plain si)),
      ((POST, ''/api/v1/me/calendar-tokens''), Wrapper_CreateCalendarToken sv (plain si)),
      ((GET, ''/api/v1/me/settings''), Wrapper_GetMySettings sv (plain si)),
      ((PUT, ''/api/v1/me/settings''), Wrapper_UpdateMySettings sv (plain si)),
      ((GET, ''/api/v1/me/stars''), Wrapper_ListMyStars sv (plain si)),
      ((GET, ''/api/v1/tags''), Wrapper_ListTags sv (plain si)),
      ((GET, ''/api/v1/tracks''), Wrapper_ListTracks sv (plain si)),
      ((GET, ''/calendar/all.ics''), Wrapper_GetPublicCalendar sv (plain si)),
      ((GET, ''/calendar/u/{token}.ics''), Wrapper_GetPersonalCalendar sv (plain si)),
      ((GET, ''/healthz''), Wrapper_GetHealth sv (plain si))]"
  by (simp add: Handler_def HandlerWithOptions_def no_options_def plain_def Let_def)

lemma plain_simps [simp]:
  "wrHandler (plain si) = si" "wrErrorHandlerFunc (plain si) = default_ErrorHandlerFunc"
  "through_middlewares (plain si) h = h"
  by (simp_all add: plain_def through_middlewares_def)

text \<open>The stub answers every request that reaches it with 501.\<close>

definition answers_501 :: "'s handler \<Rightarrow> bool" where
  "answers_501 h \<longleftrightarrow> (\<forall>r s. fst (fst (h r s)) = no_content 501 \<or> rpStatus (fst (fst (h r s))) = 400)"

lemma answers_501_intros:
  "answers_501 not_implemented"
  "(\<And>v. answers_501 (k v)) \<Longrightarrow> answers_501 (query_param (plain si) get name k)"
  "(\<And>v. answers_501 (k' v)) \<Longrightarrow> answers_501 (path_param (plain si) get' name k')"
  "(\<And>v. answers_501 (k'' v)) \<Longrightarrow> answers_501 (IfNoneMatch_param (plain si) get'' k'')"
  by (auto simp: answers_501_def not_implemented_def writes_def param_defs default_ErrorHandlerFunc_def
      split: sum.split bind_error.split list.split)

lemma unimplemented_answers: "list_all (answers_501 \<circ> snd) (Handler sv Unimplemented)"
  unfolding Handler_table wrapper_defs plain_simps list.pred_inject comp_def snd_conv
  by (intro conjI TrueI answers_501_intros; simp add: Unimplemented_def answers_501_intros)

subsection \<open>The strict handlers\<close>

text \<open>The interface the program implements, one typed response per operation, and the handler made of it.\<close>

record 's StrictServerInterface =
  ss_ListAuditLog :: "audit_query \<Rightarrow> request \<Rightarrow> (ListAuditLogResponseObject, 's) answer"
  ss_ListConferences :: "list_query \<Rightarrow> request \<Rightarrow> (ListConferencesResponseObject, 's) answer"
  ss_CreateConference :: "ConferenceInput \<Rightarrow> request \<Rightarrow> (CreateConferenceResponseObject, 's) answer"
  ss_DeleteConference :: "uuid \<Rightarrow> request \<Rightarrow> (DeleteConferenceResponseObject, 's) answer"
  ss_GetConference :: "uuid \<Rightarrow> request \<Rightarrow> (GetConferenceResponseObject, 's) answer"
  ss_UpdateConference :: "uuid \<Rightarrow> ConferenceInput \<Rightarrow> request \<Rightarrow> (UpdateConferenceResponseObject, 's) answer"
  ss_ArchiveConference :: "uuid \<Rightarrow> request \<Rightarrow> (ArchiveConferenceResponseObject, 's) answer"
  ss_UnstarConference :: "uuid \<Rightarrow> request \<Rightarrow> (UnstarConferenceResponseObject, 's) answer"
  ss_StarConference :: "uuid \<Rightarrow> request \<Rightarrow> (StarConferenceResponseObject, 's) answer"
  ss_UnarchiveConference :: "uuid \<Rightarrow> request \<Rightarrow> (UnarchiveConferenceResponseObject, 's) answer"
  ss_ImportConferences :: "request \<Rightarrow> (ImportConferencesResponseObject, 's) answer"
  ss_GetMe :: "request \<Rightarrow> (GetMeResponseObject, 's) answer"
  ss_DeleteCalendarToken :: "request \<Rightarrow> (DeleteCalendarTokenResponseObject, 's) answer"
  ss_ListMyCalendarTokens :: "request \<Rightarrow> (ListMyCalendarTokensResponseObject, 's) answer"
  ss_CreateCalendarToken :: "request \<Rightarrow> (CreateCalendarTokenResponseObject, 's) answer"
  ss_GetMySettings :: "request \<Rightarrow> (GetMySettingsResponseObject, 's) answer"
  ss_UpdateMySettings :: "UserSettingsInput \<Rightarrow> request \<Rightarrow> (UpdateMySettingsResponseObject, 's) answer"
  ss_ListMyStars :: "request \<Rightarrow> (ListMyStarsResponseObject, 's) answer"
  ss_ListTags :: "request \<Rightarrow> (ListTagsResponseObject, 's) answer"
  ss_ListTracks :: "request \<Rightarrow> (ListTracksResponseObject, 's) answer"
  ss_GetPublicCalendar :: "string option \<Rightarrow> request \<Rightarrow> (GetPublicCalendarResponseObject, 's) answer"
  ss_GetPersonalCalendar :: "string \<Rightarrow> string option \<Rightarrow> request \<Rightarrow> (GetPersonalCalendarResponseObject, 's) answer"
  ss_GetHealth :: "request \<Rightarrow> (GetHealthResponseObject, 's) answer"

definition NewStrictHandler :: "server \<Rightarrow> 'm conn_scheme StrictServerInterface \<Rightarrow> 'm conn_scheme ServerInterface" where
  "NewStrictHandler sv ssi = \<lparr>
     if_ListAuditLog = (\<lambda>q r. respond sv VisitListAuditLogResponse (ss_ListAuditLog ssi q r) r),
     if_ListConferences = (\<lambda>q r. respond sv VisitListConferencesResponse (ss_ListConferences ssi q r) r),
     if_CreateConference = json_body (sv_decode_conference sv) (\<lambda>body r. respond sv VisitCreateConferenceResponse (ss_CreateConference ssi body r) r),
     if_DeleteConference = (\<lambda>i r. respond sv VisitDeleteConferenceResponse (ss_DeleteConference ssi i r) r),
     if_GetConference = (\<lambda>i r. respond sv VisitGetConferenceResponse (ss_GetConference ssi i r) r),
     if_UpdateConference = (\<lambda>i. json_body (sv_decode_conference sv) (\<lambda>body r. respond sv VisitUpdateConferenceResponse (ss_UpdateConference ssi i body r) r)),
     if_ArchiveConference = (\<lambda>i r. respond sv VisitArchiveConferenceResponse (ss_ArchiveConference ssi i r) r),
     if_UnstarConference = (\<lambda>i r. respond sv VisitUnstarConferenceResponse (ss_UnstarConference ssi i r) r),
     if_StarConference = (\<lambda>i r. respond sv VisitStarConferenceResponse (ss_StarConference ssi i r) r),
     if_UnarchiveConference = (\<lambda>i r. respond sv VisitUnarchiveConferenceResponse (ss_UnarchiveConference ssi i r) r),
     if_ImportConferences = (\<lambda>r. respond sv VisitImportConferencesResponse (ss_ImportConferences ssi r) r),
     if_GetMe = (\<lambda>r. respond sv VisitGetMeResponse (ss_GetMe ssi r) r),
     if_DeleteCalendarToken = (\<lambda>r. respond sv VisitDeleteCalendarTokenResponse (ss_DeleteCalendarToken ssi r) r),
     if_ListMyCalendarTokens = (\<lambda>r. respond sv VisitListMyCalendarTokensResponse (ss_ListMyCalendarTokens ssi r) r),
     if_CreateCalendarToken = (\<lambda>r. respond sv VisitCreateCalendarTokenResponse (ss_CreateCalendarToken ssi r) r),
     if_GetMySettings = (\<lambda>r. respond sv VisitGetMySettingsResponse (ss_GetMySettings ssi r) r),
     if_UpdateMySettings = json_body (sv_decode_settings sv) (\<lambda>body r. respond sv VisitUpdateMySettingsResponse (ss_UpdateMySettings ssi body r) r),
     if_ListMyStars = (\<lambda>r. respond sv VisitListMyStarsResponse (ss_ListMyStars ssi r) r),
     if_ListTags = (\<lambda>r. respond sv VisitListTagsResponse (ss_ListTags ssi r) r),
     if_ListTracks = (\<lambda>r. respond sv VisitListTracksResponse (ss_ListTracks ssi r) r),
     if_GetPublicCalendar = (\<lambda>e r. respond sv VisitGetPublicCalendarResponse (ss_GetPublicCalendar ssi e r) r),
     if_GetPersonalCalendar = (\<lambda>token e r. respond sv VisitGetPersonalCalendarResponse (ss_GetPersonalCalendar ssi token e r) r),
     if_GetHealth = (\<lambda>r. respond sv VisitGetHealthResponse (ss_GetHealth ssi r) r)\<rparr>"

text \<open>The server as an implementation of the interface.\<close>

definition the_Server :: "server \<Rightarrow> 'm conn_scheme StrictServerInterface" where
  "the_Server sv = \<lparr>
     ss_ListAuditLog = (\<lambda>q r. (Server_ListAuditLog q)),
     ss_ListConferences = (\<lambda>q r. (Server_ListConferences (sv_env sv) q)),
     ss_CreateConference = (\<lambda>body r. (Server_CreateConference (sv_env sv) r body)),
     ss_DeleteConference = (\<lambda>i r. (Server_DeleteConference i)),
     ss_GetConference = (\<lambda>i r. (Server_GetConference (sv_env sv) i)),
     ss_UpdateConference = (\<lambda>i body r. (Server_UpdateConference (sv_env sv) r i body)),
     ss_ArchiveConference = (\<lambda>i r. (Server_ArchiveConference (sv_env sv) i)),
     ss_UnstarConference = (\<lambda>i r. (Server_UnstarConference (sv_env sv) r i)),
     ss_StarConference = (\<lambda>i r. (Server_StarConference (sv_env sv) r i)),
     ss_UnarchiveConference = (\<lambda>i r. (Server_UnarchiveConference (sv_env sv) i)),
     ss_ImportConferences = (\<lambda>r. (Server_ImportConferences (sv_env sv) (sv_decode_yaml sv) r)),
     ss_GetMe = (\<lambda>r. (Server_GetMe (sv_env sv) r)),
     ss_DeleteCalendarToken = (\<lambda>r. (Server_DeleteCalendarToken (sv_env sv) r)),
     ss_ListMyCalendarTokens = (\<lambda>r. (Server_ListMyCalendarTokens (sv_env sv) (sv_publicBaseURL sv) r)),
     ss_CreateCalendarToken = (\<lambda>r. (Server_CreateCalendarToken (sv_env sv) (sv_publicBaseURL sv) (sv_random_token sv) r)),
     ss_GetMySettings = (\<lambda>r. (Server_GetMySettings (sv_env sv) r)),
     ss_UpdateMySettings = (\<lambda>body r. (Server_UpdateMySettings (sv_env sv) r body)),
     ss_ListMyStars = (\<lambda>r. (Server_ListMyStars (sv_env sv) r)),
     ss_ListTags = (\<lambda>r. (Server_ListTags (sv_env sv))),
     ss_ListTracks = (\<lambda>r. (Server_ListTracks (sv_env sv))),
     ss_GetPublicCalendar = (\<lambda>e r. (Server_GetPublicCalendar (sv_env sv) e)),
     ss_GetPersonalCalendar = (\<lambda>token e r. (Server_GetPersonalCalendar (sv_env sv) token e)),
     ss_GetHealth = (\<lambda>r. Server_GetHealth)\<rparr>"

lemmas strict_defs = strict_ListAuditLog_def strict_ListConferences_def strict_CreateConference_def strict_DeleteConference_def strict_GetConference_def strict_UpdateConference_def strict_ArchiveConference_def strict_UnstarConference_def strict_StarConference_def strict_UnarchiveConference_def strict_ImportConferences_def strict_GetMe_def strict_DeleteCalendarToken_def strict_ListMyCalendarTokens_def strict_CreateCalendarToken_def strict_GetMySettings_def strict_UpdateMySettings_def strict_ListMyStars_def strict_ListTags_def strict_ListTracks_def strict_GetPublicCalendar_def strict_GetPersonalCalendar_def strict_GetHealth_def

lemma strict_of_Router:
  "if_ListAuditLog (NewStrictHandler sv (the_Server sv)) = strict_ListAuditLog sv"
  "if_ListConferences (NewStrictHandler sv (the_Server sv)) = strict_ListConferences sv"
  "if_CreateConference (NewStrictHandler sv (the_Server sv)) = strict_CreateConference sv"
  "if_DeleteConference (NewStrictHandler sv (the_Server sv)) = strict_DeleteConference sv"
  "if_GetConference (NewStrictHandler sv (the_Server sv)) = strict_GetConference sv"
  "if_UpdateConference (NewStrictHandler sv (the_Server sv)) = strict_UpdateConference sv"
  "if_ArchiveConference (NewStrictHandler sv (the_Server sv)) = strict_ArchiveConference sv"
  "if_UnstarConference (NewStrictHandler sv (the_Server sv)) = strict_UnstarConference sv"
  "if_StarConference (NewStrictHandler sv (the_Server sv)) = strict_StarConference sv"
  "if_UnarchiveConference (NewStrictHandler sv (the_Server sv)) = strict_UnarchiveConference sv"
  "if_ImportConferences (NewStrictHandler sv (the_Server sv)) = strict_ImportConferences sv"
  "if_GetMe (NewStrictHandler sv (the_Server sv)) = strict_GetMe sv"
  "if_DeleteCalendarToken (NewStrictHandler sv (the_Server sv)) = strict_DeleteCalendarToken sv"
  "if_ListMyCalendarTokens (NewStrictHandler sv (the_Server sv)) = strict_ListMyCalendarTokens sv"
  "if_CreateCalendarToken (NewStrictHandler sv (the_Server sv)) = strict_CreateCalendarToken sv"
  "if_GetMySettings (NewStrictHandler sv (the_Server sv)) = strict_GetMySettings sv"
  "if_UpdateMySettings (NewStrictHandler sv (the_Server sv)) = strict_UpdateMySettings sv"
  "if_ListMyStars (NewStrictHandler sv (the_Server sv)) = strict_ListMyStars sv"
  "if_ListTags (NewStrictHandler sv (the_Server sv)) = strict_ListTags sv"
  "if_ListTracks (NewStrictHandler sv (the_Server sv)) = strict_ListTracks sv"
  "if_GetPublicCalendar (NewStrictHandler sv (the_Server sv)) = strict_GetPublicCalendar sv"
  "if_GetPersonalCalendar (NewStrictHandler sv (the_Server sv)) = strict_GetPersonalCalendar sv"
  "if_GetHealth (NewStrictHandler sv (the_Server sv)) = strict_GetHealth sv"
  by (simp_all add: NewStrictHandler_def the_Server_def fun_eq_iff strict_defs)

text \<open>The method and the pattern of each route in \<^verbatim>\<open>http/server.go\<close>; the metrics answer every method.\<close>

fun endpoint :: "route \<Rightarrow> http_method option \<times> string" where
  "endpoint Healthz = (Some GET, ''/healthz'')"
| "endpoint Metrics = (None, ''/metrics'')"
| "endpoint Conferences_list = (Some GET, ''/api/v1/conferences'')"
| "endpoint Conference_get = (Some GET, ''/api/v1/conferences/{id}'')"
| "endpoint Calendar_all = (Some GET, ''/calendar/all.ics'')"
| "endpoint Calendar_user = (Some GET, ''/calendar/u/{token}.ics'')"
| "endpoint Auth_login = (Some GET, ''/auth/login'')"
| "endpoint Auth_callback = (Some GET, ''/auth/callback'')"
| "endpoint Auth_logout = (Some POST, ''/auth/logout'')"
| "endpoint Me = (Some GET, ''/api/v1/me'')"
| "endpoint Tags_list = (Some GET, ''/api/v1/tags'')"
| "endpoint Tracks_list = (Some GET, ''/api/v1/tracks'')"
| "endpoint Conference_create = (Some POST, ''/api/v1/conferences'')"
| "endpoint Conference_update = (Some PUT, ''/api/v1/conferences/{id}'')"
| "endpoint Conference_archive = (Some POST, ''/api/v1/conferences/{id}/archive'')"
| "endpoint Conference_unarchive = (Some POST, ''/api/v1/conferences/{id}/unarchive'')"
| "endpoint Conference_star = (Some POST, ''/api/v1/conferences/{id}/stars'')"
| "endpoint Conference_unstar = (Some DELETE, ''/api/v1/conferences/{id}/stars'')"
| "endpoint My_stars = (Some GET, ''/api/v1/me/stars'')"
| "endpoint My_settings = (Some GET, ''/api/v1/me/settings'')"
| "endpoint My_settings_update = (Some PUT, ''/api/v1/me/settings'')"
| "endpoint My_tokens = (Some GET, ''/api/v1/me/calendar-tokens'')"
| "endpoint My_token_create = (Some POST, ''/api/v1/me/calendar-tokens'')"
| "endpoint My_token_delete = (Some DELETE, ''/api/v1/me/calendar-tokens'')"
| "endpoint Import_yaml = (Some POST, ''/api/v1/import'')"
| "endpoint Conference_delete = (Some DELETE, ''/api/v1/conferences/{id}'')"
| "endpoint Audit_list = (Some GET, ''/api/v1/audit-log'')"

text \<open>What stands before the handler of a route.\<close>

definition behind :: "server \<Rightarrow> route \<Rightarrow> 'm web_scheme handler \<Rightarrow> 'm web_scheme handler" where
  "behind sv rt h =
     (let h = (case audited_as rt of None \<Rightarrow> h | Some action \<Rightarrow> auditMiddleware sv ''conference'' action h) in
      case needs rt of
        Anyone \<Rightarrow> h
      | Signed_in \<Rightarrow> token_group sv h
      | Member \<Rightarrow> member_group sv h
      | Admin \<Rightarrow> admin_group sv h)"

text \<open>The routes in the order of the generated table.\<close>

definition api_routes :: "route list" where
  "api_routes = [Audit_list, Conferences_list, Conference_create, Conference_delete, Conference_get, Conference_update,
     Conference_archive, Conference_unstar, Conference_star, Conference_unarchive, Import_yaml, Me,
     My_token_delete, My_tokens, My_token_create, My_settings, My_settings_update, My_stars,
     Tags_list, Tracks_list, Calendar_all, Calendar_user, Healthz]"

text \<open>The decoding of parameters that \<open>Router\<close> writes out is the wrappers'.\<close>

lemma params_of_Router:
  "query_param (plain si) get name k = bind_query get name k"
  "path_param (plain si) get' name k' = bind_path get' name k'"
  "IfNoneMatch_param (plain si) get'' k'' = bind_IfNoneMatch get'' k''"
  by (intro ext; simp add: param_defs bind_query_def bind_path_def bind_IfNoneMatch_def default_ErrorHandlerFunc_def
      RequiredParamError_msg_def InvalidParamFormatError_msg_def TooManyValuesForParamError_msg_def
      split: sum.split bind_error.split list.split)+

lemmas siw_defs = siw_ListAuditLog_def siw_ListConferences_def siw_CreateConference_def siw_DeleteConference_def
  siw_GetConference_def siw_UpdateConference_def siw_ArchiveConference_def siw_UnstarConference_def
  siw_StarConference_def siw_UnarchiveConference_def siw_ImportConferences_def siw_DeleteCalendarToken_def
  siw_ListMyCalendarTokens_def siw_CreateCalendarToken_def siw_GetPublicCalendar_def siw_GetPersonalCalendar_def

lemma routes_of_Router:
  "list_all2 (\<lambda>((meth, pattern), h) rt. endpoint rt = (Some meth, pattern) \<and> NewRouter sv rt = behind sv rt h)
     (Handler sv (NewStrictHandler sv (the_Server sv))) api_routes"
  unfolding Handler_table api_routes_def list_all2_Cons wrapper_defs plain_simps params_of_Router strict_of_Router
  by (simp add: behind_def siw_defs)

lemma endpoint_inj: "endpoint a = endpoint b \<Longrightarrow> a = b"
  by (cases a; cases b; simp)

text \<open>
  C9: The server serves the API as it is generated from the description: the routes of the
  generated table are, one for one and with the same method and pattern, the routes of
  NewRouter; each is served by the handler the generator means for it, with the same decoding
  of its parameters, behind the guard and the audit of that route and nothing else. Apart from
  them there are only the metrics and the three steps of the sign-in, and no two routes share
  a method and a pattern.
\<close>

theorem router_serves_the_generated_api:
  "list_all2 (\<lambda>((meth, pattern), h) rt. endpoint rt = (Some meth, pattern) \<and> NewRouter sv rt = behind sv rt h)
     (Handler sv (NewStrictHandler sv (the_Server sv))) api_routes
   \<and> UNIV = set api_routes \<union> {Metrics, Auth_login, Auth_callback, Auth_logout}
   \<and> inj endpoint"
proof (intro conjI)
  show "UNIV = set api_routes \<union> {Metrics, Auth_login, Auth_callback, Auth_logout}"
    using route.exhaust by (auto simp: api_routes_def)
  show "inj endpoint" by (rule injI) (rule endpoint_inj)
qed (rule routes_of_Router)

end
