(* ===== verification/Replicas.thy ===== *)
theory Replicas
  imports System Dispatch_Runs
begin

text \<open>
  Several schedulers on one database. The package comment of \<^verbatim>\<open>scheduler/scheduler.go\<close> says that
  \<^verbatim>\<open>SELECT ... FOR UPDATE SKIP LOCKED\<close> lets replicas run side by side. Here the dispatcher of
  reminders is taken apart into the steps of its transaction, and the steps of any number of
  dispatchers, and the requests of users, interleave.

  Of PostgreSQL the model has what those clauses mean: a row a transaction has selected for update
  is locked until the transaction ends; who selects meanwhile skips it, who would change it waits,
  so no statement that completes has changed it; the changes of a transaction appear when it
  commits. A request is one step here, at the moment it commits.
\<close>

subsection \<open>The state\<close>

text \<open>
  A dispatcher that has selected its rows: its connection, the rows still to do, the rows it has
  locked and those it has mailed so far. The log has the reminders mailed by the transactions that
  have committed.
\<close>

record 'ms holder =
  ho_conn :: "'ms sched"
  ho_todo :: "SelectDueRemindersRow list"
  ho_ids :: "uuid list"
  ho_mailed :: "uuid list"

record 'ms world =
  wo_db :: db
  wo_runs :: "'ms holder option list"
  wo_log :: "uuid list"

definition locked :: "'ms world \<Rightarrow> uuid list" where
  "locked w = concat (map (\<lambda>h. case h of None \<Rightarrow> [] | Some h \<Rightarrow> ho_ids h) (wo_runs w))"

definition in_flight :: "'ms world \<Rightarrow> uuid list" where
  "in_flight w = concat (map (\<lambda>h. case h of None \<Rightarrow> [] | Some h \<Rightarrow> ho_mailed h) (wo_runs w))"

text \<open>What a selection that skips locked rows reads; \<open>busy\<close> are rows that requests have locked.\<close>

definition visible :: "'ms world \<Rightarrow> uuid list \<Rightarrow> db" where
  "visible w busy = (wo_db w)\<lparr>reminders :=
     filter (\<lambda>q. rID q \<notin> set (locked w) \<and> rID q \<notin> set busy) (reminders (wo_db w))\<rparr>"

text \<open>The rows a transaction had locked, as it leaves them, in the table as it has become meanwhile.\<close>

definition merge_rows :: "uuid list \<Rightarrow> db \<Rightarrow> db \<Rightarrow> db" where
  "merge_rows is v d = d\<lparr>reminders := map (\<lambda>q. if rID q \<in> set is
     then (case find (\<lambda>q'. rID q' = rID q) (reminders v) of None \<Rightarrow> q | Some q' \<Rightarrow> q') else q) (reminders d)\<rparr>"

definition spares_locked :: "'ms world \<Rightarrow> db \<Rightarrow> bool" where
  "spares_locked w d \<longleftrightarrow> filter (\<lambda>q. rID q \<in> set (locked w)) (reminders d)
     = filter (\<lambda>q. rID q \<in> set (locked w)) (reminders (wo_db w))"

text \<open>The UUIDs that are generated are new.\<close>

definition fresh_ids :: "'ms world \<Rightarrow> db \<Rightarrow> bool" where
  "fresh_ids w d \<longleftrightarrow> list_all (\<lambda>q. rID q \<in> set (map rID (reminders (wo_db w))) \<or> rID q \<notin> set (wo_log w))
     (reminders d)"

subsection \<open>The steps\<close>

text \<open>The mailer takes the message of a row and reports no error.\<close>

definition accepted :: "'ms sender \<Rightarrow> sched_config \<Rightarrow> SelectDueRemindersRow \<Rightarrow> 'ms sched \<Rightarrow> bool" where
  "accepted send cfg row c \<longleftrightarrow> fst (send (reminder_msg (cfLocal cfg) row) (sch_mailer c)) = None"

inductive replica_step ::
  "env \<Rightarrow> sched_config \<Rightarrow> 'ms sender \<Rightarrow> 'ms world \<Rightarrow> 'ms world \<Rightarrow> bool"
  for env cfg send where
  Select: "p < length (wo_runs w) \<Longrightarrow> wo_runs w ! p = None \<Longrightarrow> c_tx c = Some (wo_db w) \<Longrightarrow>
    SelectDueReminders now (ctx_of c) (visible w busy) = Inr (due, d) \<Longrightarrow>
    replica_step env cfg send w
      (w\<lparr>wo_runs := (wo_runs w)[p := Some \<lparr>ho_conn = c, ho_todo = due, ho_ids = map drID due, ho_mailed = []\<rparr>]\<rparr>)"
| Send: "p < length (wo_runs w) \<Longrightarrow> wo_runs w ! p = Some h \<Longrightarrow> ho_todo h = row # rest \<Longrightarrow>
    dispatch_reminder send cfg row (ho_conn h) = (r, c) \<Longrightarrow>
    replica_step env cfg send w
      (w\<lparr>wo_runs := (wo_runs w)[p := Some (h\<lparr>ho_conn := c, ho_todo := rest,
         ho_mailed := (if accepted send cfg row (ho_conn h) then ho_mailed h @ [drID row] else ho_mailed h)\<rparr>)]\<rparr>)"
| Commit: "p < length (wo_runs w) \<Longrightarrow> wo_runs w ! p = Some h \<Longrightarrow> ho_todo h = [] \<Longrightarrow>
    c_tx (ho_conn h) = Some v \<Longrightarrow> \<not> c_aborted (ho_conn h) \<Longrightarrow>
    replica_step env cfg send w
      (w\<lparr>wo_runs := (wo_runs w)[p := None], wo_db := merge_rows (ho_ids h) v (wo_db w),
         wo_log := wo_log w @ ho_mailed h\<rparr>)"
| Rollback: "p < length (wo_runs w) \<Longrightarrow> wo_runs w ! p = Some h \<Longrightarrow>
    replica_step env cfg send w (w\<lparr>wo_runs := (wo_runs w)[p := None]\<rparr>)"
| Request: "system_step env cfg (wo_db w) (Request rt) d \<Longrightarrow> spares_locked w d \<Longrightarrow> fresh_ids w d \<Longrightarrow>
    replica_step env cfg send w (w\<lparr>wo_db := d\<rparr>)"
| Job: "job \<in> {scheduleDigests env, dispatchDigests env send cfg, sweepArchive env cfg} \<Longrightarrow>
    job c = (r, c') \<Longrightarrow> c_tx (c :: 'ms sched) = None \<Longrightarrow> c_com c = wo_db w \<Longrightarrow>
    spares_locked w (c_com c') \<Longrightarrow> fresh_ids w (c_com c') \<Longrightarrow>
    replica_step env cfg send w (w\<lparr>wo_db := c_com c'\<rparr>)"

inductive replica_run ::
  "env \<Rightarrow> sched_config \<Rightarrow> 'ms sender \<Rightarrow> 'ms world \<Rightarrow> 'ms world \<Rightarrow> bool"
  for env cfg send where
  Start: "replica_run env cfg send w w"
| Next: "replica_run env cfg send w w1 \<Longrightarrow> replica_step env cfg send w1 w2 \<Longrightarrow>
    replica_run env cfg send w w2"

subsection \<open>What a dispatcher holds\<close>

definition same_slot :: "reminder \<Rightarrow> reminder \<Rightarrow> bool" where
  "same_slot q q' \<longleftrightarrow> rID q' = rID q \<and> rUserID q' = rUserID q \<and> rConferenceID q' = rConferenceID q
     \<and> rDeadlineKind q' = rDeadlineKind q \<and> rLeadTimeDays q' = rLeadTimeDays q
     \<and> (rStatus q' = Skipped \<longrightarrow> rStatus q = Skipped)"

lemma same_slot_refl [simp]: "same_slot q q"
  by (simp add: same_slot_def)

lemma same_slot_trans: "same_slot q q' \<Longrightarrow> same_slot q' q'' \<Longrightarrow> same_slot q q''"
  by (simp add: same_slot_def)

lemma wf_same_slots:
  assumes wf: "wf_db env d" and rs: "list_all2 same_slot (reminders d) rs"
  shows "wf_db env (d\<lparr>reminders := rs\<rparr>)"
proof -
  have "map rID rs = map rID (reminders d)" "map reminder_key rs = map reminder_key (reminders d)"
    using rs by (induction rule: list_all2_induct) (simp_all add: same_slot_def reminder_key_def)
  moreover have "\<forall>r \<in> set rs. \<exists>q \<in> set (reminders d). same_slot q r"
    using rs by (induction rule: list_all2_induct) auto
  ultimately have "reminders_ok (d\<lparr>reminders := rs\<rparr>)"
    using wf_dbD(8) [OF wf] unfolding reminders_ok_def
    by (fastforce simp: same_slot_def reminder_check_def id_lists split: if_splits)
  then show ?thesis using wf unfolding wf_db_def by (simp add: frame_simps)
qed

subsection \<open>One reminder\<close>

text \<open>Only the rows with the given identifiers change, and they keep their slots.\<close>

definition view_moves :: "uuid set \<Rightarrow> db \<Rightarrow> db \<Rightarrow> bool" where
  "view_moves S v v' \<longleftrightarrow> v' = v\<lparr>reminders := reminders v'\<rparr> \<and>
     list_all2 (\<lambda>q q'. same_slot q q' \<and> (rID q \<notin> S \<longrightarrow> q' = q)) (reminders v) (reminders v')"

lemma view_moves_refl: "view_moves S v v"
  by (simp add: view_moves_def list_all2_same)

lemma view_moves_set:
  assumes "\<And>q. same_slot q (f q)"
  shows "view_moves {i} v (set_reminder i f v)"
  using assms by (simp add: view_moves_def set_reminder_def update_where_def list_all2_conv_all_nth)

lemma view_moves_ids: "view_moves S v v' \<Longrightarrow> map rID (reminders v') = map rID (reminders v)"
  unfolding view_moves_def
  by (elim conjE, erule list_all2_induct [of _ "reminders v" "reminders v'"]) (simp_all add: same_slot_def)

lemma view_movesD:
  assumes "view_moves S v v'"
  shows "q' \<in> set (reminders v') \<Longrightarrow> rID q' \<notin> S \<Longrightarrow> q' \<in> set (reminders v)"
    and "q \<in> set (reminders v) \<Longrightarrow> \<exists>q' \<in> set (reminders v'). same_slot q q'"
proof -
  have "(q' \<in> set rs' \<longrightarrow> rID q' \<notin> S \<longrightarrow> q' \<in> set rs) \<and> (q \<in> set rs \<longrightarrow> (\<exists>q' \<in> set rs'. same_slot q q'))"
    if "list_all2 (\<lambda>q q'. same_slot q q' \<and> (rID q \<notin> S \<longrightarrow> q' = q)) rs rs'" for rs rs'
    using that by (induction rule: list_all2_induct) (auto simp: same_slot_def)
  from this [OF assms [unfolded view_moves_def, THEN conjunct2]]
  show "q' \<in> set (reminders v') \<Longrightarrow> rID q' \<notin> S \<Longrightarrow> q' \<in> set (reminders v)"
    "q \<in> set (reminders v) \<Longrightarrow> \<exists>q' \<in> set (reminders v'). same_slot q q'" by auto
qed

lemma reminder_sent_view:
  assumes "reminder_sent row c = (r, c')" and "c_tx c = Some v" and "\<not> c_aborted c'"
  shows "c_tx c' = Some (set_reminder (drID row)
    (\<lambda>r. r\<lparr>rStatus := Sent, rSentAt := Some (c_now c), rUpdatedAt := c_now c\<rparr>) v) \<and> \<not> c_aborted c"
  using assms
  by (auto simp: reminder_sent_def andthen_def attempt_def exec_def exec_tx_def Let_def MarkReminderSent_def
      count_email_def ctx_of_def ret_def split: option.splits sum.splits prod.splits if_splits)

lemma reminder_unsent_aborted:
  assumes "reminder_unsent cfg row e c = (r, c')" and "\<not> c_aborted c'"
  shows "\<not> c_aborted c"
  using assms
  by (auto simp: reminder_unsent_def andthen_def attempt_def exec_def exec_tx_def Let_def
      count_email_def ret_def split: option.splits sum.splits prod.splits if_splits)

lemma reminder_unsent_view:
  assumes "reminder_unsent cfg row e c = (r, c')" and "c_tx c = Some v"
  shows "\<exists>v'. c_tx c' = Some v' \<and> view_moves {drID row} v v'"
proof -
  let ?f = "if drAttempts row + 1 \<ge> cfMaxAttempts cfg
    then (\<lambda>r. r\<lparr>rStatus := Failed, rLastError := Some e, rUpdatedAt := c_now c\<rparr>)
    else (\<lambda>r. r\<lparr>rAttempts := rAttempts r + 1, rLastError := Some e, rUpdatedAt := c_now c\<rparr>)"
  have "c_tx c' = Some v \<or> c_tx c' = Some (set_reminder (drID row) ?f v)"
    using reminder_unsent_marks [OF assms] unfolding marked_def by blast
  moreover have "view_moves {drID row} v (set_reminder (drID row) ?f v)"
    by (rule view_moves_set) (simp add: same_slot_def)
  ultimately show ?thesis using view_moves_refl by blast
qed

text \<open>
  A row that was mailed is sent in the view, unless the transaction is aborted; and what is
  aborted stays aborted.
\<close>

lemma dispatch_reminder_view:
  assumes run: "dispatch_reminder send cfg row c = (r, c')" and v: "c_tx c = Some v"
  shows "\<exists>v'. c_tx c' = Some v' \<and> view_moves {drID row} v v' \<and> (\<not> c_aborted c' \<longrightarrow> \<not> c_aborted c
    \<and> (accepted send cfg row c \<longrightarrow>
        (\<forall>q \<in> set (reminders v'). rID q = drID row \<longrightarrow> rStatus q \<noteq> Pending)))"
proof -
  obtain res ms where send: "send (reminder_msg (cfLocal cfg) row) (sch_mailer c) = (res, ms)" by fastforce
  let ?c1 = "c\<lparr>sch_mailer := ms\<rparr>"
  have v1: "c_tx ?c1 = Some v" using v by simp
  show ?thesis
  proof (cases res)
    case None
    then have sent: "reminder_sent row ?c1 = (r, c')"
      using run send by (simp add: dispatch_reminder_def reminder_message_Inr andthen_def mail_send_def)
    let ?f = "\<lambda>r. r\<lparr>rStatus := Sent, rSentAt := Some (c_now c), rUpdatedAt := c_now c\<rparr>"
    have move: "view_moves {drID row} v (set_reminder (drID row) ?f v)"
      by (rule view_moves_set) (simp add: same_slot_def)
    from reminder_sent_marks [OF sent v1] have tx: "c_tx c' = Some v \<or> c_tx c' = Some (set_reminder (drID row) ?f v)"
      by (simp add: marked_def)
    have set: "c_tx c' = Some (set_reminder (drID row) ?f v) \<and> \<not> c_aborted c" if "\<not> c_aborted c'"
      using reminder_sent_view [OF sent v1 that] by simp
    have "\<forall>q \<in> set (reminders (set_reminder (drID row) ?f v)). rID q = drID row \<longrightarrow> rStatus q \<noteq> Pending"
      by (auto simp: set_reminder_def set_update_where)
    with tx move view_moves_refl set show ?thesis by (cases "c_aborted c'") auto
  next
    case (Some e)
    then have unsent: "reminder_unsent cfg row e ?c1 = (r, c')"
      using run send by (simp add: dispatch_reminder_def reminder_message_Inr andthen_def mail_send_def)
    obtain v' where "c_tx c' = Some v'" "view_moves {drID row} v v'"
      using reminder_unsent_view [OF unsent v1] by blast
    moreover have "\<not> accepted send cfg row c" using send Some by (simp add: accepted_def)
    moreover have "\<not> c_aborted c' \<Longrightarrow> \<not> c_aborted c"
      using reminder_unsent_aborted [OF unsent] by simp
    ultimately show ?thesis by blast
  qed
qed

subsection \<open>The invariant\<close>

definition done_ids :: "'ms holder \<Rightarrow> uuid set" where
  "done_ids h = set (ho_ids h) - set (map drID (ho_todo h))"

definition holds :: "'ms world \<Rightarrow> nat \<Rightarrow> 'ms holder \<Rightarrow> bool" where
  "holds w p h \<longleftrightarrow> p < length (wo_runs w) \<and> wo_runs w ! p = Some h"

definition settled :: "db \<Rightarrow> uuid \<Rightarrow> bool" where
  "settled d i \<longleftrightarrow> (\<forall>q \<in> set (reminders d). rID q = i \<longrightarrow> rStatus q \<noteq> Pending)"

text \<open>The rows a dispatcher has locked are pending in the table, and its view has them all.\<close>

definition locks_ok :: "db \<Rightarrow> 'ms holder \<Rightarrow> db \<Rightarrow> bool" where
  "locks_ok d h v \<longleftrightarrow> distinct (map rID (reminders v)) \<and> set (ho_ids h) \<subseteq> rID ` set (reminders d)
     \<and> (\<forall>q \<in> set (reminders d). rID q \<in> set (ho_ids h) \<longrightarrow>
          rStatus q = Pending \<and> (\<exists>q' \<in> set (reminders v). same_slot q q'))"

definition holder_ok :: "db \<Rightarrow> 'ms holder \<Rightarrow> bool" where
  "holder_ok d h \<longleftrightarrow> distinct (map drID (ho_todo h)) \<and> set (map drID (ho_todo h)) \<subseteq> set (ho_ids h)
     \<and> distinct (ho_mailed h) \<and> set (ho_mailed h) \<subseteq> done_ids h
     \<and> (\<exists>v. c_tx (ho_conn h) = Some v \<and> locks_ok d h v
         \<and> (\<not> c_aborted (ho_conn h) \<longrightarrow> (\<forall>i \<in> set (ho_mailed h). settled v i)))"

definition world_ok :: "env \<Rightarrow> 'ms world \<Rightarrow> bool" where
  "world_ok env w \<longleftrightarrow> wf_db env (wo_db w) \<and> distinct (wo_log w)
     \<and> (\<forall>i \<in> set (wo_log w). settled (wo_db w) i)
     \<and> (\<forall>p h. holds w p h \<longrightarrow> holder_ok (wo_db w) h)
     \<and> (\<forall>p q h k. holds w p h \<longrightarrow> holds w q k \<longrightarrow> p \<noteq> q \<longrightarrow> set (ho_ids h) \<inter> set (ho_ids k) = {})"

lemma world_okI:
  assumes "wf_db env (wo_db w)" and "distinct (wo_log w)"
    and "\<And>i. i \<in> set (wo_log w) \<Longrightarrow> settled (wo_db w) i"
    and "\<And>p h. holds w p h \<Longrightarrow> holder_ok (wo_db w) h"
    and "\<And>p q h k. holds w p h \<Longrightarrow> holds w q k \<Longrightarrow> p \<noteq> q \<Longrightarrow> set (ho_ids h) \<inter> set (ho_ids k) = {}"
  shows "world_ok env w"
  unfolding world_ok_def using assms by blast

lemma world_okD:
  assumes "world_ok env w"
  shows "wf_db env (wo_db w)" and "distinct (wo_log w)" and "distinct (map rID (reminders (wo_db w)))"
    and "i \<in> set (wo_log w) \<Longrightarrow> settled (wo_db w) i"
    and "holds w p h \<Longrightarrow> holder_ok (wo_db w) h"
    and "holds w p h \<Longrightarrow> holds w q k \<Longrightarrow> p \<noteq> q \<Longrightarrow> set (ho_ids h) \<inter> set (ho_ids k) = {}"
  using assms wf_dbD(8) [of env "wo_db w"] unfolding world_ok_def reminders_ok_def by blast+

lemma in_locked: "i \<in> set (locked w) \<longleftrightarrow> (\<exists>p h. holds w p h \<and> i \<in> set (ho_ids h))"
proof -
  have "i \<in> set (locked w) \<longleftrightarrow> (\<exists>h. Some h \<in> set (wo_runs w) \<and> i \<in> set (ho_ids h))"
    by (auto simp: locked_def split: option.splits)
  then show ?thesis unfolding holds_def in_set_conv_nth by blast
qed

lemma holds_update:
  "p < length (wo_runs w) \<Longrightarrow> holds (w\<lparr>wo_runs := (wo_runs w)[p := x]\<rparr>) q h \<longleftrightarrow> (if q = p then x = Some h else holds w q h)"
  by (auto simp: holds_def)

lemma holds_frame [simp]:
  "holds (w\<lparr>wo_log := l\<rparr>) = holds w" "holds (w\<lparr>wo_db := d\<rparr>) = holds w"
  by (auto simp: holds_def fun_eq_iff)

text \<open>A change of the table by somebody else.\<close>

lemma world_ok_db:
  assumes ok: "world_ok env w" and wf: "wf_db env d" and spares: "spares_locked w d"
    and settles: "\<And>i. i \<in> set (wo_log w) \<Longrightarrow> settled (wo_db w) i \<Longrightarrow> settled d i"
  shows "world_ok env (w\<lparr>wo_db := d\<rparr>)"
proof -
  have same: "q \<in> set (reminders d) \<longleftrightarrow> q \<in> set (reminders (wo_db w))" if "rID q \<in> set (locked w)" for q
    using arg_cong [OF spares [unfolded spares_locked_def], of "\<lambda>qs. q \<in> set qs"] that by simp
  show ?thesis
  proof (rule world_okI)
    fix p h assume "holds (w\<lparr>wo_db := d\<rparr>) p h"
    then have h: "holds w p h" by simp
    have ok: "holder_ok (wo_db w) h" by (rule world_okD(5) [OF ok h])
    have lock: "rID q \<in> set (ho_ids h) \<Longrightarrow> rID q \<in> set (locked w)" for q :: reminder
      using h in_locked by blast
    have "locks_ok d h v" if v: "locks_ok (wo_db w) h v" for v
    proof -
      have "i \<in> rID ` set (reminders d)" if "i \<in> set (ho_ids h)" for i
      proof -
        from v that obtain q where q: "q \<in> set (reminders (wo_db w))" "i = rID q" unfolding locks_ok_def by blast
        then show ?thesis using same [OF lock, of q] that by blast
      qed
      then show ?thesis using v same lock unfolding locks_ok_def by blast
    qed
    with ok show "holder_ok (wo_db (w\<lparr>wo_db := d\<rparr>)) h"
      unfolding holder_ok_def by auto
  qed (use wf settles world_okD [OF ok] in auto)
qed

subsection \<open>What the steps keep\<close>

lemma wf_visible: "wf_db env (wo_db w) \<Longrightarrow> wf_db env (visible w busy)"
  unfolding wf_db_def visible_def
  by (simp add: frame_simps) (auto simp: reminders_ok_def id_lists distinct_map inj_on_def)

lemma due_reminders_from: "row \<in> set (due_reminders now d) \<Longrightarrow> \<exists>q \<in> set (reminders d). rID q = drID row"
  by (fastforce simp: due_reminders_def due_row_def dest: in_set_takeD split: if_splits)

lemma world_ok_hold:
  assumes "world_ok env w" and "p < length (wo_runs w)" and "holder_ok (wo_db w) h"
    and "\<And>q k. holds w q k \<Longrightarrow> q \<noteq> p \<Longrightarrow> set (ho_ids k) \<inter> set (ho_ids h) = {}"
  shows "world_ok env (w\<lparr>wo_runs := (wo_runs w)[p := Some h]\<rparr>)"
proof (rule world_okI)
  let ?w = "w\<lparr>wo_runs := (wo_runs w)[p := Some h]\<rparr>"
  fix q r k k' assume "holds ?w q k" "holds ?w r k'" "q \<noteq> r"
  then show "set (ho_ids k) \<inter> set (ho_ids k') = {}"
    using assms(4) world_okD(6) [OF assms(1)] unfolding holds_update [OF assms(2)] by (fastforce split: if_splits)
qed (use assms(3) world_okD [OF assms(1)] in \<open>auto simp: holds_update [OF assms(2)] split: if_splits\<close>)

lemma ok_Select:
  assumes ok: "world_ok env w" and p: "p < length (wo_runs w)" "wo_runs w ! p = None" and c: "c_tx c = Some (wo_db w)"
    and due: "SelectDueReminders now (ctx_of c) (visible w busy) = Inr (due, d)"
  shows "world_ok env (w\<lparr>wo_runs := (wo_runs w)[p := Some \<lparr>ho_conn = c, ho_todo = due, ho_ids = map drID due, ho_mailed = []\<rparr>]\<rparr>)"
proof -
  let ?h = "\<lparr>ho_conn = c, ho_todo = due, ho_ids = map drID due, ho_mailed = []\<rparr>"
  have wf: "wf_db env (wo_db w)" using ok by (simp add: world_ok_def)
  have d: "due = due_reminders now (visible w busy)" using due by (auto simp: SelectDueReminders_def rows_def)
  note rows = due_reminders_rows [OF wf_visible [OF wf, of busy], where now = now, folded d]
  have ids: "distinct (map rID (reminders (wo_db w)))"
    using wf_dbD(8) [OF wf] by (simp add: reminders_ok_def)
  have row: "q \<in> set (reminders (visible w busy)) \<and> rStatus q = Pending"
    if q: "q \<in> set (reminders (wo_db w))" and i: "rID q \<in> set (map drID due)" for q
  proof -
    obtain row where r: "row \<in> set due" "drID row = rID q" using i by auto
    obtain q' where q': "q' \<in> set (reminders (visible w busy))" "rID q' = drID row"
      using due_reminders_from r(1) d by blast
    have "q' \<in> set (reminders (wo_db w))" using q'(1) by (simp add: visible_def)
    then have "q' = q" using ids q q'(2) r(2) by (auto simp: distinct_map dest: inj_onD)
    then show ?thesis using q' rows(2) [OF r(1) q'(1)] by simp
  qed
  have free: "i \<notin> set (locked w)" if "i \<in> set (map drID due)" for i
  proof -
    obtain row where r: "row \<in> set due" "drID row = i" using \<open>i \<in> set (map drID due)\<close> by auto
    then obtain q where "q \<in> set (reminders (visible w busy))" "rID q = i"
      using due_reminders_from d by blast
    then show ?thesis by (simp add: visible_def)
  qed
  have "set (map drID due) \<subseteq> rID ` set (reminders (wo_db w))"
    using due_reminders_from [of _ now "visible w busy"] unfolding d by (force simp: visible_def)
  then have new: "holder_ok (wo_db w) ?h"
    using rows(1) c ids row by (auto simp: holder_ok_def locks_ok_def intro: same_slot_refl)
  have apart: "set (ho_ids k) \<inter> set (map drID due) = {}" if "holds w q k" for q k
    using that free in_locked by fastforce
  show ?thesis by (rule world_ok_hold [OF ok p(1) new]) (use apart in simp)
qed

lemma locks_view:
  assumes "locks_ok d h v" and "view_moves S v v'" and "ho_ids k = ho_ids h"
  shows "locks_ok d k v'"
  using assms view_moves_ids [OF assms(2)] view_movesD(2) [OF assms(2)] same_slot_trans
  unfolding locks_ok_def by metis

lemma locks_table:
  assumes locks: "locks_ok d k v" and moves: "view_moves S d d'" and apart: "S \<inter> set (ho_ids k) = {}"
  shows "locks_ok d' k v"
proof -
  have "rID ` set (reminders d') = rID ` set (reminders d)"
    using view_moves_ids [OF moves] by (metis set_map)
  then show ?thesis
    using locks view_movesD(1) [OF moves] apart unfolding locks_ok_def by (metis disjoint_iff)
qed

lemma ok_Send:
  assumes ok: "world_ok env w" and p: "p < length (wo_runs w)" "wo_runs w ! p = Some h"
    and todo: "ho_todo h = row # rest" and run: "dispatch_reminder send cfg row (ho_conn h) = (r, c)"
  shows "world_ok env (w\<lparr>wo_runs := (wo_runs w)[p := Some (h\<lparr>ho_conn := c, ho_todo := rest,
         ho_mailed := (if accepted send cfg row (ho_conn h) then ho_mailed h @ [drID row] else ho_mailed h)\<rparr>)]\<rparr>)"
proof -
  have h: "holds w p h" using p by (simp add: holds_def)
  note hok = world_okD(5) [OF ok h, unfolded holder_ok_def]
  from hok obtain v where v: "c_tx (ho_conn h) = Some v" "locks_ok (wo_db w) h v"
    "\<not> c_aborted (ho_conn h) \<Longrightarrow> \<forall>i \<in> set (ho_mailed h). settled v i" by blast
  obtain v' where v': "c_tx c = Some v'" "view_moves {drID row} v v'"
    "\<not> c_aborted c \<Longrightarrow> \<not> c_aborted (ho_conn h)"
    "\<not> c_aborted c \<Longrightarrow> accepted send cfg row (ho_conn h) \<Longrightarrow> settled v' (drID row)"
    using dispatch_reminder_view [OF run v(1)] unfolding settled_def by blast
  have new: "drID row \<notin> set (ho_mailed h)" using hok todo unfolding done_ids_def by auto
  have settled: "settled v' i" if "\<not> c_aborted c" "i \<in> set (ho_mailed h)" for i
    using v(3) v'(3) that new view_movesD(1) [OF v'(2)] unfolding settled_def by (metis singletonD)
  let ?h = "h\<lparr>ho_conn := c, ho_todo := rest,
    ho_mailed := (if accepted send cfg row (ho_conn h) then ho_mailed h @ [drID row] else ho_mailed h)\<rparr>"
  have "locks_ok (wo_db w) ?h v'" by (rule locks_view [OF v(2) v'(2)]) simp
  then have "holder_ok (wo_db w) ?h"
    using hok todo new v' settled unfolding holder_ok_def done_ids_def by auto
  then show ?thesis by (rule world_ok_hold [OF ok p(1)]) (use world_okD(6) [OF ok _ h] in simp)
qed

lemma world_ok_free:
  assumes "world_ok env w" and "p < length (wo_runs w)"
  shows "world_ok env (w\<lparr>wo_runs := (wo_runs w)[p := None]\<rparr>)"
proof (rule world_okI)
  let ?w = "w\<lparr>wo_runs := (wo_runs w)[p := None]\<rparr>"
  fix q r k k' assume "holds ?w q k" "holds ?w r k'" "q \<noteq> r"
  then show "set (ho_ids k) \<inter> set (ho_ids k') = {}"
    using world_okD(6) [OF assms(1)] unfolding holds_update [OF assms(2)] by (auto split: if_splits)
qed (use world_okD [OF assms(1)] in \<open>auto simp: holds_update [OF assms(2)] split: if_splits\<close>)

text \<open>Deleting a conference only takes reminders away.\<close>

definition thins :: "db \<Rightarrow> db \<Rightarrow> bool" where
  "thins d d' \<longleftrightarrow> set (reminders d') \<subseteq> set (reminders d)"

interpretation thin: removal thins
proof unfold_locales
  show "sql_step thins (DeleteConference i)" for i
    by (rule sql_stepI) (auto simp: thins_def DeleteConference_def delete_where_def Let_def split: if_splits)
  show "sql_step thins (InsertAuditEntry ap)" for ap
    by (rule sql_stepI) (auto simp: thins_def InsertAuditEntry_def with_texts_def split: if_splits)
qed (auto simp: thins_def)

lemma still_settled:
  assumes step: "keeps_history (wo_db w) d \<or> thins (wo_db w) d" and wf: "wf_db env d" and fresh: "fresh_ids w d"
    and i: "i \<in> set (wo_log w)" "settled (wo_db w) i"
  shows "settled d i"
  unfolding settled_def
proof (intro ballI impI)
  fix q assume q: "q \<in> set (reminders d)" "rID q = i"
  then have "i \<in> set (map rID (reminders (wo_db w)))"
    using fresh i(1) unfolding fresh_ids_def list_all_iff by blast
  then obtain q0 where q0: "q0 \<in> set (reminders (wo_db w))" "rID q0 = i" by auto
  from step show "rStatus q \<noteq> Pending"
  proof
    assume "keeps_history (wo_db w) d"
    then have "q0 \<in> set (reminders d)" using i(2) q0 unfolding keeps_history_def history_def settled_def by blast
    moreover have "distinct (map rID (reminders d))" using wf_dbD(8) [OF wf] by (simp add: reminders_ok_def)
    ultimately have "q0 = q" using q q0 by (auto simp: distinct_map dest: inj_onD)
    then show ?thesis using i(2) q0 unfolding settled_def by blast
  next
    assume "thins (wo_db w) d"
    then show ?thesis using i(2) q unfolding thins_def settled_def by blast
  qed
qed

lemma request_moves:
  assumes "system_step env cfg d (Request rt) d'"
  shows "wf_step env d d' \<and> (keeps_history d d' \<or> thins d d')"
proof (cases "rt = Conference_delete")
  case True
  obtain sv r q s' and s :: web where "NewRouter sv rt r s = (q, s')" "c_tx s = None" "d = c_com s" "d' = c_com s'"
    using assms by (elim request_stepE) blast
  then have "thins d d'" using h_evolvesD [OF thin.keeps_delete_route] unfolding True by blast
  with request_step [OF assms] show ?thesis by blast
qed (use request_step [OF assms] in blast)

lemma job_moves:
  assumes "job \<in> {scheduleDigests env, dispatchDigests env send cfg, sweepArchive env cfg}"
    and "job c = (r, c')" and "c_tx c = None"
  shows "wf_step env (c_com c) (c_com c') \<and> keeps_history (c_com c) (c_com c')"
proof -
  have "evolves (wf_step env) job \<and> evolves keeps_history job"
    using assms(1)
    by (elim insertE emptyE) (simp_all add: wf_sched.keeps_scheduleDigests wf_sched.keeps_dispatchDigests
      wf_sched.keeps_sweepArchive hist_sched.keeps_scheduleDigests hist_sched.keeps_dispatchDigests
      hist_sched.keeps_sweepArchive)
  then show ?thesis using evolvesD assms(2,3) by blast
qed

text \<open>A commit.\<close>

lemma merge_all:
  assumes moves: "view_moves (set is) d v" and ids: "distinct (map rID (reminders d))"
  shows "merge_rows is v d = v"
proof -
  have "map (\<lambda>q. if rID q \<in> set is
     then (case find (\<lambda>q'. rID q' = rID q) (reminders v) of None \<Rightarrow> q | Some q' \<Rightarrow> q') else q) (reminders d) = reminders v"
  proof (rule nth_equalityI)
    have ids': "distinct (map rID (reminders v))" using ids view_moves_ids [OF moves] by simp
    fix n assume n: "n < length (map (\<lambda>q. if rID q \<in> set is
     then (case find (\<lambda>q'. rID q' = rID q) (reminders v) of None \<Rightarrow> q | Some q' \<Rightarrow> q') else q) (reminders d))"
    let ?q = "reminders d ! n" and ?q' = "reminders v ! n"
    have step: "n < length (reminders v)" "rID ?q' = rID ?q" "rID ?q \<notin> set is \<longrightarrow> ?q' = ?q"
      using moves n by (auto simp: view_moves_def list_all2_conv_all_nth same_slot_def)
    have "find (\<lambda>q'. rID q' = rID ?q) (reminders v) = Some ?q'"
      using step by (intro find_unique [OF ids']) simp_all
    then show "map (\<lambda>q. if rID q \<in> set is
     then (case find (\<lambda>q'. rID q' = rID q) (reminders v) of None \<Rightarrow> q | Some q' \<Rightarrow> q') else q) (reminders d) ! n = ?q'"
      using n step by simp
  qed (use moves in \<open>auto simp: view_moves_def dest: list_all2_lengthD\<close>)
  then show ?thesis using moves by (simp add: merge_rows_def view_moves_def)
qed

lemma merge_moves:
  assumes "locks_ok d h v"
  shows "view_moves (set (ho_ids h)) d (merge_rows (ho_ids h) v d)"
    and "i \<in> set (ho_ids h) \<Longrightarrow> settled v i \<Longrightarrow> settled (merge_rows (ho_ids h) v d) i"
proof -
  have find: "\<exists>q' \<in> set (reminders v). find (\<lambda>q'. rID q' = rID q) (reminders v) = Some q' \<and> same_slot q q'"
    if q: "q \<in> set (reminders d)" "rID q \<in> set (ho_ids h)" for q
  proof -
    obtain q' where q': "q' \<in> set (reminders v)" "same_slot q q'" using assms q unfolding locks_ok_def by blast
    then have "rID q' = rID q" by (simp add: same_slot_def)
    then show ?thesis
      using q' assms find_unique [of rID "reminders v" q'] unfolding locks_ok_def by blast
  qed
  show "view_moves (set (ho_ids h)) d (merge_rows (ho_ids h) v d)"
    unfolding view_moves_def merge_rows_def by (auto simp: list_all2_map2 list_all2_same split: option.splits dest: find)
  assume "i \<in> set (ho_ids h)" "settled v i"
  then show "settled (merge_rows (ho_ids h) v d) i"
    using find unfolding settled_def merge_rows_def by (fastforce simp: same_slot_def)
qed

lemma ok_Commit:
  assumes ok: "world_ok env w" and p: "p < length (wo_runs w)" "wo_runs w ! p = Some h"
    and v: "c_tx (ho_conn h) = Some v" "\<not> c_aborted (ho_conn h)"
  shows "world_ok env (w\<lparr>wo_runs := (wo_runs w)[p := None], wo_db := merge_rows (ho_ids h) v (wo_db w),
      wo_log := wo_log w @ ho_mailed h\<rparr>)"
proof -
  have h: "holds w p h" using p by (simp add: holds_def)
  note hok = world_okD(5) [OF ok h, unfolded holder_ok_def]
  have locks: "locks_ok (wo_db w) h v" and mailed: "\<forall>i \<in> set (ho_mailed h). settled v i \<and> i \<in> set (ho_ids h)"
    using hok v unfolding done_ids_def by auto
  let ?d = "merge_rows (ho_ids h) v (wo_db w)"
  note moves = merge_moves(1) [OF locks]
  have "list_all2 same_slot (reminders (wo_db w)) (reminders ?d)"
    by (rule list_all2_mono [OF moves [unfolded view_moves_def, THEN conjunct2]]) blast
  from wf_same_slots [OF world_okD(1) [OF ok] this] have wf: "wf_db env ?d" by (simp add: merge_rows_def)
  have old: "i \<notin> set (ho_ids h) \<and> settled ?d i" if i: "i \<in> set (wo_log w)" for i
  proof -
    have settled: "settled (wo_db w) i" by (rule world_okD(4) [OF ok i])
    then have "i \<notin> set (ho_ids h)" using locks unfolding locks_ok_def settled_def by blast
    then show ?thesis using settled view_movesD(1) [OF moves] unfolding settled_def by blast
  qed
  have kept: "holder_ok ?d k" if k: "holds w q k" "q \<noteq> p" for q k
    using world_okD(5) [OF ok k(1)] locks_table [OF _ moves] world_okD(6) [OF ok h k(1)] k(2)
    unfolding holder_ok_def by blast
  note free = world_okD [OF world_ok_free [OF ok p(1)]]
  show ?thesis
  proof (rule world_okI)
    fix i assume "i \<in> set (wo_log (w\<lparr>wo_runs := (wo_runs w)[p := None], wo_db := ?d, wo_log := wo_log w @ ho_mailed h\<rparr>))"
    then show "settled (wo_db (w\<lparr>wo_runs := (wo_runs w)[p := None], wo_db := ?d, wo_log := wo_log w @ ho_mailed h\<rparr>)) i"
      using old merge_moves(2) [OF locks] mailed by auto
  next
    show "distinct (wo_log (w\<lparr>wo_runs := (wo_runs w)[p := None], wo_db := ?d, wo_log := wo_log w @ ho_mailed h\<rparr>))"
      using world_okD(2) [OF ok] hok mailed old by auto
  next
    fix q k assume "holds (w\<lparr>wo_runs := (wo_runs w)[p := None], wo_db := ?d, wo_log := wo_log w @ ho_mailed h\<rparr>) q k"
    then show "holder_ok (wo_db (w\<lparr>wo_runs := (wo_runs w)[p := None], wo_db := ?d, wo_log := wo_log w @ ho_mailed h\<rparr>)) k"
      using kept by (simp add: holds_update [OF p(1)] split: if_splits)
  qed (use wf free in \<open>auto simp: holds_update [OF p(1)]\<close>)
qed

subsection \<open>Every run\<close>

lemma ok_step:
  assumes "replica_step env cfg send w w'" and ok: "world_ok env w"
  shows "world_ok env w'"
  using assms(1)
proof cases
  case (Select p c now busy due d)
  then show ?thesis using ok_Select [OF ok] by blast
next
  case (Send p h row rest r c)
  then show ?thesis using ok_Send [OF ok] by simp
next
  case (Commit p h v)
  then show ?thesis using ok_Commit [OF ok] by simp
next
  case (Rollback p h)
  then show ?thesis using world_ok_free [OF ok] by blast
next
  case (Request rt d)
  have moves: "wf_step env (wo_db w) d \<and> (keeps_history (wo_db w) d \<or> thins (wo_db w) d)"
    by (rule request_moves [OF Request(2)])
  then have wf: "wf_db env d" using world_okD(1) [OF ok] by (simp add: wf_step_def)
  show ?thesis unfolding Request(1)
    by (rule world_ok_db [OF ok wf Request(3)]) (use still_settled [OF _ wf Request(4)] moves in blast)
next
  case (Job job c r c')
  have moves: "wf_step env (wo_db w) (c_com c') \<and> keeps_history (wo_db w) (c_com c')"
    using job_moves [OF Job(2,3,4)] Job(5) by simp
  then have wf: "wf_db env (c_com c')" using world_okD(1) [OF ok] by (simp add: wf_step_def)
  show ?thesis unfolding Job(1)
    by (rule world_ok_db [OF ok wf Job(6)]) (use still_settled [OF _ wf Job(7)] moves in blast)
qed

lemma ok_run: "replica_run env cfg send w w' \<Longrightarrow> world_ok env w \<Longrightarrow> world_ok env w'"
  by (induction rule: replica_run.induct) (auto intro: ok_step)

text \<open>
  The dispatcher of the code is one of these: a run of it that commits is a run of the steps, with
  nobody else there.
\<close>

lemma view_moves_trans:
  assumes "view_moves S a b" "view_moves T b c" "S \<union> T \<subseteq> U"
  shows "view_moves U a c"
proof -
  have "list_all2 (\<lambda>q q'. same_slot q q' \<and> (rID q \<notin> U \<longrightarrow> q' = q)) (reminders a) (reminders c)"
    by (rule list_all2_trans [OF _ assms(1,2) [unfolded view_moves_def, THEN conjunct2]])
      (use assms(3) same_slot_trans in \<open>auto simp: same_slot_def\<close>)
  moreover obtain rs rs' where "b = a\<lparr>reminders := rs\<rparr>" "c = b\<lparr>reminders := rs'\<rparr>"
    using assms(1,2) unfolding view_moves_def by blast
  ultimately show ?thesis by (simp add: view_moves_def)
qed

lemma sends_run:
  assumes "replica_run env cfg send w0 (w\<lparr>wo_runs := [Some (h\<lparr>ho_conn := c, ho_todo := due, ho_mailed := ms\<rparr>)]\<rparr>)"
    and "c_tx c = Some v" and "for_each (dispatch_reminder send cfg) due c = (Inr (), c')"
  shows "\<exists>ms' v'. replica_run env cfg send w0 (w\<lparr>wo_runs := [Some (h\<lparr>ho_conn := c', ho_todo := [], ho_mailed := ms'\<rparr>)]\<rparr>)
    \<and> c_tx c' = Some v' \<and> view_moves (set (map drID due)) v v'"
  using assms
proof (induction due arbitrary: c v ms)
  case Nil
  then show ?case using view_moves_refl by (auto simp: ret_def)
next
  case (Cons row rest)
  obtain c1 where row: "dispatch_reminder send cfg row c = (Inr (), c1)"
    and rest: "for_each (dispatch_reminder send cfg) rest c1 = (Inr (), c')"
    using Cons.prems(3) by (auto simp: andthen_def split: prod.splits sum.splits)
  obtain v1 where v1: "c_tx c1 = Some v1" "view_moves {drID row} v v1"
    using dispatch_reminder_view [OF row Cons.prems(2)] by blast
  let ?h = "h\<lparr>ho_conn := c, ho_todo := row # rest, ho_mailed := ms\<rparr>"
  let ?ms = "if accepted send cfg row c then ms @ [drID row] else ms"
  let ?w = "w\<lparr>wo_runs := [Some ?h]\<rparr>"
  let ?w1 = "w\<lparr>wo_runs := [Some (h\<lparr>ho_conn := c1, ho_todo := rest, ho_mailed := ?ms\<rparr>)]\<rparr>"
  have "replica_step env cfg send ?w ?w1"
    using replica_step.Send [of 0 ?w ?h row rest send cfg "Inr ()" c1 env] row
    by (cases "accepted send cfg row c") simp_all
  from Cons.IH [OF replica_run.Next [OF Cons.prems(1) this] v1(1) rest] obtain ms' v' where
    run: "replica_run env cfg send w0 (w\<lparr>wo_runs := [Some (h\<lparr>ho_conn := c', ho_todo := [], ho_mailed := ms'\<rparr>)]\<rparr>)"
      "c_tx c' = Some v'" "view_moves (set (map drID rest)) v1 v'" by blast
  have "view_moves (set (map drID (row # rest))) v v'"
    by (rule view_moves_trans [OF v1(2) run(3)]) auto
  with run show ?case by blast
qed

lemma dispatcher_runs:
  assumes wf: "wf_db env (c_com c)" and run: "dispatchReminders send cfg c = (Inr (), c')"
  shows "\<exists>w. replica_run env cfg send \<lparr>wo_db = c_com c, wo_runs = [None], wo_log = []\<rparr> w
    \<and> wo_runs w = [None] \<and> wo_db w = c_com c'"
proof -
  let ?w = "\<lparr>wo_db = c_com c, wo_runs = [None], wo_log = []\<rparr>"
  obtain c1 c2 where c1: "begin_tx c = (Inr (), c1)" "reminders_body send cfg c1 = (Inr (), c2)" "commit_tx c2 = (Inr (), c')"
    using run by (auto simp: dispatchReminders_def in_tx_def split: prod.splits sum.splits)
  let ?now = "sch_clock c1 (sch_calls c1)" and ?c1 = "c1\<lparr>sch_calls := Suc (sch_calls c1)\<rparr>"
  have v1: "c_tx c1 = Some (c_com c)" using c1(1) by (auto simp: begin_tx_def Let_def split: option.splits)
  obtain due c3 where sel: "exec Tx (SelectDueReminders ?now) ?c1 = (Inr due, c3)"
    and rows: "for_each (dispatch_reminder send cfg) due c3 = (Inr (), c2)"
    using c1(2) by (auto simp: reminders_body_def Now_def andthen_def on_err_def split: prod.splits sum.splits)
  have c3: "c_tx c3 = Some (c_com c)" "due = due_reminders ?now (c_com c)"
    using sel v1 by (auto simp: exec_def exec_tx_def Let_def SelectDueReminders_def rows_def split: option.splits if_splits)
  let ?h = "\<lparr>ho_conn = c3, ho_todo = due, ho_ids = map drID due, ho_mailed = []\<rparr>"
  have "replica_step env cfg send ?w (?w\<lparr>wo_runs := [Some ?h]\<rparr>)"
    using replica_step.Select [of 0 ?w c3 ?now "[]" due "c_com c"] c3
    by (simp add: SelectDueReminders_def rows_def visible_def locked_def)
  from replica_run.Next [OF replica_run.Start this]
  have "replica_run env cfg send ?w (?w\<lparr>wo_runs := [Some (?h\<lparr>ho_conn := c3, ho_todo := due, ho_mailed := []\<rparr>)]\<rparr>)" by simp
  from sends_run [OF this c3(1) rows] obtain ms v' where
    run2: "replica_run env cfg send ?w (?w\<lparr>wo_runs := [Some (?h\<lparr>ho_conn := c2, ho_todo := [], ho_mailed := ms\<rparr>)]\<rparr>)"
    and v': "c_tx c2 = Some v'" "view_moves (set (map drID due)) (c_com c) v'" by blast
  have commit: "\<not> c_aborted c2" "c_com c' = v'"
    using c1(3) v'(1) by (auto simp: commit_tx_def Let_def split: option.splits if_splits)
  let ?k = "?h\<lparr>ho_conn := c2, ho_todo := [], ho_mailed := ms\<rparr>"
  have "replica_step env cfg send (?w\<lparr>wo_runs := [Some ?k]\<rparr>)
      (?w\<lparr>wo_runs := [None], wo_db := merge_rows (map drID due) v' (c_com c), wo_log := ms\<rparr>)"
    using replica_step.Commit [of 0 "?w\<lparr>wo_runs := [Some ?k]\<rparr>" ?k v'] commit v' by simp
  moreover have "merge_rows (map drID due) v' (c_com c) = c_com c'"
    using merge_all [OF v'(2)] wf_dbD(8) [OF wf] commit(2) by (simp add: reminders_ok_def)
  ultimately show ?thesis using replica_run.Next [OF run2] by fastforce
qed

lemma world_ok_start:
  "wf_db env d \<Longrightarrow> world_ok env \<lparr>wo_db = d, wo_runs = replicate n None, wo_log = []\<rparr>"
  by (auto simp: world_ok_def holds_def)

lemma world_ok_mails:
  assumes ok: "world_ok env w"
  shows "distinct (wo_log w @ in_flight w)"
proof -
  let ?m = "\<lambda>x. case x of None \<Rightarrow> [] | Some h \<Rightarrow> ho_mailed h"
  have mailed: "distinct (ho_mailed h) \<and> set (ho_mailed h) \<subseteq> set (ho_ids h)" if "holds w p h" for p h
    using world_okD(5) [OF ok that] unfolding holder_ok_def done_ids_def by blast
  have "distinct (in_flight w)"
    unfolding in_flight_def
  proof (rule distinct_concat_map)
    show "distinct (?m (wo_runs w ! p))" if "p < length (wo_runs w)" for p
      using mailed [of p] that by (auto simp: holds_def split: option.splits)
    show "set (?m (wo_runs w ! p)) \<inter> set (?m (wo_runs w ! q)) = {}"
      if pq: "p < length (wo_runs w)" "q < length (wo_runs w)" "p \<noteq> q" for p q
    proof (cases "wo_runs w ! p = None \<or> wo_runs w ! q = None")
      case False
      then obtain h k where "holds w p h" "holds w q k" using pq by (auto simp: holds_def)
      with mailed world_okD(6) [OF ok _ _ pq(3)] have "set (ho_mailed h) \<inter> set (ho_mailed k) = {}" by blast
      with \<open>holds w p h\<close> \<open>holds w q k\<close> show ?thesis by (simp add: holds_def)
    qed auto
  qed
  moreover have "i \<notin> set (in_flight w)" if i: "i \<in> set (wo_log w)" for i
  proof
    assume "i \<in> set (in_flight w)"
    then obtain h where "Some h \<in> set (wo_runs w)" "i \<in> set (ho_mailed h)"
      by (auto simp: in_flight_def split: option.splits)
    then obtain p where h: "holds w p h" unfolding in_set_conv_nth holds_def by blast
    with \<open>i \<in> set (ho_mailed h)\<close> mailed have "i \<in> set (ho_ids h)" by blast
    moreover from world_okD(5) [OF ok h] obtain v where "locks_ok (wo_db w) h v" unfolding holder_ok_def by blast
    ultimately show False using world_okD(4) [OF ok i] unfolding locks_ok_def settled_def by blast
  qed
  ultimately show ?thesis using world_okD(2) [OF ok] by auto
qed

text \<open>
  C15: However the transactions of several reminder dispatchers on one database interleave with each
  other, with requests and with the other jobs of the scheduler, and whatever of it fails: the
  constraints of the schema hold, no reminder is locked by two dispatchers, and no reminder is
  mailed twice, over all the transactions that have committed and those still running. What is
  counted is a message the mailer takes without an error; the mails of a transaction that rolls
  back are not, the next run sends them again.
\<close>

theorem replicas_mail_once:
  assumes "wf_db env d"
    and "replica_run env cfg send \<lparr>wo_db = d, wo_runs = replicate n None, wo_log = []\<rparr> w"
  shows "wf_db env (wo_db w) \<and> distinct (wo_log w @ in_flight w)
    \<and> (\<forall>p q h k. holds w p h \<longrightarrow> holds w q k \<longrightarrow> p \<noteq> q \<longrightarrow> set (ho_ids h) \<inter> set (ho_ids k) = {})"
proof -
  have "world_ok env w" by (rule ok_run [OF assms(2) world_ok_start [OF assms(1)]])
  from world_okD [OF this] world_ok_mails [OF this] show ?thesis by blast
qed

subsection \<open>Two dispatchers\<close>

text \<open>
  Two dispatchers find the same reminder due. The first locks and mails it; the second, while the
  first is not done, skips it.
\<close>

lemma one_dispatches_other_skips:
  "\<exists>w. replica_run sample_env sample_config Fake_Send
      \<lparr>wo_db = sample_db\<lparr>reminders := [sample_reminder]\<rparr>, wo_runs = replicate 2 None, wo_log = []\<rparr> w
    \<and> wo_log w = [] \<and> in_flight w = [5] \<and> (\<exists>h. wo_runs w ! 1 = Some h \<and> ho_todo h = [])"
proof -
  let ?d = "sample_db\<lparr>reminders := [sample_reminder]\<rparr>"
  let ?now = "1790000000000000000 :: instant"
  let ?c = "(sample_sched \<lparr>fm_sent = []\<rparr>)\<lparr>c_tx := Some ?d\<rparr> :: FakeMailer sched"
  let ?w0 = "\<lparr>wo_db = ?d, wo_runs = [None, None], wo_log = []\<rparr> :: FakeMailer world"
  let ?h = "\<lparr>ho_conn = ?c, ho_todo = [sample_due], ho_ids = [5], ho_mailed = []\<rparr>"
  let ?w1 = "?w0\<lparr>wo_runs := [Some ?h, None]\<rparr>"
  let ?k = "\<lparr>ho_conn = ?c, ho_todo = [], ho_ids = [], ho_mailed = []\<rparr>"
  let ?w2 = "?w0\<lparr>wo_runs := [Some ?h, Some ?k]\<rparr>"
  have id: "drID sample_due = 5" by (simp add: sample_due_id sample_reminder_def)
  have all: "visible ?w0 [] = ?d" by (simp add: visible_def locked_def)
  have none: "visible ?w1 [] = ?d\<lparr>reminders := []\<rparr>" by (simp add: visible_def locked_def sample_reminder_def)
  have 1: "replica_step sample_env sample_config Fake_Send ?w0 ?w1"
    using replica_step.Select [of 0 ?w0 ?c ?now "[]" "[sample_due]" ?d] all sample_due_reminders id
    by (simp add: SelectDueReminders_def rows_def)
  have 2: "replica_step sample_env sample_config Fake_Send ?w1 ?w2"
    using replica_step.Select [of 1 ?w1 ?c ?now "[]" "[]" "?d\<lparr>reminders := []\<rparr>"] none
    by (simp add: SelectDueReminders_def rows_def due_reminders_def)
  obtain r c' where 3: "dispatch_reminder Fake_Send sample_config sample_due (ho_conn ?h) = (r, c')" by fastforce
  let ?w3 = "?w0\<lparr>wo_runs := [Some (?h\<lparr>ho_conn := c', ho_todo := [], ho_mailed := [5]\<rparr>), Some ?k]\<rparr>"
  have "replica_step sample_env sample_config Fake_Send ?w2 ?w3"
    using replica_step.Send [of 0 ?w2 ?h sample_due "[]", OF _ _ _ 3] id
    by (simp add: accepted_def Fake_Send_def)
  from replica_run.Next [OF replica_run.Next [OF replica_run.Next [OF replica_run.Start 1] 2] this]
  have "replica_run sample_env sample_config Fake_Send ?w0 ?w3" .
  moreover have "wo_log ?w3 = [] \<and> in_flight ?w3 = [5] \<and> wo_runs ?w3 ! 1 = Some ?k \<and> ho_todo ?k = []"
    by (simp add: in_flight_def)
  ultimately show ?thesis by (metis numeral_2_eq_2 replicate_Suc replicate_0)
qed

theorem replicas_mail_once_witness:
  "\<exists>w. in_flight w = [5] \<and> distinct (wo_log (w :: FakeMailer world) @ in_flight w) \<and> wf_db sample_env (wo_db w)"
proof -
  have wf: "wf_db sample_env (sample_db\<lparr>reminders := [sample_reminder]\<rparr>)"
    using sample_sched_wf by (simp add: sample_sched_def)
  obtain w where w: "replica_run sample_env sample_config Fake_Send
      \<lparr>wo_db = sample_db\<lparr>reminders := [sample_reminder]\<rparr>, wo_runs = replicate 2 None, wo_log = []\<rparr> w"
    "in_flight w = [5]"
    using one_dispatches_other_skips by blast
  from replicas_mail_once [OF wf w(1)] w(2) show ?thesis by blast
qed

end
