(* ===== verification/Spec2Isabelle.thy ===== *)
theory Spec2Isabelle
  imports Conference_Facts Stars Settings Calendar_Tokens Feed_Facts Import_Facts Audit_Facts Startup Api_Enums Sign_In System Backlog Generated_Router Replicas
begin

text \<open>
  \<^bold>\<open>Confero\<close> keeps the academic conferences of a group of researchers, with their deadlines. Members
  sign in through an identity provider, edit conferences, star the ones they care about and get
  reminders and a weekly digest by mail; everybody can read the list and subscribe to a calendar.
  This development models the server, the Go code under \<^verbatim>\<open>src/server\<close>, as functions of HOL.

  \<^bold>\<open>How the parts interact.\<close> A request reaches the router, passes the middleware of its group
  (session, role, audit log), is decoded by the generated code and reaches a handler, which calls a
  service. A service runs statements of the repository, alone or in a transaction, on the database.
  The scheduler runs beside the router: every tick it sends the reminders and digests that are due,
  plans the digests of the week and archives what has passed. Both share nothing but the database.

  \<^bold>\<open>The model of an effect.\<close> \<open>Schema\<close> has the database as a record of tables, with the rows of
  \<^verbatim>\<open>repository/models.go\<close> and the constraints of \<^verbatim>\<open>db/migrations\<close> as the predicate \<open>wf_db\<close>. \<open>Conn\<close>
  has the connection: the committed database, the view of the open transaction, whether it is
  aborted, the clock, the UUIDs the database will generate and the statements that will fail
  (\<open>c_fault\<close>, an arbitrary function, so that every theorem without a hypothesis on it speaks about
  every failure). A statement is a function from a database to a result and a database or an error;
  \<open>exec Pool\<close> and \<open>exec Tx\<close> run it, \<open>in_tx\<close> is begin, body and commit or rollback, \<open>andthen\<close> is the
  early return on an error, and Go's wrapped errors are the datatype \<open>err\<close> with \<open>errors_Is\<close>. Code
  that adds to the state extends the record of the connection: the scheduler its mailer, clock and
  metrics (\<open>sched\<close>), the web server its counter of failed audit writes (\<open>web\<close>).

  \<^bold>\<open>Which theory models which part.\<close>

  \<^item> Go and its library: \<open>Prelude\<close> (integers of a width), \<open>Go_Text\<close> (UTF-8, \<^verbatim>\<open>strings\<close>),
    \<open>Go_Time\<close> and \<open>Go_Parse\<close> (\<^verbatim>\<open>time\<close>), \<open>Go_Json\<close> (\<^verbatim>\<open>json.Unmarshal\<close> into strings, SHA-256).
  \<^item> \<^verbatim>\<open>repository/*.sql.go\<close>: \<open>Sql\<close>, \<open>Repo_Conferences\<close>, \<open>Repo_Users\<close>, \<open>Repo_Dispatch\<close>; each query is
    a definition of its own name, with the unique, foreign key and check constraints it can hit.
  \<^item> \<^verbatim>\<open>service/conferences.go\<close>: \<open>Conference_Input\<close> (slugs, validation, conversions), \<open>Conferences\<close>
    (the operations), \<open>Conference_Facts\<close> (what they leave behind). \<^verbatim>\<open>service/reminders.go\<close>: \<open>Reminders\<close>.
    \<^verbatim>\<open>service/stars.go\<close>, \<^verbatim>\<open>settings.go\<close>, \<^verbatim>\<open>calendar.go\<close>: \<open>Stars\<close>, \<open>Settings\<close>, \<open>Calendar_Tokens\<close>.
    \<^verbatim>\<open>service/import.go\<close> and \<^verbatim>\<open>importer\<close>: \<open>Import\<close>, and \<open>Import_Facts\<close> for whole imports. \<open>Frames\<close> and
    \<open>Http_Frames\<close> say what services and handlers leave alone beside the database.
  \<^item> \<^verbatim>\<open>ical/encoder.go\<close>: \<open>Ical\<close>. \<^verbatim>\<open>calendar/feeds.go\<close>: \<open>Feeds\<close>, with the
    feed of a token, from the request to the events, in \<open>Feed_Facts\<close>. \<^verbatim>\<open>mail\<close>: \<open>Templates\<close> has the part
    of Go's template engines that the mails use, \<open>Mail\<close> the templates, the renderers and the mailers.
  \<^item> \<^verbatim>\<open>scheduler\<close>: \<open>Scheduler\<close> has the jobs and the loop. \<open>Marking\<close> is what the two dispatchers share,
    \<open>Dispatch\<close> and \<open>Dispatch_Runs\<close> are about reminders, \<open>Digests\<close> about digests, \<open>Scheduler_Facts\<close>
    about the whole loop, \<open>Backlog\<close> about getting through what is due. \<open>Replicas\<close> takes the
    dispatcher of reminders apart and interleaves several of them with the rest of the system.
  \<^item> \<^verbatim>\<open>auth\<close>: \<open>Sessions\<close> (roles, tokens), \<open>Web\<close> (requests, replies, middleware), \<open>Auth\<close> (the sign-in).
    \<^verbatim>\<open>audit\<close>: \<open>Audit_Log\<close>. \<^verbatim>\<open>api/api.gen.go\<close>: \<open>Api\<close> (types), \<open>Api_Server\<close> (responses), \<open>Api_Enums\<close>
    (enumerations), and the decoding half of \<open>Router\<close>. \<^verbatim>\<open>http/server.go\<close>: \<open>Server\<close> (handlers) and
    \<open>Router\<close> (routes and groups). \<open>Generated_Router\<close> is the stub and the router of \<^verbatim>\<open>api.gen.go\<close> that
    \<^verbatim>\<open>NewRouter\<close> replaces, and compares the two.
  \<^item> \<^verbatim>\<open>config\<close>, \<^verbatim>\<open>database\<close> and \<^verbatim>\<open>cmd/confero-server/main.go\<close>: \<open>Startup\<close>.
  \<^item> \<open>Samples\<close> and the definitions called sample in other theories are the concrete world in which
    the properties are applied.

  \<^bold>\<open>The interfaces.\<close> A locale stands for each contract between parts. \<open>evolution\<close> (\<open>Conn\<close>) is a
  reflexive and transitive relation between databases; \<open>conference_writes\<close>, \<open>star_writes\<close>,
  \<open>settings_writes\<close>, \<open>token_writes\<close>, \<open>sweep_writes\<close>, \<open>digest_writes\<close> and \<open>scheduler_writes\<close> add that the statements a
  service issues are steps of it, and conclude that its operations are; \<open>service_writes\<close>,
  \<open>deletion\<close>, \<open>auditing\<close>, their sum \<open>removal\<close> and \<open>server_writes\<close>, which has them all (\<open>Http\<close>), carry this through handlers, middleware
  and router to every route. They are interpreted for the schema, the history of the reminders,
  the audit log and the attempts. \<open>mailer\<close> and \<open>exact_mailer\<close> (\<open>Mail\<close>) are what the dispatchers need
  of a mailer, interpreted for SMTP and for the fake; \<open>marking\<close> is the loop of a dispatcher,
  interpreted for both tables. \<open>reply_contract\<close> (\<open>Http_Replies\<close>) lifts a contract on replies from
  the handlers to the routes; it is interpreted for the audit marks and for the API's description.

  \<^bold>\<open>What the lemmas show.\<close>

  \<^item> The system (\<open>System\<close>, \<open>Http_Facts\<close>, \<open>Audit_Facts\<close>, \<open>Api_Contract\<close>, \<open>Api_Enums\<close>, \<open>Sign_In\<close>): in every
    run of requests and ticks the schema holds, the audit log only grows and dispatched mail stays on
    record; nobody gets past a missing session or role; a client error changes nothing; each
    success of an audited route is logged or counted; replies are as documented; the routes are
    those of the generated API; a sign-in is a session of the right user until it expires.
  \<^item> The services: what each operation does to the tables on success, that errors roll back, that a
    second edition of a year is a conflict, that reminders are planned for exactly the deadlines,
    lead times and stars there are, that an import without errors has taken every entry and creates
    nothing when it is repeated, that tokens open the feed of their owner.
  \<^item> The scheduler: each run refines a state machine of a row (pending, sent, failed, skipped), mails
    at most one message for a due row and marks it; the backlog drains; the sweep archives exactly
    what has passed. Several dispatchers on one database mail no reminder twice.
  \<^item> The encodings: calendars read back as what was written, a feed as one event for each date that
    its conferences have set, sessions as their claims; the templates of the mails parse and never
    fail, and a reader of their HTML, who knows tags and character references, finds the tags of
    the template and the values as they were. The address of a conference is not escaped in a
    feed: the properties of the feeds ask that it has no line feed, and \<open>feed_url_injection\<close> shows
    what happens otherwise.
  \<^item> The start: it serves exactly when configuration, migrations, pool and discovery succeed.

  \<^bold>\<open>Bounds.\<close> Loops are structural recursions over the rows or lists they walk; the loop of the
  scheduler takes the number of ticks, and its properties hold for every number. Discovery makes at
  most ten attempts. Integers are unbounded where Go's \<^verbatim>\<open>int\<close> cannot overflow on any input that
  was validated, and narrowed with \<open>int32_of\<close> and \<open>int16_of\<close> where the code narrows; UUIDs are words of 128 bits,
  instants are nanoseconds and round to microseconds where PostgreSQL rounds. Floats of the input are
  rationals or one of the infinities or no number (\<open>go_float\<close>), rounded to 32 bits where the code
  converts.

  \<^bold>\<open>Arguments of the model.\<close> What is not in the repository is an argument: the time zones, Unicode case
  mapping and collation, the messages of PostgreSQL and the text form of UUIDs (\<open>env\<close>); the JWT
  library, whose laws are \<open>jwt_lawful\<close>; the OIDC provider; the random bytes; the decoders of JSON,
  YAML and parameters and the JSON encoder (\<open>server\<close>); the SMTP server (\<open>network\<close>).

  \<^bold>\<open>Not modelled.\<close> An answer of the database that is lost after the statement or the commit it answers
  was carried out: a connection error of the model means that it was not. (The claim on errors that
  roll back leaves out the error of a commit for this reason; a lost answer to the commit of a
  dispatcher would leave its rows marked, and mail nothing again.) Two requests, or a request and a tick, that overlap in time: each runs to its end
  before the next, though every transaction sees only committed data. Only the dispatcher of reminders
  is taken apart into steps (\<open>Replicas\<close>), because its query is written for that. Logging, metrics output and
  panic recovery, which do not affect a reply. Matching of paths and HTTP itself, which belong to
  the router library and \<^verbatim>\<open>net/http\<close>. In \<^verbatim>\<open>api.gen.go\<close>: the middleware of strict
  handlers, of which the program passes none, and the decoding of JSON field by field. The body of
  the reply is the value that is encoded, not its bytes. Of the template engines, what the four
  templates do not use; the function \<^verbatim>\<open>title\<close>, which none calls, is left out. The SQL of the migrations is modelled by the constraints it
  leaves, not as a history of changes. The web client (TypeScript), the deployment and the build
  information (\<^verbatim>\<open>version\<close>) are no part of the server's logic.
\<close>

end
